(* ===== verification/Prelude.thy ===== *)
theory Prelude
  imports Main "HOL-Library.Word" "HOL-Library.Monad_Syntax"
begin

text \<open>
  The vocabulary every component theory shares: Rust's fixed-width integers as words,
  the arithmetic operators of the language (checked, saturating, and the plain operators
  whose behaviour on overflow depends on the build profile), little-endian byte
  encodings, slices of byte buffers, and the lemma collections the component proofs use.

  A Rust expression that may panic is modelled by a value of type \<open>'a option\<close>, with
  \<open>None\<close> for the panic; a \<open>Result\<close> is a sum with the error on the left. The flag
  \<open>oc\<close> that many definitions take is the profile's \<open>overflow-checks\<close> setting: it is
  on in a debug build, where a plain \<open>+\<close> that overflows panics, and off in a release
  build, where it wraps around.
\<close>

unbundle bit_operations_syntax

section \<open>Types\<close>

type_synonym u8 = "8 word"
type_synonym u16 = "16 word"
type_synonym u32 = "32 word"
type_synonym u64 = "64 word"
type_synonym i32 = "32 word"
type_synonym bytes = "u8 list"

abbreviation u64_max :: u64 where
  "u64_max \<equiv> 0xFFFFFFFFFFFFFFFF"

text \<open>
  The collections of the development: \<open>keeps\<close> holds the facts that an operation leaves a
  field or a length as it was, \<open>wf_intros\<close> the facts that an operation keeps a
  component's invariant.
\<close>

named_theorems keeps \<open>frame facts: what an operation leaves unchanged\<close>
named_theorems wf_intros \<open>preservation of component invariants\<close>

section \<open>Integer operators\<close>

definition checked_add :: "'a::len word \<Rightarrow> 'a word \<Rightarrow> 'a word option" where
  "checked_add a b = (if unat a + unat b < 2 ^ LENGTH('a) then Some (a + b) else None)"

definition checked_mul :: "'a::len word \<Rightarrow> 'a word \<Rightarrow> 'a word option" where
  "checked_mul a b = (if unat a * unat b < 2 ^ LENGTH('a) then Some (a * b) else None)"

definition saturating_add :: "'a::len word \<Rightarrow> 'a word \<Rightarrow> 'a word" where
  "saturating_add a b = (if unat a + unat b < 2 ^ LENGTH('a) then a + b else - 1)"

text \<open>The plain operator \<open>+\<close>: it panics on overflow when the profile checks it.\<close>

definition rs_add :: "bool \<Rightarrow> 'a::len word \<Rightarrow> 'a word \<Rightarrow> 'a word option" where
  "rs_add oc a b = (if oc then checked_add a b else Some (a + b))"

text \<open>The plain operator \<open>-\<close>.\<close>

definition rs_sub :: "bool \<Rightarrow> 'a::len word \<Rightarrow> 'a word \<Rightarrow> 'a word option" where
  "rs_sub oc a b = (if oc \<and> a < b then None else Some (a - b))"

text \<open>The plain operator \<open>*\<close>, and \<open>usize::div_ceil\<close>.\<close>

definition rs_mul :: "bool \<Rightarrow> 'a::len word \<Rightarrow> 'a word \<Rightarrow> 'a word option" where
  "rs_mul oc a b = (if oc then checked_mul a b else Some (a * b))"

definition div_ceil :: "'a::len word \<Rightarrow> 'a word \<Rightarrow> 'a word" where
  "div_ceil a b = (if a mod b = 0 then a div b else a div b + 1)"

text \<open>\<open>xs.get(i)\<close>, and \<open>xs[i]\<close> with \<open>None\<close> for the panic.\<close>

definition nth_opt :: "'a list \<Rightarrow> nat \<Rightarrow> 'a option" where
  "nth_opt xs i = (if i < length xs then Some (xs ! i) else None)"

text \<open>
  The indices \<open>offset as usize + i\<close> for \<open>i\<close> in \<open>0..n\<close>, as the loops over an access's
  bytes form them.
\<close>

definition index_seq :: "bool \<Rightarrow> u64 \<Rightarrow> nat \<Rightarrow> u64 list option" where
  "index_seq oc off n =
     (if oc \<and> n \<noteq> 0 \<and> 2 ^ 64 \<le> unat off + (n - 1) then None
      else Some (map (\<lambda>i. off + of_nat i) [0..<n]))"

section \<open>Byte encodings\<close>

definition to_le :: "nat \<Rightarrow> 'a::len word \<Rightarrow> bytes" where
  "to_le n w = map (\<lambda>i. ucast (drop_bit (8 * i) w)) [0..<n]"

fun from_le :: "bytes \<Rightarrow> 'a::len word" where
  "from_le [] = 0"
| "from_le (b # bs) = ucast b OR push_bit 8 (from_le bs)"

abbreviation u16_to_le :: "u16 \<Rightarrow> bytes" where "u16_to_le \<equiv> to_le 2"
abbreviation u32_to_le :: "u32 \<Rightarrow> bytes" where "u32_to_le \<equiv> to_le 4"
abbreviation u64_to_le :: "u64 \<Rightarrow> bytes" where "u64_to_le \<equiv> to_le 8"

text \<open>The sub-slice \<open>xs[a..b]\<close>, and \<open>xs[a..].copy_from_slice(ys)\<close>.\<close>

definition subslice :: "nat \<Rightarrow> nat \<Rightarrow> 'a list \<Rightarrow> 'a list" where
  "subslice a b xs = take (b - a) (drop a xs)"

definition patch_at :: "nat \<Rightarrow> 'a list \<Rightarrow> 'a list \<Rightarrow> 'a list" where
  "patch_at a ys xs = take a xs @ ys @ drop (a + length ys) xs"

text \<open>\<open>data.fill(b)\<close>: every byte of the buffer becomes \<open>b\<close>.\<close>

definition fill :: "'a \<Rightarrow> 'b list \<Rightarrow> 'a list" where
  "fill b xs = replicate (length xs) b"

section \<open>Lemmas on the integer operators\<close>

lemma unat_bound: "unat (w :: 'a::len word) < 2 ^ LENGTH('a)"
  by (rule unsigned_less)

lemma checked_add_Some_iff:
  "checked_add a b = Some (c :: 'a::len word)
     \<longleftrightarrow> unat a + unat b < 2 ^ LENGTH('a) \<and> c = a + b"
  by (auto simp: checked_add_def)

lemma checked_add_None_iff:
  "checked_add a (b :: 'a::len word) = None \<longleftrightarrow> 2 ^ LENGTH('a) \<le> unat a + unat b"
  by (auto simp: checked_add_def)

lemma unat_plus_no_overflow:
  "unat a + unat b < 2 ^ LENGTH('a) \<Longrightarrow> unat (a + b :: 'a::len word) = unat a + unat b"
  by (simp add: unat_word_ariths)

lemma checked_add_unat:
  "checked_add a b = Some (c :: 'a::len word) \<Longrightarrow> unat c = unat a + unat b"
  by (simp add: checked_add_Some_iff unat_plus_no_overflow)

lemma unat_saturating_add:
  "unat (saturating_add a b :: 'a::len word) = min (unat a + unat b) (2 ^ LENGTH('a) - 1)"
proof (cases "unat a + unat b < 2 ^ LENGTH('a)")
  case True
  then show ?thesis by (auto simp: saturating_add_def unat_plus_no_overflow)
next
  case False
  then show ?thesis by (simp add: saturating_add_def unsigned_minus_1_eq_mask mask_eq_exp_minus_1)
qed

lemma unat_two_power: "k < LENGTH('a) \<Longrightarrow> unat (2 ^ k :: 'a::len word) = 2 ^ k"
  using unat_of_nat[of "2 ^ k", where ?'a = 'a] by simp

lemma small_word_bit:
  assumes "w < 2 ^ k" and "bit (w :: 'a::len word) n"
  shows "n < k"
proof (rule ccontr)
  assume "\<not> n < k"
  moreover have "n < LENGTH('a)" by (rule bit_imp_le_length[OF assms(2)])
  ultimately have "unat w < 2 ^ k" and "(2 :: nat) ^ k \<le> 2 ^ n"
    using assms(1) by (simp_all add: word_less_nat_alt unat_two_power)
  then have "unat w < 2 ^ n" by (rule less_le_trans)
  then have "unat w div 2 ^ n = 0" by simp
  then have "\<not> bit (unat w) n" by (simp add: bit_iff_odd)
  then show False using assms(2) by (simp add: bit_unsigned_iff)
qed

lemma word_mod_less: "b \<noteq> 0 \<Longrightarrow> a mod b < (b :: 'a::len word)"
proof -
  assume "b \<noteq> 0"
  then have "unat b \<noteq> 0" unfolding unat_eq_zero .
  then show ?thesis by (simp add: word_less_nat_alt unat_mod)
qed

lemma word_unat_of_nat_le: "k \<le> unat (w :: 'a::len word) \<Longrightarrow> of_nat k = w \<Longrightarrow> k = unat w"
proof -
  assume "k \<le> unat w" and w: "of_nat k = w"
  then have "k < 2 ^ LENGTH('a)" using unat_bound[of w] by linarith
  then show ?thesis using w by (auto simp: unat_of_nat)
qed

lemma word_minus_one_dec: "a \<noteq> b \<Longrightarrow> unat (a - (b + 1) :: 'a::len word) < unat (a - b)"
proof -
  assume "a \<noteq> b"
  then have nz: "a - b \<noteq> 0" by simp
  then have "unat (a - b) \<noteq> 0" unfolding unat_eq_zero .
  moreover have "unat (a - (b + 1)) = unat (a - b) - 1"
    using unat_minus_one[OF nz] by (simp add: diff_diff_eq)
  ultimately show ?thesis by linarith
qed

lemma rs_add_release [simp]: "rs_add False a b = Some (a + b)"
  by (simp add: rs_add_def)

lemma rs_add_Some: "rs_add oc a b = Some c \<Longrightarrow> c = a + b"
  by (auto simp: rs_add_def checked_add_Some_iff split: if_splits)

lemma rs_add_no_overflow:
  "unat a + unat b < 2 ^ LENGTH('a) \<Longrightarrow> rs_add oc a (b :: 'a::len word) = Some (a + b)"
  by (simp add: rs_add_def checked_add_def)

lemma rs_sub_Some: "rs_sub oc a b = Some c \<Longrightarrow> c = a - b"
  by (auto simp: rs_sub_def split: if_splits)

lemma index_seq_in_range:
  assumes "unat off + n < 2 ^ 64"
  shows "index_seq oc off n = Some (map (\<lambda>i. off + of_nat i) [0..<n])"
    and "i < n \<Longrightarrow> unat (off + of_nat i) = unat off + i"
proof -
  show "index_seq oc off n = Some (map (\<lambda>i. off + of_nat i) [0..<n])"
    using assms by (auto simp: index_seq_def)
  assume i: "i < n"
  then have "unat (of_nat i :: u64) = i" using assms by (simp add: unat_of_nat)
  then show "unat (off + of_nat i) = unat off + i"
    using assms i by (simp add: unat_plus_no_overflow)
qed

lemma index_seq_length: "index_seq oc off n = Some ix \<Longrightarrow> length ix = n"
  by (auto simp: index_seq_def split: if_splits)

lemma ceil_div_nat:
  assumes "0 < (b::nat)"
  shows "(n + (b - 1)) div b = n div b + (if n mod b = 0 then 0 else 1)"
proof -
  have "n + (b - 1) = (n mod b + (b - 1)) + b * (n div b)"
    using mult_div_mod_eq[of b n] by linarith
  then have "(n + (b - 1)) div b = n div b + (n mod b + (b - 1)) div b"
    using assms by (metis add.commute div_mult_self2 less_numeral_extra(3))
  moreover have "(n mod b + (b - 1)) div b = (if n mod b = 0 then 0 else 1)"
  proof (cases "n mod b = 0")
    case False
    moreover have "n mod b < b" using assms by simp
    ultimately have "b * 1 \<le> n mod b + (b - 1)" "n mod b + (b - 1) < b * Suc 1" by auto
    then have "(n mod b + (b - 1)) div b = 1" by (rule div_nat_eqI)
    then show ?thesis using False by simp
  qed (use assms in simp)
  ultimately show ?thesis by simp
qed

lemma unat_div_ceil:
  assumes "1 < unat b"
  shows "unat (div_ceil a b :: 'a::len word) = (unat a + (unat b - 1)) div unat b"
proof -
  have "unat a div unat b + 1 < 2 ^ LENGTH('a)"
  proof (cases "unat a = 0")
    case True
    moreover have "1 < (2 :: nat) ^ LENGTH('a)" by (rule less_trans[OF assms unat_bound])
    ultimately show ?thesis by simp
  next
    case False
    then have "unat a div unat b < unat a" using assms by simp
    then show ?thesis using unat_bound[of a] by linarith
  qed
  then have "unat (a div b + 1) = unat a div unat b + 1"
    by (simp add: unat_plus_no_overflow unat_div)
  moreover have "a mod b = 0 \<longleftrightarrow> unat a mod unat b = 0"
    by (metis unat_mod unat_0 unat_eq_0)
  moreover have "(unat a + (unat b - 1)) div unat b
      = unat a div unat b + (if unat a mod unat b = 0 then 0 else 1)"
    using assms by (intro ceil_div_nat) simp
  ultimately show ?thesis
    by (simp only: div_ceil_def if_distrib[of unat] unat_div) simp
qed

section \<open>Lemmas on byte encodings\<close>

lemma length_to_le [simp]: "length (to_le n w) = n"
  by (simp add: to_le_def)

lemma nth_to_le: "i < n \<Longrightarrow> to_le n w ! i = ucast (drop_bit (8 * i) w)"
  by (simp add: to_le_def)

lemma to_le_Suc: "to_le (Suc n) w = ucast w # to_le n (drop_bit 8 w)"
  by (rule nth_equalityI) (auto simp: nth_to_le nth_Cons ac_simps split: nat.split)

lemma bit_from_le:
  "bit (from_le bs :: 'a::len word) n \<longleftrightarrow>
     n < LENGTH('a) \<and> n div 8 < length bs \<and> bit (bs ! (n div 8)) (n mod 8)"
proof (induction bs arbitrary: n)
  case Nil
  then show ?case by simp
next
  case (Cons b bs)
  show ?case
  proof (cases "n < 8")
    case True
    then show ?thesis by (auto simp: bit_or_iff bit_push_bit_iff bit_ucast_iff)
  next
    case False
    then have "n div 8 = Suc ((n - 8) div 8)" and "(n - 8) mod 8 = n mod 8"
      by (simp_all add: le_div_geq le_mod_geq)
    moreover have "\<not> bit b n"
      using False by (auto dest: bit_imp_le_length)
    ultimately show ?thesis
      using False by (auto simp: bit_or_iff bit_push_bit_iff bit_ucast_iff Cons.IH)
  qed
qed

theorem from_le_to_le:
  assumes "LENGTH('a) \<le> 8 * n"
  shows "from_le (to_le n w) = (w :: 'a::len word)"
proof (rule bit_word_eqI)
  fix i assume i: "i < LENGTH('a)"
  then have "i div 8 < n" using assms by auto
  moreover have "8 * (i div 8) + i mod 8 = i" by simp
  ultimately show "bit (from_le (to_le n w) :: 'a word) i \<longleftrightarrow> bit w i"
    using i by (simp add: bit_from_le nth_to_le bit_ucast_iff bit_drop_bit_eq)
qed

theorem to_le_from_le:
  assumes "length bs = n" and "8 * n \<le> LENGTH('a)"
  shows "to_le n (from_le bs :: 'a::len word) = bs"
proof (rule nth_equalityI)
  show "length (to_le n (from_le bs :: 'a word)) = length bs" using assms by simp
next
  fix i assume "i < length (to_le n (from_le bs :: 'a word))"
  then have i: "i < n" by simp
  show "to_le n (from_le bs :: 'a word) ! i = bs ! i"
  proof (rule bit_word_eqI)
    fix j assume j: "j < LENGTH(8)"
    then have "(8 * i + j) div 8 = i" and "(8 * i + j) mod 8 = j" by auto
    moreover have "8 * i + j < LENGTH('a)" using i j assms(2) by simp
    ultimately show "bit (to_le n (from_le bs :: 'a word) ! i) j \<longleftrightarrow> bit (bs ! i) j"
      using i j assms(1)
      by (simp add: nth_to_le bit_ucast_iff bit_drop_bit_eq bit_from_le)
  qed
qed

lemma from_le_u16 [simp]: "from_le (to_le 2 w) = (w :: u16)"
  by (rule from_le_to_le) simp

lemma from_le_u32 [simp]: "from_le (to_le 4 w) = (w :: u32)"
  by (rule from_le_to_le) simp

lemma from_le_u64 [simp]: "from_le (to_le 8 w) = (w :: u64)"
  by (rule from_le_to_le) simp

text \<open>Widening a value and narrowing it back loses nothing.\<close>

lemma ucast_down_up:
  assumes "LENGTH('a) \<le> LENGTH('b)"
  shows "ucast (ucast w :: 'b::len word) = (w :: 'a::len word)"
  using assms by (intro bit_word_eqI) (simp add: bit_simps)

lemma ucast_down_up_simps [simp]:
  "ucast (ucast (a :: u8) :: u64) = a" "ucast (ucast (b :: u16) :: u64) = b"
  "ucast (ucast (c :: u32) :: u64) = c" "ucast (ucast (a :: u8) :: u32) = a"
  "ucast (ucast (b :: u16) :: u32) = b" "ucast (ucast (a :: u8) :: u16) = a"
  by (simp_all add: ucast_down_up)

section \<open>Lemmas on buffers\<close>

lemma length_subslice [simp]: "length (subslice a b xs) = min (b - a) (length xs - a)"
  by (simp add: subslice_def min.commute)

lemma nth_subslice: "i < b - a \<Longrightarrow> b \<le> length xs \<Longrightarrow> subslice a b xs ! i = xs ! (a + i)"
  by (simp add: subslice_def)

lemma length_patch_at [simp]:
  "a + length ys \<le> length xs \<Longrightarrow> length (patch_at a ys xs) = length xs"
  by (simp add: patch_at_def)

lemma nth_patch_at:
  "a + length ys \<le> length xs \<Longrightarrow> i < length xs \<Longrightarrow>
   patch_at a ys xs ! i = (if a \<le> i \<and> i < a + length ys then ys ! (i - a) else xs ! i)"
  by (auto simp: patch_at_def nth_append)

lemma patch_at_append:
  "a + length xs \<le> length zs \<Longrightarrow>
   patch_at (a + length xs) ys (patch_at a xs zs) = patch_at a (xs @ ys) zs"
  by (simp add: patch_at_def ac_simps)

lemma length_fill [simp]: "length (fill b xs) = length xs"
  by (simp add: fill_def)

lemma fill_Nil [simp]: "fill b [] = []"
  by (simp add: fill_def)

lemma replicate_two: "replicate 2 x = [x, x]"
  by (simp add: numeral_2_eq_2)

lemma fill_eq_Nil [simp]: "fill b xs = [] \<longleftrightarrow> xs = []"
  by (simp add: fill_def)

lemma fill_length_eq: "length xs = length ys \<Longrightarrow> fill b xs = fill b ys"
  by (simp add: fill_def)

end
