(* ===== verification/Bus.thy ===== *)
theory Bus
  imports Prelude
begin

text \<open>
  The I/O bus (\<open>src/bus.rs\<close>), used for the port and the MMIO address space: half-open
  address ranges mapped to devices, with reads and writes dispatched to the device whose
  range holds the whole access.

  The map is a \<open>BTreeMap\<close> keyed by ranges whose \<open>Ord\<close> calls overlapping ranges equal.
  It is modelled by its entries in key order, searched and extended with the comparison
  function as the tree's nodes are. A device is a handle \<open>'d\<close> into a store \<open>'s\<close>
  (the model of \<open>Arc<Mutex<dyn BusDevice>>\<close>); the dispatched methods are parameters of
  the bus operations, and the locale \<open>bus_device\<close> states what every implementation
  promises. A panic inside a device ends the run: the model has no state after it.
\<close>

section \<open>Data\<close>

datatype bus_error = ZeroLength u64 | Overflow u64 u64 | Overlap u64 u64

record bus_range =
  br_base :: u64
  br_len :: u64

datatype ordering = Less | Equal | Greater

type_synonym 'd bus = "(bus_range \<times> 'd) list"

section \<open>Ranges\<close>

definition range_new :: "u64 \<Rightarrow> u64 \<Rightarrow> bus_error + bus_range" where
  "range_new base len =
     (if len = 0 then Inl (ZeroLength base)
      else case checked_add base len of
          None \<Rightarrow> Inl (Overflow base u64_max)
        | Some _ \<Rightarrow> Inr \<lparr>br_base = base, br_len = len\<rparr>)"

definition range_point :: "u64 \<Rightarrow> bus_range" where
  "range_point addr = \<lparr>br_base = addr, br_len = 1\<rparr>"

definition range_end :: "bus_range \<Rightarrow> u64" where
  "range_end r = saturating_add (br_base r) (br_len r)"

definition contains_range :: "bus_range \<Rightarrow> u64 \<Rightarrow> u64 \<Rightarrow> bool" where
  "contains_range r addr len =
     (case checked_add addr len of
        None \<Rightarrow> False
      | Some req_end \<Rightarrow> br_base r \<le> addr \<and> req_end \<le> range_end r)"

definition overlaps :: "bus_range \<Rightarrow> bus_range \<Rightarrow> bool" where
  "overlaps a b \<longleftrightarrow> br_base a < range_end b \<and> br_base b < range_end a"

definition range_cmp :: "bus_range \<Rightarrow> bus_range \<Rightarrow> ordering" where
  "range_cmp a b =
     (if overlaps a b then Equal
      else if range_end a \<le> br_base b then Less
      else Greater)"

section \<open>The ordered map\<close>

fun get_key_value :: "('k \<Rightarrow> 'k \<Rightarrow> ordering) \<Rightarrow> 'k \<Rightarrow> ('k \<times> 'v) list \<Rightarrow> ('k \<times> 'v) option" where
  "get_key_value cmp k [] = None"
| "get_key_value cmp k ((k', v) # es) =
     (case cmp k k' of
        Greater \<Rightarrow> get_key_value cmp k es
      | Equal \<Rightarrow> Some (k', v)
      | Less \<Rightarrow> None)"

fun insert_entry :: "('k \<Rightarrow> 'k \<Rightarrow> ordering) \<Rightarrow> 'k \<Rightarrow> 'v \<Rightarrow> ('k \<times> 'v) list \<Rightarrow> ('k \<times> 'v) list" where
  "insert_entry cmp k v [] = [(k, v)]"
| "insert_entry cmp k v ((k', v') # es) =
     (case cmp k k' of
        Greater \<Rightarrow> (k', v') # insert_entry cmp k v es
      | Equal \<Rightarrow> (k', v) # es
      | Less \<Rightarrow> (k, v) # (k', v') # es)"

section \<open>Operations\<close>

definition bus_new :: "'d bus" where
  "bus_new = []"

definition register :: "'d bus \<Rightarrow> u64 \<Rightarrow> u64 \<Rightarrow> 'd \<Rightarrow> bus_error + 'd bus" where
  "register bus base len device =
     (case range_new base len of
        Inl e \<Rightarrow> Inl e
      | Inr rng \<Rightarrow>
          if get_key_value range_cmp rng bus \<noteq> None then Inl (Overlap base len)
          else Inr (insert_entry range_cmp rng device bus))"

definition lookup :: "'d bus \<Rightarrow> u64 \<Rightarrow> (bus_range \<times> 'd) option" where
  "lookup bus addr = get_key_value range_cmp (range_point addr) bus"

text \<open>The result is the device store, the buffer and whether a device claimed the access.\<close>

definition bus_read ::
  "('d \<Rightarrow> 's \<Rightarrow> u64 \<Rightarrow> bytes \<Rightarrow> ('s \<times> bytes) option) \<Rightarrow>
   'd bus \<Rightarrow> 's \<Rightarrow> u64 \<Rightarrow> bytes \<Rightarrow> ('s \<times> bytes \<times> bool) option" where
  "bus_read dev_read bus s addr data =
     (if data = [] then Some (s, data, True)
      else case lookup bus addr of
          None \<Rightarrow> Some (s, fill 0xff data, False)
        | Some (rng, dev) \<Rightarrow>
            if \<not> contains_range rng addr (of_nat (length data))
            then Some (s, fill 0xff data, False)
            else do {
              (s', data') \<leftarrow> dev_read dev s (addr - br_base rng) data;
              Some (s', data', True)
            })"

definition bus_write ::
  "('d \<Rightarrow> 's \<Rightarrow> u64 \<Rightarrow> bytes \<Rightarrow> 's option) \<Rightarrow>
   'd bus \<Rightarrow> 's \<Rightarrow> u64 \<Rightarrow> bytes \<Rightarrow> ('s \<times> bool) option" where
  "bus_write dev_write bus s addr data =
     (if data = [] then Some (s, True)
      else case lookup bus addr of
          None \<Rightarrow> Some (s, False)
        | Some (rng, dev) \<Rightarrow>
            if \<not> contains_range rng addr (of_nat (length data)) then Some (s, False)
            else do {
              s' \<leftarrow> dev_write dev s (addr - br_base rng) data;
              Some (s', True)
            })"

section \<open>Invariant and abstract view\<close>

text \<open>A range that \<open>range_new\<close> can return, and the addresses it covers.\<close>

definition range_ok :: "bus_range \<Rightarrow> bool" where
  "range_ok r \<longleftrightarrow> br_len r \<noteq> 0 \<and> unat (br_base r) + unat (br_len r) < 2 ^ 64"

definition covers :: "bus_range \<Rightarrow> u64 \<Rightarrow> bool" where
  "covers r a \<longleftrightarrow> br_base r \<le> a \<and> a < br_base r + br_len r"

definition bus_wf :: "'d bus \<Rightarrow> bool" where
  "bus_wf bus \<longleftrightarrow>
     (\<forall>(r, d) \<in> set bus. range_ok r) \<and>
     sorted_wrt (\<lambda>(r, _) (r', _). range_end r \<le> br_base r') bus"

text \<open>What the bus promises its users: a partial map from addresses to devices.\<close>

definition claims_of :: "'d bus \<Rightarrow> u64 \<rightharpoonup> (bus_range \<times> 'd)" where
  "claims_of bus a = List.find (\<lambda>(r, _). covers r a) bus"

text \<open>No device is mapped on more addresses than it decodes.\<close>

definition within_spans :: "('d \<Rightarrow> nat) \<Rightarrow> 'd bus \<Rightarrow> bool" where
  "within_spans dev_span bus \<longleftrightarrow> (\<forall>(r, d) \<in> set bus. unat (br_len r) \<le> dev_span d)"

text \<open>The access \<open>[addr, addr + n)\<close> lies inside the range.\<close>

definition holds_access :: "bus_range \<Rightarrow> u64 \<Rightarrow> nat \<Rightarrow> bool" where
  "holds_access r addr n \<longleftrightarrow>
     unat (br_base r) \<le> unat addr \<and> unat addr + n \<le> unat (br_base r) + unat (br_len r)"

section \<open>Lemmas on ranges\<close>

lemma range_new_Inr_iff:
  "range_new b l = Inr r \<longleftrightarrow> r = \<lparr>br_base = b, br_len = l\<rparr> \<and> range_ok r"
  by (auto simp: range_new_def range_ok_def checked_add_def split: option.splits)

lemma range_ok_pos: "range_ok r \<Longrightarrow> 0 < unat (br_len r)"
  by (simp add: range_ok_def unat_gt_0)

lemma unat_range_end_ok:
  "range_ok r \<Longrightarrow> unat (range_end r) = unat (br_base r) + unat (br_len r)"
  by (simp add: range_end_def unat_saturating_add range_ok_def)

lemma range_end_ok: "range_ok r \<Longrightarrow> range_end r = br_base r + br_len r"
  by (simp add: range_end_def saturating_add_def range_ok_def)

lemma unat_range_end_point:
  "unat (range_end (range_point a)) = min (unat a + 1) (2 ^ 64 - 1)"
  by (simp add: range_end_def unat_saturating_add range_point_def)

lemma covers_unat:
  "range_ok r \<Longrightarrow> covers r a \<longleftrightarrow>
     unat (br_base r) \<le> unat a \<and> unat a < unat (br_base r) + unat (br_len r)"
  by (simp add: covers_def range_end_ok [symmetric] word_le_nat_alt word_less_nat_alt
      unat_range_end_ok)

text \<open>A point key meets exactly the ranges that cover the address, \<open>u64::MAX\<close> included.\<close>

lemma overlaps_point: "range_ok r \<Longrightarrow> overlaps (range_point a) r \<longleftrightarrow> covers r a"
  using unat_bound[of a]
  by (auto simp: overlaps_def covers_unat word_less_nat_alt unat_range_end_ok
      unat_range_end_point range_ok_def) (auto simp: range_point_def)

lemma overlaps_iff_share:
  assumes "range_ok a" "range_ok b"
  shows "overlaps a b \<longleftrightarrow> (\<exists>x. covers a x \<and> covers b x)"
proof
  assume o: "overlaps a b"
  let ?x = "max (br_base a) (br_base b)"
  have "covers a ?x \<and> covers b ?x"
    using o assms
    by (auto simp: overlaps_def covers_unat max_def word_less_nat_alt word_le_nat_alt
        unat_range_end_ok dest: range_ok_pos)
  then show "\<exists>x. covers a x \<and> covers b x" by blast
next
  assume "\<exists>x. covers a x \<and> covers b x"
  then show "overlaps a b"
    using assms by (auto simp: covers_unat overlaps_def word_less_nat_alt unat_range_end_ok)
qed

lemma contains_range_iff:
  assumes "range_ok r" and "0 < n"
  shows "contains_range r a n \<longleftrightarrow>
     unat (br_base r) \<le> unat a \<and> unat a + unat n \<le> unat (br_base r) + unat (br_len r)"
  using assms
  by (auto simp: contains_range_def checked_add_def word_le_nat_alt unat_range_end_ok
      unat_plus_no_overflow range_ok_def)

lemma range_cmp_cases:
  "overlaps a b \<Longrightarrow> range_cmp a b = Equal"
  "\<not> overlaps a b \<Longrightarrow> range_end a \<le> br_base b \<Longrightarrow> range_cmp a b = Less"
  "\<not> overlaps a b \<Longrightarrow> \<not> range_end a \<le> br_base b \<Longrightarrow> range_cmp a b = Greater"
  by (simp_all add: range_cmp_def)

lemma range_cmp_Equal_iff: "range_cmp a b = Equal \<longleftrightarrow> overlaps a b"
  by (simp add: range_cmp_def)

section \<open>Lemmas on the ordered map\<close>

lemma bus_wf_Nil [simp]: "bus_wf []"
  by (simp add: bus_wf_def)

lemma bus_wf_Cons:
  "bus_wf ((r, d) # bus) \<longleftrightarrow>
     range_ok r \<and> bus_wf bus \<and> (\<forall>(r', d') \<in> set bus. range_end r \<le> br_base r')"
  by (auto simp: bus_wf_def)

lemma cmp_point:
  assumes "range_ok r"
  shows "range_cmp (range_point a) r =
     (if covers r a then Equal else if unat a < unat (br_base r) then Less else Greater)"
proof -
  have "range_end (range_point a) \<le> br_base r \<longleftrightarrow> unat a < unat (br_base r)"
    using assms unat_bound[of a] range_ok_pos[OF assms]
    by (auto simp: word_le_nat_alt unat_range_end_point range_ok_def min_def split: if_splits)
  then show ?thesis by (simp add: range_cmp_def overlaps_point[OF assms])
qed

lemma get_point:
  "bus_wf bus \<Longrightarrow> get_key_value range_cmp (range_point a) bus = claims_of bus a"
proof (induction bus)
  case Nil
  then show ?case by (simp add: claims_of_def)
next
  case (Cons e bus)
  obtain r d where e: "e = (r, d)" by (cases e)
  have ok: "range_ok r" and IH: "get_key_value range_cmp (range_point a) bus = claims_of bus a"
    using Cons e by (auto simp: bus_wf_Cons)
  have none: "claims_of bus a = None" if "unat a < unat (br_base r)"
  proof -
    have "\<not> covers r' a" if "(r', d') \<in> set bus" for r' d'
    proof -
      have "range_ok r'" "range_end r \<le> br_base r'"
        using Cons.prems e that by (auto simp: bus_wf_def)
      then show ?thesis
        using \<open>unat a < unat (br_base r)\<close> ok
        by (auto simp: covers_unat word_le_nat_alt unat_range_end_ok)
    qed
    then show ?thesis by (auto simp: claims_of_def find_None_iff)
  qed
  show ?case
    using IH none by (auto simp: e cmp_point[OF ok] claims_of_def)
qed

lemma claims_of_Some_iff:
  assumes "bus_wf bus"
  shows "claims_of bus a = Some (r, d) \<longleftrightarrow> (r, d) \<in> set bus \<and> covers r a"
  using assms
proof (induction bus)
  case Nil
  then show ?case by (simp add: claims_of_def)
next
  case (Cons e bus)
  obtain r0 d0 where e: "e = (r0, d0)" by (cases e)
  have ok: "range_ok r0" and IH: "claims_of bus a = Some (r, d) \<longleftrightarrow> (r, d) \<in> set bus \<and> covers r a"
    using Cons e by (auto simp: bus_wf_Cons)
  have "\<not> covers r a" if "covers r0 a" "(r, d) \<in> set bus"
  proof -
    have "range_ok r" "range_end r0 \<le> br_base r"
      using Cons.prems e that by (auto simp: bus_wf_def)
    then show ?thesis
      using that(1) ok by (auto simp: covers_unat word_le_nat_alt unat_range_end_ok)
  qed
  then show ?case using IH by (auto simp: e claims_of_def)
qed

lemma lookup_claims: "bus_wf bus \<Longrightarrow> lookup bus a = claims_of bus a"
  by (simp add: lookup_def get_point)

lemma bus_wf_later_disjoint:
  assumes "bus_wf ((r, d) # bus)" and "range_ok k" and "range_end k \<le> br_base r"
    and "(r', d') \<in> set ((r, d) # bus)"
  shows "range_end k \<le> br_base r'" and "\<not> overlaps k r'"
proof -
  have "br_base r \<le> br_base r'"
    using assms(1,4) by (fastforce simp: bus_wf_Cons word_le_nat_alt unat_range_end_ok)
  then show "range_end k \<le> br_base r'" using assms(3) by simp
  then show "\<not> overlaps k r'" by (auto simp: overlaps_def)
qed

lemma get_None_iff:
  "bus_wf bus \<Longrightarrow> range_ok k \<Longrightarrow>
   get_key_value range_cmp k bus = None \<longleftrightarrow> (\<forall>(r, d) \<in> set bus. \<not> overlaps k r)"
proof (induction bus)
  case Nil
  then show ?case by simp
next
  case (Cons e bus)
  obtain r d where e: "e = (r, d)" by (cases e)
  have IH: "get_key_value range_cmp k bus = None \<longleftrightarrow> (\<forall>(r, d) \<in> set bus. \<not> overlaps k r)"
    using Cons e by (simp add: bus_wf_Cons)
  consider "overlaps k r" | "\<not> overlaps k r" "range_end k \<le> br_base r"
    | "\<not> overlaps k r" "\<not> range_end k \<le> br_base r" by blast
  then show ?case
  proof cases
    case 2
    then have "\<forall>(r', d') \<in> set (e # bus). \<not> overlaps k r'"
      using bus_wf_later_disjoint(2)[of r d bus k] Cons.prems e by blast
    then show ?thesis using 2 by (simp add: e range_cmp_cases)
  qed (use IH in \<open>auto simp: e range_cmp_cases\<close>)
qed

lemma set_insert_entry:
  "\<forall>(r, d) \<in> set bus. \<not> overlaps k r \<Longrightarrow>
   set (insert_entry range_cmp k v bus) = insert (k, v) (set bus)"
  by (induction bus) (auto simp: range_cmp_Equal_iff split: ordering.splits)

lemma bus_wf_insert_entry:
  "bus_wf bus \<Longrightarrow> range_ok k \<Longrightarrow> \<forall>(r, d) \<in> set bus. \<not> overlaps k r \<Longrightarrow>
   bus_wf (insert_entry range_cmp k v bus)"
proof (induction bus)
  case Nil
  then show ?case by (simp add: bus_wf_Cons)
next
  case (Cons e bus)
  obtain r d where e: "e = (r, d)" by (cases e)
  have no: "\<not> overlaps k r" using Cons.prems e by simp
  show ?case
  proof (cases "range_end k \<le> br_base r")
    case True
    then have "\<forall>(r', d') \<in> set (e # bus). range_end k \<le> br_base r'"
      using bus_wf_later_disjoint(1)[of r d bus k] Cons.prems e by blast
    then show ?thesis using True no Cons.prems e by (simp add: range_cmp_cases bus_wf_Cons)
  next
    case False
    then have "range_end r \<le> br_base k" using no by (auto simp: overlaps_def)
    moreover have "bus_wf (insert_entry range_cmp k v bus)"
      using Cons e by (simp add: bus_wf_Cons)
    moreover have "set (insert_entry range_cmp k v bus) = insert (k, v) (set bus)"
      using Cons.prems by (intro set_insert_entry) auto
    ultimately show ?thesis
      using False no Cons.prems(1) e by (simp add: range_cmp_cases bus_wf_Cons)
  qed
qed

lemma register_Inr_iff:
  assumes "bus_wf bus"
  shows "register bus b l d = Inr bus' \<longleftrightarrow>
     range_ok \<lparr>br_base = b, br_len = l\<rparr> \<and>
     (\<forall>(r, d) \<in> set bus. \<not> overlaps \<lparr>br_base = b, br_len = l\<rparr> r) \<and>
     bus' = insert_entry range_cmp \<lparr>br_base = b, br_len = l\<rparr> d bus"
proof (cases "range_ok \<lparr>br_base = b, br_len = l\<rparr>")
  case True
  then have "range_new b l = Inr \<lparr>br_base = b, br_len = l\<rparr>" by (simp add: range_new_Inr_iff)
  then show ?thesis using get_None_iff[OF assms True] True by (auto simp: register_def)
next
  case False
  then have "isl (range_new b l)"
    using range_new_Inr_iff[of b l] by (cases "range_new b l") auto
  then show ?thesis using False by (auto simp: register_def split: sum.splits)
qed

lemma contains_range_holds:
  assumes "range_ok r" and "data \<noteq> []" and "length data < 2 ^ 64"
  shows "contains_range r addr (of_nat (length data)) \<longleftrightarrow> holds_access r addr (length data)"
proof -
  have "unat (of_nat (length data) :: u64) = length data"
    using assms(3) by (simp add: unat_of_nat take_bit_nat_eq_self)
  moreover from this have "(0 :: u64) < of_nat (length data)"
    using assms(2) by (simp add: unat_gt_0 [symmetric] word_greater_zero_iff)
  ultimately show ?thesis using assms(1) by (simp add: contains_range_iff holds_access_def)
qed

lemma holds_access_covers:
  "range_ok r \<Longrightarrow> holds_access r addr n \<Longrightarrow> 0 < n \<Longrightarrow> covers r addr"
  by (simp add: holds_access_def covers_unat)

lemma lookup_holds:
  "bus_wf bus \<Longrightarrow> (r, d) \<in> set bus \<Longrightarrow> holds_access r addr n \<Longrightarrow> 0 < n \<Longrightarrow>
   lookup bus addr = Some (r, d)"
  by (auto simp: lookup_claims claims_of_Some_iff bus_wf_def intro: holds_access_covers)

lemma bus_wf_range_ok: "bus_wf bus \<Longrightarrow> lookup bus a = Some (r, d) \<Longrightarrow> range_ok r \<and> (r, d) \<in> set bus"
  by (auto simp: lookup_claims claims_of_Some_iff) (auto simp: bus_wf_def)

lemma bus_read_Nil: "bus_read dev_read bus s addr [] = Some (s, [], True)"
  by (simp add: bus_read_def)

lemma bus_read_holds:
  assumes "bus_wf bus" and "data \<noteq> []" and "length data < 2 ^ 64"
    and "(r, d) \<in> set bus" and "holds_access r addr (length data)"
  shows "bus_read dev_read bus s addr data =
     map_option (\<lambda>(s', data'). (s', data', True)) (dev_read d s (addr - br_base r) data)"
proof -
  have ok: "range_ok r" using assms(1,4) by (auto simp: bus_wf_def)
  have "lookup bus addr = Some (r, d)" using assms by (intro lookup_holds) auto
  then show ?thesis
    using assms(2,5) contains_range_holds[OF ok assms(2,3)]
    by (cases "dev_read d s (addr - br_base r) data") (auto simp: bus_read_def)
qed

lemma bus_read_unclaimed:
  assumes "bus_wf bus" and "data \<noteq> []" and "length data < 2 ^ 64"
    and none: "\<not> (\<exists>r d. (r, d) \<in> set bus \<and> holds_access r addr (length data))"
  shows "bus_read dev_read bus s addr data = Some (s, fill 0xff data, False)"
proof (cases "lookup bus addr")
  case None
  then show ?thesis using assms(2) by (simp add: bus_read_def)
next
  case (Some p)
  obtain r d where p: "p = (r, d)" by (cases p)
  then have "range_ok r" "(r, d) \<in> set bus" using bus_wf_range_ok[OF assms(1)] Some by auto
  then have "\<not> contains_range r addr (of_nat (length data))"
    using none contains_range_holds[OF _ assms(2,3)] by blast
  then show ?thesis using assms(2) Some p by (simp add: bus_read_def)
qed

lemma access_in_span:
  assumes "within_spans dev_span bus" "(r, d) \<in> set bus" "holds_access r addr n"
  shows "unat (addr - br_base r) + n \<le> dev_span d"
  using assms by (auto simp: within_spans_def holds_access_def unat_sub word_le_nat_alt)

section \<open>What a device on the bus promises\<close>

text \<open>
  A device serves every read inside the \<open>dev_span\<close> addresses it decodes, fills the
  buffer without changing its length, and keeps its invariant on reads and writes.
\<close>

locale bus_device =
  fixes dev_read :: "'d \<Rightarrow> 's \<Rightarrow> u64 \<Rightarrow> bytes \<Rightarrow> ('s \<times> bytes) option"
    and dev_write :: "'d \<Rightarrow> 's \<Rightarrow> u64 \<Rightarrow> bytes \<Rightarrow> 's option"
    and dev_inv :: "'s \<Rightarrow> bool"
    and dev_span :: "'d \<Rightarrow> nat"
  assumes dev_read_returns: "dev_inv s \<Longrightarrow> unat off + length data \<le> dev_span d \<Longrightarrow>
      \<exists>s' data'. dev_read d s off data = Some (s', data')"
    and dev_read_length: "dev_inv s \<Longrightarrow> dev_read d s off data = Some (s', data') \<Longrightarrow>
      length data' = length data"
    and dev_read_inv: "dev_inv s \<Longrightarrow> dev_read d s off data = Some (s', data') \<Longrightarrow> dev_inv s'"
    and dev_write_inv: "dev_inv s \<Longrightarrow> unat off + length data \<le> dev_span d \<Longrightarrow>
      dev_write d s off data = Some s' \<Longrightarrow> dev_inv s'"
begin

lemma bus_read_returns:
  assumes "bus_wf bus" "within_spans dev_span bus" "length data < 2 ^ 64" "dev_inv s"
  shows "\<exists>s' data' c. bus_read dev_read bus s addr data = Some (s', data', c)"
proof (cases "\<exists>r d. (r, d) \<in> set bus \<and> holds_access r addr (length data)")
  case True
  then obtain r d where rd: "(r, d) \<in> set bus" "holds_access r addr (length data)" by blast
  have ok: "range_ok r" using rd(1) assms(1) by (auto simp: bus_wf_def)
  have "unat (addr - br_base r) + length data \<le> dev_span d" using access_in_span[OF assms(2) rd] .
  then obtain s' data' where "dev_read d s (addr - br_base r) data = Some (s', data')"
    using dev_read_returns[OF assms(4)] by blast
  then show ?thesis
    using bus_read_holds[OF assms(1) _ assms(3) rd, of dev_read s]
    by (cases "data = []") (auto simp: bus_read_Nil)
next
  case False
  then show ?thesis
    using bus_read_unclaimed[OF assms(1) _ assms(3) False, of dev_read s]
    by (cases "data = []") (auto simp: bus_read_Nil)
qed

lemma bus_read_length:
  "dev_inv s \<Longrightarrow> bus_read dev_read bus s addr data = Some (s', data', c) \<Longrightarrow>
   length data' = length data"
  by (auto simp: bus_read_def bind_eq_Some_conv dest: dev_read_length
      split: if_splits option.splits)

lemma bus_read_inv:
  "dev_inv s \<Longrightarrow> bus_read dev_read bus s addr data = Some (s', data', c) \<Longrightarrow> dev_inv s'"
  by (auto simp: bus_read_def bind_eq_Some_conv dest: dev_read_inv
      split: if_splits option.splits)

lemma bus_write_inv:
  assumes "bus_wf bus" "within_spans dev_span bus" "length data < 2 ^ 64" "dev_inv s"
    and w: "bus_write dev_write bus s addr data = Some (s', c)"
  shows "dev_inv s'"
proof (cases "s' = s")
  case False
  then obtain r d where "lookup bus addr = Some (r, d)" "data \<noteq> []"
    "contains_range r addr (of_nat (length data))" and dw: "dev_write d s (addr - br_base r) data = Some s'"
    using w by (auto simp: bus_write_def bind_eq_Some_conv split: if_splits option.splits)
  then have rd: "(r, d) \<in> set bus" "range_ok r" "holds_access r addr (length data)"
    using bus_wf_range_ok[OF assms(1)] contains_range_holds[OF _ _ assms(3)] by auto
  have "unat (addr - br_base r) + length data \<le> dev_span d" using access_in_span[OF assms(2) rd(1,3)] .
  then show ?thesis by (rule dev_write_inv[OF assms(4) _ dw])
qed (use assms in simp)

end

section \<open>Properties\<close>

text \<open>
  C8. Registering a device on a well-formed bus keeps it well formed (ranges valid,
  ordered and disjoint) and extends the abstract address map with exactly the new range:
  every address of the range goes to the new device, every other address is as before.
\<close>

theorem register_refines:
  assumes "bus_wf bus" and "register bus base len dev = Inr bus'"
  shows "bus_wf bus' \<and>
     (\<forall>a. lookup bus' a =
        (if covers \<lparr>br_base = base, br_len = len\<rparr> a
         then Some (\<lparr>br_base = base, br_len = len\<rparr>, dev) else lookup bus a))"
proof -
  let ?r = "\<lparr>br_base = base, br_len = len\<rparr>"
  have ok: "range_ok ?r" and no: "\<forall>(r, d) \<in> set bus. \<not> overlaps ?r r"
    and bus': "bus' = insert_entry range_cmp ?r dev bus"
    using assms by (auto simp: register_Inr_iff)
  have wf': "bus_wf bus'" unfolding bus' by (rule bus_wf_insert_entry[OF assms(1) ok no])
  have set': "set bus' = insert (?r, dev) (set bus)"
    unfolding bus' by (rule set_insert_entry[OF no])
  have "lookup bus' a = (if covers ?r a then Some (?r, dev) else lookup bus a)" for a
  proof (cases "covers ?r a")
    case True
    then show ?thesis using wf' set' by (simp add: lookup_claims claims_of_Some_iff)
  next
    case False
    then have "claims_of bus' a = Some (r, d) \<longleftrightarrow> claims_of bus a = Some (r, d)" for r d
      using wf' set' assms(1) by (auto simp: claims_of_Some_iff)
    then have "claims_of bus' a = claims_of bus a" by (metis option.exhaust surj_pair)
    then show ?thesis using False wf' assms(1) by (simp add: lookup_claims)
  qed
  then show ?thesis using wf' by blast
qed

text \<open>COM1 registered on a bus that holds the PCI configuration ports.\<close>

theorem register_refines_witness:
  "bus_wf [(\<lparr>br_base = 0xcf8, br_len = 8\<rparr>, ''pci'')] \<and>
   register [(\<lparr>br_base = 0xcf8, br_len = 8\<rparr>, ''pci'')] 0x3f8 8 ''com1''
     = Inr [(\<lparr>br_base = 0x3f8, br_len = 8\<rparr>, ''com1''), (\<lparr>br_base = 0xcf8, br_len = 8\<rparr>, ''pci'')] \<and>
   lookup [(\<lparr>br_base = 0x3f8, br_len = 8\<rparr>, ''com1''), (\<lparr>br_base = 0xcf8, br_len = 8\<rparr>, ''pci'')] 0x3fd
     = Some (\<lparr>br_base = 0x3f8, br_len = 8\<rparr>, ''com1'')"
proof -
  let ?b = "[(\<lparr>br_base = 0xcf8, br_len = 8\<rparr>, ''pci'')] :: string bus"
  let ?b' = "[(\<lparr>br_base = 0x3f8, br_len = 8\<rparr>, ''com1''), (\<lparr>br_base = 0xcf8, br_len = 8\<rparr>, ''pci'')]"
  have wf: "bus_wf ?b" by (simp add: bus_wf_Cons range_ok_def)
  have reg: "register ?b 0x3f8 8 ''com1'' = Inr ?b'"
    by (simp add: register_def range_new_def checked_add_def range_cmp_def overlaps_def
        range_end_def saturating_add_def)
  show ?thesis using register_refines[OF wf reg] wf reg by (simp add: covers_def)
qed

text \<open>
  Registration is refused in exactly three cases, each with its error: a zero length;
  a range whose end is not representable; a range that shares an address with a
  registered one.
\<close>

theorem register_errors:
  assumes "bus_wf bus"
  shows "register bus base len dev = Inl e \<longleftrightarrow>
     (len = 0 \<and> e = ZeroLength base) \<or>
     (len \<noteq> 0 \<and> 2 ^ 64 \<le> unat base + unat len \<and> e = Overflow base u64_max) \<or>
     (len \<noteq> 0 \<and> unat base + unat len < 2 ^ 64 \<and> e = Overlap base len \<and>
        (\<exists>r d x. (r, d) \<in> set bus \<and> covers r x \<and> covers \<lparr>br_base = base, br_len = len\<rparr> x))"
proof (cases "range_ok \<lparr>br_base = base, br_len = len\<rparr>")
  case True
  let ?r = "\<lparr>br_base = base, br_len = len\<rparr>"
  have "(\<exists>(r, d) \<in> set bus. overlaps ?r r) \<longleftrightarrow>
      (\<exists>r d x. (r, d) \<in> set bus \<and> covers r x \<and> covers ?r x)"
  proof -
    have "overlaps ?r r \<longleftrightarrow> (\<exists>x. covers ?r x \<and> covers r x)" if "(r, d) \<in> set bus" for r d
      using that assms True by (intro overlaps_iff_share) (auto simp: bus_wf_def)
    then show ?thesis by blast
  qed
  moreover have "range_new base len = Inr ?r" using True by (simp add: range_new_Inr_iff)
  moreover have "len \<noteq> 0" "unat base + unat len < 2 ^ 64" using True by (simp_all add: range_ok_def)
  ultimately show ?thesis
    using get_None_iff[OF assms True] by (auto simp: register_def)
next
  case False
  then show ?thesis
    by (auto simp: register_def range_new_def range_ok_def checked_add_def)
qed

theorem register_errors_witness:
  "bus_wf [(\<lparr>br_base = 0x1000, br_len = 16\<rparr>, ())] \<and>
   register [(\<lparr>br_base = 0x1000, br_len = 16\<rparr>, ())] 0x1008 16 () = Inl (Overlap 0x1008 16)"
proof -
  let ?b = "[(\<lparr>br_base = 0x1000, br_len = 16\<rparr>, ())]"
  have wf: "bus_wf ?b" by (simp add: bus_wf_Cons range_ok_def)
  have "covers \<lparr>br_base = 0x1000, br_len = 16\<rparr> 0x1008"
    and "covers \<lparr>br_base = 0x1008, br_len = 16\<rparr> 0x1008"
    by (simp_all add: covers_def)
  then have "\<exists>r d x. (r, d) \<in> set ?b \<and> covers r x \<and> covers \<lparr>br_base = 0x1008, br_len = 16\<rparr> x"
    by auto
  then show ?thesis
    using register_errors[OF wf, of "0x1008" 16 "()" "Overlap 0x1008 16"] wf by simp
qed

text \<open>
  Dispatch of a non-empty access on a well-formed bus: when a registered range holds
  the whole access, exactly its device is called, with the offset relative to the range's
  base; otherwise a read leaves the device store alone, fills the buffer with
  \<open>0xff\<close> and reports the access unclaimed.
\<close>

theorem bus_read_dispatch:
  assumes "bus_wf bus" and "data \<noteq> []" and "length data < 2 ^ 64"
  shows "((r, d) \<in> set bus \<and> holds_access r addr (length data) \<longrightarrow>
       bus_read dev_read bus s addr data =
         map_option (\<lambda>(s', data'). (s', data', True)) (dev_read d s (addr - br_base r) data)) \<and>
     ((\<forall>(r, d) \<in> set bus. \<not> holds_access r addr (length data)) \<longrightarrow>
       bus_read dev_read bus s addr data = Some (s, fill 0xff data, False))"
  using bus_read_holds[OF assms, of r d addr dev_read s]
    bus_read_unclaimed[OF assms, of addr dev_read s] by blast

text \<open>A read that runs past the end of the device, and one inside it.\<close>

theorem bus_read_dispatch_witness:
  "bus_read (\<lambda>_ s off data. Some (s + 1, fill (ucast off) data))
     [(\<lparr>br_base = 0x1000, br_len = 16\<rparr>, ())] (7 :: nat) 0x1002 [0, 0]
     = Some (8, [2, 2], True) \<and>
   bus_read (\<lambda>_ s off data. Some (s + 1, fill (ucast off) data))
     [(\<lparr>br_base = 0x1000, br_len = 16\<rparr>, ())] (7 :: nat) 0x100f [0, 0]
     = Some (7, [0xff, 0xff], False)"
proof -
  let ?b = "[(\<lparr>br_base = 0x1000, br_len = 16\<rparr>, ())]"
  let ?f = "\<lambda>(_ :: unit) (s :: nat) (off :: u64) (data :: bytes).
     Some (s + 1, fill (ucast off) data)"
  have wf: "bus_wf ?b" by (simp add: bus_wf_Cons range_ok_def)
  have a: "(\<lparr>br_base = 0x1000, br_len = 16\<rparr>, ()) \<in> set ?b \<and>
      holds_access \<lparr>br_base = 0x1000, br_len = 16\<rparr> 0x1002 (length [0, 0 :: u8])"
    by (simp add: holds_access_def)
  have b: "\<forall>(r, d) \<in> set ?b. \<not> holds_access r 0x100f (length [0, 0 :: u8])"
    by (simp add: holds_access_def)
  have "bus_read ?f ?b 7 0x1002 [0, 0]
      = map_option (\<lambda>(s', data'). (s', data', True)) (?f () 7 (0x1002 - 0x1000) [0, 0])"
    using bus_read_dispatch[OF wf, of "[0, 0]" "\<lparr>br_base = 0x1000, br_len = 16\<rparr>" "()" "0x1002" ?f 7] a
    by simp
  moreover have "bus_read ?f ?b 7 0x100f [0, 0] = Some (7, fill 0xff [0, 0 :: u8], False)"
    using bus_read_dispatch[OF wf, of "[0, 0]" _ _ "0x100f" ?f 7] b by simp
  ultimately show ?thesis by (simp add: fill_def)
qed

end
