(* ===== verification/Sinks.thy ===== *)
theory Sinks
  imports Prelude
begin

text \<open>
  Interrupt delivery. A device model sees only the traits \<open>IrqSink\<close> (a level-triggered
  line) and \<open>MsiSink\<close> (message-signalled interrupts) of \<open>src/serial.rs\<close>; the two
  backends turn each call into one \<open>ioctl\<close> on the VM's file descriptor
  (\<open>src/kvm/irq.rs\<close>, \<open>src/bhyve/irq.rs\<close>), whose result they ignore. The device models
  therefore record the calls they make on their sinks, in order and newest first, and
  \<open>host_calls\<close> gives the \<open>ioctl\<close>s such a call makes. A C \<open>int\<close> is a 32-bit word.
\<close>

section \<open>Request numbers of the KVM interface\<close>

definition IOC_NRBITS :: nat where "IOC_NRBITS = 8"
definition IOC_TYPEBITS :: nat where "IOC_TYPEBITS = 8"
definition IOC_SIZEBITS :: nat where "IOC_SIZEBITS = 14"

definition IOC_NRSHIFT :: nat where "IOC_NRSHIFT = 0"
definition IOC_TYPESHIFT :: nat where "IOC_TYPESHIFT = IOC_NRSHIFT + IOC_NRBITS"
definition IOC_SIZESHIFT :: nat where "IOC_SIZESHIFT = IOC_TYPESHIFT + IOC_TYPEBITS"
definition IOC_DIRSHIFT :: nat where "IOC_DIRSHIFT = IOC_SIZESHIFT + IOC_SIZEBITS"

definition IOC_NONE :: u32 where "IOC_NONE = 0"
definition IOC_WRITE :: u32 where "IOC_WRITE = 1"
definition IOC_READ :: u32 where "IOC_READ = 2"

definition ioc :: "u32 \<Rightarrow> u32 \<Rightarrow> u32 \<Rightarrow> u32 \<Rightarrow> u64" where
  "ioc dir type_code nr sz =
     ucast (push_bit IOC_DIRSHIFT dir OR push_bit IOC_TYPESHIFT type_code
            OR push_bit IOC_NRSHIFT nr OR push_bit IOC_SIZESHIFT sz)"

definition io_req :: "u32 \<Rightarrow> u32 \<Rightarrow> u64" where
  "io_req type_code nr = ioc IOC_NONE type_code nr 0"

text \<open>The type argument of \<open>ior\<close>, \<open>iow\<close> and \<open>iowr\<close> enters only through its size.\<close>

definition ior_req :: "u32 \<Rightarrow> u32 \<Rightarrow> u32 \<Rightarrow> u64" where
  "ior_req sz type_code nr = ioc IOC_READ type_code nr sz"

definition iow_req :: "u32 \<Rightarrow> u32 \<Rightarrow> u32 \<Rightarrow> u64" where
  "iow_req sz type_code nr = ioc IOC_WRITE type_code nr sz"

definition iowr_req :: "u32 \<Rightarrow> u32 \<Rightarrow> u32 \<Rightarrow> u64" where
  "iowr_req sz type_code nr = ioc (IOC_READ OR IOC_WRITE) type_code nr sz"

definition KVMIO :: u32 where "KVMIO = 0xAE"

record kvm_irq_level =
  kil_irq :: u32
  kil_level :: u32

record kvm_msi =
  msi_address_lo :: u32
  msi_address_hi :: u32
  msi_data :: u32
  msi_flags :: u32
  msi_devid :: u32

text \<open>\<open>size_of\<close> of the two arguments: two words; five words and twelve bytes of padding.\<close>

definition KVM_IRQ_LINE :: u64 where "KVM_IRQ_LINE = iow_req 8 KVMIO 0x61"
definition KVM_SIGNAL_MSI :: u64 where "KVM_SIGNAL_MSI = iow_req 32 KVMIO 0xa5"

section \<open>Request numbers of the bhyve interface\<close>

definition VMM_IOC_BASE :: u32 where
  "VMM_IOC_BASE = push_bit 16 0x76 OR push_bit 8 0x6d"

record vm_isa_irq =
  isa_atpic_irq :: i32
  isa_ioapic_irq :: i32

record vm_lapic_msi =
  lapic_msg :: u64
  lapic_addr :: u64

definition VM_LAPIC_MSI :: u32 where "VM_LAPIC_MSI = VMM_IOC_BASE OR 0x06"
definition VM_ISA_ASSERT_IRQ :: u32 where "VM_ISA_ASSERT_IRQ = VMM_IOC_BASE OR 0x0a"
definition VM_ISA_DEASSERT_IRQ :: u32 where "VM_ISA_DEASSERT_IRQ = VMM_IOC_BASE OR 0x0b"

section \<open>Sinks\<close>

datatype irq_sink = NullIrqSink | KvmIrqSink i32 u32 | BhyveIrqSink i32 u32

datatype msi_sink = KvmMsiSink i32 | BhyveMsiSink i32

datatype host_call =
    KvmIrqLineCall i32 u64 kvm_irq_level
  | KvmSignalMsiCall i32 u64 kvm_msi
  | BhyveIsaIrqCall i32 i32 vm_isa_irq
  | BhyveLapicMsiCall i32 i32 vm_lapic_msi

fun set_level :: "irq_sink \<Rightarrow> bool \<Rightarrow> host_call list" where
  "set_level NullIrqSink asserted = []"
| "set_level (KvmIrqSink vm_fd gsi) asserted =
     [KvmIrqLineCall vm_fd KVM_IRQ_LINE \<lparr>kil_irq = gsi, kil_level = of_bool asserted\<rparr>]"
| "set_level (BhyveIrqSink vm_fd gsi) asserted =
     [BhyveIsaIrqCall vm_fd (if asserted then VM_ISA_ASSERT_IRQ else VM_ISA_DEASSERT_IRQ)
        \<lparr>isa_atpic_irq = gsi, isa_ioapic_irq = gsi\<rparr>]"

fun signal :: "msi_sink \<Rightarrow> u64 \<Rightarrow> u32 \<Rightarrow> host_call list" where
  "signal (KvmMsiSink vm_fd) address data =
     [KvmSignalMsiCall vm_fd KVM_SIGNAL_MSI
        \<lparr>msi_address_lo = ucast address, msi_address_hi = ucast (drop_bit 32 address),
         msi_data = data, msi_flags = 0, msi_devid = 0\<rparr>]"
| "signal (BhyveMsiSink vm_fd) address data =
     [BhyveLapicMsiCall vm_fd VM_LAPIC_MSI \<lparr>lapic_msg = ucast data, lapic_addr = address\<rparr>]"

text \<open>A call a device makes on one of its sinks, and the host calls it turns into.\<close>

datatype sink_event = SetLevel irq_sink bool | Signal msi_sink u64 u32

fun host_calls :: "sink_event \<Rightarrow> host_call list" where
  "host_calls (SetLevel sink asserted) = set_level sink asserted"
| "host_calls (Signal sink address data) = signal sink address data"

section \<open>Lemmas\<close>

lemma hi_lo_recombine: "push_bit 32 (ucast (ucast (drop_bit 32 a) :: u32)) OR ucast (ucast a :: u32) = (a :: u64)"
proof (rule bit_word_eqI)
  fix n assume n: "n < LENGTH(64)"
  show "bit (push_bit 32 (ucast (ucast (drop_bit 32 a) :: u32)) OR ucast (ucast a :: u32) :: u64) n \<longleftrightarrow> bit a n"
    using n by (cases "n < 32") (auto simp: bit_simps)
qed

section \<open>Properties\<close>

text \<open>
  Both backends hand the whole message to the in-kernel local APIC: the KVM request
  carries the address as two halves from which the 64-bit address is recovered, the bhyve
  request carries it as it is, and both carry the data unchanged.
\<close>

theorem msi_message_preserved:
  "(\<exists>msi. signal (KvmMsiSink fd) address data = [KvmSignalMsiCall fd 0x4020AEA5 msi] \<and>
      push_bit 32 (ucast (msi_address_hi msi)) OR ucast (msi_address_lo msi) = address \<and>
      msi_data msi = data \<and> msi_flags msi = 0) \<and>
   (\<exists>msi. signal (BhyveMsiSink fd) address data = [BhyveLapicMsiCall fd 0x766d06 msi] \<and>
      lapic_addr msi = address \<and> ucast (lapic_msg msi) = data)"
  by (simp add: hi_lo_recombine KVM_SIGNAL_MSI_def iow_req_def ioc_def IOC_WRITE_def KVMIO_def
      IOC_DIRSHIFT_def IOC_SIZESHIFT_def IOC_TYPESHIFT_def IOC_NRSHIFT_def IOC_SIZEBITS_def
      IOC_TYPEBITS_def IOC_NRBITS_def VM_LAPIC_MSI_def VMM_IOC_BASE_def)

end
