(* ===== verification/Serial.thy ===== *)
theory Serial
  imports Sinks
begin

text \<open>
  The 16550A UART (\<open>src/serial.rs\<close>): the register file, the receive FIFO, the
  interrupt logic and its line, and the three ways the rest of the program drives it
  (guest port accesses, bytes from the console, the reader's periodic tick).

  \<open>Instant::now()\<close> is a parameter \<open>now\<close>, in nanoseconds, of the operations that read
  the clock. Bytes sent to the host are kept in \<open>tx_out\<close>, oldest first (errors of the
  host write are swallowed by the code); calls on the interrupt sink are kept in
  \<open>irq_log\<close>, newest first. No operation of the UART can panic.
\<close>

section \<open>Constants\<close>

definition REG_RBR_THR_DLL :: u64 where "REG_RBR_THR_DLL = 0"
definition REG_IER_DLM :: u64 where "REG_IER_DLM = 1"
definition REG_IIR_FCR :: u64 where "REG_IIR_FCR = 2"
definition REG_LCR :: u64 where "REG_LCR = 3"
definition REG_MCR :: u64 where "REG_MCR = 4"
definition REG_LSR :: u64 where "REG_LSR = 5"
definition REG_MSR :: u64 where "REG_MSR = 6"
definition REG_SCR :: u64 where "REG_SCR = 7"

definition IER_ERBFI :: u8 where "IER_ERBFI = 1"
definition IER_ETBEI :: u8 where "IER_ETBEI = 2"
definition IER_ELSI :: u8 where "IER_ELSI = 4"
definition IER_EDSSI :: u8 where "IER_EDSSI = 8"
definition IER_MASK :: u8 where "IER_MASK = 0x0f"

definition IIR_NONE :: u8 where "IIR_NONE = 0x01"
definition IIR_RLS :: u8 where "IIR_RLS = 0x06"
definition IIR_RDA :: u8 where "IIR_RDA = 0x04"
definition IIR_CTI :: u8 where "IIR_CTI = 0x0c"
definition IIR_THRE :: u8 where "IIR_THRE = 0x02"
definition IIR_MS :: u8 where "IIR_MS = 0x00"
definition IIR_FIFO_ENABLED :: u8 where "IIR_FIFO_ENABLED = 0xc0"

definition FCR_ENABLE :: u8 where "FCR_ENABLE = 1"
definition FCR_CLEAR_RX :: u8 where "FCR_CLEAR_RX = 2"

definition LCR_DLAB :: u8 where "LCR_DLAB = 0x80"

definition MCR_DTR :: u8 where "MCR_DTR = 1"
definition MCR_RTS :: u8 where "MCR_RTS = 2"
definition MCR_OUT1 :: u8 where "MCR_OUT1 = 4"
definition MCR_OUT2 :: u8 where "MCR_OUT2 = 8"
definition MCR_LOOPBACK :: u8 where "MCR_LOOPBACK = 0x10"
definition MCR_MASK :: u8 where "MCR_MASK = 0x1f"

definition LSR_DR :: u8 where "LSR_DR = 1"
definition LSR_OE :: u8 where "LSR_OE = 2"
definition LSR_THRE :: u8 where "LSR_THRE = 0x20"
definition LSR_TEMT :: u8 where "LSR_TEMT = 0x40"

definition MSR_DCTS :: u8 where "MSR_DCTS = 1"
definition MSR_DDSR :: u8 where "MSR_DDSR = 2"
definition MSR_TERI :: u8 where "MSR_TERI = 4"
definition MSR_DDCD :: u8 where "MSR_DDCD = 8"
definition MSR_CTS :: u8 where "MSR_CTS = 0x10"
definition MSR_DSR :: u8 where "MSR_DSR = 0x20"
definition MSR_RI :: u8 where "MSR_RI = 0x40"
definition MSR_DCD :: u8 where "MSR_DCD = 0x80"
definition MSR_DELTAS :: u8 where "MSR_DELTAS = 0x0f"
definition MSR_CONNECTED_DEFAULT :: u8 where
  "MSR_CONNECTED_DEFAULT = MSR_CTS OR MSR_DSR OR MSR_DCD"

definition FIFO_CAP :: nat where "FIFO_CAP = 4096"

text \<open>One millisecond, in nanoseconds.\<close>

definition CTI_TIMEOUT :: nat where "CTI_TIMEOUT = 1000000"

lemmas serial_reg_defs =
  REG_RBR_THR_DLL_def REG_IER_DLM_def REG_IIR_FCR_def REG_LCR_def REG_MCR_def REG_LSR_def
  REG_MSR_def REG_SCR_def

lemmas serial_bit_defs =
  IER_ERBFI_def IER_ETBEI_def IER_ELSI_def IER_EDSSI_def IER_MASK_def IIR_NONE_def IIR_RLS_def
  IIR_RDA_def IIR_CTI_def IIR_THRE_def IIR_MS_def IIR_FIFO_ENABLED_def FCR_ENABLE_def
  FCR_CLEAR_RX_def LCR_DLAB_def MCR_DTR_def MCR_RTS_def MCR_OUT1_def MCR_OUT2_def
  MCR_LOOPBACK_def MCR_MASK_def LSR_DR_def LSR_OE_def LSR_THRE_def LSR_TEMT_def MSR_DCTS_def
  MSR_DDSR_def MSR_TERI_def MSR_DDCD_def MSR_CTS_def MSR_DSR_def MSR_RI_def MSR_DCD_def
  MSR_DELTAS_def MSR_CONNECTED_DEFAULT_def

definition trigger_bytes :: "u8 \<Rightarrow> nat" where
  "trigger_bytes code =
     (if code AND 0x03 = 0 then 1
      else if code AND 0x03 = 1 then 4
      else if code AND 0x03 = 2 then 8
      else 14)"

section \<open>State\<close>

record serial =
  ier :: u8
  lcr :: u8
  mcr :: u8
  scr :: u8
  dll :: u8
  dlm :: u8
  fcr_enabled :: bool
  rx_trigger :: u8
  msr :: u8
  rx :: bytes
  overrun :: bool
  thre_pending :: bool
  cti_pending :: bool
  last_rx_activity :: nat
  last_irq_level :: bool
  tx_out :: bytes
  irq :: irq_sink
  irq_log :: "sink_event list"

definition serial_new :: "nat \<Rightarrow> irq_sink \<Rightarrow> serial" where
  "serial_new now sink =
     \<lparr>ier = 0, lcr = 0, mcr = 0, scr = 0, dll = 0, dlm = 0, fcr_enabled = False,
      rx_trigger = 0, msr = MSR_CONNECTED_DEFAULT, rx = [], overrun = False,
      thre_pending = False, cti_pending = False, last_rx_activity = now,
      last_irq_level = False, tx_out = [], irq = sink, irq_log = []\<rparr>"

section \<open>Operations\<close>

definition pending_interrupt :: "serial \<Rightarrow> u8 option" where
  "pending_interrupt s =
     (let trig = (if fcr_enabled s then trigger_bytes (rx_trigger s) else 1) in
      if ier s AND IER_ELSI \<noteq> 0 \<and> overrun s then Some IIR_RLS
      else if ier s AND IER_ERBFI \<noteq> 0 \<and> trig \<le> length (rx s) then Some IIR_RDA
      else if ier s AND IER_ERBFI \<noteq> 0 \<and> cti_pending s \<and> rx s \<noteq> [] then Some IIR_CTI
      else if ier s AND IER_ETBEI \<noteq> 0 \<and> thre_pending s then Some IIR_THRE
      else if ier s AND IER_EDSSI \<noteq> 0 \<and> msr s AND MSR_DELTAS \<noteq> 0 then Some IIR_MS
      else None)"

definition irq_asserted :: "serial \<Rightarrow> bool" where
  "irq_asserted s \<longleftrightarrow> mcr s AND MCR_OUT2 \<noteq> 0 \<and> pending_interrupt s \<noteq> None"

definition update_irq :: "serial \<Rightarrow> serial" where
  "update_irq s =
     (let asserted = irq_asserted s in
      if asserted \<noteq> last_irq_level s
      then s\<lparr>last_irq_level := asserted, irq_log := SetLevel (irq s) asserted # irq_log s\<rparr>
      else s)"

text \<open>The loop of \<open>inject_rx\<close>: push until the FIFO is full, then flag the overrun.\<close>

fun push_rx :: "serial \<Rightarrow> bytes \<Rightarrow> serial" where
  "push_rx s [] = s"
| "push_rx s (b # bs) =
     (if FIFO_CAP \<le> length (rx s) then s\<lparr>overrun := True\<rparr>
      else push_rx (s\<lparr>rx := rx s @ [b]\<rparr>) bs)"

definition inject_rx :: "nat \<Rightarrow> serial \<Rightarrow> bytes \<Rightarrow> serial" where
  "inject_rx now s bs =
     (if mcr s AND MCR_LOOPBACK \<noteq> 0 then s
      else update_irq ((push_rx s bs)\<lparr>last_rx_activity := now, cti_pending := False\<rparr>))"

definition tick_cti :: "nat \<Rightarrow> serial \<Rightarrow> serial \<times> bool" where
  "tick_cti now s =
     (let was = cti_pending s;
          s1 = (if rx s \<noteq> [] \<and> fcr_enabled s \<and> length (rx s) < trigger_bytes (rx_trigger s)
                  \<and> CTI_TIMEOUT \<le> now - last_rx_activity s
                then s\<lparr>cti_pending := True\<rparr> else s);
          changed = (was \<noteq> cti_pending s1)
      in (if changed then update_irq s1 else s1, changed))"

definition replace_irq_sink :: "serial \<Rightarrow> irq_sink \<Rightarrow> serial" where
  "replace_irq_sink s sink = update_irq (s\<lparr>last_irq_level := False, irq := sink\<rparr>)"

definition dlab :: "serial \<Rightarrow> bool" where
  "dlab s \<longleftrightarrow> lcr s AND LCR_DLAB \<noteq> 0"

definition read_lsr :: "serial \<Rightarrow> serial \<times> u8" where
  "read_lsr s =
     (let lsr = LSR_THRE OR LSR_TEMT OR (if rx s \<noteq> [] then LSR_DR else 0)
                  OR (if overrun s then LSR_OE else 0)
      in (update_irq (s\<lparr>overrun := False\<rparr>), lsr))"

definition read_iir :: "serial \<Rightarrow> serial \<times> u8" where
  "read_iir s =
     (let code = (case pending_interrupt s of Some c \<Rightarrow> c | None \<Rightarrow> IIR_NONE);
          s1 = (if code = IIR_THRE then update_irq (s\<lparr>thre_pending := False\<rparr>) else s);
          fifo_bits = (if fcr_enabled s1 then IIR_FIFO_ENABLED else 0)
      in (s1, code OR fifo_bits))"

definition write_thr :: "serial \<Rightarrow> u8 \<Rightarrow> serial" where
  "write_thr s byte =
     (let s1 = (if mcr s AND MCR_LOOPBACK \<noteq> 0
                then (if FIFO_CAP \<le> length (rx s) then s\<lparr>overrun := True\<rparr>
                      else s\<lparr>rx := rx s @ [byte]\<rparr>)
                else s\<lparr>tx_out := tx_out s @ [byte]\<rparr>)
      in update_irq (s1\<lparr>thre_pending := True\<rparr>))"

definition write_fcr :: "serial \<Rightarrow> u8 \<Rightarrow> serial" where
  "write_fcr s value =
     (let enabled = (value AND FCR_ENABLE \<noteq> 0);
          transitioning_on = (enabled \<and> \<not> fcr_enabled s);
          s1 = s\<lparr>fcr_enabled := enabled, rx_trigger := drop_bit 6 value AND 0x03\<rparr>;
          s2 = (if transitioning_on \<or> value AND FCR_CLEAR_RX \<noteq> 0
                then s1\<lparr>rx := [], cti_pending := False\<rparr> else s1)
      in update_irq s2)"

definition loopback_msr :: "u8 \<Rightarrow> u8 \<Rightarrow> u8" where
  "loopback_msr m old_msr =
     (let new_state = push_bit 5 (m AND MCR_DTR) OR push_bit 3 (m AND MCR_RTS)
                        OR push_bit 4 (m AND MCR_OUT1) OR push_bit 4 (m AND MCR_OUT2);
          deltas = (old_msr AND 0xf0) XOR new_state;
          delta_bits = (if deltas AND MSR_CTS \<noteq> 0 then MSR_DCTS else 0)
                         OR (if deltas AND MSR_DSR \<noteq> 0 then MSR_DDSR else 0)
                         OR (if deltas AND MSR_RI \<noteq> 0 then MSR_TERI else 0)
                         OR (if deltas AND MSR_DCD \<noteq> 0 then MSR_DDCD else 0)
      in new_state OR (old_msr AND MSR_DELTAS) OR delta_bits)"

definition write_mcr :: "serial \<Rightarrow> u8 \<Rightarrow> serial" where
  "write_mcr s value =
     (let was_loopback = (mcr s AND MCR_LOOPBACK \<noteq> 0);
          s1 = s\<lparr>mcr := value AND MCR_MASK\<rparr>;
          is_loopback = (mcr s1 AND MCR_LOOPBACK \<noteq> 0);
          s2 = (if is_loopback
                then (let s' = s1\<lparr>msr := loopback_msr (mcr s1) (msr s1)\<rparr>
                      in if \<not> was_loopback then s'\<lparr>rx := [], cti_pending := False\<rparr> else s')
                else if was_loopback
                then s1\<lparr>msr := MSR_CONNECTED_DEFAULT OR (msr s1 AND MSR_DELTAS)\<rparr>
                else s1)
      in update_irq s2)"

definition read_msr :: "serial \<Rightarrow> serial \<times> u8" where
  "read_msr s = (update_irq (s\<lparr>msr := msr s AND NOT MSR_DELTAS\<rparr>), msr s)"

definition read_rbr :: "nat \<Rightarrow> serial \<Rightarrow> serial \<times> u8" where
  "read_rbr now s =
     (let b = (case rx s of [] \<Rightarrow> 0 | x # _ \<Rightarrow> x);
          s1 = s\<lparr>rx := tl (rx s), last_rx_activity := now\<rparr>;
          s2 = (if rx s1 = [] then s1\<lparr>cti_pending := False\<rparr> else s1)
      in (update_irq s2, b))"

definition serial_read_reg :: "nat \<Rightarrow> serial \<Rightarrow> u64 \<Rightarrow> serial \<times> u8" where
  "serial_read_reg now s offset =
     (if offset = REG_RBR_THR_DLL then (if dlab s then (s, dll s) else read_rbr now s)
      else if offset = REG_IER_DLM then (s, if dlab s then dlm s else ier s)
      else if offset = REG_IIR_FCR then read_iir s
      else if offset = REG_LCR then (s, lcr s)
      else if offset = REG_MCR then (s, mcr s)
      else if offset = REG_LSR then read_lsr s
      else if offset = REG_MSR then read_msr s
      else if offset = REG_SCR then (s, scr s)
      else (s, 0xff))"

definition serial_read :: "nat \<Rightarrow> serial \<Rightarrow> u64 \<Rightarrow> bytes \<Rightarrow> serial \<times> bytes" where
  "serial_read now s offset data =
     (if data = [] then (s, data)
      else let (s', byte) = serial_read_reg now s offset
           in (s', byte # replicate (length data - 1) 0xff))"

definition serial_write :: "serial \<Rightarrow> u64 \<Rightarrow> bytes \<Rightarrow> serial" where
  "serial_write s offset data =
     (case data of [] \<Rightarrow> s
      | value # _ \<Rightarrow>
          if offset = REG_RBR_THR_DLL
          then (if dlab s then s\<lparr>dll := value\<rparr> else write_thr s value)
          else if offset = REG_IER_DLM
          then (if dlab s then s\<lparr>dlm := value\<rparr> else update_irq (s\<lparr>ier := value AND IER_MASK\<rparr>))
          else if offset = REG_IIR_FCR then write_fcr s value
          else if offset = REG_LCR then s\<lparr>lcr := value\<rparr>
          else if offset = REG_MCR then write_mcr s value
          else if offset = REG_SCR then s\<lparr>scr := value\<rparr>
          else s)"

section \<open>Steps, reachable states and the invariant\<close>

text \<open>Everything the program does to a UART once it is built.\<close>

datatype serial_op =
    GuestRead nat u64 bytes
  | GuestWrite u64 bytes
  | Inject nat bytes
  | Tick nat
  | ReplaceSink irq_sink

fun serial_apply :: "serial \<Rightarrow> serial_op \<Rightarrow> serial" where
  "serial_apply s (GuestRead now off data) = fst (serial_read now s off data)"
| "serial_apply s (GuestWrite off data) = serial_write s off data"
| "serial_apply s (Inject now bs) = inject_rx now s bs"
| "serial_apply s (Tick now) = fst (tick_cti now s)"
| "serial_apply s (ReplaceSink sink) = replace_irq_sink s sink"

inductive serial_reachable :: "serial \<Rightarrow> bool" where
  new: "serial_reachable (serial_new now sink)"
| step: "serial_reachable s \<Longrightarrow> serial_reachable (serial_apply s opn)"

definition serial_regs_ok :: "serial \<Rightarrow> bool" where
  "serial_regs_ok s \<longleftrightarrow>
     length (rx s) \<le> FIFO_CAP \<and>
     ier s AND NOT IER_MASK = 0 \<and>
     mcr s AND NOT MCR_MASK = 0 \<and>
     rx_trigger s AND NOT 0x03 = 0 \<and>
     (cti_pending s \<longrightarrow> rx s \<noteq> [])"

definition serial_inv :: "serial \<Rightarrow> bool" where
  "serial_inv s \<longleftrightarrow> last_irq_level s = irq_asserted s \<and> serial_regs_ok s"

text \<open>Read the receive register \<open>n\<close> times, as a guest polling it does.\<close>

fun drain_rbr :: "nat \<Rightarrow> nat \<Rightarrow> serial \<Rightarrow> serial \<times> bytes" where
  "drain_rbr now 0 s = (s, [])"
| "drain_rbr now (Suc n) s =
     (let (s1, d) = serial_read now s REG_RBR_THR_DLL [0];
          (s2, ds) = drain_rbr now n s1
      in (s2, d @ ds))"

section \<open>Lemmas\<close>

subsection \<open>The interrupt line\<close>

lemma irq_asserted_update [simp]:
  "irq_asserted (s\<lparr>last_irq_level := l\<rparr>) = irq_asserted s"
  "irq_asserted (s\<lparr>irq_log := g\<rparr>) = irq_asserted s"
  "irq_asserted (s\<lparr>irq := k\<rparr>) = irq_asserted s"
  "irq_asserted (s\<lparr>lcr := x\<rparr>) = irq_asserted s"
  "irq_asserted (s\<lparr>scr := x\<rparr>) = irq_asserted s"
  "irq_asserted (s\<lparr>dll := x\<rparr>) = irq_asserted s"
  "irq_asserted (s\<lparr>dlm := x\<rparr>) = irq_asserted s"
  by (simp_all add: irq_asserted_def pending_interrupt_def)

lemma serial_regs_ok_update [simp]:
  "serial_regs_ok (s\<lparr>last_irq_level := l\<rparr>) = serial_regs_ok s"
  "serial_regs_ok (s\<lparr>irq_log := g\<rparr>) = serial_regs_ok s"
  "serial_regs_ok (s\<lparr>irq := k\<rparr>) = serial_regs_ok s"
  "serial_regs_ok (s\<lparr>lcr := x\<rparr>) = serial_regs_ok s"
  "serial_regs_ok (s\<lparr>scr := x\<rparr>) = serial_regs_ok s"
  "serial_regs_ok (s\<lparr>dll := x\<rparr>) = serial_regs_ok s"
  "serial_regs_ok (s\<lparr>dlm := x\<rparr>) = serial_regs_ok s"
  "serial_regs_ok (s\<lparr>msr := x\<rparr>) = serial_regs_ok s"
  "serial_regs_ok (s\<lparr>overrun := b\<rparr>) = serial_regs_ok s"
  "serial_regs_ok (s\<lparr>thre_pending := b\<rparr>) = serial_regs_ok s"
  "serial_regs_ok (s\<lparr>last_rx_activity := t\<rparr>) = serial_regs_ok s"
  "serial_regs_ok (s\<lparr>tx_out := d\<rparr>) = serial_regs_ok s"
  "serial_regs_ok (s\<lparr>fcr_enabled := b\<rparr>) = serial_regs_ok s"
  by (simp_all add: serial_regs_ok_def)

lemma update_irq_inv [wf_intros]: "serial_regs_ok s \<Longrightarrow> serial_inv (update_irq s)"
  by (simp add: serial_inv_def update_irq_def Let_def)

lemma serial_inv_regs_ok: "serial_inv s \<Longrightarrow> serial_regs_ok s"
  by (simp add: serial_inv_def)

lemma update_irq_fields [simp]:
  "rx (update_irq s) = rx s" "lcr (update_irq s) = lcr s" "mcr (update_irq s) = mcr s"
  "ier (update_irq s) = ier s" "overrun (update_irq s) = overrun s"
  "cti_pending (update_irq s) = cti_pending s" "tx_out (update_irq s) = tx_out s"
  "fcr_enabled (update_irq s) = fcr_enabled s" "rx_trigger (update_irq s) = rx_trigger s"
  "irq (update_irq s) = irq s" "thre_pending (update_irq s) = thre_pending s"
  "msr (update_irq s) = msr s" "scr (update_irq s) = scr s" "dll (update_irq s) = dll s"
  "dlm (update_irq s) = dlm s" "last_rx_activity (update_irq s) = last_rx_activity s"
  by (simp_all add: update_irq_def Let_def)

lemma update_irq_level [simp]: "last_irq_level (update_irq s) = irq_asserted s"
  by (simp add: update_irq_def Let_def)

lemma pending_update_irq [simp]: "pending_interrupt (update_irq s) = pending_interrupt s"
  by (simp add: update_irq_def Let_def pending_interrupt_def)

subsection \<open>The receive FIFO\<close>

lemma push_rx_spec:
  "length (rx s) \<le> FIFO_CAP \<Longrightarrow>
   push_rx s bs = s\<lparr>rx := rx s @ take (FIFO_CAP - length (rx s)) bs,
                    overrun := overrun s \<or> FIFO_CAP < length (rx s) + length bs\<rparr>"
proof (induction bs arbitrary: s)
  case Nil
  then show ?case by simp
next
  case (Cons b bs)
  show ?case
  proof (cases "FIFO_CAP \<le> length (rx s)")
    case True
    then show ?thesis using Cons.prems by simp
  next
    case False
    then obtain k where "FIFO_CAP - length (rx s) = Suc k" by (cases "FIFO_CAP - length (rx s)") auto
    moreover from this have "FIFO_CAP - Suc (length (rx s)) = k" by simp
    ultimately show ?thesis using False Cons.IH[of "s\<lparr>rx := rx s @ [b]\<rparr>"] by simp
  qed
qed

lemma regs_ok_push_rx:
  assumes "serial_regs_ok s"
  shows "serial_regs_ok ((push_rx s bs)\<lparr>cti_pending := False\<rparr>)"
  using assms by (auto simp: serial_regs_ok_def push_rx_spec)

subsection \<open>Every operation keeps the invariant\<close>

lemma and_mask_clear: "(x AND m) AND NOT m = (0 :: 'a::len word)"
  by (rule bit_word_eqI) (auto simp: bit_simps)

lemma inject_rx_inv [wf_intros]: "serial_inv s \<Longrightarrow> serial_inv (inject_rx now s bs)"
  using regs_ok_push_rx[of s bs]
  by (auto simp: inject_rx_def serial_regs_ok_def dest!: serial_inv_regs_ok intro!: update_irq_inv)

lemma tick_cti_inv [wf_intros]: "serial_inv s \<Longrightarrow> serial_inv (fst (tick_cti now s))"
proof (cases "cti_pending s")
  case True
  assume inv: "serial_inv s"
  have "s\<lparr>cti_pending := True\<rparr> = s" using True by (cases s) simp
  then show ?thesis using inv by (auto simp: tick_cti_def Let_def update_irq_inv serial_inv_regs_ok)
next
  case False
  assume inv: "serial_inv s"
  then have "rx s \<noteq> [] \<Longrightarrow> serial_regs_ok (s\<lparr>cti_pending := True\<rparr>)"
    by (simp add: serial_inv_def serial_regs_ok_def)
  then show ?thesis using inv False by (auto simp: tick_cti_def Let_def update_irq_inv)
qed

lemma replace_irq_sink_inv [wf_intros]: "serial_inv s \<Longrightarrow> serial_inv (replace_irq_sink s k)"
  by (simp add: replace_irq_sink_def update_irq_inv serial_inv_regs_ok)

lemma read_rbr_inv [wf_intros]: "serial_inv s \<Longrightarrow> serial_inv (fst (read_rbr now s))"
proof -
  assume "serial_inv s"
  then have "serial_regs_ok s" by (rule serial_inv_regs_ok)
  then have "length (rx s) \<le> FIFO_CAP" and ok: "serial_regs_ok s" by (simp_all add: serial_regs_ok_def)
  then have "length (tl (rx s)) \<le> FIFO_CAP" by simp
  then show ?thesis
    using ok by (auto simp: read_rbr_def Let_def serial_regs_ok_def intro!: update_irq_inv)
qed

lemma read_iir_inv [wf_intros]: "serial_inv s \<Longrightarrow> serial_inv (fst (read_iir s))"
  by (simp add: read_iir_def Let_def update_irq_inv serial_inv_regs_ok)

lemma read_lsr_inv [wf_intros]: "serial_inv s \<Longrightarrow> serial_inv (fst (read_lsr s))"
  by (simp add: read_lsr_def Let_def update_irq_inv serial_inv_regs_ok)

lemma read_msr_inv [wf_intros]: "serial_inv s \<Longrightarrow> serial_inv (fst (read_msr s))"
  by (simp add: read_msr_def update_irq_inv serial_inv_regs_ok)

lemma write_thr_inv [wf_intros]: "serial_inv s \<Longrightarrow> serial_inv (write_thr s b)"
  by (auto simp: write_thr_def Let_def serial_regs_ok_def
      dest!: serial_inv_regs_ok intro!: update_irq_inv)

lemma write_fcr_inv [wf_intros]: "serial_inv s \<Longrightarrow> serial_inv (write_fcr s v)"
  using and_mask_clear[of "drop_bit 6 v" 3]
  by (auto simp: write_fcr_def Let_def serial_regs_ok_def
      dest!: serial_inv_regs_ok intro!: update_irq_inv)

lemma write_mcr_inv [wf_intros]: "serial_inv s \<Longrightarrow> serial_inv (write_mcr s v)"
  by (auto simp: write_mcr_def Let_def serial_regs_ok_def and_mask_clear
      dest!: serial_inv_regs_ok intro!: update_irq_inv)

lemma write_ier_inv: "serial_inv s \<Longrightarrow> serial_inv (update_irq (s\<lparr>ier := v AND IER_MASK\<rparr>))"
  by (auto simp: serial_regs_ok_def and_mask_clear dest!: serial_inv_regs_ok intro!: update_irq_inv)

lemma serial_inv_latch:
  "serial_inv s \<Longrightarrow> serial_inv (s\<lparr>lcr := x\<rparr>)" "serial_inv s \<Longrightarrow> serial_inv (s\<lparr>scr := x\<rparr>)"
  "serial_inv s \<Longrightarrow> serial_inv (s\<lparr>dll := x\<rparr>)" "serial_inv s \<Longrightarrow> serial_inv (s\<lparr>dlm := x\<rparr>)"
  by (simp_all add: serial_inv_def)

lemma serial_read_reg_inv: "serial_inv s \<Longrightarrow> serial_inv (fst (serial_read_reg now s off))"
  by (simp add: serial_read_reg_def wf_intros)

lemma serial_read_inv [wf_intros]: "serial_inv s \<Longrightarrow> serial_inv (fst (serial_read now s off data))"
  using serial_read_reg_inv[of s now off] by (auto simp: serial_read_def split: prod.split)

lemma serial_write_inv [wf_intros]: "serial_inv s \<Longrightarrow> serial_inv (serial_write s off data)"
  by (simp add: serial_write_def wf_intros write_ier_inv serial_inv_latch split: list.split)

lemma serial_apply_inv: "serial_inv s \<Longrightarrow> serial_inv (serial_apply s opn)"
  by (cases opn) (simp_all add: wf_intros)

lemma serial_new_inv: "serial_inv (serial_new now sink)"
  by (simp add: serial_inv_def serial_regs_ok_def serial_new_def irq_asserted_def)

lemma serial_reachable_inv: "serial_reachable s \<Longrightarrow> serial_inv s"
  by (induction rule: serial_reachable.induct) (simp_all add: serial_new_inv serial_apply_inv)

subsection \<open>Edges on the line\<close>

text \<open>
  \<open>edge_ok s t\<close>: going from \<open>s\<close> to \<open>t\<close>, the sink heard nothing while the level
  stayed, or exactly one call with the new level when it changed.
\<close>

definition edge_ok :: "serial \<Rightarrow> serial \<Rightarrow> bool" where
  "edge_ok s t \<longleftrightarrow>
     (if last_irq_level t = last_irq_level s then irq_log t = irq_log s
      else irq_log t = SetLevel (irq s) (last_irq_level t) # irq_log s)"

lemma edge_ok_refl [simp]: "edge_ok s s"
  by (simp add: edge_ok_def)

lemma edge_ok_update_irq:
  "last_irq_level t = last_irq_level s \<Longrightarrow> irq_log t = irq_log s \<Longrightarrow> irq t = irq s \<Longrightarrow>
   edge_ok s (update_irq t)"
  by (auto simp: edge_ok_def update_irq_def Let_def)

lemma push_rx_frame [simp]:
  "last_irq_level (push_rx s bs) = last_irq_level s"
  "irq_log (push_rx s bs) = irq_log s" "irq (push_rx s bs) = irq s"
  "mcr (push_rx s bs) = mcr s" "lcr (push_rx s bs) = lcr s"
  "tx_out (push_rx s bs) = tx_out s"
  by (induction s bs rule: push_rx.induct) auto

lemma edge_ok_ops:
  "edge_ok s (inject_rx now s bs)" "edge_ok s (fst (tick_cti now s))"
  "edge_ok s (fst (read_rbr now s))" "edge_ok s (fst (read_iir s))"
  "edge_ok s (fst (read_lsr s))" "edge_ok s (fst (read_msr s))"
  "edge_ok s (write_thr s v)" "edge_ok s (write_fcr s v)" "edge_ok s (write_mcr s v)"
  by (auto simp: inject_rx_def tick_cti_def read_rbr_def read_iir_def read_lsr_def read_msr_def
      write_thr_def write_fcr_def write_mcr_def Let_def intro!: edge_ok_update_irq)
     (simp_all add: edge_ok_def)

lemma edge_ok_read: "edge_ok s (fst (serial_read now s off data))"
proof -
  have "edge_ok s (fst (serial_read_reg now s off))"
    by (simp add: serial_read_reg_def edge_ok_ops)
  then show ?thesis by (auto simp: serial_read_def split: prod.split)
qed

lemma edge_ok_latch [simp]:
  "edge_ok s (s\<lparr>lcr := x\<rparr>)" "edge_ok s (s\<lparr>scr := x\<rparr>)"
  "edge_ok s (s\<lparr>dll := x\<rparr>)" "edge_ok s (s\<lparr>dlm := x\<rparr>)"
  by (simp_all add: edge_ok_def)

lemma edge_ok_write: "edge_ok s (serial_write s off data)"
  by (simp add: serial_write_def edge_ok_ops edge_ok_update_irq split: list.split)

subsection \<open>Draining the FIFO\<close>

lemma read_rbr_Cons:
  "\<not> dlab s \<Longrightarrow> rx s = b # bs \<Longrightarrow>
   \<exists>t. serial_read now s REG_RBR_THR_DLL [x] = (t, [b]) \<and> rx t = bs \<and> lcr t = lcr s \<and> mcr t = mcr s"
  by (auto simp: serial_read_def serial_read_reg_def read_rbr_def Let_def)

lemma drain_rbr_rx:
  "\<not> dlab s \<Longrightarrow> n = length (rx s) \<Longrightarrow>
   snd (drain_rbr now n s) = rx s \<and> rx (fst (drain_rbr now n s)) = []"
proof (induction n arbitrary: s)
  case 0
  then show ?case by simp
next
  case (Suc n)
  then obtain b bs where rx: "rx s = b # bs" by (cases "rx s") auto
  then obtain t where t: "serial_read now s REG_RBR_THR_DLL [0] = (t, [b])"
    "rx t = bs" "lcr t = lcr s"
    using read_rbr_Cons[OF Suc.prems(1)] by blast
  have "snd (drain_rbr now n t) = rx t \<and> rx (fst (drain_rbr now n t)) = []"
    using Suc.prems rx t by (intro Suc.IH) (auto simp: dlab_def)
  then show ?case using t rx by (simp add: case_prod_beta)
qed

section \<open>Properties\<close>

text \<open>
  C10. In every state the UART can reach from its construction, through any sequence of
  guest register accesses, console input, timer ticks and sink replacements, the level
  last given to the interrupt line is exactly "MCR.OUT2 is set and an enabled interrupt
  source is pending", the receive FIFO never exceeds its capacity, the undefined bits of
  IER and MCR are clear, and a character timeout is pending only over waiting data.
\<close>

theorem serial_line_coherent:
  assumes "serial_reachable s"
  shows "last_irq_level s = (mcr s AND MCR_OUT2 \<noteq> 0 \<and> pending_interrupt s \<noteq> None) \<and>
     length (rx s) \<le> 4096 \<and> ier s AND NOT 0x0f = 0 \<and> mcr s AND NOT 0x1f = 0 \<and>
     (cti_pending s \<longrightarrow> rx s \<noteq> [])"
  using serial_reachable_inv[OF assms]
  by (simp add: serial_inv_def serial_regs_ok_def irq_asserted_def FIFO_CAP_def IER_MASK_def
      MCR_MASK_def)

text \<open>A byte typed while the receive interrupt is enabled raises the line.\<close>

theorem serial_line_coherent_witness:
  "serial_reachable (serial_apply (serial_apply (serial_apply (serial_new 0 NullIrqSink)
     (GuestWrite 1 [1])) (GuestWrite 4 [8])) (Inject 5 [88])) \<and>
   last_irq_level (serial_apply (serial_apply (serial_apply (serial_new 0 NullIrqSink)
     (GuestWrite 1 [1])) (GuestWrite 4 [8])) (Inject 5 [88]))"
proof -
  let ?s = "serial_apply (serial_apply (serial_apply (serial_new 0 NullIrqSink)
     (GuestWrite 1 [1])) (GuestWrite 4 [8])) (Inject 5 [88])"
  have r: "serial_reachable ?s" by (intro serial_reachable.intros)
  have "mcr ?s AND MCR_OUT2 \<noteq> 0 \<and> pending_interrupt ?s \<noteq> None"
    by (simp add: serial_new_def serial_write_def serial_reg_defs dlab_def serial_bit_defs
        write_mcr_def inject_rx_def pending_interrupt_def FIFO_CAP_def)
  then show ?thesis using r serial_line_coherent[OF r] by simp
qed

text \<open>
  The interrupt sink hears only edges: every guest access, console injection and timer
  tick makes no call while the level stays the same, and exactly one call, with the new
  level, when it changes.
\<close>

theorem serial_irq_edges:
  assumes "\<forall>k. opn \<noteq> ReplaceSink k"
  shows "if last_irq_level (serial_apply s opn) = last_irq_level s
     then irq_log (serial_apply s opn) = irq_log s
     else irq_log (serial_apply s opn) =
       SetLevel (irq s) (last_irq_level (serial_apply s opn)) # irq_log s"
proof -
  have "edge_ok s (serial_apply s opn)"
    using assms by (cases opn) (simp_all add: edge_ok_read edge_ok_write edge_ok_ops)
  then show ?thesis by (simp add: edge_ok_def)
qed

theorem serial_irq_edges_witness:
  "(\<forall>k. GuestWrite 4 [8] \<noteq> ReplaceSink k) \<and>
   irq_log (serial_apply (serial_new 0 NullIrqSink) (GuestWrite 4 [8])) = []"
  using serial_irq_edges[of "GuestWrite 4 [8]" "serial_new 0 NullIrqSink"]
  by (simp add: serial_new_def serial_write_def serial_reg_defs write_mcr_def serial_bit_defs
      irq_asserted_def pending_interrupt_def)

text \<open>
  The receive path is a bounded FIFO: outside loopback, console input is appended in
  order up to the capacity, the overrun flag is raised exactly when a byte had to be
  dropped, and a guest that polls the receive register (DLAB clear) reads the queued bytes
  in the order they arrived, and empties the FIFO.
\<close>

theorem serial_rx_fifo:
  assumes "serial_reachable s" and "mcr s AND MCR_LOOPBACK = 0" and "\<not> dlab s"
  shows "rx (inject_rx now s bs) = rx s @ take (4096 - length (rx s)) bs \<and>
     (overrun (inject_rx now s bs) \<longleftrightarrow> overrun s \<or> 4096 < length (rx s) + length bs) \<and>
     snd (drain_rbr later (length (rx (inject_rx now s bs))) (inject_rx now s bs))
       = rx s @ take (4096 - length (rx s)) bs \<and>
     rx (fst (drain_rbr later (length (rx (inject_rx now s bs))) (inject_rx now s bs))) = []"
proof -
  have len: "length (rx s) \<le> FIFO_CAP"
    using serial_reachable_inv[OF assms(1)] by (simp add: serial_inv_def serial_regs_ok_def)
  have rx: "rx (inject_rx now s bs) = rx s @ take (4096 - length (rx s)) bs"
    "overrun (inject_rx now s bs) \<longleftrightarrow> overrun s \<or> 4096 < length (rx s) + length bs"
    using assms(2) len by (simp_all add: inject_rx_def push_rx_spec FIFO_CAP_def)
  have "\<not> dlab (inject_rx now s bs)" using assms(3) by (simp add: inject_rx_def dlab_def)
  then show ?thesis using rx drain_rbr_rx[of "inject_rx now s bs" _ later] by simp
qed

theorem serial_rx_fifo_witness:
  "serial_reachable (serial_new 0 NullIrqSink) \<and>
   snd (drain_rbr 9 2 (inject_rx 5 (serial_new 0 NullIrqSink) [104, 105])) = [104, 105]"
proof -
  let ?n = "serial_new 0 NullIrqSink"
  have r: "serial_reachable ?n" by (rule serial_reachable.new)
  have h: "mcr ?n AND MCR_LOOPBACK = 0" "\<not> dlab ?n" "rx ?n = []"
    by (simp_all add: serial_new_def dlab_def)
  note fifo = serial_rx_fifo[OF r h(1,2), of 5 "[104, 105]" 9]
  have l: "length (rx (inject_rx 5 ?n [104, 105])) = 2" using fifo h(3) by simp
  show ?thesis using r fifo h(3) unfolding l by simp
qed

text \<open>
  Loopback self-test: with MCR.LOOPBACK set and the divisor latch closed, a byte
  written to the transmit register is queued behind the bytes already received and is
  not sent to the host; console input is ignored. Outside loopback the byte is sent to the
  host and the FIFO is untouched.
\<close>

theorem serial_loopback:
  assumes "\<not> dlab s"
  shows "(mcr s AND MCR_LOOPBACK \<noteq> 0 \<and> length (rx s) < 4096 \<longrightarrow>
       rx (serial_write s 0 [b]) = rx s @ [b] \<and> tx_out (serial_write s 0 [b]) = tx_out s \<and>
       inject_rx now s bs = s) \<and>
     (mcr s AND MCR_LOOPBACK = 0 \<longrightarrow>
       tx_out (serial_write s 0 [b]) = tx_out s @ [b] \<and> rx (serial_write s 0 [b]) = rx s)"
  using assms
  by (simp add: serial_write_def serial_reg_defs write_thr_def Let_def FIFO_CAP_def inject_rx_def)

theorem serial_loopback_witness:
  "\<not> dlab (serial_new 0 NullIrqSink) \<and>
   tx_out (serial_write (serial_new 0 NullIrqSink) 0 [65]) = [65] \<and>
   rx (serial_write ((serial_new 0 NullIrqSink)\<lparr>mcr := 0x10\<rparr>) 0 [65]) = [65]"
proof -
  have d: "\<not> dlab (serial_new 0 NullIrqSink)" "\<not> dlab ((serial_new 0 NullIrqSink)\<lparr>mcr := 0x10\<rparr>)"
    by (simp_all add: dlab_def serial_new_def)
  show ?thesis
    using d(1) serial_loopback[OF d(1), of 65] serial_loopback[OF d(2), of 65]
    by (simp add: serial_new_def MCR_LOOPBACK_def)
qed

text \<open>
  C31. Character timeout: when fewer bytes than the trigger level wait in an enabled FIFO, the
  line has been quiet for a millisecond, the guest has enabled the receive interrupt and no
  line-status interrupt takes precedence, the next tick raises the interrupt: it is pending,
  \<open>IIR\<close> reads back as a character timeout, and with \<open>OUT2\<close> set the interrupt line is high
  afterwards, the sink having been called once with the high level if the line was low.
  Without \<open>OUT2\<close> the line stays low. So input below the trigger level is never stranded.
\<close>

theorem serial_cti_liveness:
  assumes "serial_reachable s" and "rx s \<noteq> []" and "fcr_enabled s" and "length (rx s) < trigger_bytes (rx_trigger s)"
    and "last_rx_activity s + CTI_TIMEOUT \<le> now" and "ier s AND IER_ERBFI \<noteq> 0"
    and "\<not> (ier s AND IER_ELSI \<noteq> 0 \<and> overrun s)"
  shows "pending_interrupt (fst (tick_cti now s)) = Some IIR_CTI \<and>
     snd (read_iir (fst (tick_cti now s))) = 0xcc \<and>
     last_irq_level (fst (tick_cti now s)) = (mcr s AND MCR_OUT2 \<noteq> 0) \<and>
     irq_log (fst (tick_cti now s)) =
       (if \<not> last_irq_level s \<and> mcr s AND MCR_OUT2 \<noteq> 0 then SetLevel (irq s) True # irq_log s else irq_log s)"
proof -
  have inv: "serial_inv s" using serial_reachable_inv[OF assms(1)] .
  have "CTI_TIMEOUT \<le> now - last_rx_activity s" using assms(5) by simp
  then have c: "cti_pending (fst (tick_cti now s))" "rx (fst (tick_cti now s)) = rx s"
    "ier (fst (tick_cti now s)) = ier s" "overrun (fst (tick_cti now s)) = overrun s" "mcr (fst (tick_cti now s)) = mcr s"
    "fcr_enabled (fst (tick_cti now s))" "rx_trigger (fst (tick_cti now s)) = rx_trigger s"
    using assms by (auto simp: tick_cti_def Let_def)
  then have p: "pending_interrupt (fst (tick_cti now s)) = Some IIR_CTI"
    using assms by (auto simp: pending_interrupt_def Let_def)
  have l: "last_irq_level (fst (tick_cti now s)) = (mcr s AND MCR_OUT2 \<noteq> 0)"
    using tick_cti_inv[OF inv, of now] p c(5) by (simp add: serial_inv_def irq_asserted_def)
  have "last_irq_level s \<Longrightarrow> mcr s AND MCR_OUT2 \<noteq> 0" using inv by (auto simp: serial_inv_def irq_asserted_def)
  then have "irq_log (fst (tick_cti now s)) =
      (if \<not> last_irq_level s \<and> mcr s AND MCR_OUT2 \<noteq> 0 then SetLevel (irq s) True # irq_log s else irq_log s)"
    using l by (auto simp: tick_cti_def update_irq_def Let_def split: if_splits)
  then show ?thesis
    using c(6) p l by (simp add: read_iir_def Let_def IIR_CTI_def IIR_THRE_def IIR_FIFO_ENABLED_def)
qed

theorem serial_cti_liveness_witness:
  "irq_log (fst (tick_cti 1000007 (serial_apply (serial_apply (serial_apply (serial_apply (serial_new 0 NullIrqSink)
     (GuestWrite 1 [1])) (GuestWrite 2 [0x81])) (GuestWrite 4 [8])) (Inject 7 [65])))) = [SetLevel NullIrqSink True]"
proof -
  let ?s = "serial_apply (serial_apply (serial_apply (serial_apply (serial_new 0 NullIrqSink)
     (GuestWrite 1 [1])) (GuestWrite 2 [0x81])) (GuestWrite 4 [8])) (Inject 7 [65])"
  have r: "serial_reachable ?s" by (intro serial_reachable.intros)
  have "rx ?s = [65] \<and> fcr_enabled ?s \<and> trigger_bytes (rx_trigger ?s) = 8 \<and> last_rx_activity ?s = 7 \<and> ier ?s = 1 \<and>
      \<not> last_irq_level ?s \<and> mcr ?s = 8 \<and> irq_log ?s = [] \<and> irq ?s = NullIrqSink"
    by code_simp
  then show ?thesis
    using serial_cti_liveness[OF r, of 1000007]
    by (simp add: CTI_TIMEOUT_def IER_ERBFI_def IER_ELSI_def MCR_OUT2_def del: serial_apply.simps)
qed

end
