(* ===== verification/Pci.thy ===== *)
theory Pci
  imports Prelude
begin

text \<open>
  PCI bus 0 and the type-1 configuration mechanism (\<open>src/pci.rs\<close>): a 256-byte
  configuration space, the host bridge, and the \<open>CONFIG_ADDRESS\<close>/\<open>CONFIG_DATA\<close> port
  pair that reaches the configuration space of a device on the bus. An access to the
  register array outside its 256 bytes panics. Devices are handles \<open>'d\<close> into a store
  \<open>'s\<close> and the dispatched methods of the trait \<open>PciDevice\<close> are parameters; the locale
  \<open>pci_device\<close> is the contract the bus relies on.
\<close>

section \<open>Configuration space\<close>

record config_space =
  regs :: bytes

definition config_space_new :: config_space where
  "config_space_new = \<lparr>regs = replicate 256 0\<rparr>"

definition set_u8 :: "nat \<Rightarrow> u8 \<Rightarrow> config_space \<Rightarrow> config_space option" where
  "set_u8 offset v cs =
     (if offset < length (regs cs) then Some (cs\<lparr>regs := (regs cs)[offset := v]\<rparr>) else None)"

definition set_u16 :: "nat \<Rightarrow> u16 \<Rightarrow> config_space \<Rightarrow> config_space option" where
  "set_u16 offset v cs = do {
     cs \<leftarrow> set_u8 offset (ucast v) cs;
     set_u8 (offset + 1) (ucast (drop_bit 8 v)) cs
   }"

definition set_u32 :: "nat \<Rightarrow> u32 \<Rightarrow> config_space \<Rightarrow> config_space option" where
  "set_u32 offset v cs = do {
     cs \<leftarrow> set_u8 offset (ucast v) cs;
     cs \<leftarrow> set_u8 (offset + 1) (ucast (drop_bit 8 v)) cs;
     cs \<leftarrow> set_u8 (offset + 2) (ucast (drop_bit 16 v)) cs;
     set_u8 (offset + 3) (ucast (drop_bit 24 v)) cs
   }"

definition get_u8 :: "config_space \<Rightarrow> nat \<Rightarrow> u8 option" where
  "get_u8 cs offset = (if offset < length (regs cs) then Some (regs cs ! offset) else None)"

definition get_u16 :: "config_space \<Rightarrow> nat \<Rightarrow> u16 option" where
  "get_u16 cs offset = do {
     b0 \<leftarrow> get_u8 cs offset;
     b1 \<leftarrow> get_u8 cs (offset + 1);
     Some (ucast b0 OR push_bit 8 (ucast b1))
   }"

definition get_u32 :: "config_space \<Rightarrow> nat \<Rightarrow> u32 option" where
  "get_u32 cs offset = do {
     b0 \<leftarrow> get_u8 cs offset;
     b1 \<leftarrow> get_u8 cs (offset + 1);
     b2 \<leftarrow> get_u8 cs (offset + 2);
     b3 \<leftarrow> get_u8 cs (offset + 3);
     Some (ucast b0 OR push_bit 8 (ucast b1) OR push_bit 16 (ucast b2) OR push_bit 24 (ucast b3))
   }"

definition cs_config_read :: "bool \<Rightarrow> config_space \<Rightarrow> u64 \<Rightarrow> bytes \<Rightarrow> bytes option" where
  "cs_config_read oc cs offset data = do {
     idxs \<leftarrow> index_seq oc offset (length data);
     Some (map (\<lambda>idx. if unat idx < length (regs cs) then regs cs ! unat idx else 0xff) idxs)
   }"

definition cs_config_write :: "config_space \<Rightarrow> u64 \<Rightarrow> bytes \<Rightarrow> config_space" where
  "cs_config_write cs offset data = cs"

definition host_bridge :: "config_space option" where
  "host_bridge = do {
     cs \<leftarrow> set_u16 0x00 0x8086 config_space_new;
     cs \<leftarrow> set_u16 0x02 0x1237 cs;
     cs \<leftarrow> set_u8 0x08 0x02 cs;
     cs \<leftarrow> set_u8 0x09 0x00 cs;
     cs \<leftarrow> set_u8 0x0a 0x00 cs;
     cs \<leftarrow> set_u8 0x0b 0x06 cs;
     set_u8 0x0e 0x00 cs
   }"

section \<open>The root bus\<close>

record 'd pci_root_bus =
  config_address :: u32
  pci_devices :: "u16 \<rightharpoonup> 'd"

definition slot_key :: "u8 \<Rightarrow> u8 \<Rightarrow> u16" where
  "slot_key dev func = push_bit 3 (ucast dev) OR (ucast func AND 0x07)"

definition pci_root_bus_new :: "'d pci_root_bus" where
  "pci_root_bus_new = \<lparr>config_address = 0, pci_devices = (\<lambda>_. None)\<rparr>"

definition pci_add_device :: "u8 \<Rightarrow> u8 \<Rightarrow> 'd \<Rightarrow> 'd pci_root_bus \<Rightarrow> 'd pci_root_bus" where
  "pci_add_device dev func device r =
     r\<lparr>pci_devices := (pci_devices r)(slot_key dev func \<mapsto> device)\<rparr>"

text \<open>The inner option is the function's result; the outer one is the panic of its \<open>+\<close>.\<close>

definition selected :: "bool \<Rightarrow> 'd pci_root_bus \<Rightarrow> u64 \<Rightarrow> ((u16 \<times> u64) option) option" where
  "selected oc r port_byte =
     (if config_address r AND 0x80000000 = 0 then Some None
      else let bus = drop_bit 16 (config_address r) AND 0xff in
        if bus \<noteq> 0 then Some None
        else let dev = ucast (drop_bit 11 (config_address r) AND 0x1f);
                 func = ucast (drop_bit 8 (config_address r) AND 0x07)
          in do {
            reg \<leftarrow> rs_add oc (ucast (config_address r AND 0xfc)) port_byte;
            Some (Some (slot_key dev func, reg))
          })"

definition root_read ::
  "('d \<Rightarrow> 's \<Rightarrow> u64 \<Rightarrow> bytes \<Rightarrow> bytes option) \<Rightarrow> bool \<Rightarrow>
   'd pci_root_bus \<Rightarrow> 's \<Rightarrow> u64 \<Rightarrow> bytes \<Rightarrow> bytes option" where
  "root_read cfg_read oc r s offset data =
     (if offset < 4 then
        let bytes = u32_to_le (config_address r) in
        Some (map (\<lambda>i. let idx = unat offset + i in if idx < 4 then bytes ! idx else 0)
               [0..<length data])
      else do {
        sel \<leftarrow> selected oc r (offset - 4);
        case sel of
          None \<Rightarrow> Some (fill 0xff data)
        | Some (key, reg) \<Rightarrow>
            (case pci_devices r key of
               None \<Rightarrow> Some (fill 0xff data)
             | Some dev \<Rightarrow> cfg_read dev s reg data)
      })"

text \<open>The loop over the latch's bytes in a write of \<open>data\<close> at \<open>offset\<close>.\<close>

definition latch_bytes :: "bytes \<Rightarrow> nat \<Rightarrow> bytes \<Rightarrow> bytes" where
  "latch_bytes bytes offset data =
     fold (\<lambda>(i, v) bs. let idx = offset + i in if idx < length bs then bs[idx := v] else bs)
       (enumerate 0 data) bytes"

definition root_write ::
  "('d \<Rightarrow> 's \<Rightarrow> u64 \<Rightarrow> bytes \<Rightarrow> 's option) \<Rightarrow> bool \<Rightarrow>
   'd pci_root_bus \<Rightarrow> 's \<Rightarrow> u64 \<Rightarrow> bytes \<Rightarrow> ('d pci_root_bus \<times> 's) option" where
  "root_write cfg_write oc r s offset data =
     (if offset < 4 then
        Some (r\<lparr>config_address :=
           from_le (latch_bytes (u32_to_le (config_address r)) (unat offset) data)\<rparr>, s)
      else do {
        sel \<leftarrow> selected oc r (offset - 4);
        case sel of
          None \<Rightarrow> Some (r, s)
        | Some (key, reg) \<Rightarrow>
            (case pci_devices r key of
               None \<Rightarrow> Some (r, s)
             | Some dev \<Rightarrow> map_option (Pair r) (cfg_write dev s reg data))
      })"

text \<open>Every configuration space has its 256 registers.\<close>

definition cs_wf :: "config_space \<Rightarrow> bool" where
  "cs_wf cs \<longleftrightarrow> length (regs cs) = 256"

section \<open>Lemmas\<close>

lemma set_u8_eq: "cs_wf cs \<Longrightarrow> o' < 256 \<Longrightarrow> set_u8 o' v cs = Some (cs\<lparr>regs := (regs cs)[o' := v]\<rparr>)"
  by (simp add: set_u8_def cs_wf_def)

lemma cs_wf_update [simp]: "cs_wf (cs\<lparr>regs := (regs cs)[o' := v]\<rparr>) = cs_wf cs"
  by (simp add: cs_wf_def)

lemma cs_wf_upd [simp]: "length rs = 256 \<Longrightarrow> cs_wf (cs\<lparr>regs := rs\<rparr>)"
  by (simp add: cs_wf_def)

lemma set_wf [wf_intros]:
  "set_u8 k b cs = Some cs' \<Longrightarrow> cs_wf cs \<Longrightarrow> cs_wf cs'"
  "set_u16 k h cs = Some cs' \<Longrightarrow> cs_wf cs \<Longrightarrow> cs_wf cs'"
  "set_u32 k w cs = Some cs' \<Longrightarrow> cs_wf cs \<Longrightarrow> cs_wf cs'"
  by (auto simp: set_u8_def set_u16_def set_u32_def cs_wf_def bind_eq_Some_conv split: if_splits)

lemma set_returns:
  "cs_wf cs \<Longrightarrow> k < 256 \<Longrightarrow> \<exists>cs'. set_u8 k b cs = Some cs'"
  "cs_wf cs \<Longrightarrow> k + 1 < 256 \<Longrightarrow> \<exists>cs'. set_u16 k h cs = Some cs'"
  "cs_wf cs \<Longrightarrow> k + 3 < 256 \<Longrightarrow> \<exists>cs'. set_u32 k w cs = Some cs'"
  by (auto simp: set_u8_def set_u16_def set_u32_def cs_wf_def)

lemma get_returns:
  "cs_wf cs \<Longrightarrow> k < 256 \<Longrightarrow> \<exists>b. get_u8 cs k = Some b"
  "cs_wf cs \<Longrightarrow> k + 1 < 256 \<Longrightarrow> \<exists>h. get_u16 cs k = Some h"
  "cs_wf cs \<Longrightarrow> k + 3 < 256 \<Longrightarrow> \<exists>w. get_u32 cs k = Some w"
  by (auto simp: get_u8_def get_u16_def get_u32_def cs_wf_def)

lemma le_halves: "ucast (ucast v :: u8) OR push_bit 8 (ucast (ucast (drop_bit 8 v) :: u8)) = (v :: u16)"
proof (rule bit_word_eqI)
  fix n assume n: "n < LENGTH(16)"
  show "bit (ucast (ucast v :: u8) OR push_bit 8 (ucast (ucast (drop_bit 8 v) :: u8)) :: u16) n = bit v n"
    using n by (cases "n < 8") (auto simp: bit_simps)
qed

lemma le_quarters:
  "ucast (ucast v :: u8) OR push_bit 8 (ucast (ucast (drop_bit 8 v) :: u8))
   OR push_bit 16 (ucast (ucast (drop_bit 16 v) :: u8))
   OR push_bit 24 (ucast (ucast (drop_bit 24 v) :: u8)) = (v :: u32)" (is "?l = _")
proof (rule bit_word_eqI)
  fix n assume n: "n < LENGTH(32)"
  consider "n < 8" | "8 \<le> n" "n < 16" | "16 \<le> n" "n < 24" | "24 \<le> n" by linarith
  then show "bit ?l n = bit v n"
    using n by cases (auto simp: bit_simps)
qed

lemma get_set_u16:
  "cs_wf cs \<Longrightarrow> k + 1 < 256 \<Longrightarrow> set_u16 k v cs = Some cs' \<Longrightarrow> get_u16 cs' k = Some v"
  by (auto simp: set_u16_def set_u8_def get_u16_def get_u8_def cs_wf_def le_halves split: if_splits)

lemma get_set_u32:
  "cs_wf cs \<Longrightarrow> k + 3 < 256 \<Longrightarrow> set_u32 k v cs = Some cs' \<Longrightarrow> get_u32 cs' k = Some v"
  by (auto simp: set_u32_def set_u8_def get_u32_def get_u8_def cs_wf_def le_quarters split: if_splits)

lemma cs_config_read_eq:
  assumes "unat off + length data < 2 ^ 64"
  shows "cs_config_read oc cs off data =
     Some (map (\<lambda>i. if unat off + i < length (regs cs) then regs cs ! (unat off + i) else 0xff)
            [0..<length data])"
  using assms by (simp add: cs_config_read_def index_seq_in_range)

lemma cs_config_read_length: "cs_config_read oc cs off data = Some d \<Longrightarrow> length d = length data"
  by (auto simp: cs_config_read_def bind_eq_Some_conv dest: index_seq_length)

lemma latch_fold_length:
  "length (fold (\<lambda>(i, v) bs. let idx = off + i in if idx < length bs then bs[idx := v] else bs)
     (enumerate n data) bs) = length bs"
  by (induction data arbitrary: n bs) (auto simp: Let_def)

lemma latch_fold_nth:
  "k < length bs \<Longrightarrow>
   fold (\<lambda>(i, v) bs. let idx = off + i in if idx < length bs then bs[idx := v] else bs)
     (enumerate n data) bs ! k =
   (if off + n \<le> k \<and> k < off + n + length data then data ! (k - off - n) else bs ! k)"
proof (induction data arbitrary: n bs)
  case Nil
  then show ?case by auto
next
  case (Cons b data)
  have "k - off - n = Suc (k - off - Suc n)" if "off + Suc n \<le> k" using that by simp
  then show ?case using Cons by (auto simp: Let_def nth_list_update)
qed

lemma latch_bytes_patch:
  "off + length data \<le> length bs \<Longrightarrow> latch_bytes bs off data = patch_at off data bs"
  by (rule nth_equalityI)
     (simp_all add: latch_bytes_def latch_fold_length latch_fold_nth nth_patch_at)

lemma reg_le: "unat (ucast ((a :: u32) AND 0xfc) :: u64) \<le> 0xfc"
proof -
  have "a AND 0xfc \<le> (0xfc :: u32)" by (rule word_and_le1)
  then have "unat (a AND 0xfc) \<le> 0xfc" by (simp add: word_le_nat_alt)
  then show ?thesis by (simp add: unsigned_ucast_eq take_bit_nat_eq_self)
qed

lemma data_window:
  assumes "\<not> offset < 4" and "unat offset + n \<le> 8"
  shows "selected oc r (offset - 4) \<noteq> None"
    and "selected oc r (offset - 4) = Some (Some (key, reg)) \<Longrightarrow> unat reg + n < 2 ^ 64"
proof -
  have off: "unat (offset - 4) = unat offset - 4"
    using assms(1) by (simp add: unat_sub word_le_nat_alt not_less)
  have reg: "unat (ucast (config_address r AND 0xfc) :: u64) \<le> 0xfc" by (rule reg_le)
  then have "rs_add oc (ucast (config_address r AND 0xfc)) (offset - 4)
      = Some (ucast (config_address r AND 0xfc) + (offset - 4))"
    using off assms(2) by (intro rs_add_no_overflow) simp
  moreover have "unat (ucast (config_address r AND 0xfc) + (offset - 4) :: u64) + n < 2 ^ 64"
    using reg off assms(2) by (simp add: unat_plus_no_overflow)
  ultimately show "selected oc r (offset - 4) \<noteq> None"
    "selected oc r (offset - 4) = Some (Some (key, reg)) \<Longrightarrow> unat reg + n < 2 ^ 64"
    by (auto simp: selected_def Let_def split: if_splits)
qed

lemma root_read_Some:
  "root_read f oc r s offset data = Some d \<Longrightarrow> \<not> offset < 4 \<Longrightarrow>
   d = fill 0xff data \<or> (\<exists>dev reg. f dev s reg data = Some d)"
  by (cases "selected oc r (offset - 4)")
     (auto simp: root_read_def split: option.splits)

lemma root_write_Some:
  "root_write f oc r s offset data = Some (r', s') \<Longrightarrow> \<not> offset < 4 \<Longrightarrow>
   r' = r \<and> (s' = s \<or> (\<exists>key reg dev. selected oc r (offset - 4) = Some (Some (key, reg)) \<and>
     f dev s reg data = Some s'))"
  by (cases "selected oc r (offset - 4)")
     (auto simp: root_write_def split: option.splits)

section \<open>What a PCI device promises\<close>

text \<open>
  \<open>serves s d\<close>: the handle names a device of the store. Such a device answers every
  configuration access that stays inside the 64-bit offsets.
\<close>

locale pci_device =
  fixes cfg_read :: "'d \<Rightarrow> 's \<Rightarrow> u64 \<Rightarrow> bytes \<Rightarrow> bytes option"
    and cfg_write :: "'d \<Rightarrow> 's \<Rightarrow> u64 \<Rightarrow> bytes \<Rightarrow> 's option"
    and dev_inv :: "'s \<Rightarrow> bool" and serves :: "'s \<Rightarrow> 'd \<Rightarrow> bool"
  assumes cfg_read_returns: "dev_inv s \<Longrightarrow> serves s d \<Longrightarrow> unat reg + length data < 2 ^ 64 \<Longrightarrow>
      \<exists>data'. cfg_read d s reg data = Some data'"
    and cfg_read_length: "cfg_read d s reg data = Some data' \<Longrightarrow> length data' = length data"
    and cfg_write_returns: "dev_inv s \<Longrightarrow> serves s d \<Longrightarrow> unat reg + length data < 2 ^ 64 \<Longrightarrow>
      \<exists>s'. cfg_write d s reg data = Some s'"
    and cfg_write_inv: "dev_inv s \<Longrightarrow> unat reg + length data < 2 ^ 64 \<Longrightarrow>
      cfg_write d s reg data = Some s' \<Longrightarrow> dev_inv s'"
    and cfg_write_serves: "cfg_write d s reg data = Some s' \<Longrightarrow> serves s' d' = serves s d'"
begin

lemma root_read_length:
  "root_read cfg_read oc r s offset data = Some data' \<Longrightarrow> length data' = length data"
  using root_read_Some[of cfg_read oc r s offset data data']
  by (cases "offset < 4") (auto simp: root_read_def Let_def dest: cfg_read_length)

lemma root_read_returns:
  assumes "dev_inv s" and "\<forall>d \<in> ran (pci_devices r). serves s d" and "unat offset + length data \<le> 8"
  shows "\<exists>data'. root_read cfg_read oc r s offset data = Some data'"
proof (cases "offset < 4")
  case True
  then show ?thesis by (simp add: root_read_def Let_def)
next
  case False
  note w = data_window[OF False assms(3), of oc r]
  show ?thesis
  proof (cases "selected oc r (offset - 4)")
    case (Some sel)
    show ?thesis
    proof (cases sel)
      case (Some p)
      obtain key reg where p: "p = (key, reg)" by (cases p)
      have "\<exists>data'. cfg_read d s reg data = Some data'" if "pci_devices r key = Some d" for d
        using that assms w(2) Some p \<open>selected oc r (offset - 4) = Some sel\<close>
        by (intro cfg_read_returns) (auto simp: ran_def)
      then show ?thesis
        using False Some p \<open>selected oc r (offset - 4) = Some sel\<close>
        by (auto simp: root_read_def split: option.split)
    qed (use False Some in \<open>simp add: root_read_def\<close>)
  qed (use w in simp)
qed

lemma root_write_returns:
  assumes "dev_inv s" and "\<forall>d \<in> ran (pci_devices r). serves s d" and "unat offset + length data \<le> 8"
  shows "\<exists>r' s'. root_write cfg_write oc r s offset data = Some (r', s')"
proof (cases "offset < 4")
  case True
  then show ?thesis by (simp add: root_write_def)
next
  case False
  note w = data_window[OF False assms(3), of oc r]
  show ?thesis
  proof (cases "selected oc r (offset - 4)")
    case (Some sel)
    show ?thesis
    proof (cases sel)
      case (Some p)
      obtain key reg where p: "p = (key, reg)" by (cases p)
      have "\<exists>s'. cfg_write d s reg data = Some s'" if "pci_devices r key = Some d" for d
        using that assms w(2) Some p \<open>selected oc r (offset - 4) = Some sel\<close>
        by (intro cfg_write_returns) (auto simp: ran_def)
      then show ?thesis
        using False Some p \<open>selected oc r (offset - 4) = Some sel\<close>
        by (auto simp: root_write_def split: option.split)
    qed (use False Some in \<open>simp add: root_write_def\<close>)
  qed (use w in simp)
qed

lemma root_write_inv:
  assumes "dev_inv s" and "unat offset + length data \<le> 8"
    and "root_write cfg_write oc r s offset data = Some (r', s')"
  shows "dev_inv s' \<and> pci_devices r' = pci_devices r \<and> (\<forall>d. serves s' d = serves s d)"
proof (cases "offset < 4")
  case True
  then show ?thesis using assms(1,3) by (auto simp: root_write_def)
next
  case False
  note c = root_write_Some[OF assms(3) False] and w = data_window(2)[OF False assms(2), of oc r]
  show ?thesis
  proof (cases "s' = s")
    case False
    then obtain key reg d where "selected oc r (offset - 4) = Some (Some (key, reg))"
      and f: "cfg_write d s reg data = Some s'" using c by blast
    then have "unat reg + length data < 2 ^ 64" using w by blast
    then show ?thesis using c cfg_write_inv[OF assms(1) _ f] cfg_write_serves[OF f] by blast
  qed (use assms c in simp)
qed

end

interpretation cs: pci_device "\<lambda>(_ :: unit). cs_config_read oc"
  "\<lambda>_ cs off data. Some (cs_config_write cs off data)" cs_wf "\<lambda>_ _. True" for oc
  by unfold_locales (auto simp: cs_config_read_eq cs_config_write_def dest: cs_config_read_length)

lemma latch_mask_bits:
  "bit (0x80000000 :: u32) n \<longleftrightarrow> n = 31" "bit (0xff :: u32) n \<longleftrightarrow> n < 8"
  "bit (0x1f :: u32) n \<longleftrightarrow> n < 5" "bit (0x07 :: u32) n \<longleftrightarrow> n < 3"
  "bit (0xfc :: u32) n \<longleftrightarrow> 2 \<le> n \<and> n < 8"
proof -
  have "(0x80000000 :: u32) = push_bit 31 1" "(0xff :: u32) = mask 8" "(0x1f :: u32) = mask 5"
    "(0x07 :: u32) = mask 3" "(0xfc :: u32) = push_bit 2 (mask 6)"
    by (simp_all add: mask_eq_exp_minus_1)
  note eqs = this
  show "bit (0x80000000 :: u32) n \<longleftrightarrow> n = 31" "bit (0xff :: u32) n \<longleftrightarrow> n < 8"
    "bit (0x1f :: u32) n \<longleftrightarrow> n < 5" "bit (0x07 :: u32) n \<longleftrightarrow> n < 3"
    "bit (0xfc :: u32) n \<longleftrightarrow> 2 \<le> n \<and> n < 8"
    unfolding eqs bit_push_bit_iff bit_mask_iff bit_1_iff by auto
qed

lemma latch_fields:
  assumes "dev < 32" "func < 8" "reg AND 3 = 0"
  defines "a \<equiv> 0x80000000 OR push_bit 11 (ucast dev) OR push_bit 8 (ucast func) OR (ucast (reg :: u8) :: u32)"
  shows "a AND 0x80000000 \<noteq> 0" "drop_bit 16 a AND 0xff = 0"
    "ucast (drop_bit 11 a AND 0x1f) = (dev :: u8)" "ucast (drop_bit 8 a AND 0x07) = (func :: u8)"
    "(ucast (a AND 0xfc) :: u64) = ucast reg"
proof -
  have d: "bit dev n \<Longrightarrow> n < 5" for n using small_word_bit[of dev 5 n] assms(1) by simp
  have f: "bit func n \<Longrightarrow> n < 3" for n using small_word_bit[of func 3 n] assms(2) by simp
  have r: "bit reg n \<Longrightarrow> 2 \<le> n \<and> n < 8" for n
  proof -
    assume b: "bit reg n"
    have "\<not> bit (reg AND 3) n" by (simp only: assms(3) bit_0_eq) simp
    then have "\<not> bit (3 :: u8) n" using b by (simp add: bit_and_iff)
    moreover have "bit (3 :: u8) n" if lt: "n < 2"
    proof -
      consider "n = 0" | "n = Suc 0" using lt by linarith
      then show ?thesis by cases simp_all
    qed
    ultimately have "\<not> n < 2" by blast
    then show ?thesis using bit_imp_le_length[OF b] by simp
  qed
  note c = latch_mask_bits
  have ab: "bit a n \<longleftrightarrow> n = 31 \<or> (11 \<le> n \<and> bit dev (n - 11)) \<or> (8 \<le> n \<and> bit func (n - 8)) \<or> bit reg n" for n
    using d[of "n - 11"] f[of "n - 8"] r[of n]
    unfolding a_def bit_or_iff c bit_push_bit_iff bit_ucast_iff by auto
  show "a AND 0x80000000 \<noteq> 0"
  proof
    assume "a AND 0x80000000 = 0"
    then have "\<not> bit (a AND 0x80000000) 31" by (simp only: bit_0_eq) simp
    then show False unfolding bit_and_iff ab c by simp
  qed
  show "drop_bit 16 a AND 0xff = 0"
  proof (rule bit_word_eqI)
    fix n
    show "bit (drop_bit 16 a AND 0xff) n = bit (0) n"
      using d[of "16 + n - 11"] f[of "16 + n - 8"] r[of "16 + n"] ab[of "16 + n"] d[of n] f[of n]
      unfolding bit_and_iff c bit_drop_bit_eq bit_ucast_iff comp_def by (cases "n < 8") auto
  qed
  show "ucast (drop_bit 11 a AND 0x1f) = dev"
  proof (rule bit_word_eqI)
    fix n
    show "bit (ucast (drop_bit 11 a AND 0x1f) :: u8) n = bit (dev) n"
      using d[of "11 + n - 11"] f[of "11 + n - 8"] r[of "11 + n"] ab[of "11 + n"] d[of n] f[of n]
      unfolding bit_and_iff c bit_drop_bit_eq bit_ucast_iff comp_def by (cases "n < 8") auto
  qed
  show "ucast (drop_bit 8 a AND 0x07) = func"
  proof (rule bit_word_eqI)
    fix n
    show "bit (ucast (drop_bit 8 a AND 0x07) :: u8) n = bit (func) n"
      using d[of "8 + n - 11"] f[of "8 + n - 8"] r[of "8 + n"] ab[of "8 + n"] d[of n] f[of n]
      unfolding bit_and_iff c bit_drop_bit_eq bit_ucast_iff comp_def by (cases "n < 8") auto
  qed
  show "(ucast (a AND 0xfc) :: u64) = ucast reg"
  proof (rule bit_word_eqI)
    fix n
    show "bit ((ucast (a AND 0xfc) :: u64)) n = bit (ucast reg :: u64) n"
      using d[of "0 + n - 11"] f[of "0 + n - 8"] r[of "0 + n"] ab[of "0 + n"] d[of n] f[of n]
      unfolding bit_and_iff c bit_drop_bit_eq bit_ucast_iff comp_def by (cases "n < 8") auto
  qed
qed

lemma slot_key_inj:
  assumes "dev < 32" "func < 8" "dev' < 32" "func' < 8"
  shows "slot_key dev func = slot_key dev' func' \<longleftrightarrow> dev = dev' \<and> func = func'"
proof
  have c: "(0x07 :: u16) = mask 3" by (simp add: mask_eq_exp_minus_1)
  have b: "bit (slot_key d f) n \<longleftrightarrow> (3 \<le> n \<and> bit d (n - 3)) \<or> bit f n"
    if "d < 32" "f < 8" for d f n
    using that small_word_bit[of d 5 "n - 3"] small_word_bit[of f 3 n]
    by (auto simp: slot_key_def c bit_simps)
  assume eq: "slot_key dev func = slot_key dev' func'"
  have "dev = dev'"
  proof (rule bit_word_eqI)
    fix n
    have "\<not> bit func (n + 3)" "\<not> bit func' (n + 3)"
      using small_word_bit[of func 3 "n + 3"] small_word_bit[of func' 3 "n + 3"] assms by auto
    then show "bit dev n = bit dev' n"
      using b[OF assms(1,2), of "n + 3"] b[OF assms(3,4), of "n + 3"] eq by simp
  qed
  moreover have "func = func'"
  proof (rule bit_word_eqI)
    fix n
    show "bit func n = bit func' n"
      using b[OF assms(1,2), of n] b[OF assms(3,4), of n] eq calculation
        small_word_bit[of func 3 n] small_word_bit[of func' 3 n] assms by (cases "n < 3") auto
  qed
  ultimately show "dev = dev' \<and> func = func'" by simp
qed simp

section \<open>Properties\<close>

text \<open>
  The \<open>CONFIG_ADDRESS\<close> latch: a write of up to four bytes that stays inside the latch
  replaces exactly those bytes, reaches no device, and reads back, whatever the byte
  lane; the other lanes keep their value.
\<close>

theorem config_latch_roundtrip:
  assumes "offset < 4" and "unat offset + length data \<le> 4" and "length buf = length data"
  shows "\<exists>r'. root_write cfg_write oc r s offset data = Some (r', s) \<and>
     pci_devices r' = pci_devices r \<and>
     u32_to_le (config_address r') = patch_at (unat offset) data (u32_to_le (config_address r)) \<and>
     root_read cfg_read oc r' s offset buf = Some data"
proof -
  define bs where "bs = patch_at (unat offset) data (u32_to_le (config_address r))"
  have l: "length bs = 4" using assms(2) by (simp add: bs_def)
  then have le: "u32_to_le (from_le bs) = bs" by (simp add: to_le_from_le)
  have "map (\<lambda>i. let idx = unat offset + i in if idx < 4 then bs ! idx else 0) [0..<length buf] = data"
    using assms by (intro nth_equalityI) (simp_all add: bs_def nth_patch_at Let_def)
  then show ?thesis
    using assms(1,2) le by (simp add: root_write_def root_read_def latch_bytes_patch bs_def Let_def cong: if_cong)
qed

theorem config_latch_roundtrip_witness:
  "\<exists>r'. root_write (\<lambda>_ _ _ _. None) True (pci_root_bus_new :: unit pci_root_bus) () 1 [0xab] = Some (r', ()) \<and>
     config_address r' = 0xab00 \<and>
     root_read (\<lambda>_ _ _ _. None) True r' () 1 [0] = Some [0xab]"
proof -
  have "to_le 4 (w :: u32) = [0, 0xab, 0, 0] \<Longrightarrow> w = 0xab00" for w
    using from_le_u32[of w] by simp
  then show ?thesis
    using config_latch_roundtrip[of 1 "[0xab]" "[0]" "\<lambda>_ _ _ _. None" True
        "pci_root_bus_new :: unit pci_root_bus" "()" "\<lambda>_ _ _ _. None"]
    by (fastforce simp: pci_root_bus_new_def patch_at_def to_le_def upt_rec)
qed

text \<open>
  C32. A type-1 configuration cycle: after the address of device \<open>dev\<close>, function
  \<open>func\<close> and register \<open>reg\<close> on bus 0 is latched with the enable bit, an access to byte
  \<open>b\<close> of the data window reaches exactly the device in that slot, at register
  \<open>reg + b\<close>; a slot without a device reads as ones and ignores writes.
\<close>

theorem config_cycle:
  assumes "dev < 32" and "func < 8" and "reg AND 3 = 0" and "b < 4"
  shows "\<exists>r'. root_write cfg_write oc r s 0
       (u32_to_le (0x80000000 OR push_bit 11 (ucast dev) OR push_bit 8 (ucast func) OR ucast reg))
       = Some (r', s) \<and>
     root_read cfg_read oc r' s (4 + b) data =
       (case pci_devices r (slot_key dev func) of
          None \<Rightarrow> Some (fill 0xff data)
        | Some d \<Rightarrow> cfg_read d s (ucast (reg :: u8) + b) data) \<and>
     root_write cfg_write oc r' s (4 + b) data =
       (case pci_devices r (slot_key dev func) of
          None \<Rightarrow> Some (r', s)
        | Some d \<Rightarrow> map_option (Pair r') (cfg_write d s (ucast reg + b) data))"
proof -
  let ?a = "0x80000000 OR push_bit 11 (ucast dev) OR push_bit 8 (ucast func) OR ucast reg :: u32"
  let ?r = "r\<lparr>config_address := ?a\<rparr>"
  have b: "unat (4 + b) = 4 + unat b" "\<not> 4 + b < 4" "unat b < 4"
    using assms(4) by (simp_all add: unat_plus_no_overflow word_less_nat_alt)
  have "unat (ucast reg :: u64) < 256" using unat_bound[of reg] by (simp add: unsigned_ucast_eq take_bit_nat_eq_self)
  then have "rs_add oc (ucast reg) b = Some (ucast reg + b)"
    using b by (intro rs_add_no_overflow) simp
  then have sel: "selected oc ?r b = Some (Some (slot_key dev func, ucast reg + b))"
    using latch_fields[OF assms(1-3)] by (simp add: selected_def)
  have w: "root_write cfg_write oc r s 0 (u32_to_le ?a) = Some (?r, s)"
    by (simp add: root_write_def latch_bytes_patch patch_at_def)
  show ?thesis
    unfolding w using b(2) sel by (simp add: root_read_def root_write_def split: option.split)
qed

theorem config_cycle_witness:
  "\<exists>bridge r'. host_bridge = Some bridge \<and>
     root_write (\<lambda>_ s _ _. Some s) True (pci_add_device 0 0 () pci_root_bus_new) bridge 0
       (u32_to_le 0x80000000) = Some (r', bridge) \<and>
     root_read (\<lambda>_ s. cs_config_read True s) True r' bridge 4 [0, 0, 0, 0]
       = Some [0x86, 0x80, 0x37, 0x12]"
proof -
  obtain bridge where br: "host_bridge = Some bridge" and l: "length (regs bridge) = 256"
    and ids: "regs bridge ! 0 = 0x86" "regs bridge ! 1 = 0x80" "regs bridge ! 2 = 0x37" "regs bridge ! 3 = 0x12"
    by (simp add: host_bridge_def config_space_new_def set_u16_def set_u8_def)
  have "cs_config_read True bridge 0 [0, 0, 0, 0] = Some [0x86, 0x80, 0x37, 0x12]"
    using l ids by (subst cs_config_read_eq, simp) (simp add: upt_rec numeral_2_eq_2 numeral_3_eq_3)
  then show ?thesis
    using br config_cycle[of 0 0 0 0 "\<lambda>_ s _ _. Some s" True "pci_add_device 0 0 () pci_root_bus_new"
        bridge "\<lambda>_ s. cs_config_read True s" "[0, 0, 0, 0]"]
    by (auto simp: pci_add_device_def)
qed

text \<open>
  Slots are independent: placing a device in a slot makes it the one reached at that
  device and function number and changes what no other slot holds.
\<close>

theorem add_device_slots:
  assumes "dev < 32" "func < 8" "dev' < 32" "func' < 8"
  shows "pci_devices (pci_add_device dev func d r) (slot_key dev' func') =
     (if dev' = dev \<and> func' = func then Some d else pci_devices r (slot_key dev' func'))"
  using slot_key_inj[OF assms] by (auto simp: pci_add_device_def)

theorem add_device_slots_witness:
  "pci_devices (pci_add_device 2 0 True (pci_add_device 1 0 False pci_root_bus_new)) (slot_key 1 0)
     = Some False"
  using add_device_slots[of 2 0 1 0 True "pci_add_device 1 0 False pci_root_bus_new"]
    add_device_slots[of 1 0 1 0 False pci_root_bus_new] by simp

end
