(* ===== verification/Memory.thy ===== *)
theory Memory
  imports Prelude
begin

text \<open>
  Guest physical memory (\<open>src/memory.rs\<close>): one anonymous mapping, reached only through
  bounds-checked reads and writes. The mapping's bytes are a function on offsets, of which
  the first \<open>gm_size\<close> are the guest's RAM; \<open>usize\<close> is 64 bits wide on the supported
  hosts, so the conversion of a guest address to \<open>usize\<close> never fails. The call to
  \<open>mmap\<close> is the parameter \<open>mmap\<close>: from a length to a failure or a host pointer.

  The locale \<open>guest_ram\<close> is the contract the device models rely on; it is interpreted
  on the definitions of this theory.
\<close>

section \<open>Data\<close>

record guest_memory =
  gm_ptr :: u64
  gm_size :: u64
  gm_bytes :: "nat \<Rightarrow> u8"

datatype mem_op = OpZero | OpRead | OpWrite

datatype mem_error =
    SizeZero
  | MmapFailed u64
  | MmapNull
  | AddressOverflow mem_op u64 nat
  | ExceedsMemory mem_op u64 nat u64

section \<open>Operations\<close>

definition page_size :: u64 where
  "page_size = 4096"

definition allocate :: "bool \<Rightarrow> (u64 \<Rightarrow> u64 option) \<Rightarrow> u64 \<Rightarrow> (mem_error + guest_memory) option" where
  "allocate oc mmap sz =
     (if sz = 0 then Some (Inl SizeZero)
      else do {
        aligned_size \<leftarrow> rs_mul oc (div_ceil sz page_size) page_size;
        Some (case mmap aligned_size of
            None \<Rightarrow> Inl (MmapFailed aligned_size)
          | Some ptr \<Rightarrow>
              if ptr = 0 then Inl MmapNull
              else Inr \<lparr>gm_ptr = ptr, gm_size = aligned_size, gm_bytes = (\<lambda>_. 0)\<rparr>)
      })"

text \<open>
  The host address of a checked range is \<open>gm_ptr + start\<close>; the model returns the offset
  \<open>start\<close> into the mapping.
\<close>

definition checked_hva :: "guest_memory \<Rightarrow> u64 \<Rightarrow> nat \<Rightarrow> mem_op \<Rightarrow> mem_error + nat" where
  "checked_hva m gpa len opn =
     (let start = unat gpa; fin = start + len in
      if 2 ^ 64 \<le> fin then Inl (AddressOverflow opn gpa len)
      else if unat (gm_size m) < fin then Inl (ExceedsMemory opn gpa len (gm_size m))
      else Inr start)"

definition store_bytes :: "(nat \<Rightarrow> u8) \<Rightarrow> nat \<Rightarrow> bytes \<Rightarrow> (nat \<Rightarrow> u8)" where
  "store_bytes f start data =
     (\<lambda>a. if start \<le> a \<and> a < start + length data then data ! (a - start) else f a)"

definition zero_at :: "guest_memory \<Rightarrow> u64 \<Rightarrow> nat \<Rightarrow> mem_error + guest_memory" where
  "zero_at m gpa len =
     (case checked_hva m gpa len OpZero of
        Inl e \<Rightarrow> Inl e
      | Inr hva \<Rightarrow> Inr (m\<lparr>gm_bytes := store_bytes (gm_bytes m) hva (replicate len 0)\<rparr>))"

definition read_at :: "guest_memory \<Rightarrow> u64 \<Rightarrow> nat \<Rightarrow> mem_error + bytes" where
  "read_at m gpa len =
     (case checked_hva m gpa len OpRead of
        Inl e \<Rightarrow> Inl e
      | Inr hva \<Rightarrow> Inr (map (\<lambda>i. gm_bytes m (hva + i)) [0..<len]))"

definition write_at :: "guest_memory \<Rightarrow> u64 \<Rightarrow> bytes \<Rightarrow> mem_error + guest_memory" where
  "write_at m gpa data =
     (case checked_hva m gpa (length data) OpWrite of
        Inl e \<Rightarrow> Inl e
      | Inr hva \<Rightarrow> Inr (m\<lparr>gm_bytes := store_bytes (gm_bytes m) hva data\<rparr>))"

text \<open>
  \<open>write_obj\<close> writes the bytes of an object; \<open>bytes_of\<close> is the object's layout in
  memory, which each caller supplies for its type.
\<close>

definition write_obj :: "('t \<Rightarrow> bytes) \<Rightarrow> guest_memory \<Rightarrow> u64 \<Rightarrow> 't \<Rightarrow> mem_error + guest_memory" where
  "write_obj bytes_of m gpa obj = write_at m gpa (bytes_of obj)"

definition host_addr :: "guest_memory \<Rightarrow> u64" where
  "host_addr m = gm_ptr m"

definition mem_size :: "guest_memory \<Rightarrow> u64" where
  "mem_size m = gm_size m"

text \<open>
  \<open>let _ = mem.write_at(..)\<close>: the result is dropped, so a refused write leaves memory
  as it was.
\<close>

definition write_ignore :: "guest_memory \<Rightarrow> u64 \<Rightarrow> bytes \<Rightarrow> guest_memory" where
  "write_ignore m gpa data = (case write_at m gpa data of Inl _ \<Rightarrow> m | Inr m' \<Rightarrow> m')"

text \<open>The range \<open>[gpa, gpa + len)\<close> lies inside guest RAM.\<close>

definition in_ram :: "guest_memory \<Rightarrow> u64 \<Rightarrow> nat \<Rightarrow> bool" where
  "in_ram m gpa len \<longleftrightarrow> unat gpa + len \<le> unat (gm_size m)"

section \<open>The contract of guest RAM\<close>

locale guest_ram =
  fixes rd :: "'m \<Rightarrow> u64 \<Rightarrow> nat \<Rightarrow> 'e + bytes"
    and wr :: "'m \<Rightarrow> u64 \<Rightarrow> bytes \<Rightarrow> 'e + 'm"
    and size_of :: "'m \<Rightarrow> nat"
    and byte_at :: "'m \<Rightarrow> nat \<Rightarrow> u8"
  assumes rd_Inr: "rd m a n = Inr d \<longleftrightarrow>
      unat a + n \<le> size_of m \<and> d = map (\<lambda>i. byte_at m (unat a + i)) [0..<n]"
    and wr_defined: "isl (wr m a d) \<longleftrightarrow> size_of m < unat a + length d"
    and wr_size: "wr m a d = Inr m' \<Longrightarrow> size_of m' = size_of m"
    and wr_byte: "wr m a d = Inr m' \<Longrightarrow>
      byte_at m' k = (if unat a \<le> k \<and> k < unat a + length d then d ! (k - unat a) else byte_at m k)"
begin

lemma rd_length: "rd m a n = Inr d \<Longrightarrow> length d = n"
  by (simp add: rd_Inr)

lemma wr_Inr_iff: "(\<exists>m'. wr m a d = Inr m') \<longleftrightarrow> unat a + length d \<le> size_of m"
  using wr_defined[of m a d] by (cases "wr m a d") auto

lemma rd_wr_same: "wr m a d = Inr m' \<Longrightarrow> rd m' a (length d) = Inr d"
  by (auto simp: rd_Inr wr_size wr_byte map_nth intro!: nth_equalityI)
     (metis wr_Inr_iff)

lemma rd_wr_disjoint:
  assumes "wr m a d = Inr m'"
    and "unat b + n \<le> unat a \<or> unat a + length d \<le> unat b"
  shows "rd m' b n = Inr x \<longleftrightarrow> rd m b n = Inr x"
proof -
  have "byte_at m' (unat b + i) = byte_at m (unat b + i)" if "i < n" for i
    using assms that by (auto simp: wr_byte)
  then show ?thesis using wr_size[OF assms(1)] by (auto simp: rd_Inr)
qed

lemma wr_wr_same_size:
  "wr m a d = Inr m' \<Longrightarrow> isl (wr m' b e) \<longleftrightarrow> isl (wr m b e)"
  by (simp add: wr_defined wr_size)

end

section \<open>Lemmas\<close>

lemma checked_hva_Inr_iff:
  "checked_hva m gpa len opn = Inr h \<longleftrightarrow> in_ram m gpa len \<and> h = unat gpa"
proof -
  have "unat (gm_size m) < 2 ^ 64" using unat_bound[of "gm_size m"] by simp
  then show ?thesis by (auto simp: checked_hva_def in_ram_def Let_def)
qed

lemma checked_hva_in_ram: "in_ram m gpa len \<Longrightarrow> checked_hva m gpa len opn = Inr (unat gpa)"
  by (simp add: checked_hva_Inr_iff)

lemma checked_hva_not_in_ram: "\<not> in_ram m gpa len \<Longrightarrow> \<exists>e. checked_hva m gpa len opn = Inl e"
  using checked_hva_Inr_iff[of m gpa len opn] by (cases "checked_hva m gpa len opn") auto

lemma read_at_Inr_iff:
  "read_at m gpa n = Inr d \<longleftrightarrow>
     in_ram m gpa n \<and> d = map (\<lambda>i. gm_bytes m (unat gpa + i)) [0..<n]"
  using checked_hva_not_in_ram[of m gpa n OpRead]
  by (cases "in_ram m gpa n") (auto simp: read_at_def checked_hva_in_ram)

lemma read_at_isl_iff: "isl (read_at m gpa n) \<longleftrightarrow> \<not> in_ram m gpa n"
  using checked_hva_not_in_ram[of m gpa n OpRead]
  by (cases "in_ram m gpa n") (auto simp: read_at_def checked_hva_in_ram)

lemma write_at_Inr_iff:
  "write_at m gpa d = Inr m' \<longleftrightarrow>
     in_ram m gpa (length d) \<and> m' = m\<lparr>gm_bytes := store_bytes (gm_bytes m) (unat gpa) d\<rparr>"
  using checked_hva_not_in_ram[of m gpa "length d" OpWrite]
  by (cases "in_ram m gpa (length d)") (auto simp: write_at_def checked_hva_in_ram)

lemma write_at_isl_iff: "isl (write_at m gpa d) \<longleftrightarrow> \<not> in_ram m gpa (length d)"
  using checked_hva_not_in_ram[of m gpa "length d" OpWrite]
  by (cases "in_ram m gpa (length d)") (auto simp: write_at_def checked_hva_in_ram)

interpretation gm: guest_ram read_at write_at "\<lambda>m. unat (gm_size m)" gm_bytes
proof unfold_locales
  show "read_at m a n = Inr d \<longleftrightarrow>
      unat a + n \<le> unat (gm_size m) \<and> d = map (\<lambda>i. gm_bytes m (unat a + i)) [0..<n]" for m a n d
    by (simp add: read_at_Inr_iff in_ram_def)
  show "isl (write_at m a d) \<longleftrightarrow> unat (gm_size m) < unat a + length d" for m a d
    by (auto simp: write_at_isl_iff in_ram_def)
  show "write_at m a d = Inr m' \<Longrightarrow> unat (gm_size m') = unat (gm_size m)" for m a d m'
    by (auto simp: write_at_Inr_iff)
  show "write_at m a d = Inr m' \<Longrightarrow> gm_bytes m' k =
      (if unat a \<le> k \<and> k < unat a + length d then d ! (k - unat a) else gm_bytes m k)" for m a d m' k
    by (auto simp: write_at_Inr_iff store_bytes_def)
qed

lemma write_at_size [keeps]: "write_at m gpa d = Inr m' \<Longrightarrow> gm_size m' = gm_size m"
  by (auto simp: write_at_Inr_iff)

lemma write_at_ptr [keeps]: "write_at m gpa d = Inr m' \<Longrightarrow> gm_ptr m' = gm_ptr m"
  by (auto simp: write_at_Inr_iff)

lemma write_ignore_size [keeps, simp]: "gm_size (write_ignore m gpa d) = gm_size m"
  by (auto simp: write_ignore_def write_at_size split: sum.split)

lemma write_ignore_ptr [keeps, simp]: "gm_ptr (write_ignore m gpa d) = gm_ptr m"
  by (auto simp: write_ignore_def write_at_ptr split: sum.split)

lemma write_ignore_outside:
  "gm_bytes (write_ignore m gpa d) k = gm_bytes m k"
  if "k < unat gpa \<or> unat gpa + length d \<le> k"
  using that by (auto simp: write_ignore_def gm.wr_byte split: sum.split)

lemma zero_at_size [keeps]: "zero_at m gpa n = Inr m' \<Longrightarrow> gm_size m' = gm_size m"
  by (auto simp: zero_at_def split: sum.splits)

lemma in_ram_cong: "gm_size m' = gm_size m \<Longrightarrow> in_ram m' gpa n \<longleftrightarrow> in_ram m gpa n"
  by (simp add: in_ram_def)

lemma div_ceil_page: "unat (div_ceil (s :: u64) 4096) = (unat s + 4095) div 4096"
  by (simp add: unat_div_ceil)

lemma checked_hva_errors:
  "checked_hva m gpa n opn = Inl e \<longleftrightarrow>
     (2 ^ 64 \<le> unat gpa + n \<and> e = AddressOverflow opn gpa n) \<or>
     (unat gpa + n < 2 ^ 64 \<and> unat (gm_size m) < unat gpa + n \<and>
        e = ExceedsMemory opn gpa n (gm_size m))"
  by (auto simp: checked_hva_def Let_def)

lemma read_at_disjoint:
  assumes "write_at m gpa d = Inr m'"
    and "unat b + n \<le> unat gpa \<or> unat gpa + length d \<le> unat b"
  shows "read_at m' b n = read_at m b n"
proof (cases "read_at m b n")
  case (Inr x)
  then show ?thesis using gm.rd_wr_disjoint[OF assms, of x] by simp
next
  case (Inl e)
  then have "checked_hva m b n OpRead = Inl e" by (auto simp: read_at_def split: sum.splits)
  moreover have "checked_hva m' b n OpRead = checked_hva m b n OpRead"
    using write_at_size[OF assms(1)] by (simp add: checked_hva_def Let_def)
  ultimately show ?thesis using Inl by (simp add: read_at_def)
qed

lemma zero_at_isl_iff: "isl (zero_at m gpa n) \<longleftrightarrow> \<not> in_ram m gpa n"
  using checked_hva_not_in_ram[of m gpa n OpZero]
  by (cases "in_ram m gpa n") (auto simp: zero_at_def checked_hva_in_ram)

lemma zero_at_as_write: "zero_at m gpa n = Inr m' \<longleftrightarrow> write_at m gpa (replicate n 0) = Inr m'"
proof (cases "in_ram m gpa n")
  case True
  then show ?thesis by (auto simp: zero_at_def write_at_Inr_iff checked_hva_in_ram)
next
  case False
  then have "isl (zero_at m gpa n)" by (simp add: zero_at_isl_iff)
  then have "zero_at m gpa n \<noteq> Inr m'" by auto
  then show ?thesis using False by (simp add: write_at_Inr_iff)
qed

lemma memory_access_defined:
  "isl (read_at m gpa n) \<longleftrightarrow> unat (gm_size m) < unat gpa + n"
  "isl (write_at m gpa data) \<longleftrightarrow> unat (gm_size m) < unat gpa + length data"
  "isl (zero_at m gpa n) \<longleftrightarrow> unat (gm_size m) < unat gpa + n"
  by (simp_all add: read_at_isl_iff write_at_isl_iff zero_at_isl_iff in_ram_def not_le)

lemma memory_write_frame:
  assumes "write_at m gpa data = Inr m'"
  shows "gm_size m' = gm_size m" "gm_ptr m' = gm_ptr m"
    and "k < unat gpa \<or> unat gpa + length data \<le> k \<Longrightarrow> gm_bytes m' k = gm_bytes m k"
  using write_at_size[OF assms] write_at_ptr[OF assms] gm.wr_byte[OF assms, of k] by auto

section \<open>Properties\<close>

text \<open>
  A successful write is read back unchanged, and every read of a range disjoint from
  it returns what it returned before, errors included.
\<close>

theorem write_read_frame:
  assumes "write_at m gpa data = Inr m'"
  shows "read_at m' gpa (length data) = Inr data \<and>
     (\<forall>b n. unat b + n \<le> unat gpa \<or> unat gpa + length data \<le> unat b \<longrightarrow>
        read_at m' b n = read_at m b n)"
  using gm.rd_wr_same[OF assms] read_at_disjoint[OF assms] by blast

theorem write_read_frame_witness:
  "write_at \<lparr>gm_ptr = 1, gm_size = 4096, gm_bytes = (\<lambda>_. 0)\<rparr> 0x100 [104, 105]
     = Inr \<lparr>gm_ptr = 1, gm_size = 4096, gm_bytes = store_bytes (\<lambda>_. 0) 0x100 [104, 105]\<rparr> \<and>
   read_at \<lparr>gm_ptr = 1, gm_size = 4096, gm_bytes = store_bytes (\<lambda>_. 0) 0x100 [104, 105]\<rparr> 0x100 2
     = Inr [104, 105]"
proof -
  let ?m = "\<lparr>gm_ptr = 1, gm_size = 4096, gm_bytes = (\<lambda>_. 0)\<rparr> :: guest_memory"
  let ?m' = "\<lparr>gm_ptr = 1, gm_size = 4096, gm_bytes = store_bytes (\<lambda>_. 0) 0x100 [104, 105]\<rparr>"
  have w: "write_at ?m 0x100 [104, 105] = Inr ?m'"
    by (simp add: write_at_def checked_hva_def)
  show ?thesis using w write_read_frame[OF w] by (simp add: numeral_2_eq_2)
qed

text \<open>
  C7. Bounds safety of guest memory. For every address and length a guest can supply,
  reads, writes and zeroing succeed exactly when the whole range lies inside guest RAM; a
  read then returns as many bytes as asked, and a write or a zeroing changes no byte
  outside the range and neither the size nor the mapping.
\<close>

theorem memory_access_bounds:
  "(isl (read_at m gpa n) \<longleftrightarrow> unat (gm_size m) < unat gpa + n) \<and>
   (isl (write_at m gpa data) \<longleftrightarrow> unat (gm_size m) < unat gpa + length data) \<and>
   (isl (zero_at m gpa n) \<longleftrightarrow> unat (gm_size m) < unat gpa + n) \<and>
   (\<forall>d. read_at m gpa n = Inr d \<longrightarrow> length d = n) \<and>
   (\<forall>m'. write_at m gpa data = Inr m' \<longrightarrow> gm_size m' = gm_size m \<and> gm_ptr m' = gm_ptr m \<and>
      (\<forall>k. k < unat gpa \<or> unat gpa + length data \<le> k \<longrightarrow> gm_bytes m' k = gm_bytes m k)) \<and>
   (\<forall>m'. zero_at m gpa n = Inr m' \<longleftrightarrow> write_at m gpa (replicate n 0) = Inr m')"
  by (intro conjI allI impI memory_access_defined zero_at_as_write)
     ((erule gm.rd_length memory_write_frame; assumption?)+)

theorem memory_access_bounds_witness:
  "isl (read_at \<lparr>gm_ptr = 1, gm_size = 4096, gm_bytes = (\<lambda>_. 0)\<rparr> u64_max 1) \<and>
   \<not> isl (read_at \<lparr>gm_ptr = 1, gm_size = 4096, gm_bytes = (\<lambda>_. 0)\<rparr> 4095 1)"
  using memory_access_bounds[of "\<lparr>gm_ptr = 1, gm_size = 4096, gm_bytes = (\<lambda>_. 0)\<rparr>" u64_max 1 "[]"]
    memory_access_bounds[of "\<lparr>gm_ptr = 1, gm_size = 4096, gm_bytes = (\<lambda>_. 0)\<rparr>" 4095 1 "[]"]
  by simp

text \<open>
  Allocation: whenever \<open>allocate\<close> hands out a memory, for a size whose rounding fits
  in 64 bits, its size is the least multiple of the page size that holds the request,
  every byte reads as zero, and the mapping is not null.
\<close>

theorem allocate_rounds_up:
  assumes "unat sz + 4095 < 2 ^ 64" and "allocate oc mmap sz = Some (Inr m)"
  shows "unat (gm_size m) = (unat sz + 4095) div 4096 * 4096 \<and>
     unat sz \<le> unat (gm_size m) \<and> unat (gm_size m) < unat sz + 4096 \<and>
     gm_ptr m \<noteq> 0 \<and> mmap (gm_size m) = Some (gm_ptr m) \<and> (\<forall>k. gm_bytes m k = 0)"
proof -
  let ?n = "(unat sz + 4095) div 4096"
  have le: "?n * 4096 \<le> unat sz + 4095" by simp
  obtain al where al: "rs_mul oc (div_ceil sz page_size) page_size = Some al"
    and m: "mmap al = Some (gm_ptr m)" "gm_size m = al" "gm_ptr m \<noteq> 0" "gm_bytes m = (\<lambda>_. 0)"
    using assms(2) by (auto simp: allocate_def bind_eq_Some_conv split: if_splits option.splits)
  have "unat (div_ceil sz page_size) * unat page_size < 2 ^ LENGTH(64)"
    using le assms(1) by (simp add: div_ceil_page page_size_def)
  then have "unat (div_ceil sz page_size * page_size) = ?n * 4096"
    using le assms(1) by (simp add: unat_word_ariths div_ceil_page page_size_def)
  moreover have "al = div_ceil sz page_size * page_size"
    using al by (auto simp: rs_mul_def checked_mul_def split: if_splits)
  ultimately have sz: "unat (gm_size m) = ?n * 4096" using m(2) by simp
  have "unat sz + 4095 = ?n * 4096 + (unat sz + 4095) mod 4096"
    and "(unat sz + 4095) mod 4096 < 4096" by (simp_all add: div_mult_mod_eq)
  then have "unat sz \<le> unat (gm_size m)" and "unat (gm_size m) < unat sz + 4096"
    using sz by linarith+
  then show ?thesis using sz m by simp
qed

theorem allocate_rounds_up_witness:
  "unat (gm_size \<lparr>gm_ptr = 0x7f00, gm_size = 4096, gm_bytes = (\<lambda>_. 0)\<rparr>) = (100 + 4095) div 4096 * 4096 \<and>
   allocate True (\<lambda>_. Some 0x7f00) 100
     = Some (Inr \<lparr>gm_ptr = 0x7f00, gm_size = 4096, gm_bytes = (\<lambda>_. 0)\<rparr>)"
proof -
  have al: "allocate True (\<lambda>_. Some 0x7f00) 100
      = Some (Inr \<lparr>gm_ptr = 0x7f00, gm_size = 4096, gm_bytes = (\<lambda>_. 0)\<rparr>)"
    by (simp add: allocate_def rs_mul_def checked_mul_def div_ceil_def page_size_def)
  show ?thesis using allocate_rounds_up[OF _ al] al by simp
qed

end
