(* ===== verification/Virtqueue.thy ===== *)
theory Virtqueue
  imports Memory
begin

text \<open>
  Split virtqueues (\<open>src/virtio/mod.rs\<close>): \<open>process\<close> walks the available ring, collects
  each descriptor chain from guest memory, hands it to the device's callback and returns
  it through the used ring. Everything it reads comes from the guest, so the addresses and
  indices are arbitrary words; the additions that form ring addresses are plain \<open>+\<close>, which
  the flag \<open>oc\<close> of the definitions tells apart.

  The callback is a function on the device's state \<open>'s\<close> and guest memory; it may panic.
  Guest memory is read and written by one agent at a time: a vCPU that changes a ring
  while the device walks it is outside the model. The locales \<open>chain_frame\<close> and
  \<open>chain_handler\<close> state what a device backend promises \<open>process\<close>.
\<close>

section \<open>Data\<close>

definition VIRTIO_F_VERSION_1 :: u64 where "VIRTIO_F_VERSION_1 = push_bit 32 1"
definition VIRTQ_DESC_F_NEXT :: u16 where "VIRTQ_DESC_F_NEXT = 1"
definition VIRTQ_DESC_F_WRITE :: u16 where "VIRTQ_DESC_F_WRITE = 2"

record virtq_desc =
  d_addr :: u64
  d_len :: u32
  d_flags :: u16
  d_next :: u16

record virtqueue =
  desc_table :: u64
  avail_ring :: u64
  used_ring :: u64
  q_num :: u16
  last_avail_idx :: u16
  q_ready :: bool

definition virtqueue_new :: virtqueue where
  "virtqueue_new = \<lparr>desc_table = 0, avail_ring = 0, used_ring = 0, q_num = 0,
     last_avail_idx = 0, q_ready = False\<rparr>"

type_synonym 's handler = "'s \<Rightarrow> virtq_desc list \<Rightarrow> guest_memory \<Rightarrow> ('s \<times> guest_memory \<times> u32) option"

section \<open>Operations\<close>

text \<open>The descriptor in the sixteen bytes read from the table.\<close>

definition parse_desc :: "bytes \<Rightarrow> virtq_desc" where
  "parse_desc data = \<lparr>d_addr = from_le (subslice 0 8 data), d_len = from_le (subslice 8 12 data),
     d_flags = from_le (subslice 12 14 data), d_next = from_le (subslice 14 16 data)\<rparr>"

text \<open>
  The loop that collects a chain: it stops at a descriptor that cannot be read, at one
  without the \<open>NEXT\<close> flag, and once the chain is longer than the queue.
\<close>

function collect_chain ::
  "bool \<Rightarrow> guest_memory \<Rightarrow> u64 \<Rightarrow> u16 \<Rightarrow> u16 \<Rightarrow> virtq_desc list \<Rightarrow> virtq_desc list option" where
  "collect_chain oc mem table num desc_idx chain = do {
     desc_offset \<leftarrow> rs_add oc table (ucast desc_idx * 16);
     case read_at mem desc_offset 16 of
       Inl _ \<Rightarrow> Some chain
     | Inr desc_data \<Rightarrow>
         let desc = parse_desc desc_data; chain' = chain @ [desc] in
         if unat num < length chain' then Some chain'
         else if d_flags desc AND VIRTQ_DESC_F_NEXT \<noteq> 0
           then collect_chain oc mem table num (d_next desc) chain'
           else Some chain'
   }"
  by pat_completeness auto
termination
  by (relation "measure (\<lambda>(oc, mem, table, num, desc_idx, chain). unat num + 1 - length chain)") auto

text \<open>One entry of the available ring, when it can be read: the head index.\<close>

definition ring_slot :: "virtqueue \<Rightarrow> u64" where
  "ring_slot q = ucast (last_avail_idx q mod q_num q)"

definition avail_entry :: "bool \<Rightarrow> virtqueue \<Rightarrow> guest_memory \<Rightarrow> (u16 option) option" where
  "avail_entry oc q mem = do {
     a \<leftarrow> rs_add oc (avail_ring q) 4;
     ring_offset \<leftarrow> rs_add oc a (ring_slot q * 2);
     Some (case read_at mem ring_offset 2 of Inl _ \<Rightarrow> None | Inr d \<Rightarrow> Some (from_le d))
   }"

definition put_used :: "bool \<Rightarrow> virtqueue \<Rightarrow> guest_memory \<Rightarrow> u16 \<Rightarrow> u32 \<Rightarrow> guest_memory option" where
  "put_used oc q mem head_idx total_written = do {
     a \<leftarrow> rs_add oc (used_ring q) 4;
     used_elem_offset \<leftarrow> rs_add oc a (ring_slot q * 8);
     Some (write_ignore mem used_elem_offset (u32_to_le (ucast head_idx) @ u32_to_le total_written))
   }"

text \<open>
  The loop over the available ring. \<open>processed\<close> counts the chains; a ring entry outside
  guest memory ends the loop.
\<close>

function process_loop ::
  "'s handler \<Rightarrow> bool \<Rightarrow> u16 \<Rightarrow> virtqueue \<Rightarrow> guest_memory \<Rightarrow> 's \<Rightarrow> nat \<Rightarrow>
   (virtqueue \<times> guest_memory \<times> 's \<times> nat) option" where
  "process_loop chain_fn oc avail_idx q mem s processed =
     (if last_avail_idx q = avail_idx then Some (q, mem, s, processed)
      else do {
        entry \<leftarrow> avail_entry oc q mem;
        case entry of
          None \<Rightarrow> Some (q, mem, s, processed)
        | Some head_idx \<Rightarrow> do {
            chain \<leftarrow> collect_chain oc mem (desc_table q) (q_num q) head_idx [];
            (s', mem', total_written) \<leftarrow> chain_fn s chain mem;
            mem'' \<leftarrow> put_used oc q mem' head_idx total_written;
            process_loop chain_fn oc avail_idx (q\<lparr>last_avail_idx := last_avail_idx q + 1\<rparr>)
              mem'' s' (processed + 1)
          }
      })"
  by pat_completeness auto
termination
  by (relation "measure (\<lambda>(f, oc, avail_idx, q, mem, s, processed). unat (avail_idx - last_avail_idx q))")
     (auto intro: word_minus_one_dec)

declare collect_chain.simps [simp del] process_loop.simps [simp del]

definition virtq_process ::
  "'s handler \<Rightarrow> bool \<Rightarrow> virtqueue \<Rightarrow> guest_memory \<Rightarrow> 's \<Rightarrow>
   (virtqueue \<times> guest_memory \<times> 's \<times> nat) option" where
  "virtq_process chain_fn oc q mem s =
     (if \<not> q_ready q \<or> q_num q = 0 then Some (q, mem, s, 0)
      else do {
        a \<leftarrow> rs_add oc (avail_ring q) 2;
        case read_at mem a 2 of
          Inl _ \<Rightarrow> Some (q, mem, s, 0)
        | Inr data \<Rightarrow> do {
            (q', mem', s', processed) \<leftarrow> process_loop chain_fn oc (from_le data) q mem s 0;
            if 0 < processed then do {
              u \<leftarrow> rs_add oc (used_ring q') 2;
              Some (q', write_ignore mem' u (u16_to_le (last_avail_idx q')), s', processed)
            } else Some (q', mem', s', processed)
          }
      })"

section \<open>What a chain is\<close>

text \<open>\<open>ds\<close> are the descriptors met from index \<open>i\<close> of the table by following the links.\<close>

fun chain_path :: "guest_memory \<Rightarrow> u64 \<Rightarrow> u16 \<Rightarrow> virtq_desc list \<Rightarrow> bool" where
  "chain_path mem table i [] = True"
| "chain_path mem table i (d # ds) \<longleftrightarrow>
     (\<exists>data. read_at mem (table + ucast i * 16) 16 = Inr data \<and> d = parse_desc data) \<and>
     (ds \<noteq> [] \<longrightarrow> d_flags d AND VIRTQ_DESC_F_NEXT \<noteq> 0 \<and> chain_path mem table (d_next d) ds)"

text \<open>The chain ends at its last descriptor: no link, or a link to an unreadable one.\<close>

definition chain_ends :: "guest_memory \<Rightarrow> u64 \<Rightarrow> virtq_desc \<Rightarrow> bool" where
  "chain_ends mem table d \<longleftrightarrow> d_flags d AND VIRTQ_DESC_F_NEXT = 0 \<or>
     isl (read_at mem (table + ucast (d_next d) * 16) 16)"

section \<open>Lemmas on chains\<close>

lemma collect_chain_release:
  "\<exists>chain'. collect_chain False mem table num i chain = Some chain'"
proof (induction "False" mem table num i chain rule: collect_chain.induct)
  case (1 mem table num i chain)
  then show ?case
    by (subst collect_chain.simps) (auto simp: Let_def split: sum.split)
qed

lemma collect_chain_path:
  "collect_chain oc mem table num i chain = Some chain' \<Longrightarrow> length chain \<le> unat num \<Longrightarrow>
   \<exists>ds. chain' = chain @ ds \<and> chain_path mem table i ds \<and> length chain' \<le> unat num + 1 \<and>
     (ds = [] \<longrightarrow> isl (read_at mem (table + ucast i * 16) 16)) \<and>
     (ds \<noteq> [] \<longrightarrow> chain_ends mem table (last ds) \<or> length chain' = unat num + 1)"
proof (induction oc mem table num i chain rule: collect_chain.induct)
  case (1 oc mem table num i chain)
  obtain off where off: "rs_add oc table (ucast i * 16) = Some off"
    using 1(2) by (subst (asm) collect_chain.simps) (auto simp: bind_eq_Some_conv)
  then have offeq: "off = table + ucast i * 16" by (rule rs_add_Some)
  show ?case
  proof (cases "read_at mem off 16")
    case (Inl e)
    then show ?thesis
      using 1(2,3) off offeq by (subst (asm) collect_chain.simps) auto
  next
    case (Inr data)
    let ?d = "parse_desc data"
    show ?thesis
    proof (cases "unat num < length (chain @ [?d])")
      case True
      then have "chain' = chain @ [?d]"
        using 1(2) off Inr by (subst (asm) collect_chain.simps) (simp add: Let_def)
      then show ?thesis using True 1(3) Inr offeq by (intro exI[of _ "[?d]"]) auto
    next
      case False
      show ?thesis
      proof (cases "d_flags ?d AND VIRTQ_DESC_F_NEXT = 0")
        case True
        then have "chain' = chain @ [?d]"
          using 1(2) off Inr False by (subst (asm) collect_chain.simps) (simp add: Let_def)
        then show ?thesis
          using True False 1(3) Inr offeq by (intro exI[of _ "[?d]"]) (auto simp: chain_ends_def)
      next
        case nz: False
        then have "collect_chain oc mem table num (d_next ?d) (chain @ [?d]) = Some chain'"
          using 1(2) off Inr False by (subst (asm) collect_chain.simps) (simp add: Let_def)
        then obtain ds where "chain' = (chain @ [?d]) @ ds" "chain_path mem table (d_next ?d) ds"
          "length chain' \<le> unat num + 1"
          "ds = [] \<longrightarrow> isl (read_at mem (table + ucast (d_next ?d) * 16) 16)"
          "ds \<noteq> [] \<longrightarrow> chain_ends mem table (last ds) \<or> length chain' = unat num + 1"
          using 1(1)[OF off Inr refl refl False nz] False by auto
        then show ?thesis
          using nz Inr offeq by (intro exI[of _ "?d # ds"]) (auto simp: chain_ends_def)
      qed
    qed
  qed
qed

lemma collect_chain_length:
  assumes "collect_chain oc mem table num i [] = Some chain"
  shows "length chain \<le> 65536"
  using collect_chain_path[OF assms] unat_bound[of num] by auto

lemma collect_chain_complete:
  "chain_path mem table i ds \<Longrightarrow> ds \<noteq> [] \<Longrightarrow> d_flags (last ds) AND VIRTQ_DESC_F_NEXT = 0 \<Longrightarrow>
   length chain + length ds \<le> unat num + 1 \<Longrightarrow>
   collect_chain False mem table num i chain = Some (chain @ ds)"
proof (induction ds arbitrary: i chain)
  case (Cons d ds)
  obtain data where rd: "read_at mem (table + ucast i * 16) 16 = Inr data" and d: "d = parse_desc data"
    using Cons.prems(1) by auto
  show ?case
  proof (cases ds)
    case Nil
    then show ?thesis
      using rd d Cons.prems by (subst collect_chain.simps) (simp add: Let_def)
  next
    case (Cons d' ds')
    then have "d_flags d AND VIRTQ_DESC_F_NEXT \<noteq> 0" "\<not> unat num < length (chain @ [d])"
      using Cons.prems by auto
    then show ?thesis
      using rd d Cons.IH[of "d_next d" "chain @ [d]"] Cons.prems Cons
      by (subst collect_chain.simps) (simp add: Let_def)
  qed
qed simp

section \<open>Lemmas on the loop\<close>

lemma virtq_process_Some:
  assumes r: "virtq_process fn oc q mem s = Some (q', mem', s', n)"
  obtains (idle) "q' = q" "mem' = mem" "s' = s" "n = 0"
      "\<not> q_ready q \<or> q_num q = 0 \<or> isl (read_at mem (avail_ring q + 2) 2)"
  | (ran) data m1 where "q_ready q" "q_num q \<noteq> 0" "read_at mem (avail_ring q + 2) 2 = Inr data"
      "process_loop fn oc (from_le data) q mem s 0 = Some (q', m1, s', n)"
      "mem' = (if 0 < n then write_ignore m1 (used_ring q' + 2) (u16_to_le (last_avail_idx q')) else m1)"
proof (cases "q_ready q \<and> q_num q \<noteq> 0")
  case False
  then show ?thesis using r by (intro idle) (auto simp: virtq_process_def)
next
  case True
  then obtain a where a: "rs_add oc (avail_ring q) 2 = Some a"
    using r by (auto simp: virtq_process_def bind_eq_Some_conv)
  then have a': "a = avail_ring q + 2" by (rule rs_add_Some)
  show ?thesis
  proof (cases "read_at mem a 2")
    case (Inl e)
    then show ?thesis using r True a a' by (intro idle) (auto simp: virtq_process_def)
  next
    case (Inr data)
    obtain q1 m1 s1 n1 where l: "process_loop fn oc (from_le data) q mem s 0 = Some (q1, m1, s1, n1)"
      using r True a Inr by (auto simp: virtq_process_def bind_eq_Some_conv)
    then have "q' = q1" "s' = s1" "n = n1"
      "mem' = (if 0 < n then write_ignore m1 (used_ring q' + 2) (u16_to_le (last_avail_idx q')) else m1)"
      using r True a Inr
      by (auto simp: virtq_process_def bind_eq_Some_conv dest!: rs_add_Some split: if_splits)
    then show ?thesis using True Inr a' l by (intro ran) auto
  qed
qed

lemma avail_entry_unreadable:
  assumes "avail_entry oc q mem = Some None"
  shows "\<not> in_ram mem (avail_ring q + 4 + ring_slot q * 2) 2"
proof -
  have "isl (read_at mem (avail_ring q + 4 + ring_slot q * 2) 2)"
    using assms
    by (cases "read_at mem (avail_ring q + 4 + ring_slot q * 2) 2")
       (auto simp: avail_entry_def bind_eq_Some_conv dest!: rs_add_Some)
  then show ?thesis by (simp add: read_at_isl_iff)
qed

section \<open>What a device backend promises the queue\<close>

text \<open>
  Every backend keeps its own invariant and the size of guest memory on the chains the
  queue can deliver; in the release build it also returns on each of them.
\<close>

locale chain_frame =
  fixes fn :: "'s handler" and s_inv :: "'s \<Rightarrow> bool"
  assumes fn_keeps: "s_inv s \<Longrightarrow> length chain \<le> 65536 \<Longrightarrow> fn s chain mem = Some (s', mem', w) \<Longrightarrow>
      s_inv s' \<and> gm_size mem' = gm_size mem \<and> gm_ptr mem' = gm_ptr mem"
begin

lemma loop_result:
  assumes "s_inv s" and "process_loop fn oc avail_idx q mem s n = Some (q', mem', s', n')"
  shows "s_inv s' \<and> gm_size mem' = gm_size mem \<and> gm_ptr mem' = gm_ptr mem \<and>
     (\<exists>k. n' = n + k \<and> k \<le> unat (avail_idx - last_avail_idx q) \<and>
        q' = q\<lparr>last_avail_idx := last_avail_idx q + of_nat k\<rparr> \<and>
        (last_avail_idx q' = avail_idx \<or> avail_entry oc q' mem' = Some None))"
  using assms
proof (induction "unat (avail_idx - last_avail_idx q)" arbitrary: q mem s n rule: less_induct)
  case less
  show ?case
  proof (cases "last_avail_idx q = avail_idx")
    case True
    then show ?thesis using less(2,3) by (subst (asm) process_loop.simps) (auto intro!: exI[of _ 0])
  next
    case False
    obtain e where e: "avail_entry oc q mem = Some e"
      using less(3) False by (subst (asm) process_loop.simps) (auto simp: bind_eq_Some_conv)
    show ?thesis
    proof (cases e)
      case None
      then show ?thesis using less(2,3) e False by (subst (asm) process_loop.simps) (auto intro!: exI[of _ 0])
    next
      case (Some head)
      obtain chain s1 m1 w m2 where c: "collect_chain oc mem (desc_table q) (q_num q) head [] = Some chain"
        and h: "fn s chain mem = Some (s1, m1, w)" and p: "put_used oc q m1 head w = Some m2"
        and r: "process_loop fn oc avail_idx (q\<lparr>last_avail_idx := last_avail_idx q + 1\<rparr>) m2 s1 (n + 1)
          = Some (q', mem', s', n')"
        using less(3) False e Some by (subst (asm) process_loop.simps) (auto simp: bind_eq_Some_conv)
      have k1: "s_inv s1" "gm_size m1 = gm_size mem" "gm_ptr m1 = gm_ptr mem"
        using fn_keeps[OF less(2) collect_chain_length[OF c] h] by simp_all
      have k2: "gm_size m2 = gm_size m1" "gm_ptr m2 = gm_ptr m1"
        using p by (auto simp: put_used_def bind_eq_Some_conv)
      obtain k where k: "n' = n + 1 + k" "k \<le> unat (avail_idx - (last_avail_idx q + 1))"
        "q' = q\<lparr>last_avail_idx := last_avail_idx q + 1 + of_nat k\<rparr>"
        and rest: "s_inv s'" "gm_size mem' = gm_size m2" "gm_ptr mem' = gm_ptr m2"
          "last_avail_idx q' = avail_idx \<or> avail_entry oc q' mem' = Some None"
        using less(1)[OF _ k1(1) r] word_minus_one_dec[of avail_idx "last_avail_idx q"] False by auto
      have "Suc k \<le> unat (avail_idx - last_avail_idx q)"
        using k(2) word_minus_one_dec[of avail_idx "last_avail_idx q"] False by simp
      then show ?thesis
        using k rest k1 k2 by (intro conjI exI[of _ "Suc k"]) (auto simp: ac_simps)
    qed
  qed
qed

lemma process_result:
  assumes "s_inv s" and "virtq_process fn oc q mem s = Some (q', mem', s', n)"
  shows "s_inv s'" "gm_size mem' = gm_size mem" "gm_ptr mem' = gm_ptr mem"
    "n < 65536" "q' = q\<lparr>last_avail_idx := last_avail_idx q + of_nat n\<rparr>"
proof -
  have "s_inv s' \<and> gm_size mem' = gm_size mem \<and> gm_ptr mem' = gm_ptr mem \<and>
      n < 65536 \<and> q' = q\<lparr>last_avail_idx := last_avail_idx q + of_nat n\<rparr>"
    using assms(2)
  proof (cases rule: virtq_process_Some)
    case idle
    then show ?thesis using assms(1) by simp
  next
    case (ran data m1)
    have "unat (from_le data - last_avail_idx q) < 65536"
      using unat_bound[of "from_le data - last_avail_idx q"] by simp
    then show ?thesis using loop_result[OF assms(1) ran(4)] ran(5) by auto
  qed
  then show "s_inv s'" "gm_size mem' = gm_size mem" "gm_ptr mem' = gm_ptr mem"
    "n < 65536" "q' = q\<lparr>last_avail_idx := last_avail_idx q + of_nat n\<rparr>" by simp_all
qed

text \<open>
  When the index and the ring of the available ring lie in guest memory, every chain the
  driver made available is processed, and the used index in guest memory says so.
\<close>

lemma process_drains:
  assumes "s_inv s" and "q_ready q" and "q_num q \<noteq> 0"
    and "read_at mem (avail_ring q + 2) 2 = Inr idx"
    and ring: "\<And>k. k < q_num q \<Longrightarrow> in_ram mem (avail_ring q + 4 + ucast k * 2) 2"
    and "in_ram mem (used_ring q + 2) 2" and "last_avail_idx q \<noteq> from_le idx"
    and r: "virtq_process fn oc q mem s = Some (q', mem', s', n)"
  shows "last_avail_idx q' = from_le idx" "n = unat (from_le idx - last_avail_idx q)"
    "read_at mem' (used_ring q + 2) 2 = Inr (u16_to_le (last_avail_idx q'))"
proof -
  obtain q1 m1 s1 where l: "process_loop fn oc (from_le idx) q mem s 0 = Some (q1, m1, s1, n)"
    and q1: "q' = q1" and m: "n = 0 \<or> mem' = write_ignore m1 (used_ring q1 + 2) (u16_to_le (last_avail_idx q1))"
    using r assms(2-4) by (cases rule: virtq_process_Some) auto
  obtain k where k: "gm_size m1 = gm_size mem" "n = k" "q1 = q\<lparr>last_avail_idx := last_avail_idx q + of_nat k\<rparr>"
    "last_avail_idx q1 = from_le idx \<or> avail_entry oc q1 m1 = Some None"
    "k \<le> unat (from_le idx - last_avail_idx q)"
    using loop_result[OF assms(1) l] by auto
  have "avail_entry oc q1 m1 \<noteq> Some None"
  proof
    assume "avail_entry oc q1 m1 = Some None"
    then have "\<not> in_ram mem (avail_ring q + 4 + ring_slot q1 * 2) 2"
      using avail_entry_unreadable[of oc q1 m1] k(1,3) by (simp add: in_ram_def)
    moreover have "last_avail_idx q1 mod q_num q < q_num q"
      using assms(3) by (rule word_mod_less)
    ultimately show False using ring[of "last_avail_idx q1 mod q_num q"] k(3) by (simp add: ring_slot_def)
  qed
  then have last: "last_avail_idx q1 = from_le idx" using k(4) by blast
  then have "of_nat n = from_le idx - last_avail_idx q" using k(2,3) by (auto simp: algebra_simps)
  then show n: "n = unat (from_le idx - last_avail_idx q)"
    using k(2,5) by (metis word_unat_of_nat_le)
  show "last_avail_idx q' = from_le idx" using last q1 by simp
  have "n \<noteq> 0" unfolding n using assms(7) by (simp add: unat_eq_zero)
  then have m': "mem' = write_ignore m1 (used_ring q + 2) (u16_to_le (last_avail_idx q'))"
    using m k(3) q1 by simp
  have "in_ram m1 (used_ring q + 2) 2" using assms(6) k(1) by (simp add: in_ram_def)
  then have "write_at m1 (used_ring q + 2) (u16_to_le (last_avail_idx q')) = Inr mem'"
    unfolding m' by (auto simp: write_ignore_def write_at_def checked_hva_in_ram)
  then show "read_at mem' (used_ring q + 2) 2 = Inr (u16_to_le (last_avail_idx q'))"
    using gm.rd_wr_same by fastforce
qed

end

locale chain_handler = chain_frame +
  assumes fn_returns: "s_inv s \<Longrightarrow> length chain \<le> 65536 \<Longrightarrow>
      \<exists>s' mem' w. fn s chain mem = Some (s', mem', w)"
begin

lemma loop_returns: "s_inv s \<Longrightarrow> \<exists>r. process_loop fn False avail_idx q mem s n = Some r"
proof (induction "unat (avail_idx - last_avail_idx q)" arbitrary: q mem s n rule: less_induct)
  case less
  show ?case
  proof (cases "last_avail_idx q = avail_idx")
    case True
    then show ?thesis by (subst process_loop.simps) simp
  next
    case False
    obtain e where e: "avail_entry False q mem = Some e" by (auto simp: avail_entry_def)
    show ?thesis
    proof (cases e)
      case None
      then show ?thesis using e by (subst process_loop.simps) simp
    next
      case (Some head)
      obtain chain where c: "collect_chain False mem (desc_table q) (q_num q) head [] = Some chain"
        using collect_chain_release by blast
      obtain s' mem' w where h: "fn s chain mem = Some (s', mem', w)"
        using fn_returns[OF less(2) collect_chain_length[OF c]] by blast
      have p: "put_used False q mem' head w =
          Some (write_ignore mem' (used_ring q + 4 + ring_slot q * 8) (u32_to_le (ucast head) @ u32_to_le w))"
        by (simp add: put_used_def)
      have "s_inv s'" using fn_keeps[OF less(2) collect_chain_length[OF c] h] by simp
      then obtain r where "process_loop fn False avail_idx (q\<lparr>last_avail_idx := last_avail_idx q + 1\<rparr>)
          (write_ignore mem' (used_ring q + 4 + ring_slot q * 8) (u32_to_le (ucast head) @ u32_to_le w))
          s' (n + 1) = Some r"
        using less(1)[of "q\<lparr>last_avail_idx := last_avail_idx q + 1\<rparr>"] word_minus_one_dec[of avail_idx] False
        by fastforce
      then show ?thesis using False e Some c h p by (subst process_loop.simps) (cases r; simp)
    qed
  qed
qed

lemma process_returns:
  assumes "s_inv s"
  shows "\<exists>q' mem' s' n. virtq_process fn False q mem s = Some (q', mem', s', n)"
proof (cases "q_ready q \<and> q_num q \<noteq> 0")
  case True
  show ?thesis
  proof (cases "read_at mem (avail_ring q + 2) 2")
    case (Inr data)
    obtain q' mem' s' n' where "process_loop fn False (from_le data) q mem s 0 = Some (q', mem', s', n')"
      using loop_returns[OF assms, of "from_le data" q mem 0] by auto
    then show ?thesis using True Inr by (auto simp: virtq_process_def)
  qed (use True in \<open>simp add: virtq_process_def\<close>)
qed (auto simp: virtq_process_def)

end

section \<open>Properties\<close>

text \<open>
  C20. Chains are read correctly and boundedly. Whatever the guest puts in the descriptor
  table (cycles included), the release build collects a chain: it follows the links from
  the head, has at most \<open>num + 1\<close> descriptors, and is cut short only by that cap or by a
  descriptor outside guest memory.
\<close>

theorem collect_chain_bounded:
  assumes "num \<noteq> 0"
  shows "\<exists>chain. collect_chain False mem table num head [] = Some chain \<and>
     length chain \<le> unat num + 1 \<and> chain_path mem table head chain \<and>
     (chain = [] \<longrightarrow> isl (read_at mem (table + ucast head * 16) 16)) \<and>
     (chain \<noteq> [] \<longrightarrow> chain_ends mem table (last chain) \<or> length chain = unat num + 1)"
proof -
  obtain chain where "collect_chain False mem table num head [] = Some chain"
    using collect_chain_release by blast
  then show ?thesis using collect_chain_path[of False mem table num head "[]" chain] by auto
qed

text \<open>A descriptor that links to itself, in a queue of two: three copies are collected.\<close>

theorem collect_chain_bounded_witness:
  "(2 :: u16) \<noteq> 0 \<and> map (\<lambda>d. d_next d)
     (the (collect_chain False \<lparr>gm_ptr = 1, gm_size = 4096,
        gm_bytes = (\<lambda>a. if a = 12 then 1 else 0)\<rparr> 0 2 0 [])) = [0, 0, 0] \<and>
   length (the (collect_chain False \<lparr>gm_ptr = 1, gm_size = 4096,
        gm_bytes = (\<lambda>a. if a = 12 then 1 else 0)\<rparr> 0 2 0 [])) \<le> 3"
proof -
  let ?m = "\<lparr>gm_ptr = 1, gm_size = 4096, gm_bytes = (\<lambda>a. if a = 12 then 1 else 0)\<rparr> :: guest_memory"
  have r: "read_at ?m 0 16 = Inr [0,0,0,0,0,0,0,0,0,0,0,0,1,0,0,0]"
    by (simp add: read_at_def checked_hva_def upt_rec)
  have "collect_chain False ?m 0 2 0 [] = Some (replicate 3 \<lparr>d_addr = 0, d_len = 0, d_flags = 1, d_next = 0\<rparr>)"
    by (simp add: collect_chain.simps[of _ _ _ 2] r parse_desc_def subslice_def VIRTQ_DESC_F_NEXT_def
        numeral_3_eq_3 Let_def)
  then show ?thesis
    using collect_chain_bounded[of 2 ?m 0 0] by (auto simp: numeral_3_eq_3)
qed

text \<open>
  A well-formed chain is collected whole: when following the links from the head ends
  at a descriptor without the \<open>NEXT\<close> flag after at most \<open>num + 1\<close> descriptors, exactly
  those descriptors are handed to the device, in order.
\<close>

theorem collect_chain_whole:
  assumes "chain_path mem table head ds" and "ds \<noteq> []"
    and "d_flags (last ds) AND VIRTQ_DESC_F_NEXT = 0" and "length ds \<le> unat num + 1"
  shows "collect_chain False mem table num head [] = Some ds"
  using collect_chain_complete[OF assms(1-3), of "[]" num] assms(4) by simp

theorem collect_chain_whole_witness:
  "collect_chain False \<lparr>gm_ptr = 1, gm_size = 4096, gm_bytes = (\<lambda>a. if a = 8 then 64 else 0)\<rparr> 0 2 0 []
     = Some [\<lparr>d_addr = 0, d_len = 64, d_flags = 0, d_next = 0\<rparr>]"
proof -
  let ?m = "\<lparr>gm_ptr = 1, gm_size = 4096, gm_bytes = (\<lambda>a. if a = 8 then 64 else 0)\<rparr> :: guest_memory"
  have r: "read_at ?m 0 16 = Inr [0,0,0,0,0,0,0,0,64,0,0,0,0,0,0,0]"
    by (simp add: read_at_def checked_hva_def upt_rec)
  have "chain_path ?m 0 0 [\<lparr>d_addr = 0, d_len = 64, d_flags = 0, d_next = 0\<rparr>]"
    by (simp add: r parse_desc_def subslice_def)
  then show ?thesis
    using collect_chain_whole[of ?m 0 0 "[\<lparr>d_addr = 0, d_len = 64, d_flags = 0, d_next = 0\<rparr>]" 2] by simp
qed

text \<open>
  C40. A guest that places the available ring in the last two bytes of the address space,
  where no ring can be, is not refused. With overflow checks on, the device panics at the
  next notification: the address of the ring's index is formed with an unchecked addition. In
  a release build the address wraps around to byte \<open>a\<close>, 0 or 1, of guest memory, and the
  device takes the two bytes it finds there for the ring's index and processes the ring up
  to it.
\<close>

theorem ring_address_overflow:
  assumes "q_ready q" and "q_num q \<noteq> 0" and "2 ^ 64 \<le> unat (avail_ring q) + 2" and "3 \<le> unat (gm_size mem)"
    and "a = unat (avail_ring q) + 2 - 2 ^ 64"
  shows "virtq_process fn True q mem s = None \<and>
     virtq_process fn False q mem s =
       map_option (\<lambda>(q', mem', s', n).
           (q', if 0 < n then write_ignore mem' (used_ring q' + 2) (u16_to_le (last_avail_idx q')) else mem', s', n))
         (process_loop fn False (from_le [gm_bytes mem a, gm_bytes mem (Suc a)]) q mem s 0)"
proof -
  have "rs_add True (avail_ring q) 2 = None" using assms(3) by (simp add: rs_add_def checked_add_def)
  then have oc: "virtq_process fn True q mem s = None" using assms(1,2) by (auto simp: virtq_process_def)
  have "unat (avail_ring q + 2) = (unat (avail_ring q) + 2) mod 2 ^ 64" by (simp add: unat_word_ariths)
  also have "\<dots> = a" using assms(3,5) unat_bound[of "avail_ring q"] by (simp add: le_mod_geq)
  finally have a: "unat (avail_ring q + 2) = a" .
  have "a < 2" using assms(5) unat_bound[of "avail_ring q"] by auto
  then have "read_at mem (avail_ring q + 2) 2 = Inr [gm_bytes mem a, gm_bytes mem (Suc a)]"
    using assms(4) by (simp add: read_at_def checked_hva_def Let_def a upt_rec)
  then have "virtq_process fn False q mem s =
       map_option (\<lambda>(q', mem', s', n).
           (q', if 0 < n then write_ignore mem' (used_ring q' + 2) (u16_to_le (last_avail_idx q')) else mem', s', n))
         (process_loop fn False (from_le [gm_bytes mem a, gm_bytes mem (Suc a)]) q mem s 0)"
    using assms(1,2) by (cases "process_loop fn False (from_le [gm_bytes mem a, gm_bytes mem (Suc a)]) q mem s 0")
      (auto simp: virtq_process_def)
  then show ?thesis using oc by blast
qed

theorem ring_address_overflow_witness:
  "virtq_process (\<lambda>s _ mem. Some (s + 1, mem, 7)) True
     (virtqueue_new\<lparr>q_ready := True, q_num := 256, avail_ring := u64_max\<rparr>)
     \<lparr>gm_ptr = 1, gm_size = 4096, gm_bytes = (\<lambda>i. if i = 1 then 1 else 0)\<rparr> (5 :: nat) = None \<and>
   map_option (\<lambda>(_, _, s, n). (s, n)) (virtq_process (\<lambda>s _ mem. Some (s + 1, mem, 7)) False
     (virtqueue_new\<lparr>q_ready := True, q_num := 256, avail_ring := u64_max\<rparr>)
     \<lparr>gm_ptr = 1, gm_size = 4096, gm_bytes = (\<lambda>i. if i = 1 then 1 else 0)\<rparr> (5 :: nat)) = Some (6, 1)"
proof -
  let ?q = "virtqueue_new\<lparr>q_ready := True, q_num := 256, avail_ring := u64_max\<rparr>"
  let ?m = "\<lparr>gm_ptr = 1, gm_size = 4096, gm_bytes = (\<lambda>i. if i = 1 then 1 else 0)\<rparr> :: guest_memory"
  let ?f = "\<lambda>s _ mem. Some (s + 1, mem, 7)"
  let ?d = "\<lparr>d_addr = 0x100, d_len = 0, d_flags = 0, d_next = 0\<rparr>"
  have e: "avail_entry False ?q ?m = Some (Some 0)"
    by (simp add: avail_entry_def virtqueue_new_def ring_slot_def read_at_def checked_hva_def upt_rec)
  have r: "read_at ?m 0 16 = Inr [0,1,0,0,0,0,0,0,0,0,0,0,0,0,0,0]"
    by (simp add: read_at_def checked_hva_def upt_rec)
  have c: "collect_chain False ?m (desc_table ?q) (q_num ?q) 0 [] = Some [?d]"
    using r by (simp add: collect_chain.simps[of _ _ _ _ 0] virtqueue_new_def parse_desc_def subslice_def Let_def)
  obtain m2 where p: "put_used False ?q ?m 0 7 = Some m2" by (simp add: put_used_def)
  have "process_loop ?f False (from_le [1, 0]) ?q ?m 5 0 = Some (?q\<lparr>last_avail_idx := 1\<rparr>, m2, 6 :: nat, 1)"
    using e c p by (subst process_loop.simps, subst process_loop.simps) (simp add: virtqueue_new_def)
  then show ?thesis
    using ring_address_overflow[where q = ?q and mem = ?m and a = 1 and fn = ?f and s = "5 :: nat"]
    by (simp add: virtqueue_new_def option.map_comp comp_def case_prod_unfold)
qed

end
