(* ===== verification/Rng.thy ===== *)
theory Rng
  imports Virtqueue
begin

text \<open>
  The entropy device (\<open>src/virtio/rng.rs\<close>). The host's \<open>/dev/urandom\<close> is a sequence of
  outcomes: the \<open>n\<close>-th \<open>read_exact\<close> succeeds or fails, and fills the buffer with its own
  bytes when it succeeds. The device's state is that sequence and how many reads it has made.
\<close>

record virtio_rng =
  ent_ok :: "nat \<Rightarrow> bool"
  ent_byte :: "nat \<Rightarrow> nat \<Rightarrow> u8"
  ent_calls :: nat

text \<open>Opening the source fails with a panic; \<open>src\<close> is what the host opens.\<close>

definition rng_new :: "((nat \<Rightarrow> bool) \<times> (nat \<Rightarrow> nat \<Rightarrow> u8)) option \<Rightarrow> virtio_rng option" where
  "rng_new src = do {
     (ok, byte) \<leftarrow> src;
     Some \<lparr>ent_ok = ok, ent_byte = byte, ent_calls = 0\<rparr>
   }"

definition entropy_read :: "virtio_rng \<Rightarrow> nat \<Rightarrow> virtio_rng \<times> bytes option" where
  "entropy_read r n =
     (r\<lparr>ent_calls := ent_calls r + 1\<rparr>,
      if ent_ok r (ent_calls r) then Some (map (ent_byte r (ent_calls r)) [0..<n]) else None)"

fun rng_fill :: "bool \<Rightarrow> virtio_rng \<Rightarrow> guest_memory \<Rightarrow> u32 \<Rightarrow> virtq_desc list \<Rightarrow>
    (virtio_rng \<times> guest_memory \<times> u32) option" where
  "rng_fill oc r mem total_written [] = Some (r, mem, total_written)"
| "rng_fill oc r mem total_written (desc # chain) =
     (if d_flags desc AND VIRTQ_DESC_F_WRITE \<noteq> 0 \<and> 0 < d_len desc then
        case entropy_read r (unat (d_len desc)) of
          (r', None) \<Rightarrow> rng_fill oc r' mem total_written chain
        | (r', Some buf) \<Rightarrow>
            (case write_at mem (d_addr desc) buf of
               Inl _ \<Rightarrow> rng_fill oc r' mem total_written chain
             | Inr mem' \<Rightarrow> do {
                 t \<leftarrow> rs_add oc total_written (d_len desc);
                 rng_fill oc r' mem' t chain
               })
      else rng_fill oc r mem total_written chain)"

definition rng_process_chain :: "bool \<Rightarrow> virtio_rng handler" where
  "rng_process_chain oc r chain mem = rng_fill oc r mem 0 chain"

definition rng_device_id :: u32 where "rng_device_id = 4"
definition rng_device_features :: u64 where "rng_device_features = VIRTIO_F_VERSION_1"
definition rng_num_queues :: nat where "rng_num_queues = 1"

definition rng_on_notify :: "bool \<Rightarrow> virtio_rng \<Rightarrow> nat \<Rightarrow> virtqueue \<Rightarrow> guest_memory \<Rightarrow>
    (virtio_rng \<times> virtqueue \<times> guest_memory \<times> bool) option" where
  "rng_on_notify oc r queue_idx q mem =
     (if queue_idx \<noteq> 0 then Some (r, q, mem, False)
      else do {
        (q', mem', r', n) \<leftarrow> virtq_process (rng_process_chain oc) oc q mem r;
        Some (r', q', mem', 0 < n)
      })"

section \<open>Lemmas\<close>

text \<open>A byte the guest marked as writable for the device.\<close>

definition writable_byte :: "virtq_desc list \<Rightarrow> nat \<Rightarrow> bool" where
  "writable_byte chain a \<longleftrightarrow> (\<exists>d \<in> set chain. d_flags d AND VIRTQ_DESC_F_WRITE \<noteq> 0 \<and>
     unat (d_addr d) \<le> a \<and> a < unat (d_addr d) + unat (d_len d))"

lemma entropy_read_length: "entropy_read r n = (r', Some buf) \<Longrightarrow> length buf = n"
  by (auto simp: entropy_read_def split: if_splits)

lemma rng_fill_release: "\<exists>r' mem' t'. rng_fill False r mem t chain = Some (r', mem', t')"
  by (induction chain arbitrary: r mem t) (auto split: prod.split option.split sum.split)

lemma rng_fill_step:
  assumes "rng_fill oc r mem t (desc # chain) = Some (r', mem', t')"
  obtains r1 where "rng_fill oc r1 mem t chain = Some (r', mem', t')"
  | r1 mem1 buf where "d_flags desc AND VIRTQ_DESC_F_WRITE \<noteq> 0" "length buf = unat (d_len desc)"
      "write_at mem (d_addr desc) buf = Inr mem1"
      "rng_fill oc r1 mem1 (t + d_len desc) chain = Some (r', mem', t')"
  using assms
  by (auto simp: bind_eq_Some_conv dest: entropy_read_length dest!: rs_add_Some
      split: if_splits prod.splits option.splits sum.splits)

lemma rng_fill_frame:
  "rng_fill oc r mem t chain = Some (r', mem', t') \<Longrightarrow>
   gm_size mem' = gm_size mem \<and> gm_ptr mem' = gm_ptr mem \<and>
   (\<forall>a. \<not> writable_byte chain a \<longrightarrow> gm_bytes mem' a = gm_bytes mem a)"
proof (induction chain arbitrary: r mem t)
  case (Cons d chain)
  from Cons.prems show ?case
  proof (cases rule: rng_fill_step)
    case (1 r1)
    then show ?thesis using Cons.IH by (auto simp: writable_byte_def)
  next
    case (2 r1 mem1 buf)
    have IH: "gm_size mem' = gm_size mem1 \<and> gm_ptr mem' = gm_ptr mem1 \<and>
        (\<forall>a. \<not> writable_byte chain a \<longrightarrow> gm_bytes mem' a = gm_bytes mem1 a)"
      using Cons.IH 2(4) by blast
    have "gm_bytes mem1 a = gm_bytes mem a" if "\<not> writable_byte (d # chain) a" for a
      using that 2(1,2) memory_write_frame(3)[OF 2(3), of a] by (auto simp: writable_byte_def not_le)
    then show ?thesis
      using IH memory_write_frame(1,2)[OF 2(3)] by (auto simp: writable_byte_def)
  qed
qed simp

interpretation rng_any: chain_frame "rng_process_chain oc" "\<lambda>_. True" for oc
  by unfold_locales (use rng_fill_frame in \<open>auto simp: rng_process_chain_def\<close>)

interpretation rng: chain_handler "rng_process_chain False" "\<lambda>_. True"
  by unfold_locales (simp add: rng_process_chain_def rng_fill_release)

section \<open>Properties\<close>

text \<open>
  The entropy device writes only where the guest asked for it: processing a chain
  changes no byte of guest memory outside the descriptors marked device-writable, and
  neither the size nor the place of guest memory, whatever the chain holds.
\<close>

theorem rng_writes_only_writable:
  assumes "rng_process_chain oc r chain mem = Some (r', mem', w)"
  shows "gm_size mem' = gm_size mem \<and> gm_ptr mem' = gm_ptr mem \<and>
     (\<forall>a. \<not> writable_byte chain a \<longrightarrow> gm_bytes mem' a = gm_bytes mem a)"
  using rng_fill_frame[of oc r mem 0 chain r' mem' w] assms by (simp add: rng_process_chain_def)

theorem rng_writes_only_writable_witness:
  "gm_bytes (fst (snd (the (rng_process_chain True
      \<lparr>ent_ok = (\<lambda>_. True), ent_byte = (\<lambda>_ _. 7), ent_calls = 0\<rparr>
      [\<lparr>d_addr = 16, d_len = 2, d_flags = 0, d_next = 0\<rparr>]
      \<lparr>gm_ptr = 1, gm_size = 4096, gm_bytes = (\<lambda>_. 0)\<rparr>)))) 16 = 0"
proof -
  let ?r = "\<lparr>ent_ok = (\<lambda>_. True), ent_byte = (\<lambda>_ _. 7), ent_calls = 0\<rparr> :: virtio_rng"
  let ?c = "[\<lparr>d_addr = 16, d_len = 2, d_flags = 0, d_next = 0\<rparr>] :: virtq_desc list"
  let ?m = "\<lparr>gm_ptr = 1, gm_size = 4096, gm_bytes = (\<lambda>_. 0)\<rparr> :: guest_memory"
  have p: "rng_process_chain True ?r ?c ?m = Some (?r, ?m, 0)" by (simp add: rng_process_chain_def)
  show ?thesis using rng_writes_only_writable[OF p] p by (simp add: writable_byte_def)
qed

text \<open>
  A writable buffer inside guest memory is filled: when the host's source delivers,
  every byte of the buffer is the source's and the device reports the buffer's length.
\<close>

theorem rng_fills_buffer:
  assumes "d_flags d AND VIRTQ_DESC_F_WRITE \<noteq> 0" and "0 < d_len d"
    and "in_ram mem (d_addr d) (unat (d_len d))" and "ent_ok r (ent_calls r)"
  shows "\<exists>r' mem'. rng_process_chain oc r [d] mem = Some (r', mem', d_len d) \<and>
     ent_calls r' = ent_calls r + 1 \<and>
     read_at mem' (d_addr d) (unat (d_len d)) =
       Inr (map (ent_byte r (ent_calls r)) [0..<unat (d_len d)])"
proof -
  let ?buf = "map (ent_byte r (ent_calls r)) [0..<unat (d_len d)]"
  obtain mem' where w: "write_at mem (d_addr d) ?buf = Inr mem'"
    using assms(3) by (simp add: write_at_Inr_iff)
  have "rs_add oc 0 (d_len d) = Some (d_len d)"
    using rs_add_no_overflow[of 0 "d_len d" oc] unat_bound[of "d_len d"] by simp
  then have "rng_process_chain oc r [d] mem = Some (r\<lparr>ent_calls := ent_calls r + 1\<rparr>, mem', d_len d)"
    using assms w by (simp add: rng_process_chain_def entropy_read_def)
  then show ?thesis using gm.rd_wr_same[OF w] by auto
qed

theorem rng_fills_buffer_witness:
  "\<exists>r' mem'. rng_process_chain True \<lparr>ent_ok = (\<lambda>_. True), ent_byte = (\<lambda>_ i. of_nat i), ent_calls = 0\<rparr>
     [\<lparr>d_addr = 16, d_len = 2, d_flags = 2, d_next = 0\<rparr>]
     \<lparr>gm_ptr = 1, gm_size = 4096, gm_bytes = (\<lambda>_. 0)\<rparr> = Some (r', mem', 2) \<and>
     read_at mem' 16 2 = Inr [0, 1]"
  using rng_fills_buffer[of "\<lparr>d_addr = 16, d_len = 2, d_flags = 2, d_next = 0\<rparr>"
      "\<lparr>gm_ptr = 1, gm_size = 4096, gm_bytes = (\<lambda>_. 0)\<rparr>"
      "\<lparr>ent_ok = (\<lambda>_. True), ent_byte = (\<lambda>_ i. of_nat i), ent_calls = 0\<rparr>" True]
  by (auto simp: VIRTQ_DESC_F_WRITE_def in_ram_def upt_rec)

text \<open>
  Liveness of a notification in the release build: when the available ring and the used
  index lie in guest memory, notifying the queue always returns, processes every chain the
  driver made available, publishes the used index, asks for an interrupt exactly when it
  processed something, and changes of the queue only its position.
\<close>

theorem rng_notify_drains:
  assumes "q_ready q" and "q_num q \<noteq> 0" and "read_at mem (avail_ring q + 2) 2 = Inr idx"
    and "\<And>k. k < q_num q \<Longrightarrow> in_ram mem (avail_ring q + 4 + ucast k * 2) 2"
    and "in_ram mem (used_ring q + 2) 2" and "last_avail_idx q \<noteq> from_le idx"
  shows "\<exists>r' mem'. rng_on_notify False r 0 q mem =
       Some (r', q\<lparr>last_avail_idx := from_le idx\<rparr>, mem', True) \<and>
     gm_size mem' = gm_size mem \<and> read_at mem' (used_ring q + 2) 2 = Inr (u16_to_le (from_le idx))"
proof -
  obtain q' mem' r' n where p: "virtq_process (rng_process_chain False) False q mem r = Some (q', mem', r', n)"
    using rng.process_returns[where s = r and q = q and mem = mem] by auto
  note d = rng_any.process_drains[OF _ assms p]
  have q': "q' = q\<lparr>last_avail_idx := from_le idx\<rparr>" using rng_any.process_result(5)[OF _ p] d(1) by simp
  have "0 < n" using d(2) assms(6) by (simp add: unat_gt_0)
  then show ?thesis
    using p q' d rng_any.process_result(2)[OF _ p] by (simp add: rng_on_notify_def)
qed

theorem rng_notify_drains_witness:
  "\<exists>r' mem'. rng_on_notify False \<lparr>ent_ok = (\<lambda>_. True), ent_byte = (\<lambda>_ _. 7), ent_calls = 0\<rparr> 0
     (virtqueue_new\<lparr>q_ready := True, q_num := 2, used_ring := 0x100\<rparr>)
     \<lparr>gm_ptr = 1, gm_size = 4096, gm_bytes = (\<lambda>a. if a = 2 then 1 else 0)\<rparr>
     = Some (r', virtqueue_new\<lparr>q_ready := True, q_num := 2, used_ring := 0x100, last_avail_idx := 1\<rparr>,
        mem', True) \<and> read_at mem' 0x102 2 = Inr [1, 0]"
proof -
  let ?q = "virtqueue_new\<lparr>q_ready := True, q_num := 2, used_ring := 0x100\<rparr>"
  let ?m = "\<lparr>gm_ptr = 1, gm_size = 4096, gm_bytes = (\<lambda>a. if a = 2 then 1 else 0)\<rparr> :: guest_memory"
  have i: "read_at ?m (avail_ring ?q + 2) 2 = Inr [1, 0]"
    by (simp add: read_at_def checked_hva_def upt_rec virtqueue_new_def)
  have "in_ram ?m (avail_ring ?q + 4 + ucast k * 2) 2" if "k < q_num ?q" for k
  proof -
    have "unat k < 2" using that by (simp add: word_less_nat_alt)
    then have "unat (4 + ucast k * 2 :: u64) \<le> 6"
      by (simp add: unat_word_ariths unsigned_ucast_eq take_bit_nat_eq_self)
    then show ?thesis by (simp add: in_ram_def virtqueue_new_def)
  qed
  then show ?thesis
    using rng_notify_drains[OF _ _ i, of "\<lparr>ent_ok = (\<lambda>_. True), ent_byte = (\<lambda>_ _. 7), ent_calls = 0\<rparr>"]
    by (auto simp: in_ram_def virtqueue_new_def to_le_def upt_rec)
qed

end
