(* ===== verification/Blk.thy ===== *)
theory Blk
  imports Virtqueue
begin

text \<open>
  The block device (\<open>src/virtio/blk.rs\<close>). The backing image is a host file with its
  contents and the outcomes of the calls made on it: the \<open>n\<close>-th call may fail, and a
  failing \<open>write_all_at\<close> may have written a prefix of the buffer. No one else writes the
  image. The debug messages of the source have no effect on the device and are left out.
\<close>

section \<open>The host file\<close>

record host_file =
  f_data :: bytes
  f_calls :: nat
  f_read_ok :: "nat \<Rightarrow> bool"
  f_write_cut :: "nat \<Rightarrow> nat option"
  f_sync_ok :: "nat \<Rightarrow> bool"

text \<open>A write past the end extends the file, with zeros before the new bytes.\<close>

definition overwrite :: "bytes \<Rightarrow> nat \<Rightarrow> bytes \<Rightarrow> bytes" where
  "overwrite data off buf =
     (if buf = [] then data
      else take off (data @ replicate (off - length data) 0) @ buf @ drop (off + length buf) data)"

definition read_exact_at :: "host_file \<Rightarrow> nat \<Rightarrow> u64 \<Rightarrow> host_file \<times> bytes option" where
  "read_exact_at f n offset =
     (if n = 0 then (f, Some [])
      else (f\<lparr>f_calls := f_calls f + 1\<rparr>,
        if f_read_ok f (f_calls f) \<and> unat offset + n \<le> length (f_data f)
        then Some (subslice (unat offset) (unat offset + n) (f_data f)) else None))"

definition write_all_at :: "host_file \<Rightarrow> bytes \<Rightarrow> u64 \<Rightarrow> host_file \<times> bool" where
  "write_all_at f buf offset =
     (if buf = [] then (f, True)
      else let f' = f\<lparr>f_calls := f_calls f + 1\<rparr> in
        case f_write_cut f (f_calls f) of
          None \<Rightarrow> (f'\<lparr>f_data := overwrite (f_data f) (unat offset) buf\<rparr>, True)
        | Some m \<Rightarrow> (f'\<lparr>f_data := overwrite (f_data f) (unat offset) (take m buf)\<rparr>, False))"

definition sync_all :: "host_file \<Rightarrow> host_file \<times> bool" where
  "sync_all f = (f\<lparr>f_calls := f_calls f + 1\<rparr>, f_sync_ok f (f_calls f))"

section \<open>The device\<close>

definition VIRTIO_BLK_T_IN :: u32 where "VIRTIO_BLK_T_IN = 0"
definition VIRTIO_BLK_T_OUT :: u32 where "VIRTIO_BLK_T_OUT = 1"
definition VIRTIO_BLK_T_FLUSH :: u32 where "VIRTIO_BLK_T_FLUSH = 4"
definition VIRTIO_BLK_T_GET_ID :: u32 where "VIRTIO_BLK_T_GET_ID = 8"
definition VIRTIO_BLK_S_OK :: u8 where "VIRTIO_BLK_S_OK = 0"
definition VIRTIO_BLK_S_IOERR :: u8 where "VIRTIO_BLK_S_IOERR = 1"
definition VIRTIO_BLK_S_UNSUPP :: u8 where "VIRTIO_BLK_S_UNSUPP = 2"
definition VIRTIO_BLK_F_SEG_MAX :: u64 where "VIRTIO_BLK_F_SEG_MAX = push_bit 2 1"
definition VIRTIO_BLK_F_FLUSH :: u64 where "VIRTIO_BLK_F_FLUSH = push_bit 9 1"
definition SECTOR_SIZE :: u64 where "SECTOR_SIZE = 512"
definition VIRTIO_BLK_SEG_MAX :: u32 where "VIRTIO_BLK_SEG_MAX = 256 - 2"
definition VIRTIO_BLK_ID_BYTES :: nat where "VIRTIO_BLK_ID_BYTES = 20"

text \<open>The bytes of \<open>"ferrvm-blk"\<close>.\<close>

definition VIRTIO_BLK_ID_PREFIX :: bytes where
  "VIRTIO_BLK_ID_PREFIX = [0x66, 0x65, 0x72, 0x72, 0x76, 0x6d, 0x2d, 0x62, 0x6c, 0x6b]"

lemmas blk_consts = VIRTIO_BLK_T_IN_def VIRTIO_BLK_T_OUT_def VIRTIO_BLK_T_FLUSH_def
  VIRTIO_BLK_T_GET_ID_def VIRTIO_BLK_S_OK_def VIRTIO_BLK_S_IOERR_def VIRTIO_BLK_S_UNSUPP_def

record virtio_blk =
  blk_id :: u32
  disk :: host_file
  capacity_sectors :: u64
  blk_debug :: bool

text \<open>\<open>opened\<close> and \<open>metadata_len\<close> are the results of the two host calls.\<close>

definition blk_new :: "u32 \<Rightarrow> 'e + host_file \<Rightarrow> (host_file \<Rightarrow> 'e + u64) \<Rightarrow> bool \<Rightarrow> 'e + virtio_blk" where
  "blk_new i opened metadata_len dbg =
     (case opened of
        Inl e \<Rightarrow> Inl e
      | Inr f \<Rightarrow>
          (case metadata_len f of
             Inl e \<Rightarrow> Inl e
           | Inr len \<Rightarrow> Inr \<lparr>blk_id = i, disk = f, capacity_sectors = len div SECTOR_SIZE,
                blk_debug = dbg\<rparr>))"

text \<open>Decimal digits, as \<open>format!\<close> prints an unsigned integer.\<close>

fun decimal :: "nat \<Rightarrow> bytes" where
  "decimal n = (if n < 10 then [of_nat (48 + n)] else decimal (n div 10) @ [of_nat (48 + n mod 10)])"

declare decimal.simps [simp del]

definition blk_id_bytes :: "u32 \<Rightarrow> bytes" where
  "blk_id_bytes i = VIRTIO_BLK_ID_PREFIX @ decimal (unat i)"

text \<open>\<open>data.iter().map(|d| u64::from(d.len)).sum()\<close>\<close>

fun sum_lens :: "bool \<Rightarrow> u64 \<Rightarrow> virtq_desc list \<Rightarrow> u64 option" where
  "sum_lens oc acc [] = Some acc"
| "sum_lens oc acc (d # ds) = do { acc' \<leftarrow> rs_add oc acc (ucast (d_len d)); sum_lens oc acc' ds }"

text \<open>The loop over the data descriptors; the result carries the device, memory, the count and the status.\<close>

fun blk_io :: "bool \<Rightarrow> u32 \<Rightarrow> virtio_blk \<Rightarrow> guest_memory \<Rightarrow> u32 \<Rightarrow> u64 \<Rightarrow> virtq_desc list \<Rightarrow>
    (virtio_blk \<times> guest_memory \<times> u32 \<times> u8) option" where
  "blk_io oc req_type b mem written offset [] = Some (b, mem, written, VIRTIO_BLK_S_OK)"
| "blk_io oc req_type b mem written offset (desc # ds) =
     (if req_type = VIRTIO_BLK_T_IN then
        case read_exact_at (disk b) (unat (d_len desc)) offset of
          (f, None) \<Rightarrow> Some (b\<lparr>disk := f\<rparr>, mem, written, VIRTIO_BLK_S_IOERR)
        | (f, Some buf) \<Rightarrow>
            (case write_at mem (d_addr desc) buf of
               Inl _ \<Rightarrow> Some (b\<lparr>disk := f\<rparr>, mem, written, VIRTIO_BLK_S_IOERR)
             | Inr mem' \<Rightarrow> do {
                 written' \<leftarrow> rs_add oc written (d_len desc);
                 offset' \<leftarrow> rs_add oc offset (ucast (d_len desc));
                 blk_io oc req_type (b\<lparr>disk := f\<rparr>) mem' written' offset' ds
               })
      else if req_type = VIRTIO_BLK_T_OUT then
        case read_at mem (d_addr desc) (unat (d_len desc)) of
          Inl _ \<Rightarrow> Some (b, mem, written, VIRTIO_BLK_S_IOERR)
        | Inr buf \<Rightarrow>
            (case write_all_at (disk b) buf offset of
               (f, False) \<Rightarrow> Some (b\<lparr>disk := f\<rparr>, mem, written, VIRTIO_BLK_S_IOERR)
             | (f, True) \<Rightarrow> do {
                 offset' \<leftarrow> rs_add oc offset (ucast (d_len desc));
                 blk_io oc req_type (b\<lparr>disk := f\<rparr>) mem written offset' ds
               })
      else Some (b, mem, written, VIRTIO_BLK_S_UNSUPP))"

definition execute :: "bool \<Rightarrow> virtio_blk \<Rightarrow> u32 \<Rightarrow> u64 \<Rightarrow> virtq_desc list \<Rightarrow> guest_memory \<Rightarrow> u32 \<Rightarrow>
    (virtio_blk \<times> guest_memory \<times> u32 \<times> u8) option" where
  "execute oc b req_type sector data mem written =
     (if req_type = VIRTIO_BLK_T_FLUSH then
        case sync_all (disk b) of
          (f, ok) \<Rightarrow> Some (b\<lparr>disk := f\<rparr>, mem, written,
             if ok then VIRTIO_BLK_S_OK else VIRTIO_BLK_S_IOERR)
      else if req_type = VIRTIO_BLK_T_GET_ID then
        case data of
          [] \<Rightarrow> Some (b, mem, written, VIRTIO_BLK_S_IOERR)
        | desc # _ \<Rightarrow>
            let i = blk_id_bytes (blk_id b);
                len = min (unat (d_len desc)) VIRTIO_BLK_ID_BYTES;
                n = min (length i) len;
                buf = patch_at 0 (take n i) (replicate len 0)
            in (case write_at mem (d_addr desc) buf of
                  Inl _ \<Rightarrow> Some (b, mem, written, VIRTIO_BLK_S_IOERR)
                | Inr mem' \<Rightarrow> do {
                    written' \<leftarrow> rs_add oc written (of_nat len);
                    Some (b, mem', written', VIRTIO_BLK_S_OK)
                  })
      else do {
        total_len \<leftarrow> sum_lens oc 0 data;
        disk_bytes \<leftarrow> rs_mul oc (capacity_sectors b) SECTOR_SIZE;
        let fin = do { s \<leftarrow> checked_mul sector SECTOR_SIZE; checked_add s total_len };
        case fin of
          None \<Rightarrow> Some (b, mem, written, VIRTIO_BLK_S_IOERR)
        | Some e \<Rightarrow>
            if disk_bytes < e then Some (b, mem, written, VIRTIO_BLK_S_IOERR)
            else do {
              offset \<leftarrow> rs_mul oc sector SECTOR_SIZE;
              blk_io oc req_type b mem written offset data
            }
      })"

definition blk_process_chain :: "bool \<Rightarrow> virtio_blk handler" where
  "blk_process_chain oc b chain mem =
     (if length chain < 2 then Some (b, mem, 0)
      else case read_at mem (d_addr (chain ! 0)) 16 of
          Inl _ \<Rightarrow> Some (b, mem, 0)
        | Inr hdr \<Rightarrow>
            let req_type = from_le (subslice 0 4 hdr);
                sector = from_le (subslice 8 16 hdr);
                data = subslice 1 (length chain - 1) chain
            in do {
              (b', mem', written, status) \<leftarrow> execute oc b req_type sector data mem 0;
              case write_at mem' (d_addr (chain ! (length chain - 1))) [status] of
                Inl _ \<Rightarrow> Some (b', mem', written)
              | Inr mem'' \<Rightarrow> do { w \<leftarrow> rs_add oc written 1; Some (b', mem'', w) }
            })"

definition blk_device_id :: u32 where "blk_device_id = 2"
definition blk_device_features :: u64 where
  "blk_device_features = VIRTIO_F_VERSION_1 OR VIRTIO_BLK_F_FLUSH OR VIRTIO_BLK_F_SEG_MAX"
definition blk_num_queues :: nat where "blk_num_queues = 1"

definition blk_on_notify :: "bool \<Rightarrow> virtio_blk \<Rightarrow> nat \<Rightarrow> virtqueue \<Rightarrow> guest_memory \<Rightarrow>
    (virtio_blk \<times> virtqueue \<times> guest_memory \<times> bool) option" where
  "blk_on_notify oc b queue_idx q mem =
     (if queue_idx \<noteq> 0 then Some (b, q, mem, False)
      else do {
        (q', mem', b', n) \<leftarrow> virtq_process (blk_process_chain oc) oc q mem b;
        Some (b', q', mem', 0 < n)
      })"

definition blk_read_config :: "bool \<Rightarrow> virtio_blk \<Rightarrow> u64 \<Rightarrow> bytes \<Rightarrow> bytes option" where
  "blk_read_config oc b offset data =
     (let cfg = patch_at 12 (u32_to_le VIRTIO_BLK_SEG_MAX)
                 (patch_at 0 (u64_to_le (capacity_sectors b)) (replicate 16 0))
      in do {
        idxs \<leftarrow> index_seq oc offset (length data);
        Some (map (\<lambda>idx. if unat idx < length cfg then cfg ! unat idx else 0) idxs)
      })"

section \<open>Invariant\<close>

text \<open>The advertised capacity lies inside the image.\<close>

definition blk_inv :: "virtio_blk \<Rightarrow> bool" where
  "blk_inv b \<longleftrightarrow> unat (capacity_sectors b) * 512 \<le> length (f_data (disk b)) \<and>
     length (f_data (disk b)) < 2 ^ 64"

definition total_len_of :: "virtq_desc list \<Rightarrow> nat" where
  "total_len_of ds = sum_list (map (\<lambda>d. unat (d_len d)) ds)"

section \<open>Lemmas\<close>

lemma overwrite_inside:
  "off + length buf \<le> length data \<Longrightarrow> overwrite data off buf = patch_at off buf data"
  by (simp add: overwrite_def patch_at_def)

text \<open>\<open>b'\<close> is \<open>b\<close> with its image changed only at offsets in \<open>[lo, hi)\<close>.\<close>

definition image_frame :: "virtio_blk \<Rightarrow> virtio_blk \<Rightarrow> nat \<Rightarrow> nat \<Rightarrow> bool" where
  "image_frame b b' lo hi \<longleftrightarrow>
     capacity_sectors b' = capacity_sectors b \<and> blk_id b' = blk_id b \<and>
     length (f_data (disk b')) = length (f_data (disk b)) \<and>
     (\<forall>i < length (f_data (disk b)). i < lo \<or> hi \<le> i \<longrightarrow> f_data (disk b') ! i = f_data (disk b) ! i)"

lemma image_frame_refl [simp]: "image_frame b b lo hi"
  by (simp add: image_frame_def)

lemma image_frame_same [simp]: "f_data f = f_data (disk b) \<Longrightarrow> image_frame b (b\<lparr>disk := f\<rparr>) lo hi"
  by (simp add: image_frame_def)

lemma image_frame_trans:
  "image_frame b b1 lo m \<Longrightarrow> image_frame b1 b2 m hi \<Longrightarrow> lo \<le> m \<Longrightarrow> m \<le> hi \<Longrightarrow> image_frame b b2 lo hi"
  by (auto simp: image_frame_def)

lemma image_frame_patch:
  assumes "lo + length buf \<le> length (f_data (disk b))" "lo + length buf \<le> hi"
    and "f_data f = overwrite (f_data (disk b)) lo buf"
  shows "image_frame b (b\<lparr>disk := f\<rparr>) lo hi"
  using assms by (auto simp: image_frame_def overwrite_inside nth_patch_at)

lemma image_frame_inv: "blk_inv b \<Longrightarrow> image_frame b b' lo hi \<Longrightarrow> blk_inv b'"
  by (simp add: blk_inv_def image_frame_def)

lemma read_exact_at_data: "read_exact_at f n off = (f', r) \<Longrightarrow> f_data f' = f_data f"
  by (auto simp: read_exact_at_def split: if_splits)

lemma read_exact_at_Some:
  "read_exact_at f n off = (f', Some buf) \<Longrightarrow>
   length buf = n \<and> (n \<noteq> 0 \<longrightarrow> buf = subslice (unat off) (unat off + n) (f_data f))"
  by (auto simp: read_exact_at_def split: if_splits)

lemma write_all_at_data:
  assumes "write_all_at f buf off = (f', ok)"
  shows "\<exists>m. f_data f' = overwrite (f_data f) (unat off) (take m buf) \<and> (ok \<longrightarrow> m = length buf)"
proof (cases "buf = []")
  case True
  then show ?thesis using assms by (auto simp: write_all_at_def overwrite_def)
next
  case False
  show ?thesis
  proof (cases "f_write_cut f (f_calls f)")
    case None
    then show ?thesis
      using assms False by (intro exI[of _ "length buf"]) (auto simp: write_all_at_def Let_def)
  next
    case (Some m)
    then show ?thesis
      using assms False by (intro exI[of _ m]) (auto simp: write_all_at_def Let_def)
  qed
qed

lemma unat_ucast_len: "unat (ucast (l :: u32) :: u64) = unat l"
  using unat_bound[of l] by (simp add: unsigned_ucast_eq take_bit_nat_eq_self)

lemma of_nat_unat_len: "(of_nat (unat (l :: u32)) :: u64) = ucast l"
proof -
  have "(of_nat (unat (ucast l :: u64)) :: u64) = ucast l" by simp
  then show ?thesis by (simp only: unat_ucast_len)
qed

lemma sum_lens_eq:
  "unat acc + total_len_of ds < 2 ^ 64 \<Longrightarrow> sum_lens oc acc ds = Some (acc + of_nat (total_len_of ds))"
proof (induction ds arbitrary: acc)
  case (Cons d ds)
  have "unat (acc + ucast (d_len d)) = unat acc + unat (d_len d)"
    using Cons.prems by (simp add: total_len_of_def unat_plus_no_overflow unat_ucast_len)
  moreover have "rs_add oc acc (ucast (d_len d)) = Some (acc + ucast (d_len d))"
    using Cons.prems by (intro rs_add_no_overflow) (simp add: total_len_of_def unat_ucast_len)
  ultimately show ?case
    using Cons.prems Cons.IH[of "acc + ucast (d_len d)"]
    by (simp add: total_len_of_def of_nat_unat_len ac_simps)
qed (simp add: total_len_of_def)

lemma total_len_bound: "length ds \<le> 65536 \<Longrightarrow> total_len_of ds < 2 ^ 64"
proof -
  assume l: "length ds \<le> 65536"
  have "total_len_of ds \<le> length ds * 2 ^ 32"
  proof (induction ds)
    case (Cons d ds)
    then show ?case using unat_bound[of "d_len d"] by (simp add: total_len_of_def)
  qed (simp add: total_len_of_def)
  also have "\<dots> \<le> 65536 * 2 ^ 32" using l by simp
  finally show ?thesis by simp
qed

lemma blk_io_release: "\<exists>b' m' w' st. blk_io False req b mem w off ds = Some (b', m', w', st)"
  by (induction ds arbitrary: b mem w off) (auto split: prod.split option.split sum.split bool.split)

lemma blk_io_step:
  assumes r: "blk_io oc req b mem w off (d # ds) = Some res"
  obtains (in_fail) f where "req = VIRTIO_BLK_T_IN" "f_data f = f_data (disk b)"
      "res = (b\<lparr>disk := f\<rparr>, mem, w, VIRTIO_BLK_S_IOERR)"
  | (in_ok) f buf mem1 where "req = VIRTIO_BLK_T_IN"
      "read_exact_at (disk b) (unat (d_len d)) off = (f, Some buf)" "write_at mem (d_addr d) buf = Inr mem1"
      "blk_io oc req (b\<lparr>disk := f\<rparr>) mem1 (w + d_len d) (off + ucast (d_len d)) ds = Some res"
  | (out_fail) f buf where "req = VIRTIO_BLK_T_OUT" "length buf \<le> unat (d_len d)"
      "f_data f = overwrite (f_data (disk b)) (unat off) buf"
      "res = (b\<lparr>disk := f\<rparr>, mem, w, VIRTIO_BLK_S_IOERR)"
  | (out_ok) f buf where "req = VIRTIO_BLK_T_OUT" "read_at mem (d_addr d) (unat (d_len d)) = Inr buf"
      "f_data f = overwrite (f_data (disk b)) (unat off) buf"
      "blk_io oc req (b\<lparr>disk := f\<rparr>) mem w (off + ucast (d_len d)) ds = Some res"
  | (unsupp) "req \<noteq> VIRTIO_BLK_T_IN" "req \<noteq> VIRTIO_BLK_T_OUT" "res = (b, mem, w, VIRTIO_BLK_S_UNSUPP)"
proof -
  consider (i) "req = VIRTIO_BLK_T_IN" | (o') "req = VIRTIO_BLK_T_OUT"
    | (u) "req \<noteq> VIRTIO_BLK_T_IN" "req \<noteq> VIRTIO_BLK_T_OUT" by blast
  then show ?thesis
  proof cases
    case i
    obtain f rd where rd: "read_exact_at (disk b) (unat (d_len d)) off = (f, rd)" by fastforce
    note fd = read_exact_at_data[OF rd]
    show ?thesis
    proof (cases rd)
      case None
      then show ?thesis using r i rd fd by (intro in_fail[of f]) auto
    next
      case (Some buf)
      show ?thesis
      proof (cases "write_at mem (d_addr d) buf")
        case (Inl e)
        then show ?thesis using r i rd fd Some by (intro in_fail[of f]) auto
      next
        case (Inr mem1)
        then show ?thesis
          using r i rd Some by (intro in_ok[of f buf mem1]) (auto simp: bind_eq_Some_conv dest!: rs_add_Some)
      qed
    qed
  next
    case o'
    then have ni: "req \<noteq> VIRTIO_BLK_T_IN" by (simp add: blk_consts)
    show ?thesis
    proof (cases "read_at mem (d_addr d) (unat (d_len d))")
      case (Inl e)
      then show ?thesis
        using r o' ni by (intro out_fail[of "[]" "disk b"]) (auto simp: overwrite_def)
    next
      case (Inr buf)
      obtain f ok where wr: "write_all_at (disk b) buf off = (f, ok)" by fastforce
      obtain m where m: "f_data f = overwrite (f_data (disk b)) (unat off) (take m buf)" "ok \<longrightarrow> m = length buf"
        using write_all_at_data[OF wr] by blast
      have l: "length buf = unat (d_len d)" using gm.rd_length[OF Inr] .
      show ?thesis
      proof (cases ok)
        case True
        then show ?thesis
          using r o' ni Inr wr m by (intro out_ok[of buf f]) (auto simp: bind_eq_Some_conv dest!: rs_add_Some)
      next
        case False
        then show ?thesis using r o' ni Inr wr m l by (intro out_fail[of "take m buf" f]) auto
      qed
    qed
  next
    case u
    then show ?thesis using r by (intro unsupp) auto
  qed
qed

lemma total_len_Cons [simp]: "total_len_of (d # ds) = unat (d_len d) + total_len_of ds"
  and total_len_Nil [simp]: "total_len_of [] = 0"
  by (simp_all add: total_len_of_def)

lemma unat_offset_next:
  "unat off + unat (d_len d) < 2 ^ 64 \<Longrightarrow> unat (off + ucast (d_len d) :: u64) = unat off + unat (d_len d)"
  by (simp add: unat_plus_no_overflow unat_ucast_len)

lemma blk_io_frame:
  "blk_io oc req b mem w off ds = Some (b', mem', w', st) \<Longrightarrow>
   unat off + total_len_of ds \<le> length (f_data (disk b)) \<Longrightarrow> length (f_data (disk b)) < 2 ^ 64 \<Longrightarrow>
   image_frame b b' (unat off) (unat off + total_len_of ds) \<and>
   gm_size mem' = gm_size mem \<and> gm_ptr mem' = gm_ptr mem \<and>
   (req \<noteq> VIRTIO_BLK_T_OUT \<longrightarrow> f_data (disk b') = f_data (disk b))"
proof (induction ds arbitrary: b mem w off)
  case (Cons d ds)
  have off: "unat (off + ucast (d_len d)) = unat off + unat (d_len d)"
    using Cons.prems by (intro unat_offset_next) simp
  from Cons.prems(1) show ?case
  proof (cases rule: blk_io_step)
    case (in_ok f buf mem1)
    have fd: "f_data f = f_data (disk b)" using read_exact_at_data[OF in_ok(2)] .
    have IH: "image_frame (b\<lparr>disk := f\<rparr>) b' (unat (off + ucast (d_len d)))
          (unat (off + ucast (d_len d)) + total_len_of ds) \<and>
        gm_size mem' = gm_size mem1 \<and> gm_ptr mem' = gm_ptr mem1 \<and> f_data (disk b') = f_data f"
      using Cons.IH[OF in_ok(4)] Cons.prems fd off in_ok(1) by (simp add: blk_consts)
    have "image_frame b (b\<lparr>disk := f\<rparr>) (unat off) (unat off + unat (d_len d))" using fd by simp
    then show ?thesis
      using IH off memory_write_frame(1,2)[OF in_ok(3)] fd image_frame_trans[of b "b\<lparr>disk := f\<rparr>"]
      by (auto simp: add.assoc)
  next
    case (out_ok f buf)
    have l: "length buf = unat (d_len d)" using gm.rd_length[OF out_ok(2)] .
    have fr: "image_frame b (b\<lparr>disk := f\<rparr>) (unat off) (unat off + unat (d_len d))"
      using Cons.prems(2) l out_ok(3) by (intro image_frame_patch[of _ buf]) auto
    then have "length (f_data f) = length (f_data (disk b))" by (simp add: image_frame_def)
    then have "image_frame (b\<lparr>disk := f\<rparr>) b' (unat (off + ucast (d_len d)))
          (unat (off + ucast (d_len d)) + total_len_of ds) \<and>
        gm_size mem' = gm_size mem \<and> gm_ptr mem' = gm_ptr mem"
      using Cons.IH[OF out_ok(4)] Cons.prems off by simp
    then show ?thesis
      using off fr out_ok(1) image_frame_trans[of b "b\<lparr>disk := f\<rparr>"] by (auto simp: add.assoc)
  next
    case (out_fail f buf)
    then have "image_frame b (b\<lparr>disk := f\<rparr>) (unat off) (unat off + total_len_of (d # ds))"
      using Cons.prems(2) by (intro image_frame_patch[of _ buf]) auto
    then show ?thesis using out_fail by simp
  qed (auto simp: blk_consts)
qed simp

text \<open>What the bounds check of \<open>execute\<close> computes, for chains the queue can deliver.\<close>

definition in_bounds :: "virtio_blk \<Rightarrow> u64 \<Rightarrow> virtq_desc list \<Rightarrow> bool" where
  "in_bounds b sector data \<longleftrightarrow> unat sector * 512 + total_len_of data \<le> unat (capacity_sectors b) * 512"

lemma capacity_bytes:
  assumes "blk_inv b"
  shows "unat (capacity_sectors b * 512) = unat (capacity_sectors b) * 512"
    and "rs_mul oc (capacity_sectors b) SECTOR_SIZE = Some (capacity_sectors b * 512)"
  using assms by (auto simp: blk_inv_def unat_word_ariths rs_mul_def checked_mul_def SECTOR_SIZE_def)

lemma execute_io:
  assumes inv: "blk_inv b" and len: "length data \<le> 65536"
    and req: "req \<noteq> VIRTIO_BLK_T_FLUSH" "req \<noteq> VIRTIO_BLK_T_GET_ID"
  shows "execute oc b req sector data mem w =
     (if in_bounds b sector data then blk_io oc req b mem w (sector * 512) data
      else Some (b, mem, w, VIRTIO_BLK_S_IOERR))"
    and "in_bounds b sector data \<Longrightarrow> unat (sector * 512) = unat sector * 512"
proof -
  have tot: "sum_lens oc 0 data = Some (of_nat (total_len_of data))"
    "unat (of_nat (total_len_of data) :: u64) = total_len_of data"
    using sum_lens_eq[of 0 data oc] total_len_bound[OF len] by (simp_all add: unat_of_nat)
  have cap: "unat (capacity_sectors b) * 512 < 2 ^ 64" using inv by (simp add: blk_inv_def)
  show sec: "in_bounds b sector data \<Longrightarrow> unat (sector * 512) = unat sector * 512"
    using cap by (simp add: in_bounds_def unat_word_ariths)
  let ?fin = "do { s \<leftarrow> checked_mul sector SECTOR_SIZE; checked_add s (of_nat (total_len_of data)) }"
  show "execute oc b req sector data mem w =
     (if in_bounds b sector data then blk_io oc req b mem w (sector * 512) data
      else Some (b, mem, w, VIRTIO_BLK_S_IOERR))"
  proof (cases "unat sector * 512 < 2 ^ 64 \<and> unat sector * 512 + total_len_of data < 2 ^ 64")
    case True
    then have s: "unat (sector * 512) = unat sector * 512" by (simp add: unat_word_ariths)
    then have fin: "?fin = Some (sector * 512 + of_nat (total_len_of data))"
      "unat (sector * 512 + of_nat (total_len_of data)) = unat sector * 512 + total_len_of data"
      using True tot(2) by (simp_all add: checked_mul_def checked_add_def SECTOR_SIZE_def unat_plus_no_overflow)
    have "rs_mul oc sector SECTOR_SIZE = Some (sector * 512)"
      using True by (simp add: rs_mul_def checked_mul_def SECTOR_SIZE_def)
    then show ?thesis
      using req tot fin capacity_bytes[OF inv]
      by (auto simp: execute_def Let_def in_bounds_def word_less_nat_alt not_le)
  next
    case False
    then have "?fin = None"
      using tot(2) by (auto simp: checked_mul_def checked_add_def SECTOR_SIZE_def unat_word_ariths)
    then show ?thesis
      using False req tot capacity_bytes[OF inv] cap
      by (auto simp: execute_def Let_def in_bounds_def)
  qed
qed

lemma execute_cases:
  assumes inv: "blk_inv b" and len: "length data \<le> 65536"
    and r: "execute oc b req sector data mem w = Some (b', mem', w', st)"
  shows "image_frame b b' 0 (unat (capacity_sectors b) * 512) \<and>
     gm_size mem' = gm_size mem \<and> gm_ptr mem' = gm_ptr mem \<and>
     (req \<noteq> VIRTIO_BLK_T_OUT \<longrightarrow> f_data (disk b') = f_data (disk b))"
proof -
  consider (flush) "req = VIRTIO_BLK_T_FLUSH" | (get_id) "req = VIRTIO_BLK_T_GET_ID"
    | (io) "req \<noteq> VIRTIO_BLK_T_FLUSH" "req \<noteq> VIRTIO_BLK_T_GET_ID" by blast
  then show ?thesis
  proof cases
    case flush
    then show ?thesis using r by (auto simp: execute_def sync_all_def)
  next
    case get_id
    then have "req \<noteq> VIRTIO_BLK_T_FLUSH" by (simp add: blk_consts)
    then show ?thesis
      using r get_id memory_write_frame(1,2)
      by (fastforce simp: execute_def Let_def bind_eq_Some_conv split: list.splits sum.splits)
  next
    case io
    show ?thesis
    proof (cases "in_bounds b sector data")
      case True
      have "unat (sector * 512) + total_len_of data \<le> length (f_data (disk b))"
        "unat (sector * 512) + total_len_of data \<le> unat (capacity_sectors b) * 512"
        using True inv execute_io(2)[OF inv len io True] by (simp_all add: in_bounds_def blk_inv_def)
      then show ?thesis
        using blk_io_frame[of oc req b mem w "sector * 512" data b' mem' w' st] r True inv
        by (auto simp: execute_io(1)[OF inv len io] image_frame_def blk_inv_def)
    next
      case False
      then show ?thesis using r by (simp add: execute_io(1)[OF inv len io])
    qed
  qed
qed

lemma execute_release: "\<exists>b' m' w' st. execute False b req sector data mem w = Some (b', m', w', st)"
proof -
  have s: "\<exists>t. sum_lens False acc ds = Some t" for acc ds by (induction ds arbitrary: acc) auto
  obtain t where t: "sum_lens False 0 data = Some t" using s by blast
  obtain r where "blk_io False req b mem w (sector * SECTOR_SIZE) data = Some r"
    using blk_io_release by blast
  then show ?thesis
    using t by (cases r, cases data)
       (auto simp del: blk_io.simps sum_lens.simps simp: execute_def Let_def rs_mul_def
          split: prod.split sum.split option.split)
qed

lemma chain_data_length: "length (subslice 1 (length chain - 1) chain) \<le> length chain"
  by simp

lemma blk_chain_result:
  assumes inv: "blk_inv b" and len: "length chain \<le> 65536"
    and r: "blk_process_chain oc b chain mem = Some (b', mem', w)"
  shows "image_frame b b' 0 (unat (capacity_sectors b) * 512) \<and>
     gm_size mem' = gm_size mem \<and> gm_ptr mem' = gm_ptr mem"
proof (cases "b' = b \<and> mem' = mem")
  case False
  then obtain hdr where h: "\<not> length chain < 2" "read_at mem (d_addr (chain ! 0)) 16 = Inr hdr"
    using r by (auto simp: blk_process_chain_def split: if_splits sum.splits)
  obtain b1 m1 w1 st where e: "execute oc b (from_le (subslice 0 4 hdr)) (from_le (subslice 8 16 hdr))
      (subslice 1 (length chain - 1) chain) mem 0 = Some (b1, m1, w1, st)"
    using r h by (auto simp: blk_process_chain_def Let_def bind_eq_Some_conv)
  then have "b' = b1" "gm_size mem' = gm_size m1" "gm_ptr mem' = gm_ptr m1"
    using r h memory_write_frame(1,2)
    by (auto simp: blk_process_chain_def Let_def bind_eq_Some_conv split: sum.splits)
  moreover have "length (subslice 1 (length chain - 1) chain) \<le> 65536"
    using len chain_data_length[of chain] by linarith
  ultimately show ?thesis using execute_cases[OF inv _ e] by simp
qed simp

lemma blk_chain_release: "\<exists>b' m' w. blk_process_chain False b chain mem = Some (b', m', w)"
proof (cases "length chain < 2")
  case False
  show ?thesis
  proof (cases "read_at mem (d_addr (chain ! 0)) 16")
    case (Inr hdr)
    obtain b1 m1 w1 st where "execute False b (from_le (subslice 0 4 hdr)) (from_le (subslice 8 16 hdr))
        (subslice 1 (length chain - 1) chain) mem 0 = Some (b1, m1, w1, st)"
      using execute_release by blast
    then show ?thesis
      using False Inr by (auto simp: blk_process_chain_def Let_def split: sum.split)
  qed (use False in \<open>simp add: blk_process_chain_def\<close>)
qed (simp add: blk_process_chain_def)

interpretation blk_any: chain_frame "blk_process_chain oc" blk_inv for oc
  by unfold_locales (use blk_chain_result image_frame_inv in blast)

interpretation blk: chain_handler "blk_process_chain False" blk_inv
  by unfold_locales (rule blk_chain_release)

lemma blk_io_status:
  "blk_io oc req b mem w off ds = Some (b', mem', w', st) \<Longrightarrow>
   st = VIRTIO_BLK_S_OK \<or> st = VIRTIO_BLK_S_IOERR \<or> st = VIRTIO_BLK_S_UNSUPP"
proof (induction ds arbitrary: b mem w off)
  case (Cons d ds)
  from Cons.prems show ?case
    by (cases rule: blk_io_step) (simp_all only: prod.inject simp_thms Cons.IH)
qed simp

lemma execute_status:
  assumes "execute oc b req sector data mem w = Some (b', mem', w', st)"
  shows "st \<in> {VIRTIO_BLK_S_OK, VIRTIO_BLK_S_IOERR, VIRTIO_BLK_S_UNSUPP}"
  using assms blk_io_status[of oc req b mem w _ data b' mem' w' st]
  by (auto simp: execute_def Let_def bind_eq_Some_conv
      split: if_splits list.splits sum.splits option.splits prod.splits)

text \<open>A successful write stores the guest's buffers one after the other.\<close>

definition gather :: "guest_memory \<Rightarrow> virtq_desc list \<Rightarrow> bytes" where
  "gather mem ds = concat (map (\<lambda>d. map (\<lambda>i. gm_bytes mem (unat (d_addr d) + i)) [0..<unat (d_len d)]) ds)"

lemma length_gather: "length (gather mem ds) = total_len_of ds"
  by (induction ds) (auto simp: gather_def)

lemma blk_io_write:
  "blk_io oc VIRTIO_BLK_T_OUT b mem w off ds = Some (b', mem', w', VIRTIO_BLK_S_OK) \<Longrightarrow>
   unat off + total_len_of ds \<le> length (f_data (disk b)) \<Longrightarrow> length (f_data (disk b)) < 2 ^ 64 \<Longrightarrow>
   mem' = mem \<and> w' = w \<and> f_data (disk b') = patch_at (unat off) (gather mem ds) (f_data (disk b))"
proof (induction ds arbitrary: b w off)
  case Nil
  then show ?case by (simp add: gather_def patch_at_def)
next
  case (Cons d ds)
  have off: "unat (off + ucast (d_len d)) = unat off + unat (d_len d)"
    using Cons.prems by (intro unat_offset_next) simp
  from Cons.prems(1) show ?case
  proof (cases rule: blk_io_step)
    case (out_ok f buf)
    have buf: "buf = map (\<lambda>i. gm_bytes mem (unat (d_addr d) + i)) [0..<unat (d_len d)]"
      using out_ok(2) by (simp add: read_at_Inr_iff)
    then have l: "length buf = unat (d_len d)" by simp
    have fd: "f_data f = patch_at (unat off) buf (f_data (disk b))"
      using out_ok(3) Cons.prems(2) l by (simp add: overwrite_inside)
    then have "length (f_data f) = length (f_data (disk b))" using Cons.prems(2) l by simp
    then have "mem' = mem \<and> w' = w \<and>
        f_data (disk b') = patch_at (unat (off + ucast (d_len d))) (gather mem ds) (f_data f)"
      using Cons.IH[OF out_ok(4)] Cons.prems off by simp
    moreover have "patch_at (unat off + unat (d_len d)) (gather mem ds) (patch_at (unat off) buf (f_data (disk b)))
        = patch_at (unat off) (gather mem (d # ds)) (f_data (disk b))"
      using Cons.prems(2) l patch_at_append[of "unat off" buf "f_data (disk b)" "gather mem ds"]
      by (simp add: gather_def buf[symmetric])
    ultimately show ?thesis using off fd by simp
  qed (auto simp: blk_consts)
qed

lemma blk_io_read_one:
  assumes "blk_io oc VIRTIO_BLK_T_IN b mem w off [d] = Some (b', mem', w', VIRTIO_BLK_S_OK)"
    and "unat off + unat (d_len d) \<le> length (f_data (disk b))"
  shows "read_at mem' (d_addr d) (unat (d_len d)) =
       Inr (subslice (unat off) (unat off + unat (d_len d)) (f_data (disk b))) \<and>
     w' = w + d_len d \<and> f_data (disk b') = f_data (disk b)"
  using assms(1)
proof (cases rule: blk_io_step)
  case (in_ok f buf mem1)
  have "length buf = unat (d_len d)" "buf = subslice (unat off) (unat off + unat (d_len d)) (f_data (disk b))"
    using read_exact_at_Some[OF in_ok(2)] by (auto simp: subslice_def)
  then show ?thesis
    using in_ok gm.rd_wr_same[OF in_ok(3)] read_exact_at_data[OF in_ok(2)] by auto
qed (auto simp: blk_consts)

section \<open>Properties\<close>

text \<open>
  C6. Safety of the backing image: whatever chain the guest submits and whatever the host
  file does (failures and partial writes included), processing it never grows or shrinks the
  image, never changes a byte beyond the advertised capacity, keeps the capacity and the
  size of guest memory.
\<close>

theorem blk_image_safe:
  assumes "blk_inv b" and "length chain \<le> 65536"
    and "blk_process_chain oc b chain mem = Some (b', mem', w)"
  shows "blk_inv b' \<and> capacity_sectors b' = capacity_sectors b \<and>
     length (f_data (disk b')) = length (f_data (disk b)) \<and>
     (\<forall>i < length (f_data (disk b)). unat (capacity_sectors b) * 512 \<le> i \<longrightarrow>
        f_data (disk b') ! i = f_data (disk b) ! i) \<and>
     gm_size mem' = gm_size mem \<and> gm_ptr mem' = gm_ptr mem"
  using blk_chain_result[OF assms] image_frame_inv[OF assms(1)] by (auto simp: image_frame_def)

theorem blk_image_safe_witness:
  "\<exists>b' mem' w. blk_process_chain False \<lparr>blk_id = 0, disk = \<lparr>f_data = replicate 600 7, f_calls = 0,
        f_read_ok = (\<lambda>_. True), f_write_cut = (\<lambda>_. Some 3), f_sync_ok = (\<lambda>_. True)\<rparr>,
        capacity_sectors = 1, blk_debug = False\<rparr>
      [\<lparr>d_addr = 0, d_len = 16, d_flags = 1, d_next = 1\<rparr>, \<lparr>d_addr = 64, d_len = 512, d_flags = 1, d_next = 2\<rparr>,
       \<lparr>d_addr = 32, d_len = 1, d_flags = 2, d_next = 0\<rparr>]
      \<lparr>gm_ptr = 1, gm_size = 4096, gm_bytes = (\<lambda>_. 0)(0 := 1)\<rparr> = Some (b', mem', w) \<and>
    length (f_data (disk b')) = 600 \<and> f_data (disk b') ! 599 = 7"
proof -
  let ?b = "\<lparr>blk_id = 0, disk = \<lparr>f_data = replicate 600 7, f_calls = 0, f_read_ok = (\<lambda>_. True),
       f_write_cut = (\<lambda>_. Some 3), f_sync_ok = (\<lambda>_. True)\<rparr>, capacity_sectors = 1, blk_debug = False\<rparr>"
  let ?c = "[\<lparr>d_addr = 0, d_len = 16, d_flags = 1, d_next = 1\<rparr>, \<lparr>d_addr = 64, d_len = 512, d_flags = 1, d_next = 2\<rparr>,
       \<lparr>d_addr = 32, d_len = 1, d_flags = 2, d_next = 0\<rparr>] :: virtq_desc list"
  let ?m = "\<lparr>gm_ptr = 1, gm_size = 4096, gm_bytes = (\<lambda>_. 0)(0 := 1)\<rparr> :: guest_memory"
  have inv: "blk_inv ?b" by (simp add: blk_inv_def)
  obtain b' mem' w where r: "blk_process_chain False ?b ?c ?m = Some (b', mem', w)"
    using blk_chain_release by blast
  have "length (f_data (disk b')) = 600 \<and> f_data (disk b') ! 599 = 7"
    using blk_image_safe[OF inv _ r] by simp
  then show ?thesis using r by blast
qed

text \<open>
  Requests outside the disk are refused before any data moves: a read, write or unknown
  request whose sectors and buffers do not fit the capacity returns the I/O error status and
  changes neither the device, nor guest memory, nor the count of bytes written; the
  arithmetic cannot be made to wrap, whatever the sector number.
\<close>

theorem blk_out_of_bounds:
  assumes "blk_inv b" and "length data \<le> 65536"
    and "req \<noteq> VIRTIO_BLK_T_FLUSH" and "req \<noteq> VIRTIO_BLK_T_GET_ID"
    and "unat (capacity_sectors b) * 512 < unat sector * 512 + total_len_of data"
  shows "execute oc b req sector data mem w = Some (b, mem, w, VIRTIO_BLK_S_IOERR)"
  using execute_io(1)[OF assms(1-4)] assms(5) by (simp add: in_bounds_def)

theorem blk_out_of_bounds_witness:
  "execute True \<lparr>blk_id = 0, disk = \<lparr>f_data = replicate 512 7, f_calls = 0, f_read_ok = (\<lambda>_. True),
       f_write_cut = (\<lambda>_. None), f_sync_ok = (\<lambda>_. True)\<rparr>, capacity_sectors = 1, blk_debug = False\<rparr>
     1 0x80000000000001 [\<lparr>d_addr = 0, d_len = 512, d_flags = 0, d_next = 0\<rparr>]
     \<lparr>gm_ptr = 1, gm_size = 4096, gm_bytes = (\<lambda>_. 0)\<rparr> 0
   = Some (\<lparr>blk_id = 0, disk = \<lparr>f_data = replicate 512 7, f_calls = 0, f_read_ok = (\<lambda>_. True),
       f_write_cut = (\<lambda>_. None), f_sync_ok = (\<lambda>_. True)\<rparr>, capacity_sectors = 1, blk_debug = False\<rparr>,
       \<lparr>gm_ptr = 1, gm_size = 4096, gm_bytes = (\<lambda>_. 0)\<rparr>, 0, 1)"
  by (subst blk_out_of_bounds) (simp_all add: blk_inv_def blk_consts)

text \<open>
  C26. Disk round trip: after a write request that reported success, the image holds the
  guest's buffers, concatenated, at the request's sector and is unchanged elsewhere; a later
  successful read of the same bytes into one buffer puts exactly them into guest memory.
\<close>

theorem blk_write_read:
  assumes "blk_inv b" and "length data \<le> 65536"
    and "execute oc b VIRTIO_BLK_T_OUT sector data mem 0 = Some (b1, mem1, w1, VIRTIO_BLK_S_OK)"
    and "unat (d_len d) = total_len_of data"
    and "execute oc b1 VIRTIO_BLK_T_IN sector [d] mem2 0 = Some (b2, mem3, w2, VIRTIO_BLK_S_OK)"
  shows "mem1 = mem \<and> w1 = 0 \<and>
     f_data (disk b1) = patch_at (unat sector * 512) (gather mem data) (f_data (disk b)) \<and>
     read_at mem3 (d_addr d) (unat (d_len d)) = Inr (gather mem data) \<and> w2 = d_len d"
proof -
  have ne: "VIRTIO_BLK_T_OUT \<noteq> VIRTIO_BLK_T_FLUSH" "VIRTIO_BLK_T_OUT \<noteq> VIRTIO_BLK_T_GET_ID"
    "VIRTIO_BLK_T_IN \<noteq> VIRTIO_BLK_T_FLUSH" "VIRTIO_BLK_T_IN \<noteq> VIRTIO_BLK_T_GET_ID"
    "VIRTIO_BLK_S_OK \<noteq> VIRTIO_BLK_S_IOERR" by (simp_all add: blk_consts)
  have ib: "in_bounds b sector data"
    using assms(3) ne execute_io(1)[OF assms(1,2) ne(1,2)] by (auto split: if_splits)
  note sec = execute_io(2)[OF assms(1,2) ne(1,2) ib]
  have fit: "unat (sector * 512) + total_len_of data \<le> length (f_data (disk b))"
    and lt: "length (f_data (disk b)) < 2 ^ 64"
    using ib assms(1) sec by (simp_all add: in_bounds_def blk_inv_def)
  have "blk_io oc VIRTIO_BLK_T_OUT b mem 0 (sector * 512) data = Some (b1, mem1, w1, VIRTIO_BLK_S_OK)"
    using assms(3) ib execute_io(1)[OF assms(1,2) ne(1,2)] by simp
  note w = blk_io_write[OF this fit lt]
  have inv1: "blk_inv b1"
    using execute_cases[OF assms(1-3)] image_frame_inv[OF assms(1)] by blast
  have "in_bounds b1 sector [d]"
    using assms(5) ne execute_io(1)[OF inv1 _ ne(3,4), of "[d]"] by (auto split: if_splits)
  then have rd: "blk_io oc VIRTIO_BLK_T_IN b1 mem2 0 (sector * 512) [d] = Some (b2, mem3, w2, VIRTIO_BLK_S_OK)"
    using assms(5) execute_io(1)[OF inv1 _ ne(3,4), of "[d]"] by simp
  have "length (f_data (disk b1)) = length (f_data (disk b))"
    using w fit by (simp add: length_gather)
  then have "read_at mem3 (d_addr d) (unat (d_len d)) =
      Inr (subslice (unat sector * 512) (unat sector * 512 + unat (d_len d)) (f_data (disk b1))) \<and> w2 = d_len d"
    using blk_io_read_one[OF rd] fit sec assms(4) by simp
  moreover have "subslice (unat sector * 512) (unat sector * 512 + unat (d_len d)) (f_data (disk b1)) = gather mem data"
    using w sec fit assms(4) by (simp add: subslice_def patch_at_def length_gather)
  ultimately show ?thesis using w sec by simp
qed

theorem blk_write_read_witness:
  "\<exists>b1 b2 mem3. execute True \<lparr>blk_id = 0, disk = \<lparr>f_data = replicate 512 0, f_calls = 0,
       f_read_ok = (\<lambda>_. True), f_write_cut = (\<lambda>_. None), f_sync_ok = (\<lambda>_. True)\<rparr>,
       capacity_sectors = 1, blk_debug = False\<rparr>
     VIRTIO_BLK_T_OUT 0 [\<lparr>d_addr = 16, d_len = 2, d_flags = 0, d_next = 0\<rparr>]
     \<lparr>gm_ptr = 1, gm_size = 4096, gm_bytes = (\<lambda>a. if a = 16 then 104 else 105)\<rparr> 0
     = Some (b1, \<lparr>gm_ptr = 1, gm_size = 4096, gm_bytes = (\<lambda>a. if a = 16 then 104 else 105)\<rparr>, 0, VIRTIO_BLK_S_OK) \<and>
   execute True b1 VIRTIO_BLK_T_IN 0 [\<lparr>d_addr = 64, d_len = 2, d_flags = 2, d_next = 0\<rparr>]
     \<lparr>gm_ptr = 1, gm_size = 4096, gm_bytes = (\<lambda>_. 0)\<rparr> 0 = Some (b2, mem3, 2, VIRTIO_BLK_S_OK) \<and>
   read_at mem3 64 2 = Inr [104, 105]"
proof -
  let ?b = "\<lparr>blk_id = 0, disk = \<lparr>f_data = replicate 512 0, f_calls = 0,
       f_read_ok = (\<lambda>_. True), f_write_cut = (\<lambda>_. None), f_sync_ok = (\<lambda>_. True)\<rparr>,
       capacity_sectors = 1, blk_debug = False\<rparr> :: virtio_blk"
  let ?m = "\<lparr>gm_ptr = 1, gm_size = 4096, gm_bytes = (\<lambda>a. if a = 16 then 104 else 105)\<rparr> :: guest_memory"
  let ?m2 = "\<lparr>gm_ptr = 1, gm_size = 4096, gm_bytes = (\<lambda>_. 0)\<rparr> :: guest_memory"
  let ?o = "\<lparr>d_addr = 16, d_len = 2, d_flags = 0, d_next = 0\<rparr> :: virtq_desc"
  let ?i = "\<lparr>d_addr = 64, d_len = 2, d_flags = 2, d_next = 0\<rparr> :: virtq_desc"
  have inv: "blk_inv ?b" by (simp add: blk_inv_def)
  have rd: "read_at ?m 16 2 = Inr [104, 105]" by (simp add: read_at_def checked_hva_def upt_rec)
  have x: "execute True ?b VIRTIO_BLK_T_OUT 0 [?o] ?m 0 = blk_io True VIRTIO_BLK_T_OUT ?b ?m 0 0 [?o]"
    using execute_io(1)[OF inv, of "[?o]" VIRTIO_BLK_T_OUT True 0 ?m 0]
    by (simp add: in_bounds_def blk_consts del: blk_io.simps)
  obtain b1 where e1: "execute True ?b VIRTIO_BLK_T_OUT 0 [?o] ?m 0 = Some (b1, ?m, 0, VIRTIO_BLK_S_OK)"
    and inv1: "blk_inv b1" and ok: "f_read_ok (disk b1) (f_calls (disk b1))" "length (f_data (disk b1)) = 512"
    by (simp add: x[unfolded blk_consts] blk_consts rd write_all_at_def overwrite_def blk_inv_def rs_add_def checked_add_def)
  have "in_bounds b1 0 [?i]"
    using execute_cases[OF inv _ e1] by (simp add: in_bounds_def image_frame_def total_len_of_def)
  then have y: "execute True b1 VIRTIO_BLK_T_IN 0 [?i] ?m2 0 = blk_io True VIRTIO_BLK_T_IN b1 ?m2 0 0 [?i]"
    using execute_io(1)[OF inv1, of "[?i]" VIRTIO_BLK_T_IN True 0 ?m2 0] by (simp add: blk_consts del: blk_io.simps)
  obtain b2 mem3 where e2: "execute True b1 VIRTIO_BLK_T_IN 0 [?i] ?m2 0 = Some (b2, mem3, 2, VIRTIO_BLK_S_OK)"
    using ok by (simp add: y[unfolded blk_consts] blk_consts read_exact_at_def write_at_def checked_hva_def rs_add_def checked_add_def)
  show ?thesis
    using blk_write_read[OF inv _ e1 _ e2] e1 e2 by (auto simp: total_len_of_def gather_def upt_rec)
qed

text \<open>
  Identification: a \<open>GET_ID\<close> request into a buffer inside guest memory stores the device's
  name and number, truncated to the buffer and to twenty bytes and padded with zeros, and
  counts those bytes.
\<close>

theorem blk_get_id:
  assumes "in_ram mem (d_addr d) (unat (d_len d))"
  shows "\<exists>mem'. execute oc b VIRTIO_BLK_T_GET_ID sector (d # ds) mem 0 =
       Some (b, mem', of_nat (min (unat (d_len d)) 20), VIRTIO_BLK_S_OK) \<and>
     read_at mem' (d_addr d) (min (unat (d_len d)) 20) =
       Inr (take (min (unat (d_len d)) 20) (blk_id_bytes (blk_id b) @ replicate 20 0))"
proof -
  let ?len = "min (unat (d_len d)) 20" and ?i = "blk_id_bytes (blk_id b)"
  let ?buf = "patch_at 0 (take (min (length ?i) ?len) ?i) (replicate ?len 0)"
  have buf: "?buf = take ?len (?i @ replicate 20 0)" by (auto simp: patch_at_def min_def)
  then have l: "length ?buf = ?len" by simp
  have "in_ram mem (d_addr d) (length ?buf)" using assms l by (simp add: in_ram_def)
  then obtain mem' where w: "write_at mem (d_addr d) ?buf = Inr mem'" by (simp add: write_at_Inr_iff)
  have "unat (of_nat ?len :: u32) \<le> 20" by (simp add: unat_of_nat)
  then have "rs_add oc 0 (of_nat ?len :: u32) = Some (of_nat ?len)"
    using rs_add_no_overflow[of 0 "of_nat ?len :: u32" oc] by simp
  then have "execute oc b VIRTIO_BLK_T_GET_ID sector (d # ds) mem 0 =
      Some (b, mem', of_nat ?len, VIRTIO_BLK_S_OK)"
    using w by (simp add: execute_def blk_consts VIRTIO_BLK_ID_BYTES_def Let_def)
  moreover have "read_at mem' (d_addr d) ?len = Inr (take ?len (?i @ replicate 20 0))"
    using gm.rd_wr_same[OF w, unfolded l] unfolding buf .
  ultimately show ?thesis by blast
qed

theorem blk_get_id_witness:
  "\<exists>mem'. execute True \<lparr>blk_id = 12, disk = \<lparr>f_data = [], f_calls = 0, f_read_ok = (\<lambda>_. True),
       f_write_cut = (\<lambda>_. None), f_sync_ok = (\<lambda>_. True)\<rparr>, capacity_sectors = 0, blk_debug = False\<rparr>
     VIRTIO_BLK_T_GET_ID 0 [\<lparr>d_addr = 16, d_len = 14, d_flags = 2, d_next = 0\<rparr>]
     \<lparr>gm_ptr = 1, gm_size = 4096, gm_bytes = (\<lambda>_. 1)\<rparr> 0
     = Some (\<lparr>blk_id = 12, disk = \<lparr>f_data = [], f_calls = 0, f_read_ok = (\<lambda>_. True),
       f_write_cut = (\<lambda>_. None), f_sync_ok = (\<lambda>_. True)\<rparr>, capacity_sectors = 0, blk_debug = False\<rparr>,
       mem', 14, VIRTIO_BLK_S_OK) \<and>
     read_at mem' 16 14 = Inr [0x66, 0x65, 0x72, 0x72, 0x76, 0x6d, 0x2d, 0x62, 0x6c, 0x6b, 0x31, 0x32, 0, 0]"
proof -
  let ?b = "\<lparr>blk_id = 12, disk = \<lparr>f_data = [], f_calls = 0, f_read_ok = (\<lambda>_. True),
       f_write_cut = (\<lambda>_. None), f_sync_ok = (\<lambda>_. True)\<rparr>, capacity_sectors = 0, blk_debug = False\<rparr>"
  have "replicate 2 (0 :: u8) = [0, 0]" by (simp add: numeral_2_eq_2)
  then show ?thesis
    using blk_get_id[of "\<lparr>gm_ptr = 1, gm_size = 4096, gm_bytes = (\<lambda>_. 1)\<rparr>"
        "\<lparr>d_addr = 16, d_len = 14, d_flags = 2, d_next = 0\<rparr>" True ?b 0 "[]"]
    by (simp add: in_ram_def blk_id_bytes_def VIRTIO_BLK_ID_PREFIX_def decimal.simps)
qed

text \<open>
  Every request gets an answer: in the release build, a chain of at least two
  descriptors whose header is readable and whose last descriptor points into guest memory
  is executed, and its status byte, one of OK, I/O error and unsupported, is in guest
  memory afterwards.
\<close>

theorem blk_status_written:
  assumes "blk_inv b" and "2 \<le> length chain" and "length chain \<le> 65536"
    and "in_ram mem (d_addr (chain ! 0)) 16" and "in_ram mem (d_addr (last chain)) 1"
  shows "\<exists>b' mem' w st. blk_process_chain False b chain mem = Some (b', mem', w) \<and>
     read_at mem' (d_addr (last chain)) 1 = Inr [st] \<and>
     st \<in> {VIRTIO_BLK_S_OK, VIRTIO_BLK_S_IOERR, VIRTIO_BLK_S_UNSUPP}"
proof -
  obtain hdr where h: "read_at mem (d_addr (chain ! 0)) 16 = Inr hdr"
    using assms(4) by (simp add: read_at_Inr_iff)
  let ?data = "subslice 1 (length chain - 1) chain"
  obtain b' m1 w st where e: "execute False b (from_le (subslice 0 4 hdr)) (from_le (subslice 8 16 hdr))
      ?data mem 0 = Some (b', m1, w, st)" using execute_release by blast
  have "length ?data \<le> 65536" using assms(3) chain_data_length[of chain] by linarith
  then have "gm_size m1 = gm_size mem" using execute_cases[OF assms(1) _ e] by simp
  then have "in_ram m1 (d_addr (last chain)) (length [st])" using assms(5) by (simp add: in_ram_def)
  then obtain mem' where w: "write_at m1 (d_addr (last chain)) [st] = Inr mem'"
    using write_at_Inr_iff by blast
  have "chain \<noteq> []" using assms(2) by auto
  then have "chain ! (length chain - 1) = last chain" by (simp add: last_conv_nth)
  then have "blk_process_chain False b chain mem = Some (b', mem', w + 1)"
    using assms(2) h e w by (simp add: blk_process_chain_def Let_def)
  moreover have "read_at mem' (d_addr (last chain)) 1 = Inr [st]" using gm.rd_wr_same[OF w] by simp
  ultimately show ?thesis using execute_status[OF e] by blast
qed

theorem blk_status_written_witness:
  "\<exists>b' mem' w st. blk_process_chain False \<lparr>blk_id = 0, disk = \<lparr>f_data = [], f_calls = 0,
       f_read_ok = (\<lambda>_. True), f_write_cut = (\<lambda>_. None), f_sync_ok = (\<lambda>_. True)\<rparr>,
       capacity_sectors = 0, blk_debug = False\<rparr>
     [\<lparr>d_addr = 0, d_len = 16, d_flags = 1, d_next = 1\<rparr>, \<lparr>d_addr = 32, d_len = 1, d_flags = 2, d_next = 0\<rparr>]
     \<lparr>gm_ptr = 1, gm_size = 4096, gm_bytes = (\<lambda>_. 4)\<rparr> = Some (b', mem', w) \<and>
     read_at mem' 32 1 = Inr [st] \<and> st \<in> {VIRTIO_BLK_S_OK, VIRTIO_BLK_S_IOERR, VIRTIO_BLK_S_UNSUPP}"
  using blk_status_written[of "\<lparr>blk_id = 0, disk = \<lparr>f_data = [], f_calls = 0,
       f_read_ok = (\<lambda>_. True), f_write_cut = (\<lambda>_. None), f_sync_ok = (\<lambda>_. True)\<rparr>,
       capacity_sectors = 0, blk_debug = False\<rparr>"
     "[\<lparr>d_addr = 0, d_len = 16, d_flags = 1, d_next = 1\<rparr>, \<lparr>d_addr = 32, d_len = 1, d_flags = 2, d_next = 0\<rparr>]"
     "\<lparr>gm_ptr = 1, gm_size = 4096, gm_bytes = (\<lambda>_. 4)\<rparr>"]
  by (simp add: blk_inv_def in_ram_def)

text \<open>
  C36. What a request of unknown type is answered, in either build: \<open>IOERR\<close> when its sector and
  data reach beyond the disk, else \<open>UNSUPP\<close> when it carries data, but \<open>OK\<close> when it carries
  none: the type is only looked at inside the loop over the data descriptors. The disk and the
  guest's memory are left alone and nothing counts as written.
\<close>

theorem blk_unknown_request:
  assumes "blk_inv b" and "length data \<le> 65536"
    and "req \<notin> {VIRTIO_BLK_T_IN, VIRTIO_BLK_T_OUT, VIRTIO_BLK_T_FLUSH, VIRTIO_BLK_T_GET_ID}"
  shows "execute oc b req sector data mem w =
     Some (b, mem, w,
       if unat (capacity_sectors b) * 512 < unat sector * 512 + total_len_of data then VIRTIO_BLK_S_IOERR
       else if data = [] then VIRTIO_BLK_S_OK else VIRTIO_BLK_S_UNSUPP)"
  using assms execute_io(1)[OF assms(1,2), of req oc sector mem w]
  by (cases data) (simp_all add: in_bounds_def not_less)

theorem blk_unknown_request_witness:
  "execute True \<lparr>blk_id = 0, disk = \<lparr>f_data = [], f_calls = 0, f_read_ok = (\<lambda>_. True),
       f_write_cut = (\<lambda>_. None), f_sync_ok = (\<lambda>_. True)\<rparr>, capacity_sectors = 0, blk_debug = False\<rparr>
     99 0 [] \<lparr>gm_ptr = 1, gm_size = 4096, gm_bytes = (\<lambda>_. 0)\<rparr> 0
   = Some (\<lparr>blk_id = 0, disk = \<lparr>f_data = [], f_calls = 0, f_read_ok = (\<lambda>_. True),
       f_write_cut = (\<lambda>_. None), f_sync_ok = (\<lambda>_. True)\<rparr>, capacity_sectors = 0, blk_debug = False\<rparr>,
     \<lparr>gm_ptr = 1, gm_size = 4096, gm_bytes = (\<lambda>_. 0)\<rparr>, 0, VIRTIO_BLK_S_OK)"
  by (subst blk_unknown_request) (simp_all add: blk_inv_def blk_consts)

end
