(* ===== verification/VirtioPci.thy ===== *)
theory VirtioPci
  imports Pci Rng Blk Sinks
begin

text \<open>
  The virtio-pci transport (\<open>src/virtio/pci.rs\<close>): a PCI function with the virtio 1.0
  register blocks and an MSI-X table in BAR0, and the MMIO window that routes accesses to
  whichever function's BAR covers the address. The backend behind the transport (a
  \<open>Box<dyn VirtioDevice>\<close>) is one of the two device models. Guest memory, shared by all
  devices, is an argument and a result. The calls a device makes on its interrupt sinks are
  recorded in \<open>vp_log\<close>, newest first.
\<close>

section \<open>Constants\<close>

definition VIRTIO_PCI_VENDOR :: u16 where "VIRTIO_PCI_VENDOR = 0x1af4"
definition VIRTIO_PCI_DEVICE_BASE :: u16 where "VIRTIO_PCI_DEVICE_BASE = 0x1040"
definition PCI_CAP_ID_VNDR :: u8 where "PCI_CAP_ID_VNDR = 0x09"
definition PCI_CAP_ID_MSIX :: u8 where "PCI_CAP_ID_MSIX = 0x11"
definition VIRTIO_PCI_CAP_COMMON_CFG :: u8 where "VIRTIO_PCI_CAP_COMMON_CFG = 1"
definition VIRTIO_PCI_CAP_NOTIFY_CFG :: u8 where "VIRTIO_PCI_CAP_NOTIFY_CFG = 2"
definition VIRTIO_PCI_CAP_ISR_CFG :: u8 where "VIRTIO_PCI_CAP_ISR_CFG = 3"
definition VIRTIO_PCI_CAP_DEVICE_CFG :: u8 where "VIRTIO_PCI_CAP_DEVICE_CFG = 4"
definition CAP_COMMON :: nat where "CAP_COMMON = 0x40"
definition CAP_NOTIFY :: nat where "CAP_NOTIFY = 0x50"
definition CAP_ISR :: nat where "CAP_ISR = 0x64"
definition CAP_DEVICE :: nat where "CAP_DEVICE = 0x74"
definition CAP_MSIX :: nat where "CAP_MSIX = 0x84"
definition VIRTIO_MSI_NO_VECTOR :: u16 where "VIRTIO_MSI_NO_VECTOR = 0xffff"
definition ISR_QUEUE :: u8 where "ISR_QUEUE = 0x1"
definition QUEUE_SIZE_MAX :: u16 where "QUEUE_SIZE_MAX = 256"
definition MSIX_MSGCTRL_ENABLE :: u16 where "MSIX_MSGCTRL_ENABLE = 0x8000"
definition MSIX_MSGCTRL_FUNCTION_MASK :: u16 where "MSIX_MSGCTRL_FUNCTION_MASK = 0x4000"
definition MSIX_VECTOR_CTRL_MASK :: u32 where "MSIX_VECTOR_CTRL_MASK = 0x1"
definition BAR0_SIZE :: u64 where "BAR0_SIZE = 0x1000"
definition COMMON_CFG_OFFSET :: u64 where "COMMON_CFG_OFFSET = 0x0000"
definition COMMON_CFG_LEN :: u64 where "COMMON_CFG_LEN = 0x0040"
definition ISR_OFFSET :: u64 where "ISR_OFFSET = 0x0040"
definition ISR_LEN :: u64 where "ISR_LEN = 0x0010"
definition NOTIFY_OFFSET :: u64 where "NOTIFY_OFFSET = 0x0050"
definition NOTIFY_LEN :: u64 where "NOTIFY_LEN = 0x0010"
definition DEVICE_CFG_OFFSET :: u64 where "DEVICE_CFG_OFFSET = 0x0100"
definition DEVICE_CFG_LEN :: u64 where "DEVICE_CFG_LEN = 0x0100"
definition MSIX_TABLE_OFFSET :: u64 where "MSIX_TABLE_OFFSET = 0x0800"
definition MSIX_PBA_OFFSET :: u64 where "MSIX_PBA_OFFSET = 0x0c00"
definition MSIX_ENTRY_SIZE :: u64 where "MSIX_ENTRY_SIZE = 16"

lemmas bar_layout = COMMON_CFG_OFFSET_def COMMON_CFG_LEN_def ISR_OFFSET_def ISR_LEN_def
  NOTIFY_OFFSET_def NOTIFY_LEN_def DEVICE_CFG_OFFSET_def DEVICE_CFG_LEN_def
  MSIX_TABLE_OFFSET_def MSIX_PBA_OFFSET_def MSIX_ENTRY_SIZE_def

lemmas cap_consts = CAP_COMMON_def CAP_NOTIFY_def CAP_ISR_def CAP_DEVICE_def CAP_MSIX_def

section \<open>Data\<close>

record msix_entry =
  me_address :: u64
  me_data :: u32
  me_control :: u32

definition msix_entry_new :: msix_entry where
  "msix_entry_new = \<lparr>me_address = 0, me_data = 0, me_control = MSIX_VECTOR_CTRL_MASK\<rparr>"

definition masked :: "msix_entry \<Rightarrow> bool" where
  "masked e \<longleftrightarrow> me_control e AND MSIX_VECTOR_CTRL_MASK \<noteq> 0"

datatype virtio_backend = RngDev virtio_rng | BlkDev virtio_blk

record virtio_pci_device =
  vp_device :: virtio_backend
  queues :: "virtqueue list"
  config :: config_space
  device_feature_select :: u32
  driver_feature_select :: u32
  driver_features :: u64
  vp_status :: u8
  queue_select :: u16
  isr_status :: u8
  vp_irq_sink :: irq_sink
  vp_msi_sink :: msi_sink
  msix_table :: "msix_entry list"
  msix_pending :: "bool list"
  queue_msix_vectors :: "u16 list"
  config_msix_vector :: u16
  vp_log :: "sink_event list"

section \<open>The dispatched methods of the backend\<close>

fun device_id :: "virtio_backend \<Rightarrow> u32" where
  "device_id (RngDev _) = rng_device_id"
| "device_id (BlkDev _) = blk_device_id"

fun device_features :: "virtio_backend \<Rightarrow> u64" where
  "device_features (RngDev _) = rng_device_features"
| "device_features (BlkDev _) = blk_device_features"

fun num_queues :: "virtio_backend \<Rightarrow> nat" where
  "num_queues (RngDev _) = rng_num_queues"
| "num_queues (BlkDev _) = blk_num_queues"

fun on_notify :: "bool \<Rightarrow> virtio_backend \<Rightarrow> nat \<Rightarrow> virtqueue \<Rightarrow> guest_memory \<Rightarrow>
    (virtio_backend \<times> virtqueue \<times> guest_memory \<times> bool) option" where
  "on_notify oc (RngDev r) i q mem =
     map_option (\<lambda>(r', q', mem', irq). (RngDev r', q', mem', irq)) (rng_on_notify oc r i q mem)"
| "on_notify oc (BlkDev b) i q mem =
     map_option (\<lambda>(b', q', mem', irq). (BlkDev b', q', mem', irq)) (blk_on_notify oc b i q mem)"

text \<open>The entropy device keeps the trait's default methods, which do nothing.\<close>

fun read_config :: "bool \<Rightarrow> virtio_backend \<Rightarrow> u64 \<Rightarrow> bytes \<Rightarrow> bytes option" where
  "read_config oc (RngDev _) offset data = Some data"
| "read_config oc (BlkDev b) offset data = blk_read_config oc b offset data"

definition write_config :: "virtio_backend \<Rightarrow> u64 \<Rightarrow> bytes \<Rightarrow> virtio_backend" where
  "write_config dev offset data = dev"

section \<open>Configuration space of a function\<close>

definition pci_class :: "u32 \<Rightarrow> u8 \<times> u8" where
  "pci_class virtio_id = (if virtio_id = 2 then (0x01, 0x00) else (0xff, 0x00))"

definition write_cap :: "nat \<Rightarrow> u8 \<Rightarrow> u8 \<Rightarrow> u8 \<Rightarrow> u32 \<Rightarrow> u32 \<Rightarrow> config_space \<Rightarrow> config_space option" where
  "write_cap at next len cfg_type bar_offset bar_len cs = do {
     cs \<leftarrow> set_u8 at PCI_CAP_ID_VNDR cs;
     cs \<leftarrow> set_u8 (at + 1) next cs;
     cs \<leftarrow> set_u8 (at + 2) len cs;
     cs \<leftarrow> set_u8 (at + 3) cfg_type cs;
     cs \<leftarrow> set_u8 (at + 4) 0 cs;
     cs \<leftarrow> set_u8 (at + 5) 0 cs;
     cs \<leftarrow> set_u8 (at + 6) 0 cs;
     cs \<leftarrow> set_u8 (at + 7) 0 cs;
     cs \<leftarrow> set_u32 (at + 8) bar_offset cs;
     set_u32 (at + 12) bar_len cs
   }"

definition build_config :: "bool \<Rightarrow> u32 \<Rightarrow> u8 \<Rightarrow> u16 \<Rightarrow> config_space option" where
  "build_config oc virtio_id irq_line num_vectors =
     (let (class, subclass) = pci_class virtio_id in do {
       cs \<leftarrow> set_u16 0x00 VIRTIO_PCI_VENDOR config_space_new;
       dev_id \<leftarrow> rs_add oc VIRTIO_PCI_DEVICE_BASE (ucast virtio_id);
       cs \<leftarrow> set_u16 0x02 dev_id cs;
       cs \<leftarrow> set_u16 0x04 0x0000 cs;
       cs \<leftarrow> set_u16 0x06 0x0010 cs;
       cs \<leftarrow> set_u8 0x08 0x01 cs;
       cs \<leftarrow> set_u8 0x09 0x00 cs;
       cs \<leftarrow> set_u8 0x0a subclass cs;
       cs \<leftarrow> set_u8 0x0b class cs;
       cs \<leftarrow> set_u8 0x0e 0x00 cs;
       cs \<leftarrow> set_u32 0x10 0x00000000 cs;
       cs \<leftarrow> set_u16 0x2c VIRTIO_PCI_VENDOR cs;
       cs \<leftarrow> set_u16 0x2e (ucast virtio_id) cs;
       cs \<leftarrow> set_u8 0x34 (of_nat CAP_COMMON) cs;
       cs \<leftarrow> set_u8 0x3c irq_line cs;
       cs \<leftarrow> set_u8 0x3d 0x01 cs;
       cs \<leftarrow> write_cap CAP_COMMON (of_nat CAP_NOTIFY) 0x10 VIRTIO_PCI_CAP_COMMON_CFG
               (ucast COMMON_CFG_OFFSET) (ucast COMMON_CFG_LEN) cs;
       cs \<leftarrow> write_cap CAP_NOTIFY (of_nat CAP_ISR) 0x14 VIRTIO_PCI_CAP_NOTIFY_CFG
               (ucast NOTIFY_OFFSET) (ucast NOTIFY_LEN) cs;
       cs \<leftarrow> set_u32 (CAP_NOTIFY + 16) 0 cs;
       cs \<leftarrow> write_cap CAP_ISR (of_nat CAP_DEVICE) 0x10 VIRTIO_PCI_CAP_ISR_CFG
               (ucast ISR_OFFSET) (ucast ISR_LEN) cs;
       cs \<leftarrow> write_cap CAP_DEVICE (of_nat CAP_MSIX) 0x10 VIRTIO_PCI_CAP_DEVICE_CFG
               (ucast DEVICE_CFG_OFFSET) (ucast DEVICE_CFG_LEN) cs;
       cs \<leftarrow> set_u8 CAP_MSIX PCI_CAP_ID_MSIX cs;
       cs \<leftarrow> set_u8 (CAP_MSIX + 1) 0x00 cs;
       last_vector \<leftarrow> rs_sub oc num_vectors 1;
       cs \<leftarrow> set_u16 (CAP_MSIX + 2) last_vector cs;
       cs \<leftarrow> set_u32 (CAP_MSIX + 4) (ucast MSIX_TABLE_OFFSET) cs;
       set_u32 (CAP_MSIX + 8) (ucast MSIX_PBA_OFFSET) cs
     })"

definition put_le :: "bytes \<Rightarrow> u64 \<Rightarrow> bytes" where
  "put_le data v = map (\<lambda>i. if i < 8 then u64_to_le v ! i else 0) [0..<length data]"

definition get_le :: "bytes \<Rightarrow> u64" where
  "get_le data = fold (\<lambda>(i, b) v. v OR push_bit (i * 8) (ucast b)) (enumerate 0 (take 8 data)) 0"

section \<open>Operations of the function\<close>

definition queue_default :: virtqueue where
  "queue_default = virtqueue_new\<lparr>q_num := QUEUE_SIZE_MAX\<rparr>"

definition virtio_pci_new :: "bool \<Rightarrow> irq_sink \<Rightarrow> msi_sink \<Rightarrow> virtio_backend \<Rightarrow> u8 \<Rightarrow> virtio_pci_device option" where
  "virtio_pci_new oc isink msink dev irq_line =
     (let nq = num_queues dev; num_vectors = of_nat (nq + 1) :: u16 in do {
       cfg \<leftarrow> build_config oc (device_id dev) irq_line num_vectors;
       Some \<lparr>vp_device = dev, queues = replicate nq queue_default, config = cfg,
         device_feature_select = 0, driver_feature_select = 0, driver_features = 0,
         vp_status = 0, queue_select = 0, isr_status = 0, vp_irq_sink = isink, vp_msi_sink = msink,
         msix_table = replicate (unat num_vectors) msix_entry_new,
         msix_pending = replicate (unat num_vectors) False,
         queue_msix_vectors = replicate nq VIRTIO_MSI_NO_VECTOR,
         config_msix_vector = VIRTIO_MSI_NO_VECTOR, vp_log = []\<rparr>
     })"

definition vp_replace_irq_sink :: "irq_sink \<Rightarrow> virtio_pci_device \<Rightarrow> virtio_pci_device" where
  "vp_replace_irq_sink sink d = d\<lparr>vp_irq_sink := sink\<rparr>"

definition bar_base :: "virtio_pci_device \<Rightarrow> u64 option" where
  "bar_base d = do { v \<leftarrow> get_u32 (config d) 0x10; Some (ucast (v AND 0xfffff000)) }"

definition mem_enabled :: "virtio_pci_device \<Rightarrow> bool option" where
  "mem_enabled d = do { v \<leftarrow> get_u16 (config d) 0x04; Some (v AND 0x0002 \<noteq> 0) }"

definition msix_enabled :: "virtio_pci_device \<Rightarrow> bool option" where
  "msix_enabled d = do { v \<leftarrow> get_u16 (config d) (CAP_MSIX + 2); Some (v AND MSIX_MSGCTRL_ENABLE \<noteq> 0) }"

definition msix_function_masked :: "virtio_pci_device \<Rightarrow> bool option" where
  "msix_function_masked d =
     do { v \<leftarrow> get_u16 (config d) (CAP_MSIX + 2); Some (v AND MSIX_MSGCTRL_FUNCTION_MASK \<noteq> 0) }"

text \<open>A call on one of the device's sinks.\<close>

definition drive_line :: "bool \<Rightarrow> virtio_pci_device \<Rightarrow> virtio_pci_device" where
  "drive_line level d = d\<lparr>vp_log := SetLevel (vp_irq_sink d) level # vp_log d\<rparr>"

definition send_msi :: "msix_entry \<Rightarrow> virtio_pci_device \<Rightarrow> virtio_pci_device" where
  "send_msi e d = d\<lparr>vp_log := Signal (vp_msi_sink d) (me_address e) (me_data e) # vp_log d\<rparr>"

definition signal_msix :: "virtio_pci_device \<Rightarrow> u16 \<Rightarrow> virtio_pci_device option" where
  "signal_msix d vector =
     (let idx = unat vector in
      if vector = VIRTIO_MSI_NO_VECTOR \<or> length (msix_table d) \<le> idx then Some d
      else do {
        fm \<leftarrow> msix_function_masked d;
        entry \<leftarrow> nth_opt (msix_table d) idx;
        if fm \<or> masked entry then
          (if idx < length (msix_pending d)
           then Some (d\<lparr>msix_pending := (msix_pending d)[idx := True]\<rparr>) else None)
        else Some (send_msi entry d)
      })"

definition raise_queue_interrupt :: "virtio_pci_device \<Rightarrow> nat \<Rightarrow> virtio_pci_device option" where
  "raise_queue_interrupt d queue_idx = do {
     en \<leftarrow> msix_enabled d;
     if en then
       signal_msix d (case nth_opt (queue_msix_vectors d) queue_idx of
           None \<Rightarrow> VIRTIO_MSI_NO_VECTOR | Some v \<Rightarrow> v)
     else Some (drive_line True (d\<lparr>isr_status := isr_status d OR ISR_QUEUE\<rparr>))
   }"

text \<open>The loop of \<open>deliver_pending\<close> over the vectors.\<close>

fun deliver_loop :: "nat list \<Rightarrow> virtio_pci_device \<Rightarrow> virtio_pci_device option" where
  "deliver_loop [] d = Some d"
| "deliver_loop (idx # idxs) d = do {
     p \<leftarrow> nth_opt (msix_pending d) idx;
     entry \<leftarrow> nth_opt (msix_table d) idx;
     if p \<and> \<not> masked entry
     then deliver_loop idxs (send_msi entry (d\<lparr>msix_pending := (msix_pending d)[idx := False]\<rparr>))
     else deliver_loop idxs d
   }"

definition deliver_pending :: "virtio_pci_device \<Rightarrow> virtio_pci_device option" where
  "deliver_pending d = do {
     en \<leftarrow> msix_enabled d;
     fm \<leftarrow> msix_function_masked d;
     if \<not> en \<or> fm then Some d else deliver_loop [0..<length (msix_table d)] d
   }"

definition vp_reset :: "virtio_pci_device \<Rightarrow> virtio_pci_device" where
  "vp_reset d =
     (let d1 = d\<lparr>queues := map (\<lambda>_. queue_default) (queues d), device_feature_select := 0,
            driver_feature_select := 0, driver_features := 0, queue_select := 0, isr_status := 0\<rparr>;
          d2 = drive_line False d1
      in d2\<lparr>queue_msix_vectors := fill VIRTIO_MSI_NO_VECTOR (queue_msix_vectors d2),
            config_msix_vector := VIRTIO_MSI_NO_VECTOR,
            msix_pending := fill False (msix_pending d2)\<rparr>)"

definition msix_table_read :: "virtio_pci_device \<Rightarrow> u64 \<Rightarrow> bytes \<Rightarrow> bytes" where
  "msix_table_read d rel data =
     (let idx = unat (rel div MSIX_ENTRY_SIZE); field = rel mod MSIX_ENTRY_SIZE;
          dword = (case nth_opt (msix_table d) idx of
              None \<Rightarrow> 0
            | Some e \<Rightarrow>
                if field = 0 then ucast (me_address e)
                else if field = 4 then ucast (drop_bit 32 (me_address e))
                else if field = 8 then me_data e
                else if field = 12 then me_control e
                else 0) :: u32
      in put_le data (ucast dword))"

definition msix_field_write :: "u64 \<Rightarrow> u32 \<Rightarrow> msix_entry \<Rightarrow> msix_entry" where
  "msix_field_write field v e =
     (if field = 0 then e\<lparr>me_address := (me_address e AND 0xffffffff00000000) OR ucast v\<rparr>
      else if field = 4 then e\<lparr>me_address := (me_address e AND 0x00000000ffffffff) OR push_bit 32 (ucast v)\<rparr>
      else if field = 8 then e\<lparr>me_data := v\<rparr>
      else if field = 12 then e\<lparr>me_control := v\<rparr>
      else e)"

definition msix_table_write :: "virtio_pci_device \<Rightarrow> u64 \<Rightarrow> bytes \<Rightarrow> virtio_pci_device option" where
  "msix_table_write d rel data =
     (let idx = unat (rel div MSIX_ENTRY_SIZE); field = rel mod MSIX_ENTRY_SIZE;
          v = ucast (get_le data) :: u32;
          d' = (case nth_opt (msix_table d) idx of
              None \<Rightarrow> d
            | Some e \<Rightarrow> d\<lparr>msix_table := (msix_table d)[idx := msix_field_write field v e]\<rparr>)
      in if field = 12 then deliver_pending d' else Some d')"

text \<open>
  The pending bits of the qword at \<open>rel\<close>. The sum \<open>base + 64\<close> is only formed for a vector
  number at or above \<open>base\<close>, where it does not overflow.
\<close>

definition msix_pba_read :: "bool \<Rightarrow> virtio_pci_device \<Rightarrow> u64 \<Rightarrow> bytes \<Rightarrow> bytes option" where
  "msix_pba_read oc d rel data = do {
     base \<leftarrow> rs_mul oc (rel div 8) 64;
     let qword = fold (\<lambda>(idx, pending) q.
           let b = of_nat idx in
           if pending \<and> base \<le> b \<and> b < base + 64 then q OR push_bit (unat (b - base)) 1 else q)
         (enumerate 0 (msix_pending d)) 0;
     Some (put_le data qword)
   }"

definition msix_table_len :: "virtio_pci_device \<Rightarrow> u64" where
  "msix_table_len d = of_nat (length (msix_table d)) * MSIX_ENTRY_SIZE"

definition common_cfg_value :: "virtio_pci_device \<Rightarrow> u64 \<Rightarrow> u64" where
  "common_cfg_value d offset =
     (let queue = nth_opt (queues d) (unat (queue_select d));
          of_queue = (\<lambda>f. case queue of None \<Rightarrow> 0 | Some q \<Rightarrow> f q)
      in
      if offset = 0x00 then ucast (device_feature_select d)
      else if offset = 0x04 then
        (let features = device_features (vp_device d) in
         if device_feature_select d = 0 then features AND 0xffffffff
         else if device_feature_select d = 1 then drop_bit 32 features else 0)
      else if offset = 0x08 then ucast (driver_feature_select d)
      else if offset = 0x0c then
        (if driver_feature_select d = 0 then driver_features d AND 0xffffffff
         else if driver_feature_select d = 1 then drop_bit 32 (driver_features d) else 0)
      else if offset = 0x10 then ucast (config_msix_vector d)
      else if offset = 0x1a then
        ucast (case nth_opt (queue_msix_vectors d) (unat (queue_select d)) of
           None \<Rightarrow> VIRTIO_MSI_NO_VECTOR | Some v \<Rightarrow> v)
      else if offset = 0x12 then of_nat (length (queues d))
      else if offset = 0x14 then ucast (vp_status d)
      else if offset = 0x16 then ucast (queue_select d)
      else if offset = 0x18 then of_queue (\<lambda>q. ucast (q_num q))
      else if offset = 0x1c then of_queue (\<lambda>q. of_bool (q_ready q))
      else if offset = 0x20 then of_queue (\<lambda>q. desc_table q AND 0xffffffff)
      else if offset = 0x24 then of_queue (\<lambda>q. drop_bit 32 (desc_table q))
      else if offset = 0x28 then of_queue (\<lambda>q. avail_ring q AND 0xffffffff)
      else if offset = 0x2c then of_queue (\<lambda>q. drop_bit 32 (avail_ring q))
      else if offset = 0x30 then of_queue (\<lambda>q. used_ring q AND 0xffffffff)
      else if offset = 0x34 then of_queue (\<lambda>q. drop_bit 32 (used_ring q))
      else 0)"

definition common_cfg_read :: "virtio_pci_device \<Rightarrow> u64 \<Rightarrow> bytes \<Rightarrow> bytes" where
  "common_cfg_read d offset data = put_le data (common_cfg_value d offset)"

text \<open>\<open>if let Some(q) = self.queues.get_mut(sel)\<close>; the two halves of a 64-bit register.\<close>

definition on_queue :: "(virtqueue \<Rightarrow> virtqueue) \<Rightarrow> virtio_pci_device \<Rightarrow> virtio_pci_device" where
  "on_queue f d =
     (let sel = unat (queue_select d) in
      case nth_opt (queues d) sel of
        None \<Rightarrow> d
      | Some q \<Rightarrow> d\<lparr>queues := (queues d)[sel := f q]\<rparr>)"

definition set_low :: "u64 \<Rightarrow> u64 \<Rightarrow> u64" where
  "set_low old v = (old AND 0xffffffff00000000) OR (v AND 0xffffffff)"

definition set_high :: "u64 \<Rightarrow> u64 \<Rightarrow> u64" where
  "set_high old v = (old AND 0x00000000ffffffff) OR push_bit 32 v"

definition common_cfg_write :: "virtio_pci_device \<Rightarrow> u64 \<Rightarrow> bytes \<Rightarrow> virtio_pci_device" where
  "common_cfg_write d offset data =
     (let v = get_le data; sel = unat (queue_select d) in
      if offset = 0x00 then d\<lparr>device_feature_select := ucast v\<rparr>
      else if offset = 0x08 then d\<lparr>driver_feature_select := ucast v\<rparr>
      else if offset = 0x0c then
        (let half = ucast (ucast v :: u32) in
         if driver_feature_select d = 0
         then d\<lparr>driver_features := (driver_features d AND 0xffffffff00000000) OR half\<rparr>
         else if driver_feature_select d = 1
         then d\<lparr>driver_features := (driver_features d AND 0x00000000ffffffff) OR push_bit 32 half\<rparr>
         else d)
      else if offset = 0x14 then
        (let d' = d\<lparr>vp_status := ucast v\<rparr> in if vp_status d' = 0 then vp_reset d' else d')
      else if offset = 0x16 then d\<lparr>queue_select := ucast v\<rparr>
      else if offset = 0x18 then on_queue (\<lambda>q. q\<lparr>q_num := ucast v\<rparr>) d
      else if offset = 0x1c then on_queue (\<lambda>q. q\<lparr>q_ready := v \<noteq> 0\<rparr>) d
      else if offset = 0x20 then on_queue (\<lambda>q. q\<lparr>desc_table := set_low (desc_table q) v\<rparr>) d
      else if offset = 0x24 then on_queue (\<lambda>q. q\<lparr>desc_table := set_high (desc_table q) v\<rparr>) d
      else if offset = 0x28 then on_queue (\<lambda>q. q\<lparr>avail_ring := set_low (avail_ring q) v\<rparr>) d
      else if offset = 0x2c then on_queue (\<lambda>q. q\<lparr>avail_ring := set_high (avail_ring q) v\<rparr>) d
      else if offset = 0x30 then on_queue (\<lambda>q. q\<lparr>used_ring := set_low (used_ring q) v\<rparr>) d
      else if offset = 0x34 then on_queue (\<lambda>q. q\<lparr>used_ring := set_high (used_ring q) v\<rparr>) d
      else if offset = 0x10 then d\<lparr>config_msix_vector := ucast v\<rparr>
      else if offset = 0x1a then
        (if sel < length (queue_msix_vectors d)
         then d\<lparr>queue_msix_vectors := (queue_msix_vectors d)[sel := ucast v]\<rparr> else d)
      else d)"

text \<open>The offset lies in \<open>start..start + len\<close>.\<close>

definition in_block :: "u64 \<Rightarrow> u64 \<Rightarrow> u64 \<Rightarrow> bool" where
  "in_block start len offset \<longleftrightarrow> start \<le> offset \<and> offset < start + len"

definition mmio_read :: "bool \<Rightarrow> virtio_pci_device \<Rightarrow> u64 \<Rightarrow> bytes \<Rightarrow> (virtio_pci_device \<times> bytes) option" where
  "mmio_read oc d offset data =
     (if offset < COMMON_CFG_OFFSET + COMMON_CFG_LEN then Some (d, common_cfg_read d offset data)
      else if in_block ISR_OFFSET ISR_LEN offset then
        (let zeros = fill 0 data;
             data' = (if zeros = [] then zeros else zeros[0 := isr_status d])
         in Some (drive_line False (d\<lparr>isr_status := 0\<rparr>), data'))
      else if in_block NOTIFY_OFFSET NOTIFY_LEN offset then Some (d, fill 0 data)
      else if in_block DEVICE_CFG_OFFSET DEVICE_CFG_LEN offset then
        map_option (Pair d) (read_config oc (vp_device d) (offset - DEVICE_CFG_OFFSET) data)
      else if in_block MSIX_TABLE_OFFSET (msix_table_len d) offset then
        Some (d, msix_table_read d (offset - MSIX_TABLE_OFFSET) data)
      else if in_block MSIX_PBA_OFFSET 8 offset then
        map_option (Pair d) (msix_pba_read oc d (offset - MSIX_PBA_OFFSET) data)
      else Some (d, fill 0 data))"

definition notify_queue :: "bool \<Rightarrow> virtio_pci_device \<Rightarrow> guest_memory \<Rightarrow> bytes \<Rightarrow>
    (virtio_pci_device \<times> guest_memory) option" where
  "notify_queue oc d mem data =
     (let queue_idx = unat (get_le data) in
      if queue_idx < length (queues d) then do {
        (dev', q', mem', raise) \<leftarrow> on_notify oc (vp_device d) queue_idx (queues d ! queue_idx) mem;
        let d' = d\<lparr>vp_device := dev', queues := (queues d)[queue_idx := q']\<rparr>;
        if raise then map_option (\<lambda>d''. (d'', mem')) (raise_queue_interrupt d' queue_idx)
        else Some (d', mem')
      } else Some (d, mem))"

definition mmio_write :: "bool \<Rightarrow> virtio_pci_device \<Rightarrow> guest_memory \<Rightarrow> u64 \<Rightarrow> bytes \<Rightarrow>
    (virtio_pci_device \<times> guest_memory) option" where
  "mmio_write oc d mem offset data =
     (if offset < COMMON_CFG_OFFSET + COMMON_CFG_LEN then Some (common_cfg_write d offset data, mem)
      else if in_block NOTIFY_OFFSET NOTIFY_LEN offset then notify_queue oc d mem data
      else if in_block DEVICE_CFG_OFFSET DEVICE_CFG_LEN offset then
        Some (d\<lparr>vp_device := write_config (vp_device d) (offset - DEVICE_CFG_OFFSET) data\<rparr>, mem)
      else if in_block MSIX_TABLE_OFFSET (msix_table_len d) offset then
        map_option (\<lambda>d'. (d', mem)) (msix_table_write d (offset - MSIX_TABLE_OFFSET) data)
      else Some (d, mem))"

definition vp_config_read :: "bool \<Rightarrow> virtio_pci_device \<Rightarrow> u64 \<Rightarrow> bytes \<Rightarrow> bytes option" where
  "vp_config_read oc d offset data = cs_config_read oc (config d) offset data"

text \<open>One byte of a configuration write.\<close>

definition config_write_byte :: "nat \<Rightarrow> u8 \<Rightarrow> config_space \<Rightarrow> config_space option" where
  "config_write_byte off b cs =
     (if off = 0x04 \<or> off = 0x05 \<or> (0x10 \<le> off \<and> off \<le> 0x13) \<or> off = 0x3c then set_u8 off b cs
      else if off = CAP_MSIX + 3 then do {
        old \<leftarrow> get_u8 cs off;
        let preserved = old AND 0x3f;
        set_u8 off ((b AND 0xc0) OR preserved) cs
      }
      else Some cs)"

fun config_write_bytes :: "(u64 \<times> u8) list \<Rightarrow> config_space \<Rightarrow> config_space option" where
  "config_write_bytes [] cs = Some cs"
| "config_write_bytes ((off, b) # rest) cs =
     do { cs \<leftarrow> config_write_byte (unat off) b cs; config_write_bytes rest cs }"

definition vp_config_write :: "bool \<Rightarrow> virtio_pci_device \<Rightarrow> u64 \<Rightarrow> bytes \<Rightarrow> virtio_pci_device option" where
  "vp_config_write oc d offset data = do {
     idxs \<leftarrow> index_seq oc offset (length data);
     cs \<leftarrow> config_write_bytes (zip idxs data) (config d);
     bar \<leftarrow> get_u32 cs 0x10;
     cs \<leftarrow> set_u32 0x10 (bar AND 0xfffff000) cs;
     deliver_pending (d\<lparr>config := cs\<rparr>)
   }"

section \<open>The MMIO window\<close>

text \<open>The window holds handles, indices into the list of functions.\<close>

record virtio_pci_mmio =
  window_base :: u64
  window_devices :: "nat list"

definition mmio_window_new :: "u64 \<Rightarrow> virtio_pci_mmio" where
  "mmio_window_new base = \<lparr>window_base = base, window_devices = []\<rparr>"

definition mmio_add_device :: "nat \<Rightarrow> virtio_pci_mmio \<Rightarrow> virtio_pci_mmio" where
  "mmio_add_device h w = w\<lparr>window_devices := window_devices w @ [h]\<rparr>"

fun route :: "virtio_pci_device list \<Rightarrow> u64 \<Rightarrow> nat list \<Rightarrow> ((nat \<times> u64) option) option" where
  "route devs addr [] = Some None"
| "route devs addr (h # hs) = do {
     d \<leftarrow> nth_opt devs h;
     en \<leftarrow> mem_enabled d;
     base \<leftarrow> bar_base d;
     if en \<and> base \<noteq> 0 \<and> base \<le> addr \<and> addr < base + BAR0_SIZE
     then Some (Some (h, addr - base))
     else route devs addr hs
   }"

definition window_read :: "bool \<Rightarrow> virtio_pci_mmio \<Rightarrow> virtio_pci_device list \<Rightarrow> u64 \<Rightarrow> bytes \<Rightarrow>
    (virtio_pci_device list \<times> bytes) option" where
  "window_read oc w devs offset data = do {
     addr \<leftarrow> rs_add oc (window_base w) offset;
     target \<leftarrow> route devs addr (window_devices w);
     case target of
       None \<Rightarrow> Some (devs, fill 0xff data)
     | Some (h, rel) \<Rightarrow> do {
         (d', data') \<leftarrow> mmio_read oc (devs ! h) rel data;
         Some (devs[h := d'], data')
       }
   }"

definition window_write :: "bool \<Rightarrow> virtio_pci_mmio \<Rightarrow> virtio_pci_device list \<Rightarrow> guest_memory \<Rightarrow> u64 \<Rightarrow> bytes \<Rightarrow>
    (virtio_pci_device list \<times> guest_memory) option" where
  "window_write oc w devs mem offset data = do {
     addr \<leftarrow> rs_add oc (window_base w) offset;
     target \<leftarrow> route devs addr (window_devices w);
     case target of
       None \<Rightarrow> Some (devs, mem)
     | Some (h, rel) \<Rightarrow> do {
         (d', mem') \<leftarrow> mmio_write oc (devs ! h) mem rel data;
         Some (devs[h := d'], mem')
       }
   }"

end
