(* ===== verification/VirtioPciProps.thy ===== *)
theory VirtioPciProps
  imports VirtioPci
begin

text \<open>
  The invariant of a virtio-pci function and its preservation by every operation a guest
  can cause, the delivery of interrupts, and the register round trips of the transport.
\<close>

section \<open>Invariant\<close>

definition cfg16 :: "config_space \<Rightarrow> nat \<Rightarrow> u16" where
  "cfg16 cs k = ucast (regs cs ! k) OR push_bit 8 (ucast (regs cs ! (k + 1)))"

definition cfg32 :: "config_space \<Rightarrow> nat \<Rightarrow> u32" where
  "cfg32 cs k = ucast (regs cs ! k) OR push_bit 8 (ucast (regs cs ! (k + 1)))
     OR push_bit 16 (ucast (regs cs ! (k + 2))) OR push_bit 24 (ucast (regs cs ! (k + 3)))"

fun backend_ok :: "virtio_backend \<Rightarrow> bool" where
  "backend_ok (RngDev _) = True"
| "backend_ok (BlkDev b) = blk_inv b"

text \<open>The tables have the sizes the device was built with.\<close>

definition vp_wf :: "virtio_pci_device \<Rightarrow> bool" where
  "vp_wf d \<longleftrightarrow> cs_wf (config d) \<and> backend_ok (vp_device d) \<and>
     length (queues d) = num_queues (vp_device d) \<and>
     length (queue_msix_vectors d) = length (queues d) \<and>
     length (msix_table d) = length (queues d) + 1 \<and>
     length (msix_pending d) = length (msix_table d)"

text \<open>MSI-X is enabled and not masked as a whole.\<close>

definition msix_live :: "virtio_pci_device \<Rightarrow> bool" where
  "msix_live d \<longleftrightarrow> cfg16 (config d) 0x86 AND 0x8000 \<noteq> 0 \<and> cfg16 (config d) 0x86 AND 0x4000 = 0"

text \<open>No interrupt that could be delivered is left pending.\<close>

definition none_stuck :: "virtio_pci_device \<Rightarrow> bool" where
  "none_stuck d \<longleftrightarrow> (msix_live d \<longrightarrow>
     (\<forall>i < length (msix_table d). msix_pending d ! i \<longrightarrow> masked (msix_table d ! i)))"

text \<open>The level last driven on the \<open>INTx\<close> line.\<close>

fun line_level :: "sink_event list \<Rightarrow> bool" where
  "line_level [] = False"
| "line_level (SetLevel _ level # _) = level"
| "line_level (Signal _ _ _ # log) = line_level log"

definition line_ok :: "virtio_pci_device \<Rightarrow> bool" where
  "line_ok d \<longleftrightarrow> (isr_status d = 0 \<or> isr_status d = 1) \<and>
     (line_level (vp_log d) \<longleftrightarrow> isr_status d \<noteq> 0)"

definition bar_ok :: "virtio_pci_device \<Rightarrow> bool" where
  "bar_ok d \<longleftrightarrow> cfg32 (config d) 0x10 AND 0xfff = 0"

definition vp_inv :: "virtio_pci_device \<Rightarrow> bool" where
  "vp_inv d \<longleftrightarrow> vp_wf d \<and> none_stuck d \<and> line_ok d \<and> bar_ok d"

lemmas vp_inv_defs = vp_inv_def none_stuck_def line_ok_def bar_ok_def

section \<open>Reading the configuration registers\<close>

lemma get_u16_wf: "cs_wf cs \<Longrightarrow> k + 1 < 256 \<Longrightarrow> get_u16 cs k = Some (cfg16 cs k)"
  by (simp add: get_u16_def get_u8_def cfg16_def cs_wf_def)

lemma get_u32_wf: "cs_wf cs \<Longrightarrow> k + 3 < 256 \<Longrightarrow> get_u32 cs k = Some (cfg32 cs k)"
  by (simp add: get_u32_def get_u8_def cfg32_def cs_wf_def)

lemma msix_flags_wf:
  assumes "vp_wf d"
  shows "msix_enabled d = Some (cfg16 (config d) 0x86 AND 0x8000 \<noteq> 0)"
    and "msix_function_masked d = Some (cfg16 (config d) 0x86 AND 0x4000 \<noteq> 0)"
  using assms get_u16_wf[of "config d" "0x86"]
  by (simp_all add: vp_wf_def msix_enabled_def msix_function_masked_def CAP_MSIX_def
      MSIX_MSGCTRL_ENABLE_def MSIX_MSGCTRL_FUNCTION_MASK_def)

lemma bar_wf:
  assumes "vp_wf d"
  shows "bar_base d = Some (ucast (cfg32 (config d) 0x10 AND 0xfffff000))"
    and "mem_enabled d = Some (cfg16 (config d) 0x04 AND 2 \<noteq> 0)"
  using assms get_u16_wf[of "config d" "0x04"] get_u32_wf[of "config d" "0x10"]
  by (simp_all add: vp_wf_def bar_base_def mem_enabled_def)

section \<open>Delivery of pending interrupts\<close>

text \<open>The vectors that are pending and can be delivered, and their messages.\<close>

definition ready_vectors :: "virtio_pci_device \<Rightarrow> nat list \<Rightarrow> nat list" where
  "ready_vectors d idxs = filter (\<lambda>i. msix_pending d ! i \<and> \<not> masked (msix_table d ! i)) idxs"

definition msi_of :: "virtio_pci_device \<Rightarrow> nat \<Rightarrow> sink_event" where
  "msi_of d i = Signal (vp_msi_sink d) (me_address (msix_table d ! i)) (me_data (msix_table d ! i))"

lemma deliver_loop_spec:
  "length (msix_pending d) = length (msix_table d) \<Longrightarrow> distinct idxs \<Longrightarrow>
   \<forall>i \<in> set idxs. i < length (msix_table d) \<Longrightarrow>
   deliver_loop idxs d = Some (d\<lparr>
     msix_pending := map (\<lambda>i. msix_pending d ! i \<and> i \<notin> set (ready_vectors d idxs)) [0..<length (msix_table d)],
     vp_log := rev (map (msi_of d) (ready_vectors d idxs)) @ vp_log d\<rparr>)"
proof (induction idxs arbitrary: d)
  case Nil
  then have "map (\<lambda>i. msix_pending d ! i) [0..<length (msix_table d)] = msix_pending d"
    using map_nth[of "msix_pending d"] by simp
  then show ?case by (simp add: ready_vectors_def)
next
  case (Cons i idxs)
  have i: "i < length (msix_table d)" "i \<notin> set idxs" using Cons.prems by auto
  show ?case
  proof (cases "msix_pending d ! i \<and> \<not> masked (msix_table d ! i)")
    case False
    then have step: "deliver_loop (i # idxs) d = deliver_loop idxs d"
      using i Cons.prems(1) by (auto simp: nth_opt_def)
    have r: "ready_vectors d (i # idxs) = ready_vectors d idxs"
      using False by (simp add: ready_vectors_def)
    show ?thesis unfolding step r using Cons.prems by (intro Cons.IH) auto
  next
    case True
    define e where "e = d\<lparr>msix_pending := (msix_pending d)[i := False], vp_log := msi_of d i # vp_log d\<rparr>"
    have e: "msix_table e = msix_table d" "msix_pending e = (msix_pending d)[i := False]"
      "vp_log e = msi_of d i # vp_log d" "vp_msi_sink e = vp_msi_sink d"
      by (simp_all add: e_def)
    have step: "deliver_loop (i # idxs) d = deliver_loop idxs e"
      using i True Cons.prems(1) by (simp add: nth_opt_def send_msi_def e_def msi_of_def)
    have r: "ready_vectors e idxs = ready_vectors d idxs"
      unfolding ready_vectors_def e using i(2) by (intro filter_cong refl) (metis nth_list_update_neq)
    have m: "msi_of e = msi_of d" unfolding msi_of_def e ..
    have r': "ready_vectors d (i # idxs) = i # ready_vectors d idxs"
      using True by (simp add: ready_vectors_def)
    have p: "map (\<lambda>j. msix_pending e ! j \<and> j \<notin> set (ready_vectors d idxs)) [0..<length (msix_table d)]
        = map (\<lambda>j. msix_pending d ! j \<and> j \<notin> set (i # ready_vectors d idxs)) [0..<length (msix_table d)]"
      using Cons.prems(1) i(1) by (auto simp: e nth_list_update)
    have "deliver_loop idxs e = Some (e\<lparr>
        msix_pending := map (\<lambda>j. msix_pending e ! j \<and> j \<notin> set (ready_vectors e idxs)) [0..<length (msix_table e)],
        vp_log := rev (map (msi_of e) (ready_vectors e idxs)) @ vp_log e\<rparr>)"
      using Cons.prems by (intro Cons.IH) (auto simp: e)
    then show ?thesis unfolding step r m r' e(1) p by (simp add: e_def)
  qed
qed

lemma deliver_pending_spec:
  assumes "vp_wf d"
  shows "deliver_pending d = Some (if msix_live d then d\<lparr>
       msix_pending := map (\<lambda>i. msix_pending d ! i \<and> masked (msix_table d ! i)) [0..<length (msix_table d)],
       vp_log := rev (map (msi_of d) (ready_vectors d [0..<length (msix_table d)])) @ vp_log d\<rparr>
     else d)"
proof -
  let ?n = "length (msix_table d)"
  have "map (\<lambda>i. msix_pending d ! i \<and> i \<notin> set (ready_vectors d [0..<?n])) [0..<?n]
      = map (\<lambda>i. msix_pending d ! i \<and> masked (msix_table d ! i)) [0..<?n]"
    by (auto simp: ready_vectors_def)
  then show ?thesis
    using assms deliver_loop_spec[of d "[0..<?n]"]
    by (simp add: deliver_pending_def msix_flags_wf msix_live_def vp_wf_def)
qed

lemma line_level_signals: "line_level (rev (map (msi_of d) is) @ log) = line_level log"
proof -
  have "line_level (map (msi_of d) js @ log) = line_level log" for js
    by (induction js) (simp_all add: msi_of_def)
  then show ?thesis by (simp add: rev_map)
qed

lemma deliver_pending_inv:
  assumes "vp_wf d" and "line_ok d" and "bar_ok d"
  shows "\<exists>d'. deliver_pending d = Some d' \<and> vp_inv d'"
proof (cases "msix_live d")
  case True
  let ?n = "length (msix_table d)"
  let ?p = "map (\<lambda>i. msix_pending d ! i \<and> masked (msix_table d ! i)) [0..<?n]"
  let ?d = "d\<lparr>msix_pending := ?p, vp_log := rev (map (msi_of d) (ready_vectors d [0..<?n])) @ vp_log d\<rparr>"
  have "vp_wf ?d" using assms(1) by (simp add: vp_wf_def)
  moreover have "line_ok ?d" using assms(2) by (simp add: line_ok_def line_level_signals)
  moreover have "none_stuck ?d" by (simp add: none_stuck_def)
  moreover have "bar_ok ?d" using assms(3) by (simp add: bar_ok_def)
  ultimately have "vp_inv ?d" by (simp add: vp_inv_def)
  then show ?thesis using deliver_pending_spec[OF assms(1)] True by simp
next
  case False
  then have "vp_inv d" using assms by (simp add: vp_inv_def none_stuck_def)
  then show ?thesis using deliver_pending_spec[OF assms(1)] False by simp
qed

section \<open>Every operation keeps the invariant\<close>

lemma vp_inv_wf: "vp_inv d \<Longrightarrow> vp_wf d"
  by (simp add: vp_inv_def)

lemma signal_msix_spec:
  assumes "vp_wf d"
  shows "signal_msix d v =
     Some (if v = 0xffff \<or> length (msix_table d) \<le> unat v then d
       else if cfg16 (config d) 0x86 AND 0x4000 \<noteq> 0 \<or> masked (msix_table d ! unat v)
       then d\<lparr>msix_pending := (msix_pending d)[unat v := True]\<rparr>
       else d\<lparr>vp_log := msi_of d (unat v) # vp_log d\<rparr>)"
  using assms
  by (auto simp: signal_msix_def Let_def VIRTIO_MSI_NO_VECTOR_def msix_flags_wf nth_opt_def
      vp_wf_def send_msi_def msi_of_def)

lemma raise_queue_interrupt_spec:
  assumes "vp_wf d"
  shows "raise_queue_interrupt d i =
     (if cfg16 (config d) 0x86 AND 0x8000 \<noteq> 0
      then signal_msix d (if i < length (queues d) then queue_msix_vectors d ! i else 0xffff)
      else Some (drive_line True (d\<lparr>isr_status := isr_status d OR 1\<rparr>)))"
  using assms
  by (simp add: raise_queue_interrupt_def msix_flags_wf nth_opt_def vp_wf_def ISR_QUEUE_def
      VIRTIO_MSI_NO_VECTOR_def)

lemma pending_masked_inv:
  assumes "vp_inv d" and "cfg16 (config d) 0x86 AND 0x4000 \<noteq> 0 \<or> masked (msix_table d ! k)"
  shows "vp_inv (d\<lparr>msix_pending := (msix_pending d)[k := True]\<rparr>)"
proof -
  let ?d = "d\<lparr>msix_pending := (msix_pending d)[k := True]\<rparr>"
  have "none_stuck ?d"
    unfolding none_stuck_def
  proof (intro impI allI)
    fix i assume live: "msix_live ?d" and i: "i < length (msix_table ?d)" "msix_pending ?d ! i"
    then have "masked (msix_table d ! k)" using assms(2) by (simp add: msix_live_def)
    moreover have "masked (msix_table d ! i)" if "i \<noteq> k"
      using that i live assms(1) by (simp add: vp_inv_def none_stuck_def msix_live_def)
    ultimately show "masked (msix_table ?d ! i)" by (cases "i = k") simp_all
  qed
  then show ?thesis using assms(1) by (simp add: vp_inv_def vp_wf_def line_ok_def bar_ok_def)
qed

lemma log_signal_inv: "vp_inv d \<Longrightarrow> vp_inv (d\<lparr>vp_log := msi_of e k # vp_log d\<rparr>)"
  by (simp add: vp_inv_def vp_wf_def none_stuck_def line_ok_def bar_ok_def msix_live_def msi_of_def)

lemma raise_line_inv: "vp_inv d \<Longrightarrow> vp_inv (drive_line True (d\<lparr>isr_status := isr_status d OR 1\<rparr>))"
  by (auto simp: vp_inv_def vp_wf_def none_stuck_def line_ok_def bar_ok_def msix_live_def drive_line_def)

lemma drop_line_inv: "vp_inv d \<Longrightarrow> vp_inv (drive_line False (d\<lparr>isr_status := 0\<rparr>))"
  by (simp add: vp_inv_def vp_wf_def none_stuck_def line_ok_def bar_ok_def msix_live_def drive_line_def)

lemma raise_queue_interrupt_inv:
  assumes "vp_inv d"
  shows "\<exists>d'. raise_queue_interrupt d i = Some d' \<and> vp_inv d'"
  using raise_queue_interrupt_spec[OF vp_inv_wf[OF assms], of i] signal_msix_spec[OF vp_inv_wf[OF assms]]
    assms pending_masked_inv log_signal_inv raise_line_inv
  by auto

lemma vp_reset_inv:
  assumes "vp_wf d" and "bar_ok d"
  shows "vp_inv (vp_reset d)"
proof -
  have "length (msix_pending d) = length (msix_table d)" using assms(1) by (simp add: vp_wf_def)
  then have "none_stuck (vp_reset d)"
    by (simp add: none_stuck_def vp_reset_def Let_def drive_line_def fill_def)
  then show ?thesis
    using assms by (simp add: vp_inv_def vp_wf_def line_ok_def bar_ok_def vp_reset_def Let_def drive_line_def)
qed

text \<open>Updates that touch none of the fields the invariant speaks of.\<close>

lemma on_queue_inv: "vp_inv d \<Longrightarrow> vp_inv (on_queue f d)"
  by (auto simp: vp_inv_def vp_wf_def none_stuck_def line_ok_def bar_ok_def msix_live_def
      on_queue_def Let_def split: option.split)

lemma register_update_inv:
  assumes "vp_inv d"
  shows "vp_inv (d\<lparr>device_feature_select := a\<rparr>)" "vp_inv (d\<lparr>driver_feature_select := a\<rparr>)"
    "vp_inv (d\<lparr>driver_features := b\<rparr>)" "vp_inv (d\<lparr>vp_status := s\<rparr>)"
    "vp_inv (d\<lparr>queue_select := q\<rparr>)" "vp_inv (d\<lparr>config_msix_vector := q\<rparr>)"
    "vp_inv (d\<lparr>queue_msix_vectors := (queue_msix_vectors d)[k := q]\<rparr>)"
    "vp_inv (d\<lparr>vp_irq_sink := i\<rparr>)"
  using assms by (simp_all add: vp_inv_def vp_wf_def none_stuck_def line_ok_def bar_ok_def msix_live_def)

lemma common_cfg_write_inv: "vp_inv d \<Longrightarrow> vp_inv (common_cfg_write d off data)"
proof -
  assume inv: "vp_inv d"
  then have "vp_wf (d\<lparr>vp_status := s\<rparr>)" "bar_ok (d\<lparr>vp_status := s\<rparr>)" for s
    by (simp_all add: vp_inv_def vp_wf_def bar_ok_def)
  then show ?thesis
    using inv by (simp add: common_cfg_write_def Let_def register_update_inv on_queue_inv vp_reset_inv)
qed

lemma masked_field: "field \<noteq> 12 \<Longrightarrow> masked (msix_field_write field v e) = masked e"
  by (simp add: msix_field_write_def masked_def)

lemma table_update_wf:
  assumes "vp_inv d"
  shows "vp_wf (d\<lparr>msix_table := (msix_table d)[k := e]\<rparr>)" "line_ok (d\<lparr>msix_table := (msix_table d)[k := e]\<rparr>)"
    "bar_ok (d\<lparr>msix_table := (msix_table d)[k := e]\<rparr>)"
  using assms by (simp_all add: vp_inv_def vp_wf_def line_ok_def bar_ok_def)

lemma msix_table_write_inv:
  assumes "vp_inv d"
  shows "\<exists>d'. msix_table_write d rel data = Some d' \<and> vp_inv d'"
proof -
  let ?k = "unat (rel div 16)"
  let ?e = "msix_field_write (rel mod 16) (ucast (get_le data)) (msix_table d ! ?k)"
  define d1 where "d1 = (if ?k < length (msix_table d) then d\<lparr>msix_table := (msix_table d)[?k := ?e]\<rparr> else d)"
  have w: "msix_table_write d rel data = (if rel mod 16 = 12 then deliver_pending d1 else Some d1)"
    by (simp add: msix_table_write_def Let_def MSIX_ENTRY_SIZE_def nth_opt_def d1_def)
  have wf: "vp_wf d1" "line_ok d1" "bar_ok d1"
    using assms table_update_wf[OF assms] by (simp_all add: d1_def vp_inv_def)
  have "none_stuck d1" if "rel mod 16 \<noteq> 12"
  proof -
    have "masked (msix_table d1 ! i) = masked (msix_table d ! i)" if "i < length (msix_table d)" for i
      using that \<open>rel mod 16 \<noteq> 12\<close> by (cases "i = ?k") (simp_all add: d1_def masked_field)
    moreover have "msix_live d1 = msix_live d" "length (msix_table d1) = length (msix_table d)"
      "msix_pending d1 = msix_pending d" by (simp_all add: d1_def msix_live_def)
    ultimately show ?thesis using assms by (simp add: vp_inv_def none_stuck_def)
  qed
  then show ?thesis
    using deliver_pending_inv[OF wf] wf unfolding w by (simp add: vp_inv_def)
qed

lemma replace_irq_sink_vp_inv: "vp_inv d \<Longrightarrow> vp_inv (vp_replace_irq_sink k d)"
  by (simp add: vp_replace_irq_sink_def register_update_inv)

text \<open>The configuration registers after a guest's write.\<close>

lemma config_write_byte_wf:
  assumes "cs_wf cs"
  shows "\<exists>cs'. config_write_byte off b cs = Some cs' \<and> cs_wf cs'"
  using assms by (auto simp: config_write_byte_def set_u8_eq get_u8_def cs_wf_def CAP_MSIX_def set_u8_def)

lemma config_write_bytes_wf:
  "cs_wf cs \<Longrightarrow> \<exists>cs'. config_write_bytes xs cs = Some cs' \<and> cs_wf cs'"
proof (induction xs arbitrary: cs)
  case (Cons x xs)
  obtain off b where x: "x = (off, b)" by (cases x)
  obtain cs1 where "config_write_byte (unat off) b cs = Some cs1" "cs_wf cs1"
    using config_write_byte_wf[OF Cons.prems] by blast
  then show ?case using Cons.IH[of cs1] by (simp add: x)
qed simp

lemma page_mask: "(v AND 0xfffff000) AND 0xfff = (0 :: u32)"
  by (simp add: and.assoc)

lemma set_bar_wf:
  assumes "cs_wf cs"
  shows "\<exists>cs'. set_u32 0x10 v cs = Some cs' \<and> cs_wf cs' \<and> cfg32 cs' 0x10 = v"
proof -
  obtain cs' where s: "set_u32 0x10 v cs = Some cs'" using set_returns(3)[OF assms, of "0x10" v] by auto
  then have "cs_wf cs'" using set_wf(3)[OF _ assms] by blast
  moreover have "get_u32 cs' 0x10 = Some v" using get_set_u32[OF assms _ s] by simp
  ultimately show ?thesis using s get_u32_wf[of cs' "0x10"] by simp
qed

lemma vp_config_write_spec:
  assumes "vp_wf d" and "unat off + length data < 2 ^ 64"
  obtains cs where "cs_wf cs" "cfg32 cs 0x10 AND 0xfff = 0"
    "vp_config_write oc d off data = deliver_pending (d\<lparr>config := cs\<rparr>)"
proof -
  obtain cs1 where c1: "config_write_bytes (zip (map (\<lambda>i. off + of_nat i) [0..<length data]) data) (config d) = Some cs1"
    "cs_wf cs1"
    using config_write_bytes_wf assms(1) unfolding vp_wf_def by blast
  obtain cs2 where c2: "set_u32 0x10 (cfg32 cs1 0x10 AND 0xfffff000) cs1 = Some cs2" "cs_wf cs2"
    "cfg32 cs2 0x10 = cfg32 cs1 0x10 AND 0xfffff000"
    using set_bar_wf[OF c1(2)] by blast
  have "vp_config_write oc d off data = deliver_pending (d\<lparr>config := cs2\<rparr>)"
    using index_seq_in_range(1)[OF assms(2)] c1 c2(1) get_u32_wf[OF c1(2), of "0x10"]
    by (simp add: vp_config_write_def)
  moreover have "cfg32 cs2 0x10 AND 0xfff = 0" unfolding c2(3) by (rule page_mask)
  ultimately show ?thesis using that c2(2) by blast
qed

lemma vp_config_write_inv:
  assumes "vp_inv d" and "unat off + length data < 2 ^ 64"
  shows "\<exists>d'. vp_config_write oc d off data = Some d' \<and> vp_inv d'"
proof -
  obtain cs where cs: "cs_wf cs" "cfg32 cs 0x10 AND 0xfff = 0"
    "vp_config_write oc d off data = deliver_pending (d\<lparr>config := cs\<rparr>)"
    using vp_config_write_spec[OF vp_inv_wf[OF assms(1)] assms(2)] by blast
  have "vp_wf (d\<lparr>config := cs\<rparr>)" "line_ok (d\<lparr>config := cs\<rparr>)" "bar_ok (d\<lparr>config := cs\<rparr>)"
    using assms(1) cs by (simp_all add: vp_inv_def vp_wf_def line_ok_def bar_ok_def)
  then show ?thesis using deliver_pending_inv cs(3) by simp
qed

text \<open>Notifications: the backend keeps its invariant and its number of queues.\<close>

lemma on_notify_keeps:
  assumes "backend_ok dev" and "on_notify oc dev i q mem = Some (dev', q', mem', irq)"
  shows "backend_ok dev' \<and> num_queues dev' = num_queues dev \<and> gm_size mem' = gm_size mem \<and> gm_ptr mem' = gm_ptr mem"
proof (cases dev)
  case (RngDev r)
  show ?thesis
  proof (cases "i = 0")
    case True
    then obtain r' n where "virtq_process (rng_process_chain oc) oc q mem r = Some (q', mem', r', n)" "dev' = RngDev r'"
      using assms(2) RngDev by (auto simp: rng_on_notify_def bind_eq_Some_conv)
    then show ?thesis using rng_any.process_result(2,3)[OF TrueI] RngDev by auto
  qed (use assms RngDev in \<open>auto simp: rng_on_notify_def\<close>)
next
  case (BlkDev b)
  then have inv: "blk_inv b" using assms(1) by simp
  show ?thesis
  proof (cases "i = 0")
    case True
    then obtain b' n where p: "virtq_process (blk_process_chain oc) oc q mem b = Some (q', mem', b', n)" "dev' = BlkDev b'"
      using assms(2) BlkDev by (auto simp: blk_on_notify_def bind_eq_Some_conv)
    then show ?thesis using blk_any.process_result(1-3)[OF inv p(1)] BlkDev by auto
  qed (use assms BlkDev in \<open>auto simp: blk_on_notify_def\<close>)
qed

lemma on_notify_returns:
  assumes "backend_ok dev"
  shows "\<exists>dev' q' mem' irq. on_notify False dev i q mem = Some (dev', q', mem', irq)"
proof (cases dev)
  case (RngDev r)
  obtain q' mem' s' n where "virtq_process (rng_process_chain False) False q mem r = Some (q', mem', s', n)"
    using rng.process_returns[where s = r and q = q and mem = mem] by auto
  then show ?thesis using RngDev by (auto simp: rng_on_notify_def)
next
  case (BlkDev b)
  obtain q' mem' s' n where "virtq_process (blk_process_chain False) False q mem b = Some (q', mem', s', n)"
    using blk.process_returns[where s = b and q = q and mem = mem] assms BlkDev by auto
  then show ?thesis using BlkDev by (auto simp: blk_on_notify_def)
qed

lemma queue_write_inv:
  "vp_inv d \<Longrightarrow> backend_ok dev' \<Longrightarrow> num_queues dev' = num_queues (vp_device d) \<Longrightarrow>
   vp_inv (d\<lparr>vp_device := dev', queues := (queues d)[k := q]\<rparr>)"
  by (simp add: vp_inv_def vp_wf_def none_stuck_def line_ok_def bar_ok_def msix_live_def)

lemma notify_queue_inv:
  assumes "vp_inv d" and "notify_queue oc d mem data = Some (d', mem')"
  shows "vp_inv d' \<and> gm_size mem' = gm_size mem \<and> gm_ptr mem' = gm_ptr mem"
proof (cases "unat (get_le data) < length (queues d)")
  case True
  let ?i = "unat (get_le data)"
  obtain dev1 q1 m1 irq where n: "on_notify oc (vp_device d) ?i (queues d ! ?i) mem = Some (dev1, q1, m1, irq)"
    and r: "(if irq then map_option (\<lambda>d''. (d'', m1))
          (raise_queue_interrupt (d\<lparr>vp_device := dev1, queues := (queues d)[?i := q1]\<rparr>) ?i)
        else Some (d\<lparr>vp_device := dev1, queues := (queues d)[?i := q1]\<rparr>, m1)) = Some (d', mem')"
    using assms(2) True by (auto simp: notify_queue_def Let_def bind_eq_Some_conv)
  have "backend_ok (vp_device d)" using assms(1) by (simp add: vp_inv_def vp_wf_def)
  note k = on_notify_keeps[OF this n]
  then have "vp_inv (d\<lparr>vp_device := dev1, queues := (queues d)[?i := q1]\<rparr>)"
    using assms(1) by (intro queue_write_inv) auto
  then obtain d2 where "raise_queue_interrupt (d\<lparr>vp_device := dev1, queues := (queues d)[?i := q1]\<rparr>) ?i = Some d2"
    "vp_inv d2" "vp_inv (d\<lparr>vp_device := dev1, queues := (queues d)[?i := q1]\<rparr>)"
    using raise_queue_interrupt_inv by blast
  then show ?thesis using r k by (cases irq) auto
next
  case False
  then show ?thesis using assms by (simp add: notify_queue_def Let_def)
qed

lemma notify_queue_returns:
  assumes "vp_inv d"
  shows "\<exists>d' mem'. notify_queue False d mem data = Some (d', mem')"
proof (cases "unat (get_le data) < length (queues d)")
  case True
  let ?i = "unat (get_le data)"
  have ok: "backend_ok (vp_device d)" using assms by (simp add: vp_inv_def vp_wf_def)
  obtain dev1 q1 m1 irq where n: "on_notify False (vp_device d) ?i (queues d ! ?i) mem = Some (dev1, q1, m1, irq)"
    using on_notify_returns[OF ok] by blast
  then have "vp_inv (d\<lparr>vp_device := dev1, queues := (queues d)[?i := q1]\<rparr>)"
    using assms on_notify_keeps[OF ok n] by (intro queue_write_inv) auto
  then obtain d2 where "raise_queue_interrupt (d\<lparr>vp_device := dev1, queues := (queues d)[?i := q1]\<rparr>) ?i = Some d2"
    using raise_queue_interrupt_inv by blast
  then show ?thesis using n True by (simp add: notify_queue_def Let_def)
next
  case False
  then show ?thesis by (simp add: notify_queue_def Let_def)
qed

lemma mmio_write_inv:
  assumes "vp_inv d" and "mmio_write oc d mem off data = Some (d', mem')"
  shows "vp_inv d' \<and> gm_size mem' = gm_size mem \<and> gm_ptr mem' = gm_ptr mem"
proof -
  have "d\<lparr>vp_device := write_config (vp_device d) o' data\<rparr> = d" for o' by (simp add: write_config_def)
  then show ?thesis
    using assms common_cfg_write_inv[OF assms(1)] notify_queue_inv[OF assms(1)]
      msix_table_write_inv[OF assms(1), of "off - MSIX_TABLE_OFFSET" data]
    by (auto simp: mmio_write_def split: if_splits)
qed

lemma mmio_write_returns:
  assumes "vp_inv d"
  shows "\<exists>d' mem'. mmio_write False d mem off data = Some (d', mem')"
  using assms notify_queue_returns[OF assms] msix_table_write_inv[OF assms, of "off - MSIX_TABLE_OFFSET" data]
  by (auto simp: mmio_write_def)

lemma length_put_le [simp]: "length (put_le data v) = length data"
  by (simp add: put_le_def)

lemma blk_read_config_length: "blk_read_config oc b off data = Some d \<Longrightarrow> length d = length data"
  by (auto simp: blk_read_config_def bind_eq_Some_conv dest: index_seq_length)

lemma mmio_read_inv:
  assumes "vp_inv d" and "mmio_read oc d off data = Some (d', data')"
  shows "vp_inv d' \<and> length data' = length data \<and> vp_device d' = vp_device d \<and> config d' = config d"
proof (cases "vp_device d")
  case (RngDev r)
  then show ?thesis
    using assms drop_line_inv[OF assms(1)]
    by (auto simp: mmio_read_def common_cfg_read_def msix_table_read_def msix_pba_read_def Let_def
        bind_eq_Some_conv drive_line_def split: if_splits)
next
  case (BlkDev b)
  then show ?thesis
    using assms drop_line_inv[OF assms(1)]
    by (auto simp: mmio_read_def common_cfg_read_def msix_table_read_def msix_pba_read_def Let_def
        bind_eq_Some_conv drive_line_def dest: blk_read_config_length split: if_splits)
qed

section \<open>The initial state\<close>

lemma set_u8_regs: "k < length rs \<Longrightarrow> set_u8 k v \<lparr>regs = rs\<rparr> = Some \<lparr>regs = rs[k := v]\<rparr>"
  by (simp add: set_u8_def)

lemma build_config_regs:
  assumes "rs_add oc VIRTIO_PCI_DEVICE_BASE (ucast vid) = Some did"
  shows "\<exists>rs. build_config oc vid irq 2 = Some \<lparr>regs = rs\<rparr> \<and> length rs = 256 \<and>
     map ((!) rs) [0x00, 0x01, 0x02, 0x03, 0x04, 0x05, 0x10, 0x11, 0x12, 0x13, 0x34, 0x86, 0x87]
       = [0xf4, 0x1a, ucast did, ucast (drop_bit 8 did), 0, 0, 0, 0, 0, 0, 0x40, 1, 0] \<and>
     map ((!) rs) [0x40, 0x41, 0x43, 0x48, 0x49, 0x4a, 0x4b, 0x4c, 0x4d, 0x4e, 0x4f]
       = [9, 0x50, 1, 0, 0, 0, 0, 0x40, 0, 0, 0] \<and>
     map ((!) rs) [0x50, 0x51, 0x53, 0x58, 0x59, 0x5a, 0x5b, 0x5c, 0x5d, 0x5e, 0x5f, 0x60, 0x61, 0x62, 0x63]
       = [9, 0x64, 2, 0x50, 0, 0, 0, 0x10, 0, 0, 0, 0, 0, 0, 0] \<and>
     map ((!) rs) [0x64, 0x65, 0x67, 0x6c, 0x6d, 0x6e, 0x6f, 0x70, 0x71, 0x72, 0x73]
       = [9, 0x74, 3, 0x40, 0, 0, 0, 0x10, 0, 0, 0] \<and>
     map ((!) rs) [0x74, 0x75, 0x77, 0x7c, 0x7d, 0x7e, 0x7f, 0x80, 0x81, 0x82, 0x83]
       = [9, 0x84, 4, 0, 1, 0, 0, 0, 1, 0, 0] \<and>
     map ((!) rs) [0x84, 0x85, 0x88, 0x89, 0x8a, 0x8b, 0x8c, 0x8d, 0x8e, 0x8f]
       = [0x11, 0, 0, 8, 0, 0, 0, 0xc, 0, 0]"
proof -
  obtain c sc where "pci_class vid = (c, sc)" by fastforce
  then show ?thesis
    using assms
    by (simp add: build_config_def write_cap_def set_u16_def set_u32_def set_u8_regs config_space_new_def
      cap_consts rs_sub_def Let_def VIRTIO_PCI_VENDOR_def bar_layout PCI_CAP_ID_VNDR_def PCI_CAP_ID_MSIX_def
      VIRTIO_PCI_CAP_COMMON_CFG_def VIRTIO_PCI_CAP_NOTIFY_CFG_def VIRTIO_PCI_CAP_ISR_CFG_def VIRTIO_PCI_CAP_DEVICE_CFG_def)
qed

lemma device_id_add:
  "\<exists>did. rs_add oc VIRTIO_PCI_DEVICE_BASE (ucast (device_id dev)) = Some did"
  by (cases dev) (simp_all add: rng_device_id_def blk_device_id_def VIRTIO_PCI_DEVICE_BASE_def
      rs_add_def checked_add_def)

lemma virtio_pci_new_Some:
  "\<exists>rs. build_config oc (device_id dev) irq 2 = Some \<lparr>regs = rs\<rparr> \<and>
     virtio_pci_new oc isink msink dev irq = Some \<lparr>vp_device = dev, queues = [queue_default],
       config = \<lparr>regs = rs\<rparr>, device_feature_select = 0, driver_feature_select = 0, driver_features = 0,
       vp_status = 0, queue_select = 0, isr_status = 0, vp_irq_sink = isink, vp_msi_sink = msink,
       msix_table = [msix_entry_new, msix_entry_new], msix_pending = [False, False],
       queue_msix_vectors = [0xffff], config_msix_vector = 0xffff, vp_log = []\<rparr>"
proof -
  obtain did where "rs_add oc VIRTIO_PCI_DEVICE_BASE (ucast (device_id dev)) = Some did"
    using device_id_add by blast
  then obtain rs where "build_config oc (device_id dev) irq 2 = Some \<lparr>regs = rs\<rparr>"
    using build_config_regs by blast
  moreover have "num_queues dev = 1" by (cases dev) (simp_all add: rng_num_queues_def blk_num_queues_def)
  ultimately show ?thesis
    by (simp add: virtio_pci_new_def Let_def VIRTIO_MSI_NO_VECTOR_def numeral_2_eq_2[symmetric] replicate_two)
qed

lemma virtio_pci_new_inv:
  assumes "backend_ok dev"
  shows "\<exists>d. virtio_pci_new oc isink msink dev irq = Some d \<and> vp_inv d"
proof -
  obtain did where "rs_add oc VIRTIO_PCI_DEVICE_BASE (ucast (device_id dev)) = Some did"
    using device_id_add by blast
  then obtain rs where rs: "build_config oc (device_id dev) irq 2 = Some \<lparr>regs = rs\<rparr>"
    and l: "length rs = 256" "rs ! 0x10 = 0" "rs ! 0x11 = 0" "rs ! 0x12 = 0" "rs ! 0x13 = 0"
      "rs ! 0x86 = 1" "rs ! 0x87 = 0"
    using build_config_regs[of oc "device_id dev" did irq] by auto
  have "num_queues dev = 1" by (cases dev) (simp_all add: rng_num_queues_def blk_num_queues_def)
  then show ?thesis
    using virtio_pci_new_Some[of oc dev irq isink msink] rs l assms
    by (auto simp: vp_inv_def vp_wf_def cs_wf_def none_stuck_def line_ok_def bar_ok_def msix_live_def
        cfg16_def cfg32_def)
qed

section \<open>Reachable functions\<close>

text \<open>
  What the rest of the program does to a function: accesses to BAR0 through the window,
  configuration cycles through the root bus, and the replacement of its line at setup.
  Guest memory is whatever the guest has made of it at the time.
\<close>

inductive vp_reachable :: "bool \<Rightarrow> virtio_pci_device \<Rightarrow> bool" for oc where
  new: "backend_ok dev \<Longrightarrow> virtio_pci_new oc isink msink dev irq = Some d \<Longrightarrow> vp_reachable oc d"
| bar_read: "vp_reachable oc d \<Longrightarrow> mmio_read oc d off data = Some (d', data') \<Longrightarrow> vp_reachable oc d'"
| bar_write: "vp_reachable oc d \<Longrightarrow> mmio_write oc d mem off data = Some (d', mem') \<Longrightarrow> vp_reachable oc d'"
| config_cycle: "vp_reachable oc d \<Longrightarrow> unat off + length data < 2 ^ 64 \<Longrightarrow>
    vp_config_write oc d off data = Some d' \<Longrightarrow> vp_reachable oc d'"
| swap_line: "vp_reachable oc d \<Longrightarrow> vp_reachable oc (vp_replace_irq_sink sink d)"

inductive_cases vp_reachable_cases: "vp_reachable oc d"

lemma vp_reachable_inv: "vp_reachable oc d \<Longrightarrow> vp_inv d"
proof (induction rule: vp_reachable.induct)
  case (new dev isink msink irq d)
  then show ?case using virtio_pci_new_inv[of dev oc isink msink irq] by auto
next
  case (config_cycle d off data d')
  then show ?case using vp_config_write_inv[of d off data oc] by auto
qed (auto dest: mmio_read_inv mmio_write_inv replace_irq_sink_vp_inv)

lemma read_config_returns:
  assumes "unat off + length data < 2 ^ 64"
  shows "\<exists>data'. read_config oc dev off data = Some data'"
  by (cases dev) (simp_all add: blk_read_config_def index_seq_in_range(1)[OF assms] Let_def)

lemma mmio_read_returns:
  assumes "length data + 0x1000 < 2 ^ 64" and "unat off < 0x1000"
  shows "\<exists>d' data'. mmio_read oc d off data = Some (d', data')"
proof -
  have "unat (off - DEVICE_CFG_OFFSET) + length data < 2 ^ 64" if "in_block DEVICE_CFG_OFFSET DEVICE_CFG_LEN off"
    using that assms by (simp add: in_block_def unat_sub word_le_nat_alt bar_layout)
  moreover have "\<exists>data'. msix_pba_read oc d (off - MSIX_PBA_OFFSET) data = Some data'"
    if "in_block MSIX_PBA_OFFSET 8 off"
  proof -
    have "unat (off - 0xc00) < 8"
      using that by (auto simp: in_block_def bar_layout unat_sub word_le_nat_alt word_less_nat_alt)
    then have "unat ((off - 0xc00) div 8) = 0" by (simp add: unat_div)
    then have "(off - 0xc00) div 8 = 0" by (simp only: unat_eq_zero)
    then show ?thesis by (simp add: msix_pba_read_def MSIX_PBA_OFFSET_def rs_mul_def checked_mul_def)
  qed
  ultimately show ?thesis
    using read_config_returns by (auto simp: mmio_read_def Let_def)
qed

section \<open>Byte lanes\<close>

text \<open>The shift-and-or loop of \<open>get_le\<close> is the little-endian value of up to eight bytes.\<close>

lemma get_le_fold:
  "fold (\<lambda>(i, b) v. v OR push_bit (i * 8) (ucast b)) (enumerate n bs) v = v OR push_bit (n * 8) (from_le bs :: u64)"
proof (induction bs arbitrary: n v)
  case (Cons b bs)
  have "push_bit (Suc n * 8) (from_le bs) = push_bit (n * 8) (push_bit 8 (from_le bs :: u64))"
    by (simp add: push_bit_push_bit add.commute)
  then show ?case by (simp add: Cons.IH push_bit_or or.assoc)
qed simp

lemma get_le_eq: "get_le bs = from_le (take 8 bs)"
  using get_le_fold[of 0 "take 8 bs" 0] by (simp add: get_le_def)

lemma put_le_eq: "length data \<le> 8 \<Longrightarrow> put_le data v = to_le (length data) v"
  by (rule nth_equalityI) (simp_all add: put_le_def nth_to_le)

lemma get_le_u32: "get_le (u32_to_le w) = ucast w"
proof -
  have "bit (from_le (u32_to_le w) :: u64) n = bit (ucast w :: u64) n" if "n < 64" for n
  proof (cases "n < 32")
    case True
    then have "n div 8 < 4" "8 * (n div 8) + n mod 8 = n" by auto
    then show ?thesis
      using True by (simp add: bit_from_le nth_to_le bit_simps div_less_iff_less_mult)
  next
    case False
    then have "\<not> n div 8 < 4" "\<not> bit w n"
      using bit_imp_le_length[of w n] by (auto simp: div_less_iff_less_mult)
    then show ?thesis by (simp add: bit_from_le bit_simps)
  qed
  then have "(from_le (u32_to_le w) :: u64) = ucast w" by (intro bit_word_eqI) simp
  then show ?thesis by (simp add: get_le_eq)
qed

lemma low_high_mask_bits:
  "bit (0xffffffff :: u64) n \<longleftrightarrow> n < 32" "bit (0xffffffff00000000 :: u64) n \<longleftrightarrow> 32 \<le> n \<and> n < 64"
proof -
  have "(0xffffffff :: u64) = mask 32" "(0xffffffff00000000 :: u64) = push_bit 32 (mask 32)"
    by (simp_all add: mask_eq_exp_minus_1)
  note eqs = this
  show "bit (0xffffffff :: u64) n \<longleftrightarrow> n < 32" "bit (0xffffffff00000000 :: u64) n \<longleftrightarrow> 32 \<le> n \<and> n < 64"
    unfolding eqs bit_push_bit_iff bit_mask_iff by auto
qed

lemma set_low_high:
  "set_high (set_low old (ucast (lo :: u32))) (ucast (hi :: u32)) = push_bit 32 (ucast hi) OR ucast lo"
proof (rule bit_word_eqI)
  fix n assume n: "n < LENGTH(64)"
  show "bit (set_high (set_low old (ucast lo)) (ucast hi)) n = bit (push_bit 32 (ucast hi) OR ucast lo :: u64) n"
    using n unfolding set_high_def set_low_def bit_or_iff bit_and_iff low_high_mask_bits bit_push_bit_iff bit_ucast_iff
    by (cases "n < 32") (auto dest: bit_imp_le_length)
qed

section \<open>A driver session\<close>

text \<open>
  A short session used to instantiate the properties: a driver gives queue 0 vector 0,
  enables the queue, enables MSI-X and notifies the queue while the vector is masked. All
  ring addresses are zero; the guest memory holds one available chain, at descriptor 0.
\<close>

lemma session_enabled:
  "\<exists>d. vp_reachable False d \<and> vp_device d = RngDev r \<and> queues d = [queue_default\<lparr>q_ready := True\<rparr>] \<and>
     queue_msix_vectors d = [0] \<and> msix_table d = [msix_entry_new, msix_entry_new] \<and>
     msix_pending d = [False, False] \<and> msix_enabled d = Some True \<and> msix_function_masked d = Some False"
proof -
  obtain did where "rs_add False VIRTIO_PCI_DEVICE_BASE (ucast (device_id (RngDev r))) = Some did"
    using device_id_add by blast
  then obtain rs where rs: "build_config False (device_id (RngDev r)) 5 2 = Some \<lparr>regs = rs\<rparr>"
    and l: "length rs = 256" "rs ! 0x10 = 0" "rs ! 0x11 = 0" "rs ! 0x12 = 0" "rs ! 0x13 = 0"
      "rs ! 0x86 = 1" "rs ! 0x87 = 0"
    using build_config_regs[of False "device_id (RngDev r)" did 5] by auto
  obtain d0 where d0: "virtio_pci_new False NullIrqSink (KvmMsiSink 0) (RngDev r) 5 = Some d0"
    "vp_device d0 = RngDev r" "queues d0 = [queue_default]" "config d0 = \<lparr>regs = rs\<rparr>" "queue_select d0 = 0"
    "msix_table d0 = [msix_entry_new, msix_entry_new]" "msix_pending d0 = [False, False]"
    "queue_msix_vectors d0 = [0xffff]"
    using virtio_pci_new_Some[of False "RngDev r" 5 NullIrqSink "KvmMsiSink 0"] rs by auto
  then have r0: "vp_reachable False d0" by (intro vp_reachable.new[OF _ d0(1)]) simp
  let ?m = "\<lparr>gm_ptr = 1, gm_size = 4096, gm_bytes = (\<lambda>_. 0)\<rparr> :: guest_memory"
  define d2 where "d2 = d0\<lparr>queue_msix_vectors := [0], queues := [queue_default\<lparr>q_ready := True\<rparr>]\<rparr>"
  have "mmio_write False d0 ?m 0x1a [0, 0] = Some (d0\<lparr>queue_msix_vectors := [0]\<rparr>, ?m)"
    using d0 by (simp add: mmio_write_def bar_layout common_cfg_write_def Let_def get_le_eq)
  then have r1: "vp_reachable False (d0\<lparr>queue_msix_vectors := [0]\<rparr>)" using r0 by (rule vp_reachable.bar_write[rotated])
  have "mmio_write False (d0\<lparr>queue_msix_vectors := [0]\<rparr>) ?m 0x1c [1, 0] = Some (d2, ?m)"
    using d0 by (simp add: mmio_write_def bar_layout common_cfg_write_def Let_def get_le_eq on_queue_def nth_opt_def d2_def)
  then have r2: "vp_reachable False d2" using r1 by (rule vp_reachable.bar_write[rotated])
  define cs where "cs = \<lparr>regs = rs[0x87 := 0x80, 0x10 := 0, 0x11 := 0, 0x12 := 0, 0x13 := 0]\<rparr>"
  have wf: "vp_wf (d2\<lparr>config := cs\<rparr>)"
    using d0 l(1) by (simp add: vp_wf_def cs_wf_def cs_def d2_def rng_num_queues_def)
  have bar: "get_u32 \<lparr>regs = rs[0x87 := 0x80]\<rparr> 0x10 = Some 0" using l by (simp add: get_u32_def get_u8_def)
  have "vp_config_write False d2 0x87 [0x80] = deliver_pending (d2\<lparr>config := cs\<rparr>)"
    using d0 l bar by (simp add: vp_config_write_def index_seq_def config_write_byte_def CAP_MSIX_def get_u8_def
        set_u8_regs set_u32_def d2_def cs_def)
  also have "\<dots> = Some (d2\<lparr>config := cs\<rparr>)"
    using deliver_pending_spec[OF wf] d0 by (simp add: ready_vectors_def d2_def upt_rec nth_Cons')
  finally have r3: "vp_reachable False (d2\<lparr>config := cs\<rparr>)" using r2 by (intro vp_reachable.config_cycle[OF r2]) simp_all
  have "cfg16 cs 0x86 = 0x8001" using l by (simp add: cfg16_def cs_def)
  then show ?thesis
    using r3 d0 msix_flags_wf[OF wf] by (intro exI[of _ "d2\<lparr>config := cs\<rparr>"]) (simp add: d2_def)
qed

lemma session_notify:
  "\<exists>r' q' m'. on_notify False (RngDev r) 0 (queue_default\<lparr>q_ready := True\<rparr>)
     \<lparr>gm_ptr = 1, gm_size = 4096, gm_bytes = (\<lambda>a. if a = 2 then 1 else 0)\<rparr> = Some (RngDev r', q', m', True)"
proof -
  let ?q = "queue_default\<lparr>q_ready := True\<rparr>"
  let ?m = "\<lparr>gm_ptr = 1, gm_size = 4096, gm_bytes = (\<lambda>a. if a = 2 then 1 else 0)\<rparr> :: guest_memory"
  have q: "q_ready ?q" "q_num ?q \<noteq> 0" "avail_ring ?q = 0" "used_ring ?q = 0" "last_avail_idx ?q = 0"
    by (simp_all add: queue_default_def virtqueue_new_def QUEUE_SIZE_MAX_def)
  have i: "read_at ?m (avail_ring ?q + 2) 2 = Inr [1, 0]"
    by (simp add: q read_at_def checked_hva_def upt_rec)
  have ring: "in_ram ?m (avail_ring ?q + 4 + ucast k * 2) 2" if "k < q_num ?q" for k
  proof -
    have "unat k < 256" using that by (simp add: word_less_nat_alt queue_default_def QUEUE_SIZE_MAX_def)
    then have "unat (4 + ucast k * 2 :: u64) \<le> 4 + 2 * 255"
      by (simp add: unat_word_ariths unsigned_ucast_eq take_bit_nat_eq_self)
    then show ?thesis by (simp add: in_ram_def q)
  qed
  obtain q' mem' r' n where p: "virtq_process (rng_process_chain False) False ?q ?m r = Some (q', mem', r', n)"
    using rng.process_returns[where s = r and q = ?q and mem = ?m] by auto
  have "n = unat (from_le [1, 0] - last_avail_idx ?q)"
    by (rule rng_any.process_drains(2)[OF TrueI q(1,2) i ring _ _ p]) (simp_all add: in_ram_def q)
  then show ?thesis using p by (simp add: rng_on_notify_def q)
qed

lemma session_pending:
  "\<exists>d. vp_reachable False d \<and> msix_enabled d = Some True \<and> msix_function_masked d = Some False \<and>
     msix_table d = [msix_entry_new, msix_entry_new] \<and> msix_pending d = [True, False]"
proof -
  define r where "r = (\<lparr>ent_ok = (\<lambda>_. True), ent_byte = (\<lambda>_ _. 7), ent_calls = 0\<rparr> :: virtio_rng)"
  let ?m = "\<lparr>gm_ptr = 1, gm_size = 4096, gm_bytes = (\<lambda>a. if a = 2 then 1 else 0)\<rparr> :: guest_memory"
  obtain d where d: "vp_reachable False d" "vp_device d = RngDev r" "queues d = [queue_default\<lparr>q_ready := True\<rparr>]"
    "queue_msix_vectors d = [0]" "msix_table d = [msix_entry_new, msix_entry_new]"
    "msix_pending d = [False, False]" "msix_enabled d = Some True" "msix_function_masked d = Some False"
    using session_enabled[of r] by blast
  obtain r' q' m' where n: "on_notify False (RngDev r) 0 (queue_default\<lparr>q_ready := True\<rparr>) ?m = Some (RngDev r', q', m', True)"
    using session_notify by blast
  let ?d1 = "d\<lparr>vp_device := RngDev r', queues := [q']\<rparr>"
  let ?d2 = "?d1\<lparr>msix_pending := [True, False]\<rparr>"
  have e: "msix_enabled ?d1 = Some True" "msix_function_masked ?d1 = Some False"
    using d(7,8) by (simp_all add: msix_enabled_def msix_function_masked_def)
  have "masked msix_entry_new" by (simp add: masked_def msix_entry_new_def MSIX_VECTOR_CTRL_MASK_def)
  then have "raise_queue_interrupt ?d1 0 = Some ?d2"
    using d e by (simp add: raise_queue_interrupt_def signal_msix_def nth_opt_def VIRTIO_MSI_NO_VECTOR_def)
  then have "mmio_write False d ?m 0x50 [0, 0] = Some (?d2, m')"
    using d n by (simp add: mmio_write_def bar_layout in_block_def notify_queue_def get_le_eq del: on_notify.simps)
  then have "vp_reachable False ?d2" by (rule vp_reachable.bar_write[OF d(1)])
  moreover have "msix_enabled ?d2 = Some True" "msix_function_masked ?d2 = Some False"
    using d(7,8) by (simp_all add: msix_enabled_def msix_function_masked_def)
  ultimately show ?thesis using d(5) by (intro exI[of _ ?d2]) simp
qed

section \<open>Properties\<close>

text \<open>
  C9. No interrupt is lost behind a cleared mask: in every reachable state of a function,
  when MSI-X is enabled and not masked as a whole, each vector still marked pending is masked
  in the table. Interrupts raised while masked are delivered as soon as the mask, the
  function mask or the disable is lifted, by whichever of the three writes lifts it.
\<close>

theorem msix_none_stuck:
  assumes "vp_reachable oc d" and "msix_enabled d = Some True" and "msix_function_masked d = Some False"
    and "i < length (msix_table d)" and "msix_pending d ! i"
  shows "masked (msix_table d ! i)"
proof -
  have "vp_inv d" by (rule vp_reachable_inv[OF assms(1)])
  then show ?thesis
    using assms(2-5) msix_flags_wf[OF vp_inv_wf] by (simp add: vp_inv_def none_stuck_def msix_live_def)
qed

theorem msix_none_stuck_witness:
  "\<exists>d. vp_reachable False d \<and> msix_pending d ! 0 \<and> masked (msix_table d ! 0)"
proof -
  obtain d where "vp_reachable False d" "msix_enabled d = Some True" "msix_function_masked d = Some False"
    "msix_table d = [msix_entry_new, msix_entry_new]" "msix_pending d = [True, False]"
    using session_pending by blast
  then show ?thesis using msix_none_stuck[of False d 0] by (intro exI[of _ d]) simp
qed

text \<open>
  C11. The legacy line follows the ISR: in every reachable state the level last driven on the
  \<open>INTx\<close> line is high exactly when the ISR is non-zero, and reading the ISR returns it in the
  first byte, clears it and lowers the line.
\<close>

theorem intx_follows_isr:
  assumes "vp_reachable oc d"
  shows "(line_level (vp_log d) \<longleftrightarrow> isr_status d \<noteq> 0) \<and>
     (\<exists>d'. mmio_read oc d 0x40 [b] = Some (d', [isr_status d]) \<and> isr_status d' = 0 \<and> \<not> line_level (vp_log d'))"
proof -
  have "line_ok d" using vp_reachable_inv[OF assms] by (simp add: vp_inv_def)
  then show ?thesis
    by (simp add: line_ok_def mmio_read_def bar_layout in_block_def drive_line_def fill_def)
qed

theorem intx_follows_isr_witness:
  "\<exists>d d'. vp_reachable False d \<and> mmio_read False d 0x40 [7] = Some (d', [isr_status d]) \<and> isr_status d' = 0"
proof -
  obtain d where "vp_reachable False d" using session_pending by blast
  then show ?thesis using intx_follows_isr[of False d 7] by blast
qed

text \<open>
  Raising a queue interrupt with MSI-X enabled and a vector assigned does exactly one
  thing: it signals that vector's message once when the vector can be delivered, and marks
  it pending, without a message, when it is masked; the legacy line and the ISR are left alone.
\<close>

theorem msix_raise:
  assumes "vp_reachable oc d" and "msix_enabled d = Some True" and "msix_function_masked d = Some fm"
    and "i < length (queues d)" and "queue_msix_vectors d ! i = v"
    and "unat v < length (msix_table d)" and "v \<noteq> 0xffff"
  shows "raise_queue_interrupt d i =
     Some (if fm \<or> masked (msix_table d ! unat v)
       then d\<lparr>msix_pending := (msix_pending d)[unat v := True]\<rparr>
       else d\<lparr>vp_log := Signal (vp_msi_sink d) (me_address (msix_table d ! unat v))
                (me_data (msix_table d ! unat v)) # vp_log d\<rparr>)"
proof -
  have wf: "vp_wf d" by (rule vp_inv_wf[OF vp_reachable_inv[OF assms(1)]])
  then show ?thesis
    using assms(2-) msix_flags_wf[OF wf]
    by (auto simp: raise_queue_interrupt_spec signal_msix_spec msi_of_def)
qed

theorem msix_raise_witness:
  "\<exists>d d'. vp_reachable False d \<and> raise_queue_interrupt d 0 = Some d' \<and>
     msix_pending d' = [True, False] \<and> vp_log d' = vp_log d"
proof -
  obtain d where d: "vp_reachable False d" "queues d = [queue_default\<lparr>q_ready := True\<rparr>]"
    "queue_msix_vectors d = [0]" "msix_table d = [msix_entry_new, msix_entry_new]"
    "msix_pending d = [False, False]" "msix_enabled d = Some True" "msix_function_masked d = Some False"
    using session_enabled by blast
  have "masked msix_entry_new" by (simp add: masked_def msix_entry_new_def MSIX_VECTOR_CTRL_MASK_def)
  then have "\<exists>d'. raise_queue_interrupt d 0 = Some d' \<and> msix_pending d' = [True, False] \<and> vp_log d' = vp_log d"
    using msix_raise[of False d False 0 0] d by simp
  then show ?thesis using d(1) by blast
qed

text \<open>
  Unmasking delivers: writing a control word without the mask bit to the table entry of a
  pending vector, with MSI-X enabled and not masked as a whole, sends that vector's message
  exactly once, sends nothing else, and clears its pending bit only.
\<close>

theorem msix_unmask:
  assumes "vp_reachable oc d" and "msix_enabled d = Some True" and "msix_function_masked d = Some False"
    and "k < length (msix_table d)" and "msix_pending d ! k" and "c AND 1 = 0"
  shows "\<exists>d'. msix_table_write d (of_nat k * 16 + 12) (u32_to_le c) = Some d' \<and>
     vp_log d' = Signal (vp_msi_sink d) (me_address (msix_table d ! k)) (me_data (msix_table d ! k)) # vp_log d \<and>
     (\<forall>i < length (msix_table d). msix_pending d' ! i \<longleftrightarrow> msix_pending d ! i \<and> i \<noteq> k)"
proof -
  have inv: "vp_inv d" by (rule vp_reachable_inv[OF assms(1)])
  have len: "length (msix_table d) = 2" using inv by (cases "vp_device d")
      (simp_all add: vp_inv_def vp_wf_def rng_num_queues_def blk_num_queues_def)
  have k: "k = 0 \<or> k = 1" using assms(4) len by auto
  then have idx: "unat ((of_nat k * 16 + 12 :: u64) div 16) = k" "(of_nat k * 16 + 12 :: u64) mod 16 = 12" by auto
  define d1 where "d1 = d\<lparr>msix_table := (msix_table d)[k := (msix_table d ! k)\<lparr>me_control := c\<rparr>]\<rparr>"
  have w: "msix_table_write d (of_nat k * 16 + 12) (u32_to_le c) = deliver_pending d1"
    unfolding msix_table_write_def Let_def MSIX_ENTRY_SIZE_def idx
    using assms(4) by (simp add: nth_opt_def d1_def get_le_u32 msix_field_write_def)
  have wf: "vp_wf d1" using table_update_wf(1)[OF inv] by (simp add: d1_def)
  have live: "msix_live d1" "msix_live d"
    using assms(2,3) msix_flags_wf[OF vp_inv_wf[OF inv]] by (simp_all add: d1_def msix_live_def)
  have um: "\<not> masked (msix_table d1 ! k)" using assms(4,6) by (simp add: d1_def masked_def MSIX_VECTOR_CTRL_MASK_def)
  have others: "masked (msix_table d1 ! i)" if "i \<noteq> k" "i < 2" "msix_pending d ! i" for i
    using that inv live(2) len by (simp add: d1_def vp_inv_def none_stuck_def)
  have "ready_vectors d1 [0..<2] = [k]"
    using k um others[of 0] others[of 1] assms(5) by (auto simp: ready_vectors_def d1_def upt_rec)
  then show ?thesis
    using deliver_pending_spec[OF wf] live(1) w len um others k assms(5)
    by (auto simp: d1_def msi_of_def nth_list_update split: if_splits)
qed

theorem msix_unmask_witness:
  "\<exists>d d'. vp_reachable False d \<and> msix_table_write d 12 (u32_to_le 0) = Some d' \<and>
     vp_log d' = Signal (vp_msi_sink d) 0 0 # vp_log d \<and> \<not> msix_pending d' ! 0"
proof -
  obtain d where d: "vp_reachable False d" "msix_enabled d = Some True" "msix_function_masked d = Some False"
    "msix_table d = [msix_entry_new, msix_entry_new]" "msix_pending d = [True, False]"
    using session_pending by blast
  then have "\<exists>d'. msix_table_write d 12 (u32_to_le 0) = Some d' \<and>
      vp_log d' = Signal (vp_msi_sink d) 0 0 # vp_log d \<and> \<not> msix_pending d' ! 0"
    using msix_unmask[of False d 0 0] by (fastforce simp: msix_entry_new_def)
  then show ?thesis using d(1) by blast
qed

end
