(* ===== verification/VirtioPciRegs.thy ===== *)
theory VirtioPciRegs
  imports VirtioPciProps
begin

text \<open>
  The guest-visible register interface of a virtio-pci function: BAR0 and its routing, the
  capability list, the queue address registers and the reset.
\<close>

section \<open>Lemmas\<close>

lemma to_le_ucast:
  assumes "LENGTH('a::len) \<le> LENGTH('b::len)"
  shows "to_le n (ucast (w :: 'a word) :: 'b word) = to_le n w"
proof (rule nth_equalityI)
  fix i assume "i < length (to_le n (ucast w :: 'b word))"
  then show "to_le n (ucast w :: 'b word) ! i = to_le n w ! i"
    using assms by (intro bit_word_eqI) (auto simp: nth_to_le bit_simps dest: bit_imp_le_length)
qed simp

lemma subslice_four:
  "k + 3 < length xs \<Longrightarrow> map (\<lambda>i. xs ! (k + i)) [0..<4] = [xs ! k, xs ! (k + 1), xs ! (k + 2), xs ! (k + 3)]"
  by (simp add: upt_rec numeral_2_eq_2 numeral_3_eq_3)

lemma bar_bytes_written:
  assumes "cs_wf cs"
  shows "\<exists>cs'. config_write_bytes (zip (map (\<lambda>i. 0x10 + of_nat i) [0..<4]) (u32_to_le v)) cs = Some cs' \<and>
     set_u32 0x10 v cs = Some cs'"
  using assms
  by (simp add: to_le_def upt_rec config_write_byte_def set_u8_def set_u32_def cs_wf_def)

lemma deliver_pending_config:
  "vp_wf d \<Longrightarrow> deliver_pending d = Some d' \<Longrightarrow> config d' = config d"
  by (auto simp: deliver_pending_spec)

lemma set_u32_regs:
  assumes "cs_wf cs" and "set_u32 0x10 v cs = Some cs'"
  shows "map (\<lambda>i. regs cs' ! (0x10 + i)) [0..<4] = u32_to_le v"
  using assms by (auto simp: set_u32_def set_u8_def cs_wf_def to_le_def upt_rec split: if_splits)

text \<open>Where the enabled BAR of a function lies.\<close>

definition bar_covers :: "virtio_pci_device \<Rightarrow> u64 \<Rightarrow> u64 \<Rightarrow> bool" where
  "bar_covers d addr rel \<longleftrightarrow> mem_enabled d = Some True \<and>
     (\<exists>base. bar_base d = Some base \<and> base \<noteq> 0 \<and> addr = base + rel \<and> rel < 0x1000)"

lemma bar_end:
  assumes "bar_base d = Some base"
  shows "unat base + 0x1000 \<le> 2 ^ 32"
proof -
  obtain v where b: "base = ucast (v AND 0xfffff000 :: u32)" using assms by (auto simp: bar_base_def bind_eq_Some_conv)
  have "v AND 0xfffff000 \<le> (0xfffff000 :: u32)" by (rule word_and_le1)
  then have "unat (v AND 0xfffff000) \<le> 0xfffff000" by (simp add: word_le_nat_alt)
  then show ?thesis by (simp add: b unsigned_ucast_eq take_bit_nat_eq_self)
qed

lemma bar_covers_iff:
  assumes "bar_base d = Some base"
  shows "bar_covers d addr rel \<longleftrightarrow> mem_enabled d = Some True \<and> base \<noteq> 0 \<and> base \<le> addr \<and>
     addr < base + BAR0_SIZE \<and> rel = addr - base"
proof -
  have e: "unat (base + 0x1000) = unat base + 0x1000"
    using bar_end[OF assms] by (simp add: unat_plus_no_overflow)
  have "(addr = base + rel \<and> rel < 0x1000) \<longleftrightarrow> (base \<le> addr \<and> addr < base + 0x1000 \<and> rel = addr - base)"
  proof
    assume a: "addr = base + rel \<and> rel < 0x1000"
    then have "unat rel < 0x1000" by (simp add: word_less_nat_alt)
    then have "unat (base + rel) = unat base + unat rel"
      using bar_end[OF assms] by (simp add: unat_plus_no_overflow)
    then show "base \<le> addr \<and> addr < base + 0x1000 \<and> rel = addr - base"
      using a e \<open>unat rel < 0x1000\<close> by (simp add: word_le_nat_alt word_less_nat_alt)
  next
    assume a: "base \<le> addr \<and> addr < base + 0x1000 \<and> rel = addr - base"
    then have "unat (addr - base) = unat addr - unat base" "unat addr < unat base + 0x1000"
      using e by (simp_all add: unat_sub word_less_nat_alt)
    then show "addr = base + rel \<and> rel < 0x1000" using a by (simp add: word_less_nat_alt word_le_nat_alt)
  qed
  then show ?thesis using assms by (auto simp: bar_covers_def BAR0_SIZE_def)
qed

lemma route_spec:
  assumes "\<forall>h \<in> set hs. h < length devs \<and> vp_wf (devs ! h)"
  shows "\<exists>t. route devs addr hs = Some t \<and>
     (case t of
        None \<Rightarrow> \<forall>h \<in> set hs. \<forall>rel. \<not> bar_covers (devs ! h) addr rel
      | Some (h, rel) \<Rightarrow> h \<in> set hs \<and> bar_covers (devs ! h) addr rel)"
  using assms
proof (induction hs)
  case (Cons h hs)
  then obtain t where t: "route devs addr hs = Some t"
    "case t of None \<Rightarrow> \<forall>h \<in> set hs. \<forall>rel. \<not> bar_covers (devs ! h) addr rel
      | Some (h, rel) \<Rightarrow> h \<in> set hs \<and> bar_covers (devs ! h) addr rel" by auto
  have h: "h < length devs" "vp_wf (devs ! h)" using Cons.prems by auto
  obtain base where b: "bar_base (devs ! h) = Some base" using bar_wf(1)[OF h(2)] by blast
  obtain en where en: "mem_enabled (devs ! h) = Some en" using bar_wf(2)[OF h(2)] by blast
  show ?case
  proof (cases "en \<and> base \<noteq> 0 \<and> base \<le> addr \<and> addr < base + BAR0_SIZE")
    case True
    then show ?thesis using h(1) b en bar_covers_iff[OF b] by (simp add: nth_opt_def)
  next
    case False
    then have "\<not> bar_covers (devs ! h) addr rel" for rel using bar_covers_iff[OF b] en by auto
    then show ?thesis using h(1) b en False t by (auto simp: nth_opt_def split: option.splits)
  qed
qed simp

section \<open>The functions as PCI devices\<close>

text \<open>The dispatch of a configuration access to the function behind a handle.\<close>

definition fn_config_read :: "bool \<Rightarrow> nat \<Rightarrow> virtio_pci_device list \<Rightarrow> u64 \<Rightarrow> bytes \<Rightarrow> bytes option" where
  "fn_config_read oc h devs off data = do { d \<leftarrow> nth_opt devs h; vp_config_read oc d off data }"

definition fn_config_write :: "bool \<Rightarrow> nat \<Rightarrow> virtio_pci_device list \<Rightarrow> u64 \<Rightarrow> bytes \<Rightarrow> virtio_pci_device list option" where
  "fn_config_write oc h devs off data =
     do { d \<leftarrow> nth_opt devs h; d' \<leftarrow> vp_config_write oc d off data; Some (devs[h := d']) }"

definition fns_inv :: "virtio_pci_device list \<Rightarrow> bool" where
  "fns_inv devs \<longleftrightarrow> (\<forall>d \<in> set devs. vp_inv d)"

lemma fns_inv_nth: "fns_inv devs \<Longrightarrow> h < length devs \<Longrightarrow> vp_inv (devs ! h)"
  by (simp add: fns_inv_def)

lemma fns_inv_update: "fns_inv devs \<Longrightarrow> vp_inv d \<Longrightarrow> fns_inv (devs[h := d])"
  using set_update_subset_insert[of devs h d] by (auto simp: fns_inv_def)

interpretation vp: pci_device "fn_config_read oc" "fn_config_write oc" fns_inv "\<lambda>devs h. h < length devs" for oc
proof unfold_locales
  fix devs h and off :: u64 and data :: bytes
  assume inv: "fns_inv devs" and h: "h < length devs" and b: "unat off + length data < 2 ^ 64"
  show "\<exists>data'. fn_config_read oc h devs off data = Some data'"
    using h b by (simp add: fn_config_read_def nth_opt_def vp_config_read_def cs_config_read_eq)
  show "\<exists>s'. fn_config_write oc h devs off data = Some s'"
    using vp_config_write_inv[OF fns_inv_nth[OF inv h] b, of oc] h by (auto simp: fn_config_write_def nth_opt_def)
next
  fix devs h and off :: u64 and data data' :: bytes
  assume "fn_config_read oc h devs off data = Some data'"
  then show "length data' = length data"
    by (auto simp: fn_config_read_def vp_config_read_def bind_eq_Some_conv dest: cs_config_read_length)
next
  fix devs h s' and off :: u64 and data :: bytes
  assume inv: "fns_inv devs" and b: "unat off + length data < 2 ^ 64"
    and w: "fn_config_write oc h devs off data = Some s'"
  then obtain d' where "h < length devs" "vp_config_write oc (devs ! h) off data = Some d'" "s' = devs[h := d']"
    by (auto simp: fn_config_write_def nth_opt_def bind_eq_Some_conv split: if_splits)
  then show "fns_inv s'"
    using vp_config_write_inv[OF fns_inv_nth[OF inv] b, of h oc] fns_inv_update[OF inv] by fastforce
next
  fix devs h s' d' and off :: u64 and data :: bytes
  assume "fn_config_write oc h devs off data = Some s'"
  then show "(d' < length s') = (d' < length devs)"
    by (auto simp: fn_config_write_def bind_eq_Some_conv)
qed

section \<open>Properties\<close>

text \<open>
  BAR0 programming: writing a 32-bit value to BAR0 through configuration space and
  reading it back returns the value with its low twelve bits clear, so that writing all ones
  sizes the BAR as 4 KiB, and the function then decodes at exactly that address.
\<close>

theorem bar_write_read:
  assumes "vp_reachable oc d"
  shows "\<exists>d'. vp_config_write oc d 0x10 (u32_to_le v) = Some d' \<and>
     vp_config_read oc d' 0x10 [a, b, c, e] = Some (u32_to_le (v AND 0xfffff000)) \<and>
     bar_base d' = Some (ucast (v AND 0xfffff000))"
proof -
  have wf: "vp_wf d" by (rule vp_inv_wf[OF vp_reachable_inv[OF assms]])
  then have cw: "cs_wf (config d)" by (simp add: vp_wf_def)
  obtain cs1 where c1: "config_write_bytes (zip (map (\<lambda>i. 0x10 + of_nat i) [0..<4]) (u32_to_le v)) (config d) = Some cs1"
    "set_u32 0x10 v (config d) = Some cs1" using bar_bytes_written[OF cw] by blast
  have cw1: "cs_wf cs1" using set_wf(3)[OF c1(2) cw] .
  have g: "get_u32 cs1 0x10 = Some v" using get_set_u32[OF cw _ c1(2)] by simp
  obtain cs2 where c2: "set_u32 0x10 (v AND 0xfffff000) cs1 = Some cs2" "cs_wf cs2" "cfg32 cs2 0x10 = v AND 0xfffff000"
    using set_bar_wf[OF cw1] by blast
  have w: "vp_config_write oc d 0x10 (u32_to_le v) = deliver_pending (d\<lparr>config := cs2\<rparr>)"
    using index_seq_in_range(1)[of "0x10" 4 oc] c1(1) g c2(1) by (simp add: vp_config_write_def)
  have wf2: "vp_wf (d\<lparr>config := cs2\<rparr>)" using wf c2(2) by (simp add: vp_wf_def)
  obtain d' where d': "deliver_pending (d\<lparr>config := cs2\<rparr>) = Some d'" using deliver_pending_spec[OF wf2] by blast
  have cfg: "config d' = cs2" using deliver_pending_config[OF wf2 d'] by simp
  have "vp_config_read oc d' 0x10 [a, b, c, e] = Some (map (\<lambda>i. regs cs2 ! (0x10 + i)) [0..<4])"
    using c2(2) by (simp add: vp_config_read_def cs_config_read_eq cfg cs_wf_def upt_rec)
  moreover have "bar_base d' = Some (ucast (v AND 0xfffff000))"
    using get_u32_wf[OF c2(2), of "0x10"] c2(3) by (simp add: bar_base_def cfg and.assoc)
  ultimately show ?thesis using w d' set_u32_regs[OF cw1 c2(1)] by simp
qed

theorem bar_write_read_witness:
  "\<exists>d d'. vp_reachable False d \<and> vp_config_write False d 0x10 [0xff, 0xff, 0xff, 0xff] = Some d' \<and>
     vp_config_read False d' 0x10 [0, 0, 0, 0] = Some [0, 0xf0, 0xff, 0xff]"
proof -
  obtain d where d: "vp_reachable False d" using session_pending by blast
  have "u32_to_le 0xffffffff = [0xff, 0xff, 0xff, 0xff]" "u32_to_le 0xfffff000 = [0, 0xf0, 0xff, 0xff]"
    by (simp_all add: to_le_def upt_rec)
  then have "\<exists>d'. vp_config_write False d 0x10 [0xff, 0xff, 0xff, 0xff] = Some d' \<and>
      vp_config_read False d' 0x10 [0, 0, 0, 0] = Some [0, 0xf0, 0xff, 0xff]"
    using bar_write_read[OF d, of "0xffffffff" 0 0 0 0] by auto
  then show ?thesis using d by blast
qed

text \<open>
  C30. Routing of the MMIO window: for reachable functions the search always returns; when it
  finds a function, that function's memory decoding is enabled and its BAR covers the
  address at the returned offset, below 4 KiB; when it finds none, no function of the window
  covers the address at any offset.
\<close>

theorem window_routing:
  assumes "\<forall>h \<in> set hs. h < length devs \<and> vp_reachable oc (devs ! h)"
  shows "\<exists>t. route devs addr hs = Some t \<and>
     (case t of
        None \<Rightarrow> \<forall>h \<in> set hs. \<forall>rel. \<not> bar_covers (devs ! h) addr rel
      | Some (h, rel) \<Rightarrow> h \<in> set hs \<and> bar_covers (devs ! h) addr rel)"
  using assms by (intro route_spec) (blast dest: vp_reachable_inv vp_inv_wf)

theorem window_routing_witness:
  "\<exists>d t. vp_reachable False d \<and> route [d] 0xfebd0000 [0] = Some t"
proof -
  obtain d where d: "vp_reachable False d" using session_pending by blast
  then show ?thesis using window_routing[of "[0]" "[d]" False "0xfebd0000"] by auto
qed

text \<open>
  The capability list as a driver walks it: from the pointer at \<open>0x34\<close>, the position, ID,
  type, BAR offset and length of each entry. Eight steps are enough for the five entries.
\<close>

fun cap_walk :: "nat \<Rightarrow> config_space \<Rightarrow> u8 \<Rightarrow> (u8 \<times> u8 \<times> u8 \<times> u32 \<times> u32) list" where
  "cap_walk 0 cs p = []"
| "cap_walk (Suc n) cs p =
     (if p = 0 then []
      else (p, regs cs ! unat p, regs cs ! (unat p + 3), cfg32 cs (unat p + 8), cfg32 cs (unat p + 12))
        # cap_walk n cs (regs cs ! (unat p + 1)))"

lemma cap_walk_8: "cap_walk 8 cs p = cap_walk (Suc (Suc (Suc (Suc (Suc (Suc (Suc (Suc 0)))))))) cs p"
  by (simp add: numeral_eq_Suc)

text \<open>
  Discovery: a driver that walks the capability list of a new function finds the common,
  notify, ISR and device configuration blocks at the BAR0 offsets and with the lengths the
  register dispatch uses, and then the MSI-X capability, and reaches the end of the list;
  the vendor is virtio's and MSI-X starts disabled.
\<close>

theorem capability_list:
  assumes "virtio_pci_new oc isink msink dev irq = Some d"
  shows "map (\<lambda>(p, i, ty, off, len). (p, i)) (cap_walk 8 (config d) (regs (config d) ! 0x34))
       = [(0x40, 9), (0x50, 9), (0x64, 9), (0x74, 9), (0x84, 0x11)] \<and>
     map (\<lambda>(p, i, ty, off, len). (ty, off, len)) (take 4 (cap_walk 8 (config d) (regs (config d) ! 0x34)))
       = [(1, ucast COMMON_CFG_OFFSET, ucast COMMON_CFG_LEN), (2, ucast NOTIFY_OFFSET, ucast NOTIFY_LEN),
          (3, ucast ISR_OFFSET, ucast ISR_LEN), (4, ucast DEVICE_CFG_OFFSET, ucast DEVICE_CFG_LEN)] \<and>
     cfg16 (config d) 0 = 0x1af4 \<and> msix_enabled d = Some False"
proof -
  obtain did where "rs_add oc VIRTIO_PCI_DEVICE_BASE (ucast (device_id dev)) = Some did"
    using device_id_add by blast
  from build_config_regs[OF this, of irq]
  obtain rs where rs: "build_config oc (device_id dev) irq 2 = Some \<lparr>regs = rs\<rparr>" "length rs = 256"
    and b: "rs ! 0 = 0xf4" "rs ! 1 = 0x1a" "rs ! 0x34 = 0x40" "rs ! 0x86 = 1" "rs ! 0x87 = 0"
      "rs ! 0x40 = 9" "rs ! 0x41 = 0x50" "rs ! 0x43 = 1" "rs ! 0x48 = 0" "rs ! 0x49 = 0" "rs ! 0x4a = 0" "rs ! 0x4b = 0"
      "rs ! 0x4c = 0x40" "rs ! 0x4d = 0" "rs ! 0x4e = 0" "rs ! 0x4f = 0"
      "rs ! 0x50 = 9" "rs ! 0x51 = 0x64" "rs ! 0x53 = 2" "rs ! 0x58 = 0x50" "rs ! 0x59 = 0" "rs ! 0x5a = 0" "rs ! 0x5b = 0"
      "rs ! 0x5c = 0x10" "rs ! 0x5d = 0" "rs ! 0x5e = 0" "rs ! 0x5f = 0"
      "rs ! 0x64 = 9" "rs ! 0x65 = 0x74" "rs ! 0x67 = 3" "rs ! 0x6c = 0x40" "rs ! 0x6d = 0" "rs ! 0x6e = 0" "rs ! 0x6f = 0"
      "rs ! 0x70 = 0x10" "rs ! 0x71 = 0" "rs ! 0x72 = 0" "rs ! 0x73 = 0"
      "rs ! 0x74 = 9" "rs ! 0x75 = 0x84" "rs ! 0x77 = 4" "rs ! 0x7c = 0" "rs ! 0x7d = 1" "rs ! 0x7e = 0" "rs ! 0x7f = 0"
      "rs ! 0x80 = 0" "rs ! 0x81 = 1" "rs ! 0x82 = 0" "rs ! 0x83 = 0" "rs ! 0x84 = 0x11" "rs ! 0x85 = 0"
    by auto
  have cfg: "config d = \<lparr>regs = rs\<rparr>"
    using virtio_pci_new_Some[of oc dev irq isink msink] rs(1) assms by auto
  have "msix_enabled d = Some False"
    using rs(2) b by (simp add: msix_enabled_def cfg get_u16_def get_u8_def CAP_MSIX_def MSIX_MSGCTRL_ENABLE_def)
  moreover have "cfg16 (config d) 0 = 0x1af4" using b by (simp add: cfg cfg16_def)
  ultimately show ?thesis
    using b by (simp add: cfg cap_walk_8 cfg32_def bar_layout)
qed

theorem capability_list_witness:
  "\<exists>d. virtio_pci_new True NullIrqSink (KvmMsiSink 3)
       (RngDev \<lparr>ent_ok = (\<lambda>_. True), ent_byte = (\<lambda>_ _. 7), ent_calls = 0\<rparr>) 5 = Some d \<and>
     cfg16 (config d) 0 = 0x1af4"
proof -
  obtain d where d: "virtio_pci_new True NullIrqSink (KvmMsiSink 3)
      (RngDev \<lparr>ent_ok = (\<lambda>_. True), ent_byte = (\<lambda>_ _. 7), ent_calls = 0\<rparr>) 5 = Some d"
    using virtio_pci_new_Some by blast
  then show ?thesis using capability_list[OF d] by blast
qed

text \<open>
  Queue registers: programming the two halves of a queue address with 32-bit writes gives
  the selected queue exactly that 64-bit address, both halves read back, and the queue's other
  fields keep their values. It holds for the descriptor table, the available ring and the
  used ring.
\<close>

theorem queue_address_roundtrip:
  assumes "unat (queue_select d) < length (queues d)"
  shows "\<forall>(reg, field, upd) \<in> {(0x20, desc_table, \<lambda>a. desc_table_update (\<lambda>_. a)),
         (0x28, avail_ring, \<lambda>a. avail_ring_update (\<lambda>_. a)), (0x30, used_ring, \<lambda>a. used_ring_update (\<lambda>_. a))}.
     let d' = common_cfg_write (common_cfg_write d reg (u32_to_le lo)) (reg + 4) (u32_to_le hi);
         sel = unat (queue_select d) in
     queues d' = (queues d)[sel := upd (push_bit 32 (ucast hi) OR ucast lo) (queues d ! sel)] \<and>
     field (queues d' ! sel) = push_bit 32 (ucast hi) OR ucast lo \<and>
     common_cfg_read d' reg [a, b, c, e] = u32_to_le lo \<and>
     common_cfg_read d' (reg + 4) [a, b, c, e] = u32_to_le hi"
proof -
  have lo: "(push_bit 32 (ucast hi) OR ucast lo :: u64) AND 0xffffffff = ucast lo"
    and hi: "drop_bit 32 (push_bit 32 (ucast hi) OR ucast lo :: u64) = ucast hi"
    by (rule bit_word_eqI, unfold bit_or_iff bit_and_iff bit_push_bit_iff bit_ucast_iff low_high_mask_bits,
        auto dest: bit_imp_le_length)
       (rule bit_word_eqI, auto simp: bit_simps dest: bit_imp_le_length)
  have hi': "drop_bit 32 (push_bit 32 (ucast hi)) OR drop_bit 32 (ucast lo) = (ucast hi :: u64)"
    using hi by simp
  have le: "put_le [a, b, c, e] (ucast (w :: u32)) = u32_to_le w" for w
    by (simp add: put_le_eq to_le_ucast numeral_eq_Suc)
  show ?thesis
    using assms
    by (auto simp: Let_def common_cfg_write_def common_cfg_read_def common_cfg_value_def on_queue_def
        nth_opt_def get_le_u32 set_low_high lo hi' le)
qed

theorem queue_address_roundtrip_witness:
  "\<exists>d. vp_reachable False d \<and> unat (queue_select d) < length (queues d) \<and>
     desc_table (queues (common_cfg_write (common_cfg_write d 0x20 (u32_to_le 0x1000)) 0x24 (u32_to_le 1))
       ! unat (queue_select d)) = 0x100001000"
proof -
  obtain d where d: "virtio_pci_new False NullIrqSink (KvmMsiSink 3)
      (RngDev \<lparr>ent_ok = (\<lambda>_. True), ent_byte = (\<lambda>_ _. 7), ent_calls = 0\<rparr>) 5 = Some d"
    "unat (queue_select d) < length (queues d)"
    using virtio_pci_new_Some[of False "RngDev \<lparr>ent_ok = (\<lambda>_. True), ent_byte = (\<lambda>_ _. 7), ent_calls = 0\<rparr>"
        5 NullIrqSink "KvmMsiSink 3"] by auto
  have "vp_reachable False d" by (rule vp_reachable.new[OF _ d(1)]) simp
  then show ?thesis
    using d(2) queue_address_roundtrip[OF d(2), where lo = "0x1000" and hi = 1]
    by (intro exI[of _ d]) (simp add: Let_def)
qed

text \<open>
  Driver reset: writing zero to the status register returns every queue, the feature
  registers, the vector assignments and the ISR to their initial values, lowers the line
  and drops pending interrupts, and keeps the configuration space, the MSI-X table and the
  backend.
\<close>

theorem status_zero_resets:
  assumes "vp_reachable oc d"
  shows "let d' = common_cfg_write d 0x14 [0] in
     vp_status d' = 0 \<and> queues d' = replicate (length (queues d)) queue_default \<and>
     driver_features d' = 0 \<and> queue_select d' = 0 \<and> isr_status d' = 0 \<and>
     \<not> line_level (vp_log d') \<and> (\<forall>p \<in> set (msix_pending d'). \<not> p) \<and>
     (\<forall>v \<in> set (queue_msix_vectors d'). v = 0xffff) \<and> config_msix_vector d' = 0xffff \<and>
     config d' = config d \<and> msix_table d' = msix_table d \<and> vp_device d' = vp_device d \<and> vp_inv d'"
proof -
  have "vp_inv (common_cfg_write d 0x14 [0])"
    by (rule common_cfg_write_inv[OF vp_reachable_inv[OF assms]])
  then show ?thesis
    by (simp add: Let_def common_cfg_write_def get_le_eq vp_reset_def drive_line_def fill_def
        VIRTIO_MSI_NO_VECTOR_def map_replicate_const)
qed

theorem status_zero_resets_witness:
  "\<exists>d. vp_reachable False d \<and> msix_pending d ! 0 \<and> \<not> msix_pending (common_cfg_write d 0x14 [0]) ! 0"
proof -
  obtain d where d: "vp_reachable False d" "msix_pending d = [True, False]" using session_pending by blast
  have "length (msix_pending (common_cfg_write d 0x14 [0])) = 2"
    using d(2) by (simp add: common_cfg_write_def get_le_eq vp_reset_def drive_line_def Let_def)
  moreover have "\<forall>p \<in> set (msix_pending (common_cfg_write d 0x14 [0])). \<not> p"
    using status_zero_resets[OF d(1)] unfolding Let_def by blast
  ultimately have "\<not> msix_pending (common_cfg_write d 0x14 [0]) ! 0"
    by (metis nth_mem zero_less_numeral)
  then show ?thesis using d by auto
qed

end
