(* ===== verification/Machine.thy ===== *)
theory Machine
  imports Bus Serial VirtioPciRegs
begin

text \<open>
  The machine (\<open>src/main.rs\<close>): the devices, their places on the port and MMIO buses and on
  PCI bus 0, and the dispatch of a bus access to the device that claims it. The device store
  is one record; a handle on a bus names one of its devices. The buses are built by the same
  registrations, in the same order, as in \<open>main\<close>.
\<close>

section \<open>The device store\<close>

datatype pci_handle = HostBridge | VirtioFn nat

datatype bus_handle = DevPciRoot | DevSerial | DevNull | DevWindow

record machine =
  m_mem :: guest_memory
  m_root :: "pci_handle pci_root_bus"
  m_bridge :: config_space
  m_fns :: "virtio_pci_device list"
  m_window :: virtio_pci_mmio
  m_serial :: serial

definition GSI_COM1 :: u32 where "GSI_COM1 = 4"
definition PCI_MMIO_WINDOW_END :: u64 where "PCI_MMIO_WINDOW_END = 0xd0000000"

section \<open>Dispatch\<close>

text \<open>The dynamically dispatched \<open>PciDevice\<close> methods.\<close>

fun pci_cfg_read :: "bool \<Rightarrow> pci_handle \<Rightarrow> machine \<Rightarrow> u64 \<Rightarrow> bytes \<Rightarrow> bytes option" where
  "pci_cfg_read oc HostBridge m reg data = cs_config_read oc (m_bridge m) reg data"
| "pci_cfg_read oc (VirtioFn h) m reg data = fn_config_read oc h (m_fns m) reg data"

fun pci_cfg_write :: "bool \<Rightarrow> pci_handle \<Rightarrow> machine \<Rightarrow> u64 \<Rightarrow> bytes \<Rightarrow> machine option" where
  "pci_cfg_write oc HostBridge m reg data =
     Some (m\<lparr>m_bridge := cs_config_write (m_bridge m) reg data\<rparr>)"
| "pci_cfg_write oc (VirtioFn h) m reg data =
     map_option (\<lambda>fns. m\<lparr>m_fns := fns\<rparr>) (fn_config_write oc h (m_fns m) reg data)"

definition null_read :: "bytes \<Rightarrow> bytes" where
  "null_read data = fill 0xff data"

text \<open>The dynamically dispatched \<open>BusDevice\<close> methods; \<open>now\<close> is the time of the access.\<close>

fun dev_read :: "bool \<Rightarrow> nat \<Rightarrow> bus_handle \<Rightarrow> machine \<Rightarrow> u64 \<Rightarrow> bytes \<Rightarrow> (machine \<times> bytes) option" where
  "dev_read oc now DevPciRoot m offset data =
     map_option (Pair m) (root_read (pci_cfg_read oc) oc (m_root m) m offset data)"
| "dev_read oc now DevSerial m offset data =
     (case serial_read now (m_serial m) offset data of (s, data') \<Rightarrow> Some (m\<lparr>m_serial := s\<rparr>, data'))"
| "dev_read oc now DevNull m offset data = Some (m, null_read data)"
| "dev_read oc now DevWindow m offset data =
     map_option (\<lambda>(fns, data'). (m\<lparr>m_fns := fns\<rparr>, data')) (window_read oc (m_window m) (m_fns m) offset data)"

fun dev_write :: "bool \<Rightarrow> bus_handle \<Rightarrow> machine \<Rightarrow> u64 \<Rightarrow> bytes \<Rightarrow> machine option" where
  "dev_write oc DevPciRoot m offset data =
     map_option (\<lambda>(r, m'). m'\<lparr>m_root := r\<rparr>) (root_write (pci_cfg_write oc) oc (m_root m) m offset data)"
| "dev_write oc DevSerial m offset data = Some (m\<lparr>m_serial := serial_write (m_serial m) offset data\<rparr>)"
| "dev_write oc DevNull m offset data = Some m"
| "dev_write oc DevWindow m offset data =
     map_option (\<lambda>(fns, mem). m\<lparr>m_fns := fns, m_mem := mem\<rparr>)
       (window_write oc (m_window m) (m_fns m) (m_mem m) offset data)"

section \<open>Setup\<close>

datatype 'e setup_error =
    RegisterFailed string bus_error
  | HostFailed string 'e
  | NoWindowRoom u64

text \<open>
  The registration of the PCI ports and the MMIO window, before the devices exist, and the
  registration of the serial ports, after them. The buses grow in the order of \<open>main\<close>.
\<close>

definition register_pci :: "u64 \<Rightarrow> 'e setup_error + (bus_handle bus \<times> bus_handle bus)" where
  "register_pci ram_size =
     (case register bus_new 0xcf8 8 DevPciRoot of
        Inl e \<Rightarrow> Inl (RegisterFailed ''PCI config ports'' e)
      | Inr pio \<Rightarrow>
          if PCI_MMIO_WINDOW_END \<le> ram_size then Inl (NoWindowRoom ram_size)
          else case register bus_new ram_size (PCI_MMIO_WINDOW_END - ram_size) DevWindow of
              Inl e \<Rightarrow> Inl (RegisterFailed ''virtio-pci MMIO window'' e)
            | Inr mmio \<Rightarrow> Inr (pio, mmio))"

definition register_com :: "bus_handle bus \<Rightarrow> 'e setup_error + bus_handle bus" where
  "register_com pio =
     (case register pio 0x3f8 8 DevSerial of Inl e \<Rightarrow> Inl (RegisterFailed ''COM1'' e) | Inr pio \<Rightarrow>
     (case register pio 0x2f8 8 DevNull of Inl e \<Rightarrow> Inl (RegisterFailed ''COM2'' e) | Inr pio \<Rightarrow>
     (case register pio 0x3e8 8 DevNull of Inl e \<Rightarrow> Inl (RegisterFailed ''COM3'' e) | Inr pio \<Rightarrow>
     (case register pio 0x2e8 8 DevNull of Inl e \<Rightarrow> Inl (RegisterFailed ''COM4'' e) | Inr pio \<Rightarrow> Inr pio))))"

text \<open>
  One virtio function: built on a null line, given its real line, placed on PCI bus 0 and in
  the window. \<open>register_irq\<close> is the hypervisor's method, \<open>what\<close> the device in the message.
\<close>

definition attach_virtio ::
  "bool \<Rightarrow> (u32 \<Rightarrow> 'e + irq_sink) \<Rightarrow> msi_sink \<Rightarrow> string \<Rightarrow> virtio_backend \<Rightarrow> u32 \<Rightarrow> u8 \<Rightarrow> machine \<Rightarrow>
   ('e setup_error + machine) option" where
  "attach_virtio oc register_irq msink what dev gsi slot m = do {
     d \<leftarrow> virtio_pci_new oc NullIrqSink msink dev (ucast gsi);
     Some (case register_irq gsi of
         Inl e \<Rightarrow> Inl (HostFailed what e)
       | Inr sink \<Rightarrow>
           let h = length (m_fns m) in
           Inr (m\<lparr>m_fns := m_fns m @ [vp_replace_irq_sink sink d],
                  m_root := pci_add_device slot 0 (VirtioFn h) (m_root m),
                  m_window := mmio_add_device h (m_window m)\<rparr>))
   }"

text \<open>
  The devices of \<open>main\<close>, from the PCI root to COM1's line. \<open>msi\<close> is the result of
  \<open>vm.msi_sink()\<close>, \<open>entropy\<close> what \<open>/dev/urandom\<close> opens as, \<open>img\<close> the opened disk image when one
  is configured, \<open>now\<close> the time the UART is built.
\<close>

definition setup_machine ::
  "bool \<Rightarrow> (u32 \<Rightarrow> 'e + irq_sink) \<Rightarrow> 'e + msi_sink \<Rightarrow>
   ((nat \<Rightarrow> bool) \<times> (nat \<Rightarrow> nat \<Rightarrow> u8)) option \<Rightarrow> ('e + virtio_blk) option \<Rightarrow> nat \<Rightarrow>
   guest_memory \<Rightarrow> u64 \<Rightarrow> ('e setup_error + (machine \<times> bus_handle bus \<times> bus_handle bus)) option" where
  "setup_machine oc register_irq msi entropy img now mem ram_size = do {
     bridge \<leftarrow> host_bridge;
     case register_pci ram_size of
       Inl e \<Rightarrow> Some (Inl e)
     | Inr (pio, mmio) \<Rightarrow>
         (case msi of
            Inl e \<Rightarrow> Some (Inl (HostFailed ''MSI sink'' e))
          | Inr msink \<Rightarrow> do {
              let m0 = \<lparr>m_mem = mem, m_root = pci_add_device 0 0 HostBridge pci_root_bus_new,
                  m_bridge = bridge, m_fns = [], m_window = mmio_window_new ram_size,
                  m_serial = serial_new now NullIrqSink\<rparr>;
              rng \<leftarrow> rng_new entropy;
              r1 \<leftarrow> attach_virtio oc register_irq msink ''Virtio RNG IRQ'' (RngDev rng) 12 1 m0;
              r2 \<leftarrow> (case r1 of
                  Inl e \<Rightarrow> Some (Inl e)
                | Inr m1 \<Rightarrow>
                    (case img of
                       None \<Rightarrow> Some (Inr m1)
                     | Some (Inl e) \<Rightarrow> Some (Inl (HostFailed ''disk image'' e))
                     | Some (Inr blk) \<Rightarrow>
                         attach_virtio oc register_irq msink ''Virtio BLK IRQ'' (BlkDev blk) 14 2 m1));
              Some (case r2 of
                  Inl e \<Rightarrow> Inl e
                | Inr m2 \<Rightarrow>
                    (case register_com pio of
                       Inl e \<Rightarrow> Inl e
                     | Inr pio' \<Rightarrow>
                         (case register_irq GSI_COM1 of
                            Inl e \<Rightarrow> Inl (HostFailed ''COM1 serial device'' e)
                          | Inr sink \<Rightarrow>
                              Inr (m2\<lparr>m_serial := replace_irq_sink (m_serial m2) sink\<rparr>, pio', mmio))))
            })
   }"

section \<open>Invariant\<close>

text \<open>The offsets each device decodes.\<close>

definition dev_span :: "bus_handle \<Rightarrow> nat" where
  "dev_span h = (case h of DevWindow \<Rightarrow> 0xd0000000 | _ \<Rightarrow> 8)"

fun handle_ok :: "machine \<Rightarrow> pci_handle \<Rightarrow> bool" where
  "handle_ok m HostBridge = True"
| "handle_ok m (VirtioFn h) = (h < length (m_fns m))"

definition machine_inv :: "machine \<Rightarrow> bool" where
  "machine_inv m \<longleftrightarrow> cs_wf (m_bridge m) \<and> fns_inv (m_fns m) \<and> serial_inv (m_serial m) \<and>
     (\<forall>h \<in> ran (pci_devices (m_root m)). handle_ok m h) \<and>
     (\<forall>h \<in> set (window_devices (m_window m)). h < length (m_fns m)) \<and>
     unat (window_base (m_window m)) < 0xd0000000"

section \<open>Events\<close>

text \<open>
  What happens to the devices while the guest runs: accesses on the two buses, of at most
  eight bytes, console input, the console's timer tick, and the guest's own stores to RAM.
\<close>

datatype machine_event =
    PioIn nat u64 bytes
  | PioOut u64 bytes
  | MmioIn nat u64 bytes
  | MmioOut u64 bytes
  | ConsoleIn nat bytes
  | ConsoleTick nat
  | GuestStore "nat \<Rightarrow> u8"

fun event_ok :: "machine_event \<Rightarrow> bool" where
  "event_ok (PioIn now addr data) = (length data \<le> 8)"
| "event_ok (PioOut addr data) = (length data \<le> 8)"
| "event_ok (MmioIn now addr data) = (length data \<le> 8)"
| "event_ok (MmioOut addr data) = (length data \<le> 8)"
| "event_ok _ = True"

fun machine_step :: "bool \<Rightarrow> bus_handle bus \<Rightarrow> bus_handle bus \<Rightarrow> machine \<Rightarrow> machine_event \<Rightarrow> machine option" where
  "machine_step oc pio mmio m (PioIn now addr data) =
     map_option fst (bus_read (dev_read oc now) pio m addr data)"
| "machine_step oc pio mmio m (PioOut addr data) = map_option fst (bus_write (dev_write oc) pio m addr data)"
| "machine_step oc pio mmio m (MmioIn now addr data) =
     map_option fst (bus_read (dev_read oc now) mmio m addr data)"
| "machine_step oc pio mmio m (MmioOut addr data) = map_option fst (bus_write (dev_write oc) mmio m addr data)"
| "machine_step oc pio mmio m (ConsoleIn now bs) = Some (m\<lparr>m_serial := inject_rx now (m_serial m) bs\<rparr>)"
| "machine_step oc pio mmio m (ConsoleTick now) = Some (m\<lparr>m_serial := fst (tick_cti now (m_serial m))\<rparr>)"
| "machine_step oc pio mmio m (GuestStore f) = Some (m\<lparr>m_mem := (m_mem m)\<lparr>gm_bytes := f\<rparr>\<rparr>)"

fun machine_run :: "bool \<Rightarrow> bus_handle bus \<Rightarrow> bus_handle bus \<Rightarrow> machine \<Rightarrow> machine_event list \<Rightarrow> machine option" where
  "machine_run oc pio mmio m [] = Some m"
| "machine_run oc pio mmio m (e # es) = do {
     m' \<leftarrow> machine_step oc pio mmio m e;
     machine_run oc pio mmio m' es
   }"

section \<open>The devices keep the invariant\<close>

interpretation pci_root: pci_device "pci_cfg_read oc" "pci_cfg_write oc" machine_inv handle_ok for oc
proof unfold_locales
  fix m d and reg :: u64 and data :: bytes
  assume inv: "machine_inv m" and h: "handle_ok m d" and b: "unat reg + length data < 2 ^ 64"
  have fns: "fns_inv (m_fns m)" using inv by (simp add: machine_inv_def)
  show "\<exists>data'. pci_cfg_read oc d m reg data = Some data'"
    using h b vp.cfg_read_returns[OF fns, of _ reg data oc] by (cases d) (simp_all add: cs_config_read_eq)
  show "\<exists>s'. pci_cfg_write oc d m reg data = Some s'"
    using h b vp.cfg_write_returns[OF fns, of _ reg data oc] by (cases d) auto
next
  fix d m and reg :: u64 and data data' :: bytes
  assume "pci_cfg_read oc d m reg data = Some data'"
  then show "length data' = length data"
    using vp.cfg_read_length by (cases d) (auto dest: cs_config_read_length)
next
  fix d m s' and reg :: u64 and data :: bytes
  assume inv: "machine_inv m" and b: "unat reg + length data < 2 ^ 64"
    and w: "pci_cfg_write oc d m reg data = Some s'"
  show "machine_inv s'"
  proof (cases d)
    case HostBridge
    then show ?thesis using w inv handle_ok.elims by (auto simp: cs_config_write_def)
  next
    case (VirtioFn h)
    then obtain fns where f: "fn_config_write oc h (m_fns m) reg data = Some fns" "s' = m\<lparr>m_fns := fns\<rparr>"
      using w by auto
    have "fns_inv fns" using vp.cfg_write_inv[OF _ b f(1)] inv by (simp add: machine_inv_def)
    moreover have "h' < length fns \<longleftrightarrow> h' < length (m_fns m)" for h' using vp.cfg_write_serves[OF f(1)] .
    then have "handle_ok s' k = handle_ok m k" for k using f(2) by (cases k) auto
    ultimately show ?thesis using inv f(2) vp.cfg_write_serves[OF f(1)] by (simp add: machine_inv_def)
  qed
next
  fix d m s' d' and reg :: u64 and data :: bytes
  assume "pci_cfg_write oc d m reg data = Some s'"
  then show "handle_ok s' d' = handle_ok m d'"
    using vp.cfg_write_serves by (cases d; cases d') (auto simp: cs_config_write_def)
qed

lemma fns_update_inv:
  assumes "machine_inv m" and "fns_inv fns" and "length fns = length (m_fns m)"
  shows "machine_inv (m\<lparr>m_fns := fns\<rparr>)" "machine_inv (m\<lparr>m_fns := fns, m_mem := mem\<rparr>)"
proof -
  have "handle_ok (m\<lparr>m_fns := fns\<rparr>) k = handle_ok m k" "handle_ok (m\<lparr>m_fns := fns, m_mem := mem\<rparr>) k = handle_ok m k" for k
    using assms(3) by (cases k; simp)+
  then show "machine_inv (m\<lparr>m_fns := fns\<rparr>)" "machine_inv (m\<lparr>m_fns := fns, m_mem := mem\<rparr>)"
    using assms by (simp_all add: machine_inv_def)
qed

lemma handle_ok_cong: "m_fns m' = m_fns m \<Longrightarrow> handle_ok m' k = handle_ok m k"
  by (cases k) simp_all

lemma serial_update_inv: "machine_inv m \<Longrightarrow> serial_inv s \<Longrightarrow> machine_inv (m\<lparr>m_serial := s\<rparr>)"
  by (simp add: machine_inv_def handle_ok_cong[of "m\<lparr>m_serial := s\<rparr>" m])

text \<open>The window routes to a function of the machine, at an offset inside BAR0.\<close>

lemma window_target:
  assumes inv: "machine_inv m"
  shows "\<exists>t. route (m_fns m) addr (window_devices (m_window m)) = Some t \<and>
     (\<forall>h rel. t = Some (h, rel) \<longrightarrow> h < length (m_fns m) \<and> vp_inv (m_fns m ! h) \<and> unat rel < 0x1000)"
proof -
  have fi: "fns_inv (m_fns m)" using inv by (simp add: machine_inv_def)
  have ok: "\<forall>h \<in> set (window_devices (m_window m)). h < length (m_fns m) \<and> vp_wf (m_fns m ! h)"
    using inv fns_inv_nth[OF fi] vp_inv_wf by (auto simp: machine_inv_def)
  have "unat rel < 0x1000" if "bar_covers d addr rel" for d rel
    using that by (auto simp: bar_covers_def word_less_nat_alt)
  then show ?thesis using route_spec[OF ok, of addr] ok fns_inv_nth[OF fi] by fastforce
qed

lemma window_read_result:
  assumes inv: "machine_inv m" and r: "window_read oc (m_window m) (m_fns m) off data = Some (fns, data')"
  shows "fns_inv fns \<and> length fns = length (m_fns m) \<and> length data' = length data"
proof -
  have fi: "fns_inv (m_fns m)" using inv by (simp add: machine_inv_def)
  obtain addr where a: "rs_add oc (window_base (m_window m)) off = Some addr"
    using r by (auto simp: window_read_def bind_eq_Some_conv)
  obtain t where t: "route (m_fns m) addr (window_devices (m_window m)) = Some t"
    "\<forall>h rel. t = Some (h, rel) \<longrightarrow> h < length (m_fns m) \<and> vp_inv (m_fns m ! h) \<and> unat rel < 0x1000"
    using window_target[OF inv] by blast
  show ?thesis
  proof (cases t)
    case None
    then show ?thesis using r a t fi by (auto simp: window_read_def)
  next
    case (Some p)
    obtain h rel where p: "p = (h, rel)" by (cases p)
    obtain d' where d': "mmio_read oc (m_fns m ! h) rel data = Some (d', data')" "fns = (m_fns m)[h := d']"
      using r a t Some p by (auto simp: window_read_def bind_eq_Some_conv)
    have "vp_inv (m_fns m ! h)" using t(2) Some p by simp
    then show ?thesis using mmio_read_inv[OF _ d'(1)] d'(2) fns_inv_update[OF fi] by simp
  qed
qed

lemma window_read_returns:
  assumes inv: "machine_inv m" and off: "unat off + length data \<le> 0xd0000000"
  shows "\<exists>fns data'. window_read oc (m_window m) (m_fns m) off data = Some (fns, data')"
proof -
  have a: "rs_add oc (window_base (m_window m)) off = Some (window_base (m_window m) + off)"
    using inv off by (intro rs_add_no_overflow) (simp add: machine_inv_def)
  obtain t where t: "route (m_fns m) (window_base (m_window m) + off) (window_devices (m_window m)) = Some t"
    "\<forall>h rel. t = Some (h, rel) \<longrightarrow> h < length (m_fns m) \<and> vp_inv (m_fns m ! h) \<and> unat rel < 0x1000"
    using window_target[OF inv] by blast
  show ?thesis
  proof (cases t)
    case None
    then show ?thesis using a t by (simp add: window_read_def)
  next
    case (Some p)
    obtain h rel where p: "p = (h, rel)" by (cases p)
    have "unat rel < 0x1000" using t(2) Some p by simp
    then obtain d' data' where "mmio_read oc (m_fns m ! h) rel data = Some (d', data')"
      using mmio_read_returns[of data rel oc "m_fns m ! h"] off by auto
    then show ?thesis using a t Some p by (simp add: window_read_def)
  qed
qed

lemma window_write_result:
  assumes inv: "machine_inv m" and r: "window_write oc (m_window m) (m_fns m) mem off data = Some (fns, mem')"
  shows "fns_inv fns \<and> length fns = length (m_fns m) \<and> gm_size mem' = gm_size mem \<and> gm_ptr mem' = gm_ptr mem"
proof -
  have fi: "fns_inv (m_fns m)" using inv by (simp add: machine_inv_def)
  obtain addr where a: "rs_add oc (window_base (m_window m)) off = Some addr"
    using r by (auto simp: window_write_def bind_eq_Some_conv)
  obtain t where t: "route (m_fns m) addr (window_devices (m_window m)) = Some t"
    "\<forall>h rel. t = Some (h, rel) \<longrightarrow> h < length (m_fns m) \<and> vp_inv (m_fns m ! h) \<and> unat rel < 0x1000"
    using window_target[OF inv] by blast
  show ?thesis
  proof (cases t)
    case None
    then show ?thesis using r a t fi by (auto simp: window_write_def)
  next
    case (Some p)
    obtain h rel where p: "p = (h, rel)" by (cases p)
    obtain d' where d': "mmio_write oc (m_fns m ! h) mem rel data = Some (d', mem')" "fns = (m_fns m)[h := d']"
      using r a t Some p by (auto simp: window_write_def bind_eq_Some_conv)
    have "vp_inv (m_fns m ! h)" using t(2) Some p by simp
    then show ?thesis using mmio_write_inv[OF _ d'(1)] d'(2) fns_inv_update[OF fi] by simp
  qed
qed

lemma window_write_returns:
  assumes inv: "machine_inv m"
  shows "\<exists>fns mem'. window_write False (m_window m) (m_fns m) mem off data = Some (fns, mem')"
proof -
  obtain t where t: "route (m_fns m) (window_base (m_window m) + off) (window_devices (m_window m)) = Some t"
    "\<forall>h rel. t = Some (h, rel) \<longrightarrow> h < length (m_fns m) \<and> vp_inv (m_fns m ! h) \<and> unat rel < 0x1000"
    using window_target[OF inv] by blast
  show ?thesis
  proof (cases t)
    case (Some p)
    obtain h rel where p: "p = (h, rel)" by (cases p)
    have "vp_inv (m_fns m ! h)" using t(2) Some p by simp
    then obtain d' mem' where "mmio_write False (m_fns m ! h) mem rel data = Some (d', mem')"
      using mmio_write_returns by blast
    then show ?thesis using t Some p by (simp add: window_write_def)
  qed (use t in \<open>simp add: window_write_def\<close>)
qed

lemma root_write_machine:
  assumes inv: "machine_inv m" and b: "unat off + length data \<le> 8"
    and w: "root_write (pci_cfg_write oc) oc (m_root m) m off data = Some (r, m')"
  shows "machine_inv (m'\<lparr>m_root := r\<rparr>)"
proof -
  note k = pci_root.root_write_inv[OF inv b w]
  have "handle_ok (m'\<lparr>m_root := r\<rparr>) h = handle_ok m' h" for h by (rule handle_ok_cong) simp
  moreover have "\<forall>h \<in> ran (pci_devices r). handle_ok m' h" using k inv by (simp add: machine_inv_def)
  ultimately show ?thesis using k by (simp add: machine_inv_def)
qed

interpretation bus: bus_device "dev_read oc now" "dev_write oc" machine_inv dev_span for oc now
proof unfold_locales
  fix m h and off :: u64 and data :: bytes
  assume inv: "machine_inv m" and b: "unat off + length data \<le> dev_span h"
  show "\<exists>s' data'. dev_read oc now h m off data = Some (s', data')"
  proof (cases h)
    case DevPciRoot
    have "\<forall>d \<in> ran (pci_devices (m_root m)). handle_ok m d" using inv by (simp add: machine_inv_def)
    then show ?thesis
      using pci_root.root_read_returns[OF inv, of "m_root m" off data oc oc] b DevPciRoot
      by (auto simp: dev_span_def)
  next
    case DevWindow
    then show ?thesis using window_read_returns[OF inv, of off data oc] b by (auto simp: dev_span_def)
  qed (auto split: prod.split)
next
  fix m h m' and off :: u64 and data data' :: bytes
  assume inv: "machine_inv m" and r: "dev_read oc now h m off data = Some (m', data')"
  show "length data' = length data"
    using r window_read_result[OF inv] pci_root.root_read_length
    by (cases h) (auto simp: serial_read_def null_read_def Let_def split: prod.splits if_splits)
  show "machine_inv m'"
    using r inv window_read_result[OF inv] fns_update_inv(1)[OF inv] serial_update_inv[OF inv]
      serial_read_inv[of "m_serial m" now off data]
    by (cases h) (auto simp: machine_inv_def split: prod.splits)
next
  fix m h m' and off :: u64 and data :: bytes
  assume inv: "machine_inv m" and b: "unat off + length data \<le> dev_span h"
    and w: "dev_write oc h m off data = Some m'"
  show "machine_inv m'"
  proof (cases h)
    case DevPciRoot
    then show ?thesis using w b root_write_machine[OF inv] by (auto simp: dev_span_def)
  next
    case DevSerial
    have "serial_inv (m_serial m)" using inv by (simp add: machine_inv_def)
    then show ?thesis using w DevSerial serial_update_inv[OF inv serial_write_inv] by auto
  next
    case DevWindow
    then show ?thesis using w window_write_result[OF inv] fns_update_inv(2)[OF inv] by auto
  qed (use w inv in simp)
qed

section \<open>Runs\<close>

text \<open>A bus whose registrations the devices can serve.\<close>

definition served :: "bus_handle bus \<Rightarrow> bool" where
  "served b \<longleftrightarrow> bus_wf b \<and> within_spans dev_span b"

lemma mem_update_inv: "machine_inv m \<Longrightarrow> machine_inv (m\<lparr>m_mem := mem\<rparr>)"
  by (simp add: machine_inv_def handle_ok_cong[of "m\<lparr>m_mem := mem\<rparr>" m])

lemma machine_step_inv:
  assumes "served pio" "served mmio" "machine_inv m" "event_ok e"
    and "machine_step oc pio mmio m e = Some m'"
  shows "machine_inv m'"
proof (cases e)
  case (PioOut addr data)
  then show ?thesis
    using assms bus.bus_write_inv[of pio data m oc addr] by (auto simp: served_def)
next
  case (MmioOut addr data)
  then show ?thesis
    using assms bus.bus_write_inv[of mmio data m oc addr] by (auto simp: served_def)
next
  case (ConsoleIn now bs)
  have "serial_inv (m_serial m)" using assms(3) by (simp add: machine_inv_def)
  then show ?thesis using assms ConsoleIn serial_update_inv[OF assms(3) inject_rx_inv] by auto
next
  case (ConsoleTick now)
  have "serial_inv (m_serial m)" using assms(3) by (simp add: machine_inv_def)
  then show ?thesis using assms ConsoleTick serial_update_inv[OF assms(3) tick_cti_inv] by auto
qed (use assms bus.bus_read_inv mem_update_inv in auto)

lemma dev_write_returns:
  assumes inv: "machine_inv m" and b: "unat off + length data \<le> dev_span h"
  shows "\<exists>m'. dev_write False h m off data = Some m'"
proof (cases h)
  case DevPciRoot
  have "\<forall>d \<in> ran (pci_devices (m_root m)). handle_ok m d" using inv by (simp add: machine_inv_def)
  then show ?thesis
    using pci_root.root_write_returns[OF inv, of "m_root m" off data False False] b DevPciRoot
    by (auto simp: dev_span_def)
next
  case DevWindow
  then show ?thesis using window_write_returns[OF inv] by fastforce
qed simp_all

lemma bus_write_returns:
  assumes s: "served b" and inv: "machine_inv m" and l: "length data < 2 ^ 64"
  shows "bus_write (dev_write False) b m addr data \<noteq> None"
proof (cases "data = []")
  case False
  show ?thesis
  proof (cases "lookup b addr")
    case (Some p)
    obtain r h where p: "p = (r, h)" by (cases p)
    have "range_ok r" "(r, h) \<in> set b" using bus_wf_range_ok[of b addr r h] s Some p by (auto simp: served_def)
    then have "unat (addr - br_base r) + length data \<le> dev_span h" if "contains_range r addr (of_nat (length data))"
      using that access_in_span[of dev_span b r h addr "length data"] s contains_range_holds[OF _ False l]
      by (auto simp: served_def)
    then show ?thesis
      using dev_write_returns[OF inv, of "addr - br_base r" data h] False Some p
      by (auto simp: bus_write_def ex_bool_eq)
  qed (use False in \<open>simp add: bus_write_def\<close>)
qed (simp add: bus_write_def)

lemma machine_step_returns:
  assumes "served pio" "served mmio" "machine_inv m" "event_ok e"
  shows "\<exists>m'. machine_step False pio mmio m e = Some m'"
proof (cases e)
  case (PioIn now addr data)
  then show ?thesis
    using assms bus.bus_read_returns[of pio data m False now addr] by (fastforce simp: served_def)
next
  case (MmioIn now addr data)
  then show ?thesis
    using assms bus.bus_read_returns[of mmio data m False now addr] by (fastforce simp: served_def)
next
  case (PioOut addr data)
  then show ?thesis using assms bus_write_returns[of pio m data addr] by auto
next
  case (MmioOut addr data)
  then show ?thesis using assms bus_write_returns[of mmio m data addr] by auto
qed simp_all

lemma machine_run_returns:
  assumes "served pio" "served mmio"
  shows "machine_inv m \<Longrightarrow> \<forall>e \<in> set es. event_ok e \<Longrightarrow>
     \<exists>m'. machine_run False pio mmio m es = Some m' \<and> machine_inv m'"
proof (induction es arbitrary: m)
  case (Cons e es)
  obtain m1 where m1: "machine_step False pio mmio m e = Some m1"
    using machine_step_returns[OF assms Cons.prems(1), of e] Cons.prems(2) by auto
  then have "machine_inv m1"
    using machine_step_inv[OF assms Cons.prems(1), of e] Cons.prems(2) by auto
  then show ?case using Cons m1 by auto
qed simp

section \<open>The buses of the machine\<close>

lemma register_fresh:
  assumes "range_ok \<lparr>br_base = base, br_len = len\<rparr>"
  shows "register bus_new base len h = Inr [(\<lparr>br_base = base, br_len = len\<rparr>, h)]"
  using assms range_new_Inr_iff[of base len "\<lparr>br_base = base, br_len = len\<rparr>"]
  by (simp add: register_def bus_new_def)

lemma pio_bus_eq:
  "register_com [(\<lparr>br_base = 0xcf8, br_len = 8\<rparr>, DevPciRoot)] =
     Inr [(\<lparr>br_base = 0x2e8, br_len = 8\<rparr>, DevNull), (\<lparr>br_base = 0x2f8, br_len = 8\<rparr>, DevNull),
       (\<lparr>br_base = 0x3e8, br_len = 8\<rparr>, DevNull), (\<lparr>br_base = 0x3f8, br_len = 8\<rparr>, DevSerial),
       (\<lparr>br_base = 0xcf8, br_len = 8\<rparr>, DevPciRoot)]"
  by (simp add: register_com_def register_def range_new_def checked_add_def range_cmp_def overlaps_def
      range_end_def saturating_add_def)

lemma register_pci_eq:
  assumes "unat ram_size < 0xd0000000"
  shows "register_pci ram_size = Inr ([(\<lparr>br_base = 0xcf8, br_len = 8\<rparr>, DevPciRoot)],
     [(\<lparr>br_base = ram_size, br_len = 0xd0000000 - ram_size\<rparr>, DevWindow)])"
    and "range_ok \<lparr>br_base = ram_size, br_len = 0xd0000000 - ram_size\<rparr>"
    and "unat (0xd0000000 - ram_size) \<le> 0xd0000000"
proof -
  have le: "ram_size \<le> 0xd0000000" using assms by (simp add: word_le_nat_alt)
  have u: "unat (0xd0000000 - ram_size) = 0xd0000000 - unat ram_size" using le by (simp add: unat_sub)
  show "unat (0xd0000000 - ram_size) \<le> 0xd0000000" using u by simp
  have "0xd0000000 - ram_size \<noteq> 0" using assms u by (metis diff_is_0_eq not_le unat_0)
  then show ok: "range_ok \<lparr>br_base = ram_size, br_len = 0xd0000000 - ram_size\<rparr>"
    using assms by (simp add: range_ok_def u)
  have "\<not> PCI_MMIO_WINDOW_END \<le> ram_size" using assms by (simp add: PCI_MMIO_WINDOW_END_def word_le_nat_alt)
  then show "register_pci ram_size = Inr ([(\<lparr>br_base = 0xcf8, br_len = 8\<rparr>, DevPciRoot)],
     [(\<lparr>br_base = ram_size, br_len = 0xd0000000 - ram_size\<rparr>, DevWindow)])"
    using register_fresh[OF ok, of DevWindow] register_fresh[of "0xcf8" 8 DevPciRoot]
    by (simp add: register_pci_def PCI_MMIO_WINDOW_END_def range_ok_def)
qed

lemma attach_virtio_inv:
  assumes "machine_inv m" and "backend_ok dev" and "register_irq gsi = Inr sink"
  shows "\<exists>m'. attach_virtio oc register_irq msink what dev gsi slot m = Some (Inr m') \<and> machine_inv m' \<and>
     length (m_fns m') = length (m_fns m) + 1"
proof -
  obtain d where d: "virtio_pci_new oc NullIrqSink msink dev (ucast gsi) = Some d" "vp_inv d"
    using virtio_pci_new_inv[OF assms(2)] by blast
  let ?h = "length (m_fns m)"
  let ?m = "m\<lparr>m_fns := m_fns m @ [vp_replace_irq_sink sink d],
     m_root := pci_add_device slot 0 (VirtioFn ?h) (m_root m), m_window := mmio_add_device ?h (m_window m)\<rparr>"
  have "handle_ok ?m k" if "k \<in> ran (pci_devices (m_root ?m))" for k
  proof -
    have "k = VirtioFn ?h \<or> k \<in> ran (pci_devices (m_root m))"
      using that by (auto simp: pci_add_device_def ran_def split: if_splits)
    then have "k = VirtioFn ?h \<or> handle_ok m k" using assms(1) by (auto simp: machine_inv_def)
    then show ?thesis by (cases k) auto
  qed
  then have "machine_inv ?m"
    using assms(1) replace_irq_sink_vp_inv[OF d(2)]
    by (auto simp: machine_inv_def fns_inv_def mmio_add_device_def)
  then show ?thesis using d(1) assms(3) by (simp add: attach_virtio_def Let_def)
qed

lemma host_bridge_wf: "\<exists>b. host_bridge = Some b \<and> cs_wf b"
  by (simp add: host_bridge_def config_space_new_def set_u16_def set_u8_def cs_wf_def)

lemma setup_machine_ok:
  assumes ram: "unat ram_size < 0xd0000000"
    and irq: "\<forall>g \<in> {4, 12, 14}. \<exists>sink. register_irq g = Inr sink"
    and img: "\<forall>r. img = Some r \<longrightarrow> (\<exists>b. r = Inr b \<and> blk_inv b)"
  shows "\<exists>m pio mmio. setup_machine oc register_irq (Inr msink) (Some src) img now mem ram_size
       = Some (Inr (m, pio, mmio)) \<and>
     machine_inv m \<and> served pio \<and> served mmio \<and> m_mem m = mem \<and>
     mmio = [(\<lparr>br_base = ram_size, br_len = 0xd0000000 - ram_size\<rparr>, DevWindow)] \<and>
     register_com [(\<lparr>br_base = 0xcf8, br_len = 8\<rparr>, DevPciRoot)] = (Inr pio :: unit setup_error + _)"
proof -
  obtain br where br: "host_bridge = Some br" "cs_wf br" using host_bridge_wf by blast
  obtain s4 s12 s14 where irqs: "register_irq GSI_COM1 = Inr s4" "register_irq 12 = Inr s12" "register_irq 14 = Inr s14"
    using irq by (auto simp: GSI_COM1_def)
  obtain rng where rng: "rng_new (Some src) = Some rng" by (cases src) (simp add: rng_new_def)
  let ?m0 = "\<lparr>m_mem = mem, m_root = pci_add_device 0 0 HostBridge pci_root_bus_new, m_bridge = br, m_fns = [],
     m_window = mmio_window_new ram_size, m_serial = serial_new now NullIrqSink\<rparr>"
  have i0: "machine_inv ?m0"
    using br(2) ram serial_new_inv[of now NullIrqSink]
    by (auto simp: machine_inv_def fns_inv_def pci_add_device_def pci_root_bus_new_def ran_def
        mmio_window_new_def split: if_splits)
  obtain m1 where m1: "attach_virtio oc register_irq msink ''Virtio RNG IRQ'' (RngDev rng) 12 1 ?m0 = Some (Inr m1)"
    "machine_inv m1" using attach_virtio_inv[OF i0, where register_irq = register_irq and gsi = 12 and dev = "RngDev rng"] irqs(2) by fastforce
  obtain m2 where m2: "(case img of None \<Rightarrow> Some (Inr m1)
      | Some (Inl e) \<Rightarrow> Some (Inl (HostFailed ''disk image'' e))
      | Some (Inr blk) \<Rightarrow> attach_virtio oc register_irq msink ''Virtio BLK IRQ'' (BlkDev blk) 14 2 m1) = Some (Inr m2)"
    "machine_inv m2"
  proof (cases img)
    case None
    then show ?thesis using that m1(2) by simp
  next
    case (Some r)
    then obtain b where "r = Inr b" "blk_inv b" using img by blast
    then show ?thesis using that Some attach_virtio_inv[OF m1(2), where register_irq = register_irq and gsi = 14 and dev = "BlkDev b"] irqs(3) by fastforce
  qed
  have mem: "m_mem m1 = mem" "m_mem m2 = m_mem m1"
    using m1(1) m2(1) irqs by (auto simp: attach_virtio_def bind_eq_Some_conv Let_def split: option.splits sum.splits)
  let ?m = "m2\<lparr>m_serial := replace_irq_sink (m_serial m2) s4\<rparr>"
  have inv: "machine_inv ?m"
    using m2(2) by (intro serial_update_inv replace_irq_sink_inv) (simp_all add: machine_inv_def)
  have s: "served [(\<lparr>br_base = ram_size, br_len = 0xd0000000 - ram_size\<rparr>, DevWindow)]"
    using register_pci_eq(2,3)[OF ram] by (simp add: served_def bus_wf_Cons within_spans_def dev_span_def)
  let ?pio = "[(\<lparr>br_base = 0x2e8, br_len = 8\<rparr>, DevNull), (\<lparr>br_base = 0x2f8, br_len = 8\<rparr>, DevNull),
       (\<lparr>br_base = 0x3e8, br_len = 8\<rparr>, DevNull), (\<lparr>br_base = 0x3f8, br_len = 8\<rparr>, DevSerial),
       (\<lparr>br_base = 0xcf8, br_len = 8\<rparr>, DevPciRoot)]"
  have "served ?pio"
    by (simp add: served_def bus_wf_Cons within_spans_def dev_span_def range_ok_def range_end_def saturating_add_def)
  moreover have "setup_machine oc register_irq (Inr msink) (Some src) img now mem ram_size
      = Some (Inr (?m, ?pio, [(\<lparr>br_base = ram_size, br_len = 0xd0000000 - ram_size\<rparr>, DevWindow)]))"
    unfolding setup_machine_def br(1) rng register_pci_eq(1)[OF ram]
    by (simp add: m1(1) m2(1) pio_bus_eq irqs(1))
  ultimately show ?thesis using inv s mem pio_bus_eq by auto
qed

section \<open>Properties\<close>

text \<open>
  C1. No guest can crash the devices of a release build: from the machine \<open>main\<close> sets up
  (RAM below the PCI window's end, every host call successful, an image that holds its
  advertised capacity), any sequence of port and MMIO accesses of at most eight bytes at any
  address, console input, timer ticks and guest stores runs to the end without a panic and
  leaves every device in its invariant.
\<close>

theorem machine_never_panics:
  assumes "unat ram_size < 0xd0000000"
    and "\<forall>g \<in> {4, 12, 14}. \<exists>sink. register_irq g = Inr sink"
    and "\<forall>r. img = Some r \<longrightarrow> (\<exists>b. r = Inr b \<and> blk_inv b)"
    and "\<forall>e \<in> set events. event_ok e"
  shows "\<exists>m pio mmio m'. setup_machine False register_irq (Inr msink) (Some src) img now mem ram_size
       = Some (Inr (m, pio, mmio)) \<and>
     machine_run False pio mmio m events = Some m' \<and> machine_inv m'"
  using setup_machine_ok[OF assms(1-3), of False msink src now mem]
    machine_run_returns[OF _ _ _ assms(4)] by blast

theorem machine_never_panics_witness:
  "\<exists>m pio mmio m'. setup_machine False (\<lambda>g. Inr (KvmIrqSink 3 g) :: unit + irq_sink) (Inr (KvmMsiSink 3))
       (Some (\<lambda>_. True, \<lambda>_ _. 7)) None 0 \<lparr>gm_ptr = 1, gm_size = 0x1000000, gm_bytes = (\<lambda>_. 0)\<rparr> 0x1000000
       = Some (Inr (m, pio, mmio)) \<and>
     machine_run False pio mmio m [PioOut 0xcf8 [0, 0, 0, 0x80], PioIn 5 0xcfc [0, 0, 0, 0], MmioOut 0xffffffffffffffff [1]]
       = Some m' \<and> machine_inv m'"
  by (rule machine_never_panics) simp_all

text \<open>
  The address map: on the buses \<open>main\<close> builds, the port reads at COM1, at the other COM
  ports and at the PCI configuration ports reach exactly their devices, and the MMIO window
  covers exactly the addresses from the end of RAM to \<open>0xd0000000\<close>.
\<close>

theorem address_map:
  assumes "unat ram_size < 0xd0000000"
    and "\<forall>g \<in> {4, 12, 14}. \<exists>sink. register_irq g = Inr sink"
    and "\<forall>r. img = Some r \<longrightarrow> (\<exists>b. r = Inr b \<and> blk_inv b)"
    and "setup_machine oc register_irq (Inr msink) (Some src) img now mem ram_size = Some (Inr (m, pio, mmio))"
  shows "(\<forall>a. map_option snd (lookup mmio a) =
       (if unat ram_size \<le> unat a \<and> unat a < 0xd0000000 then Some DevWindow else None)) \<and>
     (\<forall>a. map_option snd (lookup pio a) =
       (if 0xcf8 \<le> unat a \<and> unat a < 0xd00 then Some DevPciRoot
        else if 0x3f8 \<le> unat a \<and> unat a < 0x400 then Some DevSerial
        else if 0x2f8 \<le> unat a \<and> unat a < 0x300 \<or> 0x3e8 \<le> unat a \<and> unat a < 0x3f0 \<or>
          0x2e8 \<le> unat a \<and> unat a < 0x2f0 then Some DevNull
        else None))"
proof -
  have m: "mmio = [(\<lparr>br_base = ram_size, br_len = 0xd0000000 - ram_size\<rparr>, DevWindow)]" "served mmio" "served pio"
    and p: "register_com [(\<lparr>br_base = 0xcf8, br_len = 8\<rparr>, DevPciRoot)] = (Inr pio :: unit setup_error + _)"
    using setup_machine_ok[OF assms(1-3), of oc msink src now mem] assms(4) by auto
  have c: "covers \<lparr>br_base = b, br_len = l\<rparr> a \<longleftrightarrow> unat b \<le> unat a \<and> unat a < unat b + unat l"
    if "range_ok \<lparr>br_base = b, br_len = l\<rparr>" for a b l using covers_unat[OF that] by simp
  have "unat ram_size + unat (0xd0000000 - ram_size) = 0xd0000000"
    using assms(1) by (simp add: unat_sub word_le_nat_alt)
  then have "map_option snd (lookup mmio a) =
      (if unat ram_size \<le> unat a \<and> unat a < 0xd0000000 then Some DevWindow else None)" for a
    using m(2) c[OF register_pci_eq(2)[OF assms(1)]] by (simp add: lookup_claims served_def claims_of_def m(1))
  moreover have "map_option snd (lookup pio a) =
       (if 0xcf8 \<le> unat a \<and> unat a < 0xd00 then Some DevPciRoot
        else if 0x3f8 \<le> unat a \<and> unat a < 0x400 then Some DevSerial
        else if 0x2f8 \<le> unat a \<and> unat a < 0x300 \<or> 0x3e8 \<le> unat a \<and> unat a < 0x3f0 \<or>
          0x2e8 \<le> unat a \<and> unat a < 0x2f0 then Some DevNull
        else None)" for a
    using p m(3) unfolding pio_bus_eq by (auto simp: lookup_claims served_def claims_of_def c range_ok_def)
  ultimately show ?thesis by blast
qed

theorem address_map_witness:
  "\<exists>m pio mmio. setup_machine False (\<lambda>g. Inr (KvmIrqSink 3 g) :: unit + irq_sink) (Inr (KvmMsiSink 3))
       (Some (\<lambda>_. True, \<lambda>_ _. 7)) None 0 \<lparr>gm_ptr = 1, gm_size = 0x1000000, gm_bytes = (\<lambda>_. 0)\<rparr> 0x1000000
       = Some (Inr (m, pio, mmio)) \<and>
     map_option snd (lookup pio 0x3fd) = Some DevSerial \<and> lookup pio 0x80 = None \<and>
     map_option snd (lookup mmio 0xcfffffff) = Some DevWindow \<and> lookup mmio 0xfee00000 = None"
proof -
  let ?irq = "\<lambda>g. Inr (KvmIrqSink 3 g) :: unit + irq_sink"
  let ?src = "Some (\<lambda>_. True, \<lambda>_ _. 7)"
  let ?mem = "\<lparr>gm_ptr = 1, gm_size = 0x1000000, gm_bytes = (\<lambda>_. 0)\<rparr>"
  obtain m pio mmio where s: "setup_machine False ?irq (Inr (KvmMsiSink 3)) ?src None 0 ?mem 0x1000000
      = Some (Inr (m, pio, mmio))"
    using setup_machine_ok[where ram_size = "0x1000000" and register_irq = ?irq and img = None and oc = False
        and msink = "KvmMsiSink 3" and src = "(\<lambda>_. True, \<lambda>_ _. 7)" and now = 0 and mem = ?mem] by auto
  have l: "map_option snd (lookup pio 0x3fd) = Some DevSerial" "map_option snd (lookup pio 0x80) = None"
    "map_option snd (lookup mmio 0xcfffffff) = Some DevWindow" "map_option snd (lookup mmio 0xfee00000) = None"
    using address_map[OF _ _ _ s] by simp_all
  then show ?thesis using s by (auto simp del: map_option_eq_Some)
qed

end
