(* ===== verification/MpTable.thy ===== *)
theory MpTable
  imports Memory
begin

text \<open>
  The Intel MP tables written for guests without ACPI (\<open>src/mptable.rs\<close>). The table is
  built the way the code builds it, by pushing bytes on a vector and counting entries, then
  backfilling length, count and checksum. The CPUID leaf the code reads is the parameter
  \<open>cpuid\<close> (the pair \<open>(eax, edx)\<close>), and the compile-time constant
  \<open>TIMER_ON_PIN2\<close>, which differs between the two hosts, is the parameter \<open>tp2\<close>.

  The specification is the reader: \<open>mp_scan\<close> follows the floating pointer, checks
  both signatures and both checksums and decodes the table by the entry lengths of the MP
  specification. The property is that it finds exactly the entries \<open>mp_entries\<close>.
\<close>

section \<open>Constants\<close>

definition MPF_ADDR :: u64 where "MPF_ADDR = 0x000F0000"
definition MPC_ADDR :: u64 where "MPC_ADDR = MPF_ADDR + 16"
definition APIC_DEFAULT_PHYS_BASE :: u32 where "APIC_DEFAULT_PHYS_BASE = 0xFEE00000"
definition IOAPIC_DEFAULT_PHYS_BASE :: u32 where "IOAPIC_DEFAULT_PHYS_BASE = 0xFEC00000"
definition MP_PROCESSOR :: u8 where "MP_PROCESSOR = 0"
definition MP_BUS :: u8 where "MP_BUS = 1"
definition MP_IOAPIC :: u8 where "MP_IOAPIC = 2"
definition MP_INTSRC :: u8 where "MP_INTSRC = 3"
definition MP_LINTSRC :: u8 where "MP_LINTSRC = 4"
definition MP_IRQ_INT :: u8 where "MP_IRQ_INT = 0"
definition MP_IRQ_NMI :: u8 where "MP_IRQ_NMI = 1"
definition MP_IRQ_EXTINT :: u8 where "MP_IRQ_EXTINT = 3"
definition CPU_ENABLED :: u8 where "CPU_ENABLED = 1"
definition CPU_BOOTPROCESSOR :: u8 where "CPU_BOOTPROCESSOR = 2"
definition MPC_APIC_USABLE :: u8 where "MPC_APIC_USABLE = 1"
definition LAPIC_VERSION :: u8 where "LAPIC_VERSION = 0x14"
definition IOAPIC_VERSION :: u8 where "IOAPIC_VERSION = 0x11"
definition NUM_ISA_IRQS :: nat where "NUM_ISA_IRQS = 16"

lemmas mp_consts =
  MP_PROCESSOR_def MP_BUS_def MP_IOAPIC_def MP_INTSRC_def MP_LINTSRC_def MP_IRQ_INT_def
  MP_IRQ_NMI_def MP_IRQ_EXTINT_def CPU_ENABLED_def CPU_BOOTPROCESSOR_def MPC_APIC_USABLE_def
  LAPIC_VERSION_def IOAPIC_VERSION_def

section \<open>Building the table\<close>

text \<open>A byte string literal.\<close>

definition ascii :: "string \<Rightarrow> bytes" where
  "ascii s = map of_char s"

definition push_u16 :: "bytes \<Rightarrow> u16 \<Rightarrow> bytes" where
  "push_u16 buf v = buf @ u16_to_le v"

definition push_u32 :: "bytes \<Rightarrow> u32 \<Rightarrow> bytes" where
  "push_u32 buf v = buf @ u32_to_le v"

definition mp_checksum :: "bytes \<Rightarrow> u8" where
  "mp_checksum bs = 0 - foldl (\<lambda>acc b. acc + b) 0 bs"

definition mpc_header :: bytes where
  "mpc_header =
     (let mpc = [] @ ascii ''PCMP'';
          mpc = push_u16 mpc 0;
          mpc = mpc @ [4];
          mpc = mpc @ [0];
          mpc = mpc @ ascii ''FERRVM00'';
          mpc = mpc @ ascii ''ferrvm 0.1  '';
          mpc = push_u32 mpc 0;
          mpc = push_u16 mpc 0;
          mpc = push_u16 mpc 0;
          mpc = push_u32 mpc APIC_DEFAULT_PHYS_BASE
      in push_u32 mpc 0)"

text \<open>
  The vector and the running \<open>entries\<close> counter. The counter is a \<open>u16\<close>; at most
  275 entries are pushed, so its increments never overflow (\<open>build_mpc_bytes\<close> below).
\<close>

type_synonym mpc_acc = "bytes \<times> u16"

definition push_processor :: "u32 \<times> u32 \<Rightarrow> mpc_acc \<Rightarrow> u8 \<Rightarrow> mpc_acc" where
  "push_processor cpuid acc i =
     (let (mpc, entries) = acc;
          flags = (if i = 0 then CPU_ENABLED OR CPU_BOOTPROCESSOR else CPU_ENABLED);
          mpc = mpc @ [MP_PROCESSOR] @ [i] @ [LAPIC_VERSION] @ [flags];
          mpc = push_u32 (push_u32 mpc (fst cpuid)) (snd cpuid);
          mpc = push_u32 (push_u32 mpc 0) 0
      in (mpc, entries + 1))"

definition push_isa_bus :: "mpc_acc \<Rightarrow> mpc_acc" where
  "push_isa_bus acc = (let (mpc, entries) = acc in (mpc @ [MP_BUS] @ [0] @ ascii ''ISA   '', entries + 1))"

definition push_ioapic :: "u8 \<Rightarrow> mpc_acc \<Rightarrow> mpc_acc" where
  "push_ioapic ioapic_id acc =
     (let (mpc, entries) = acc;
          mpc = mpc @ [MP_IOAPIC] @ [ioapic_id] @ [IOAPIC_VERSION] @ [MPC_APIC_USABLE]
      in (push_u32 mpc IOAPIC_DEFAULT_PHYS_BASE, entries + 1))"

definition isa_route :: "bool \<Rightarrow> u8 \<Rightarrow> u8 \<times> u8" where
  "isa_route tp2 pin =
     (if tp2 then
        (if pin = 0 then (MP_IRQ_EXTINT, 0)
         else if pin = 2 then (MP_IRQ_INT, 0)
         else (MP_IRQ_INT, pin))
      else (MP_IRQ_INT, pin))"

definition push_intsrc :: "bool \<Rightarrow> u8 \<Rightarrow> mpc_acc \<Rightarrow> u8 \<Rightarrow> mpc_acc" where
  "push_intsrc tp2 ioapic_id acc pin =
     (let (mpc, entries) = acc;
          (int_type, src_irq) = isa_route tp2 pin;
          mpc = push_u16 (mpc @ [MP_INTSRC] @ [int_type]) 0;
          mpc = mpc @ [0] @ [src_irq] @ [ioapic_id] @ [pin]
      in (mpc, entries + 1))"

definition push_lintsrc :: "u8 \<Rightarrow> u8 \<Rightarrow> mpc_acc \<Rightarrow> mpc_acc" where
  "push_lintsrc int_type lint acc =
     (let (mpc, entries) = acc;
          mpc = push_u16 (mpc @ [MP_LINTSRC] @ [int_type]) 0
      in (mpc @ [0] @ [0] @ [0xff] @ [lint], entries + 1))"

definition build_mpc :: "bool \<Rightarrow> u32 \<times> u32 \<Rightarrow> u8 \<Rightarrow> mpc_acc" where
  "build_mpc tp2 cpuid num_cpus =
     (let ioapic_id = num_cpus;
          acc = foldl (push_processor cpuid) (mpc_header, 0) (map of_nat [0..<unat num_cpus]);
          acc = push_ioapic ioapic_id (push_isa_bus acc);
          acc = foldl (push_intsrc tp2 ioapic_id) acc (map of_nat [0..<NUM_ISA_IRQS])
      in push_lintsrc MP_IRQ_NMI 1 (push_lintsrc MP_IRQ_EXTINT 0 acc))"

definition backfill :: "mpc_acc \<Rightarrow> bytes option" where
  "backfill acc =
     (let (mpc, entries) = acc in
      if 2 ^ 16 \<le> length mpc then None
      else
        let mpc = patch_at 4 (u16_to_le (of_nat (length mpc))) mpc;
            mpc = patch_at 34 (u16_to_le entries) mpc
        in Some (mpc[7 := mp_checksum mpc]))"

definition mpf_bytes :: bytes where
  "mpf_bytes =
     (let mpf = replicate 16 0;
          mpf = patch_at 0 (ascii ''_MP_'') mpf;
          mpf = patch_at 4 (u32_to_le (ucast MPC_ADDR)) mpf;
          mpf = mpf[8 := 1];
          mpf = mpf[9 := 4]
      in mpf[10 := mp_checksum mpf])"

datatype mp_error = TableTooLarge | ConfigWriteFailed mem_error | PointerWriteFailed mem_error

definition write_mptable :: "bool \<Rightarrow> u32 \<times> u32 \<Rightarrow> guest_memory \<Rightarrow> u8 \<Rightarrow> mp_error + guest_memory" where
  "write_mptable tp2 cpuid mem num_cpus =
     (case backfill (build_mpc tp2 cpuid num_cpus) of
        None \<Rightarrow> Inl TableTooLarge
      | Some mpc \<Rightarrow>
          (case write_at mem MPC_ADDR mpc of
             Inl e \<Rightarrow> Inl (ConfigWriteFailed e)
           | Inr mem \<Rightarrow>
               (case write_at mem MPF_ADDR mpf_bytes of
                  Inl e \<Rightarrow> Inl (PointerWriteFailed e)
                | Inr mem \<Rightarrow> Inr mem)))"

section \<open>The guest's reader\<close>

datatype mp_entry =
    Processor u8 u8 u8 u32 u32
  | MpBus u8 bytes
  | IoApic u8 u8 u8 u32
  | IntSrc u8 u16 u8 u8 u8 u8
  | LintSrc u8 u16 u8 u8 u8 u8

definition mp_decode :: "bytes \<Rightarrow> (mp_entry \<times> bytes) option" where
  "mp_decode bs =
     (if length bs < 8 then None
      else if bs ! 0 = 0 then
        (if length bs < 20 then None
         else Some (Processor (bs ! 1) (bs ! 2) (bs ! 3) (from_le (subslice 4 8 bs)) (from_le (subslice 8 12 bs)), drop 20 bs))
      else if bs ! 0 = 1 then Some (MpBus (bs ! 1) (subslice 2 8 bs), drop 8 bs)
      else if bs ! 0 = 2 then Some (IoApic (bs ! 1) (bs ! 2) (bs ! 3) (from_le (subslice 4 8 bs)), drop 8 bs)
      else if bs ! 0 = 3 then
        Some (IntSrc (bs ! 1) (from_le (subslice 2 4 bs)) (bs ! 4) (bs ! 5) (bs ! 6) (bs ! 7), drop 8 bs)
      else if bs ! 0 = 4 then
        Some (LintSrc (bs ! 1) (from_le (subslice 2 4 bs)) (bs ! 4) (bs ! 5) (bs ! 6) (bs ! 7), drop 8 bs)
      else None)"

fun mp_parse :: "nat \<Rightarrow> bytes \<Rightarrow> mp_entry list option" where
  "mp_parse 0 bs = (if bs = [] then Some [] else None)"
| "mp_parse (Suc n) bs =
     (case mp_decode bs of None \<Rightarrow> None | Some (e, rest) \<Rightarrow> map_option (Cons e) (mp_parse n rest))"

definition mp_scan :: "guest_memory \<Rightarrow> mp_entry list option" where
  "mp_scan mem =
     (case read_at mem 0xF0000 16 of
        Inl _ \<Rightarrow> None
      | Inr f \<Rightarrow>
          if take 4 f \<noteq> ascii ''_MP_'' \<or> sum_list f \<noteq> 0 then None
          else
            let at = ucast (from_le (subslice 4 8 f) :: u32) in
            (case read_at mem at 44 of
               Inl _ \<Rightarrow> None
             | Inr h \<Rightarrow>
                 if take 4 h \<noteq> ascii ''PCMP'' then None
                 else
                   (case read_at mem at (unat (from_le (subslice 4 6 h) :: u16)) of
                      Inl _ \<Rightarrow> None
                    | Inr t \<Rightarrow>
                        if sum_list t \<noteq> 0 then None
                        else mp_parse (unat (from_le (subslice 34 36 h) :: u16)) (drop 44 t))))"

text \<open>The entries the table has to hold, for \<open>n\<close> processors.\<close>

definition mp_entries :: "bool \<Rightarrow> u32 \<times> u32 \<Rightarrow> u8 \<Rightarrow> mp_entry list" where
  "mp_entries tp2 cpuid n =
     map (\<lambda>i. Processor (of_nat i) 0x14 (if i = 0 then 3 else 1) (fst cpuid) (snd cpuid)) [0..<unat n] @
     [MpBus 0 (ascii ''ISA   ''), IoApic n 0x11 1 0xFEC00000] @
     map (\<lambda>p. IntSrc (fst (isa_route tp2 (of_nat p))) 0 0 (snd (isa_route tp2 (of_nat p))) n (of_nat p)) [0..<16] @
     [LintSrc 3 0 0 0 0xff 0, LintSrc 1 0 0 0 0xff 1]"

text \<open>The layout of one entry.\<close>

fun entry_bytes :: "mp_entry \<Rightarrow> bytes" where
  "entry_bytes (Processor i v f s ft) =
     [0, i, v, f] @ u32_to_le s @ u32_to_le ft @ u32_to_le 0 @ u32_to_le 0"
| "entry_bytes (MpBus i name) = [1, i] @ name"
| "entry_bytes (IoApic i v f a) = [2, i, v, f] @ u32_to_le a"
| "entry_bytes (IntSrc t fl b s a p) = [3, t] @ u16_to_le fl @ [b, s, a, p]"
| "entry_bytes (LintSrc t fl b s a p) = [4, t] @ u16_to_le fl @ [b, s, a, p]"

fun entry_ok :: "mp_entry \<Rightarrow> bool" where
  "entry_ok (MpBus i name) \<longleftrightarrow> length name = 6"
| "entry_ok _ \<longleftrightarrow> True"

section \<open>Lemmas\<close>

lemma foldl_add_word: "foldl (\<lambda>acc b. acc + b) a bs = (a :: u8) + sum_list bs"
  by (induction bs arbitrary: a) (simp_all add: add.assoc)

lemma sum_list_update_zero:
  "i < length bs \<Longrightarrow> bs ! i = 0 \<Longrightarrow> sum_list (bs[i := x]) = sum_list bs + (x :: u8)"
  by (induction bs arbitrary: i) (auto simp: nth_Cons ac_simps split: nat.splits)

lemma checksum_sums_to_zero:
  assumes "i < length bs" and "bs ! i = 0"
  shows "sum_list (bs[i := mp_checksum bs]) = 0"
  using assms by (simp add: mp_checksum_def foldl_add_word sum_list_update_zero)

lemma length_ascii [simp]: "length (ascii s) = length s"
  by (simp add: ascii_def)

lemma mp_decode_entry: "entry_ok e \<Longrightarrow> mp_decode (entry_bytes e @ rest) = Some (e, rest)"
  by (cases e) (simp_all add: mp_decode_def subslice_def nth_append)

lemma mp_parse_entries:
  "\<forall>e \<in> set es. entry_ok e \<Longrightarrow> mp_parse (length es) (concat (map entry_bytes es)) = Some es"
  by (induction es) (simp_all add: mp_decode_entry)

lemma length_mpc_header: "length mpc_header = 44"
  by (simp add: mpc_header_def push_u16_def push_u32_def Let_def)

lemma foldl_push:
  assumes "\<And>b c x. f (b, c) x = (b @ entry_bytes (g x), c + 1)"
  shows "foldl f (b, c) xs = (b @ concat (map (\<lambda>x. entry_bytes (g x)) xs), c + of_nat (length xs))"
  by (induction xs arbitrary: b c) (simp_all add: assms add.assoc)

lemma push_processor_eq:
  "push_processor cpuid (b, c) i =
     (b @ entry_bytes (Processor i 0x14 (if i = 0 then 3 else 1) (fst cpuid) (snd cpuid)), c + 1)"
  by (simp add: push_processor_def push_u32_def mp_consts)

lemma push_intsrc_eq:
  "push_intsrc tp2 a (b, c) p =
     (b @ entry_bytes (IntSrc (fst (isa_route tp2 p)) 0 0 (snd (isa_route tp2 p)) a p), c + 1)"
  by (simp add: push_intsrc_def push_u16_def mp_consts split: prod.split)

lemma build_mpc_bytes:
  "build_mpc tp2 cpuid n =
     (mpc_header @ concat (map entry_bytes (mp_entries tp2 cpuid n)),
      of_nat (length (mp_entries tp2 cpuid n)))"
proof -
  have z: "(of_nat i :: u8) = 0 \<longleftrightarrow> i = 0" if "i < unat n" for i
    using that unat_bound[of n] by (auto simp: word_of_nat_eq_0_iff dest: nat_dvd_not_less)
  show ?thesis
    unfolding build_mpc_def Let_def foldl_push[where f = "push_processor cpuid", OF push_processor_eq]
    by (simp add: foldl_push[where f = "push_intsrc tp2 n", OF push_intsrc_eq] push_isa_bus_def push_ioapic_def push_lintsrc_def
        push_u16_def push_u32_def mp_consts NUM_ISA_IRQS_def mp_entries_def IOAPIC_DEFAULT_PHYS_BASE_def
        o_def)
      (intro arg_cong[where f = concat] map_cong refl, simp add: z)
qed

lemma length_mp_entries: "length (mp_entries tp2 cpuid n) = unat n + 20"
  by (simp add: mp_entries_def)

lemma mp_entries_ok: "e \<in> set (mp_entries tp2 cpuid n) \<Longrightarrow> entry_ok e"
  by (auto simp: mp_entries_def)

lemma length_mp_entries_bytes:
  "length (concat (map entry_bytes (mp_entries tp2 cpuid n))) = 20 * unat n + 160"
  by (simp add: mp_entries_def length_concat o_def sum_list_triv)

lemma mpc_header_eq:
  "mpc_header =
     [0x50, 0x43, 0x4d, 0x50, 0, 0, 4, 0, 0x46, 0x45, 0x52, 0x52, 0x56, 0x4d, 0x30, 0x30,
      0x66, 0x65, 0x72, 0x72, 0x76, 0x6d, 0x20, 0x30, 0x2e, 0x31, 0x20, 0x20, 0, 0, 0, 0,
      0, 0, 0, 0, 0, 0, 0xe0, 0xfe, 0, 0, 0, 0]"
  by code_simp

lemma mpf_bytes_eq:
  "mpf_bytes = [0x5f, 0x4d, 0x50, 0x5f, 0x10, 0, 0x0f, 0, 1, 4, 0x81, 0, 0, 0, 0, 0]"
  by code_simp

lemma to_le_2: "to_le 2 w = [ucast w, ucast (drop_bit 8 w)]"
  by (simp add: numeral_2_eq_2 to_le_Suc) (simp add: to_le_def)

lemma patch_at_prefix:
  "a + length ys \<le> length h \<Longrightarrow> patch_at a ys (h @ t) = patch_at a ys h @ t"
  by (simp add: patch_at_def)

lemma backfill_table:
  assumes "length body < 65492"
  shows "\<exists>t. backfill (mpc_header @ body, c) = Some t \<and> length t = 44 + length body \<and>
     take 4 t = ascii ''PCMP'' \<and> from_le (subslice 4 6 t) = (of_nat (44 + length body) :: u16) \<and>
     from_le (subslice 34 36 t) = c \<and> drop 44 t = body \<and> sum_list t = 0"
proof -
  let ?l = "of_nat (44 + length body) :: u16"
  let ?h = "patch_at 34 (u16_to_le c) (patch_at 4 (u16_to_le ?l) mpc_header)"
  let ?t = "(?h @ body)[7 := mp_checksum (?h @ body)]"
  have len: "length ?h = 44" by (simp add: length_mpc_header)
  have b: "backfill (mpc_header @ body, c) = Some ?t"
    using assms by (simp add: backfill_def Let_def patch_at_prefix length_mpc_header)
  have t: "?t = ?h[7 := mp_checksum (?h @ body)] @ body" using len by (simp add: list_update_append1)
  have "?h ! 7 = 0" by (simp add: mpc_header_eq patch_at_def to_le_2)
  then have s: "sum_list ?t = 0" using len by (intro checksum_sums_to_zero) (simp_all add: nth_append)
  have f: "take 4 ?h = ascii ''PCMP''" "subslice 4 6 ?h = u16_to_le ?l" "subslice 34 36 ?h = u16_to_le c"
    by (simp_all add: mpc_header_eq patch_at_def to_le_2 subslice_def ascii_def)
  have g: "take 4 ?t = ascii ''PCMP''" "subslice 4 6 ?t = u16_to_le ?l" "subslice 34 36 ?t = u16_to_le c"
    unfolding t using f len by (simp_all add: subslice_def drop_update_swap take_update_swap list_update_beyond)
  have "length ?t = 44 + length body" "drop 44 ?t = body" using len t by simp_all
  then show ?thesis using b s g by (intro exI[of _ ?t]) simp
qed

text \<open>The floating pointer, followed the way a guest follows it.\<close>

lemma mpf_fields:
  "length mpf_bytes = 16" "take 4 mpf_bytes = ascii ''_MP_''" "sum_list mpf_bytes = 0"
  "ucast (from_le (subslice 4 8 mpf_bytes) :: u32) = MPC_ADDR"
  by (simp_all add: mpf_bytes_eq ascii_def subslice_def MPC_ADDR_def MPF_ADDR_def)

lemma read_at_prefix:
  assumes "read_at m a n = Inr d" and "k \<le> n"
  shows "read_at m a k = Inr (take k d)"
  using assms by (auto simp: read_at_Inr_iff in_ram_def take_map)

lemma mp_scan_table:
  assumes f: "read_at m MPF_ADDR 16 = Inr mpf_bytes"
    and t: "read_at m MPC_ADDR (length t) = Inr t"
    and len: "44 \<le> length t" "length t < 2 ^ 16" "length es < 2 ^ 16"
    and h: "take 4 t = ascii ''PCMP''" "from_le (subslice 4 6 t) = (of_nat (length t) :: u16)"
      "from_le (subslice 34 36 t) = (of_nat (length es) :: u16)"
    and e: "drop 44 t = concat (map entry_bytes es)" "\<forall>e \<in> set es. entry_ok e" and s: "sum_list t = 0"
  shows "mp_scan m = Some es"
proof -
  have "subslice 4 6 (take 44 t) = subslice 4 6 t" "subslice 34 36 (take 44 t) = subslice 34 36 t"
    by (simp_all add: subslice_def drop_take)
  moreover have "unat (of_nat (length t) :: u16) = length t" "unat (of_nat (length es) :: u16) = length es"
    using len by (simp_all add: unat_of_nat)
  ultimately show ?thesis
    using f mpf_fields read_at_prefix[OF t len(1)] t h s mp_parse_entries[OF e(2)]
    by (simp add: mp_scan_def MPF_ADDR_def e(1))
qed

section \<open>Properties\<close>

lemma write_mptable_scan:
  assumes "0xF0010 + 204 + 20 * unat n \<le> unat (gm_size mem)"
  shows "\<exists>m'. write_mptable tp2 cpuid mem n = Inr m' \<and>
     mp_scan m' = Some (mp_entries tp2 cpuid n) \<and>
     (\<forall>v f s ft. Processor n v f s ft \<notin> set (mp_entries tp2 cpuid n)) \<and>
     (\<forall>k. k < 0xF0000 \<or> 0x100000 \<le> k \<longrightarrow> gm_bytes m' k = gm_bytes mem k)"
proof -
  let ?es = "mp_entries tp2 cpuid n"
  let ?b = "concat (map entry_bytes ?es)"
  have n: "unat n < 256" using unat_bound[of n] by simp
  have lb: "length ?b = 20 * unat n + 160" by (rule length_mp_entries_bytes)
  then obtain t where t: "backfill (build_mpc tp2 cpuid n) = Some t" "length t = 44 + length ?b"
      "take 4 t = ascii ''PCMP''" "from_le (subslice 4 6 t) = (of_nat (44 + length ?b) :: u16)"
      "from_le (subslice 34 36 t) = (of_nat (length ?es) :: u16)" "drop 44 t = ?b" "sum_list t = 0"
    using backfill_table[of ?b "of_nat (length ?es)"] n by (auto simp: build_mpc_bytes)
  have len: "length t = 204 + 20 * unat n" using t(2) lb by simp
  have a: "unat MPC_ADDR = 0xF0010" "unat MPF_ADDR = 0xF0000" by (simp_all add: MPC_ADDR_def MPF_ADDR_def)
  obtain m1 where m1: "write_at mem MPC_ADDR t = Inr m1"
    using assms len a gm.wr_Inr_iff[of mem MPC_ADDR t] by auto
  obtain m2 where m2: "write_at m1 MPF_ADDR mpf_bytes = Inr m2"
    using assms a gm.wr_Inr_iff[of m1 MPF_ADDR mpf_bytes] write_at_size[OF m1] mpf_fields(1) by auto
  have "read_at m2 MPC_ADDR (length t) = Inr t"
    using gm.rd_wr_same[OF m1] read_at_disjoint[OF m2, of MPC_ADDR "length t"] a mpf_fields(1) by simp
  then have "mp_scan m2 = Some ?es"
    using gm.rd_wr_same[OF m2] mpf_fields(1) t lb len n length_mp_entries[of tp2 cpuid n] mp_entries_ok
    by (intro mp_scan_table[where t = t]) simp_all
  moreover have "Processor n v f s ft \<notin> set ?es" for v f s ft
    by (auto simp: mp_entries_def unat_of_nat leD[OF mod_less_eq_dividend])
  moreover have "gm_bytes m2 k = gm_bytes mem k" if "k < 0xF0000 \<or> 0x100000 \<le> k" for k
    using that gm.wr_byte[OF m1, of k] gm.wr_byte[OF m2, of k] a len n mpf_fields(1) by auto
  moreover have "write_mptable tp2 cpuid mem n = Inr m2" by (simp add: write_mptable_def t(1) m1 m2)
  ultimately show ?thesis by blast
qed

text \<open>
  C19. A guest that scans for MP tables finds exactly this machine: for every CPU count and
  every RAM that reaches past the table, \<open>write_mptable\<close> succeeds, both structures carry
  the right signature and sum to zero, the length and entry count fields are those of the
  table, and decoding it by the entry lengths of the MP specification yields one enabled
  processor per CPU with only CPU 0 marked as boot processor, the ISA bus, the I/O APIC
  under an id no CPU has, the sixteen ISA routes and the two local interrupts. The write
  stays inside the BIOS area below 1 MiB and changes no other byte.
\<close>

theorem mptable_scan:
  assumes "0xF0010 + 204 + 20 * unat n \<le> unat (gm_size mem)"
  shows "\<exists>m'. write_mptable tp2 cpuid mem n = Inr m' \<and>
     mp_scan m' = Some (mp_entries tp2 cpuid n) \<and>
     (\<forall>v f s ft. Processor n v f s ft \<notin> set (mp_entries tp2 cpuid n)) \<and>
     (\<forall>k. k < 0xF0000 \<or> 0x100000 \<le> k \<longrightarrow> gm_bytes m' k = gm_bytes mem k)"
  by (rule write_mptable_scan[OF assms])

theorem mptable_scan_witness:
  "\<exists>m'. write_mptable False (0x306c3, 0x78bfbff) \<lparr>gm_ptr = 1, gm_size = 0x1000000, gm_bytes = (\<lambda>_. 0)\<rparr> 2 = Inr m' \<and>
     mp_scan m' = Some (mp_entries False (0x306c3, 0x78bfbff) 2) \<and> gm_bytes m' 0x20000 = 0"
  using mptable_scan[of 2 "\<lparr>gm_ptr = 1, gm_size = 0x1000000, gm_bytes = (\<lambda>_. 0)\<rparr>" False "(0x306c3, 0x78bfbff)"]
  by auto

end
