(* ===== verification/Exits.thy ===== *)
theory Exits
  imports Machine
begin

text \<open>
  What happens when a vCPU leaves guest mode: the exit handlers of the two hosts
  (\<open>src/kvm/exithandler.rs\<close>, \<open>src/bhyve/exithandler.rs\<close>, with the exit structures of
  \<open>src/kvm/api.rs\<close> and \<open>src/bhyve/api.rs\<close>) and the statistics they keep
  (\<open>src/stats.rs\<close>). A handler decodes the exit, performs the bus accesses and puts the
  result where the kernel expects it. Diagnostics printed on the way have no state and are
  left out.

  The variants of an exit union are separate fields of the model's records; each handler
  reads the variant its exit reason selects. \<open>clock i\<close> is the time of the \<open>i\<close>th access
  of an exit. The shared page that holds the data of a port access is a list of bytes; an
  access outside it, which the kernel never asks for, is \<open>None\<close>.
\<close>

section \<open>Statistics\<close>

record exit_stats =
  io_exits :: u64
  mmio_exits :: u64
  hlt_exits :: u64
  shutdown_exits :: u64
  other_exits :: u64

definition stats_new :: exit_stats where
  "stats_new = \<lparr>io_exits = 0, mmio_exits = 0, hlt_exits = 0, shutdown_exits = 0, other_exits = 0\<rparr>"

definition stats_total :: "bool \<Rightarrow> exit_stats \<Rightarrow> u64 option" where
  "stats_total oc s = do {
     t \<leftarrow> rs_add oc (io_exits s) (mmio_exits s);
     t \<leftarrow> rs_add oc t (hlt_exits s);
     t \<leftarrow> rs_add oc t (shutdown_exits s);
     rs_add oc t (other_exits s)
   }"

definition stats_add_assign :: "bool \<Rightarrow> exit_stats \<Rightarrow> exit_stats \<Rightarrow> exit_stats option" where
  "stats_add_assign oc s t = do {
     i \<leftarrow> rs_add oc (io_exits s) (io_exits t);
     m \<leftarrow> rs_add oc (mmio_exits s) (mmio_exits t);
     h \<leftarrow> rs_add oc (hlt_exits s) (hlt_exits t);
     d \<leftarrow> rs_add oc (shutdown_exits s) (shutdown_exits t);
     n \<leftarrow> rs_add oc (other_exits s) (other_exits t);
     Some \<lparr>io_exits = i, mmio_exits = m, hlt_exits = h, shutdown_exits = d, other_exits = n\<rparr>
   }"

text \<open>The increments \<open>stats.x += 1\<close>.\<close>

definition count_io :: "bool \<Rightarrow> exit_stats \<Rightarrow> exit_stats option" where
  "count_io oc s = map_option (\<lambda>n. s\<lparr>io_exits := n\<rparr>) (rs_add oc (io_exits s) 1)"

definition count_mmio :: "bool \<Rightarrow> exit_stats \<Rightarrow> exit_stats option" where
  "count_mmio oc s = map_option (\<lambda>n. s\<lparr>mmio_exits := n\<rparr>) (rs_add oc (mmio_exits s) 1)"

definition count_shutdown :: "bool \<Rightarrow> exit_stats \<Rightarrow> exit_stats option" where
  "count_shutdown oc s = map_option (\<lambda>n. s\<lparr>shutdown_exits := n\<rparr>) (rs_add oc (shutdown_exits s) 1)"

definition count_other :: "bool \<Rightarrow> exit_stats \<Rightarrow> exit_stats option" where
  "count_other oc s = map_option (\<lambda>n. s\<lparr>other_exits := n\<rparr>) (rs_add oc (other_exits s) 1)"

definition handle_hlt_exit :: "bool \<Rightarrow> exit_stats \<Rightarrow> exit_stats option" where
  "handle_hlt_exit oc s = map_option (\<lambda>n. s\<lparr>hlt_exits := n\<rparr>) (rs_add oc (hlt_exits s) 1)"

section \<open>KVM\<close>

datatype vm_exit_reason =
    ExitUnknown | ExitException | ExitIo | ExitHypercall | ExitDebug | ExitHlt
  | ExitMmIo | ExitIrqWindowOpen | ExitShutdown | ExitFailEntry | ExitIntr | ExitSetTpr
  | ExitTprAccess | ExitS390Sieic | ExitS390Reset | ExitDcr | ExitNmi | ExitInternalError
  | ExitOsi | ExitPaprHcall | ExitS390Ucontrol | ExitWatchdog | ExitS390Tsch | ExitEpr
  | ExitSystemEvent | ExitS390Stsi | ExitIoapicEoi | ExitHyperv | ExitArmNisv | ExitX86Rdmsr
  | ExitX86Wrmsr | ExitDirtyRingFull | ExitApResetHold | ExitX86BusLock | ExitXen | ExitRiscvSbi
  | ExitRiscvCsr | ExitNotify | ExitLoongarchIocsr | ExitMemoryFault | ExitTdx | ExitArmSea

primrec exit_code :: "vm_exit_reason \<Rightarrow> u32" where
  "exit_code ExitUnknown = 0"
| "exit_code ExitException = 1"
| "exit_code ExitIo = 2"
| "exit_code ExitHypercall = 3"
| "exit_code ExitDebug = 4"
| "exit_code ExitHlt = 5"
| "exit_code ExitMmIo = 6"
| "exit_code ExitIrqWindowOpen = 7"
| "exit_code ExitShutdown = 8"
| "exit_code ExitFailEntry = 9"
| "exit_code ExitIntr = 10"
| "exit_code ExitSetTpr = 11"
| "exit_code ExitTprAccess = 12"
| "exit_code ExitS390Sieic = 13"
| "exit_code ExitS390Reset = 14"
| "exit_code ExitDcr = 15"
| "exit_code ExitNmi = 16"
| "exit_code ExitInternalError = 17"
| "exit_code ExitOsi = 18"
| "exit_code ExitPaprHcall = 19"
| "exit_code ExitS390Ucontrol = 20"
| "exit_code ExitWatchdog = 21"
| "exit_code ExitS390Tsch = 22"
| "exit_code ExitEpr = 23"
| "exit_code ExitSystemEvent = 24"
| "exit_code ExitS390Stsi = 25"
| "exit_code ExitIoapicEoi = 26"
| "exit_code ExitHyperv = 27"
| "exit_code ExitArmNisv = 28"
| "exit_code ExitX86Rdmsr = 29"
| "exit_code ExitX86Wrmsr = 30"
| "exit_code ExitDirtyRingFull = 31"
| "exit_code ExitApResetHold = 32"
| "exit_code ExitX86BusLock = 33"
| "exit_code ExitXen = 34"
| "exit_code ExitRiscvSbi = 35"
| "exit_code ExitRiscvCsr = 36"
| "exit_code ExitNotify = 37"
| "exit_code ExitLoongarchIocsr = 38"
| "exit_code ExitMemoryFault = 39"
| "exit_code ExitTdx = 40"
| "exit_code ExitArmSea = 41"

definition exit_reason_try_from :: "u32 \<Rightarrow> u32 + vm_exit_reason" where
  "exit_reason_try_from val =
     (if val = 0 then Inr ExitUnknown
      else if val = 1 then Inr ExitException
      else if val = 2 then Inr ExitIo
      else if val = 3 then Inr ExitHypercall
      else if val = 4 then Inr ExitDebug
      else if val = 5 then Inr ExitHlt
      else if val = 6 then Inr ExitMmIo
      else if val = 7 then Inr ExitIrqWindowOpen
      else if val = 8 then Inr ExitShutdown
      else if val = 9 then Inr ExitFailEntry
      else if val = 10 then Inr ExitIntr
      else if val = 11 then Inr ExitSetTpr
      else if val = 12 then Inr ExitTprAccess
      else if val = 13 then Inr ExitS390Sieic
      else if val = 14 then Inr ExitS390Reset
      else if val = 15 then Inr ExitDcr
      else if val = 16 then Inr ExitNmi
      else if val = 17 then Inr ExitInternalError
      else if val = 18 then Inr ExitOsi
      else if val = 19 then Inr ExitPaprHcall
      else if val = 20 then Inr ExitS390Ucontrol
      else if val = 21 then Inr ExitWatchdog
      else if val = 22 then Inr ExitS390Tsch
      else if val = 23 then Inr ExitEpr
      else if val = 24 then Inr ExitSystemEvent
      else if val = 25 then Inr ExitS390Stsi
      else if val = 26 then Inr ExitIoapicEoi
      else if val = 27 then Inr ExitHyperv
      else if val = 28 then Inr ExitArmNisv
      else if val = 29 then Inr ExitX86Rdmsr
      else if val = 30 then Inr ExitX86Wrmsr
      else if val = 31 then Inr ExitDirtyRingFull
      else if val = 32 then Inr ExitApResetHold
      else if val = 33 then Inr ExitX86BusLock
      else if val = 34 then Inr ExitXen
      else if val = 35 then Inr ExitRiscvSbi
      else if val = 36 then Inr ExitRiscvCsr
      else if val = 37 then Inr ExitNotify
      else if val = 38 then Inr ExitLoongarchIocsr
      else if val = 39 then Inr ExitMemoryFault
      else if val = 40 then Inr ExitTdx
      else if val = 41 then Inr ExitArmSea
      else Inl val)"

definition KVM_EXIT_IO_IN :: u8 where "KVM_EXIT_IO_IN = 0"
definition KVM_EXIT_IO_OUT :: u8 where "KVM_EXIT_IO_OUT = 1"

record kvm_exit_io =
  io_direction :: u8
  io_size :: u8
  io_port :: u16
  io_count :: u32
  io_data_offset :: u64

record kvm_exit_mmio =
  mmio_phys_addr :: u64
  mmio_data :: bytes
  mmio_len :: u32
  mmio_is_write :: u8

record kvm_run =
  run_exit_reason :: u32
  run_io :: kvm_exit_io
  run_mmio :: kvm_exit_mmio
  run_page :: bytes

definition io_exit :: "kvm_run \<Rightarrow> kvm_exit_io option" where
  "io_exit run = (if run_exit_reason run \<noteq> exit_code ExitIo then None else Some (run_io run))"

text \<open>The loop over the \<open>count\<close> elements of a (possibly repeated) port access.\<close>

fun kvm_io_loop ::
  "bool \<Rightarrow> (nat \<Rightarrow> nat) \<Rightarrow> bus_handle bus \<Rightarrow> kvm_exit_io \<Rightarrow> nat list \<Rightarrow> machine \<Rightarrow> bytes \<Rightarrow> (machine \<times> bytes) option" where
  "kvm_io_loop oc clock pio io [] m page = Some (m, page)"
| "kvm_io_loop oc clock pio io (i # is) m page =
     (let size = unat (io_size io);
          port = ucast (io_port io);
          at = unat (io_data_offset io) + i * size in
      if length page < at + size then None
      else if io_direction io = KVM_EXIT_IO_IN then do {
        (m', data, _) \<leftarrow> bus_read (dev_read oc (clock i)) pio m port (subslice at (at + size) page);
        kvm_io_loop oc clock pio io is m' (patch_at at data page)
      }
      else if io_direction io = KVM_EXIT_IO_OUT then do {
        (m', _) \<leftarrow> bus_write (dev_write oc) pio m port (subslice at (at + size) page);
        kvm_io_loop oc clock pio io is m' page
      }
      else kvm_io_loop oc clock pio io is m page)"

definition kvm_handle_io_exit ::
  "bool \<Rightarrow> (nat \<Rightarrow> nat) \<Rightarrow> bus_handle bus \<Rightarrow> kvm_run \<Rightarrow> exit_stats \<Rightarrow> machine \<Rightarrow>
   ((unit + unit) \<times> exit_stats \<times> machine \<times> kvm_run) option" where
  "kvm_handle_io_exit oc clock pio run stats m =
     (case io_exit run of
        None \<Rightarrow> Some (Inl (), stats, m, run)
      | Some io \<Rightarrow> do {
          stats \<leftarrow> count_io oc stats;
          (m', page) \<leftarrow> kvm_io_loop oc clock pio io [0..<unat (io_count io)] m (run_page run);
          Some (Inr (), stats, m', run\<lparr>run_page := page\<rparr>)
        })"

definition kvm_handle_mmio_exit ::
  "bool \<Rightarrow> (nat \<Rightarrow> nat) \<Rightarrow> bus_handle bus \<Rightarrow> kvm_run \<Rightarrow> exit_stats \<Rightarrow> machine \<Rightarrow>
   (exit_stats \<times> machine \<times> kvm_run) option" where
  "kvm_handle_mmio_exit oc clock mmio_bus run stats m = do {
     stats \<leftarrow> count_mmio oc stats;
     let mmio = run_mmio run;
     let addr = mmio_phys_addr mmio;
     let len = min (unat (mmio_len mmio)) 8;
     let data = take len (mmio_data mmio);
     (if mmio_is_write mmio \<noteq> 0 then do {
        (m', _) \<leftarrow> bus_write (dev_write oc) mmio_bus m addr data;
        Some (stats, m', run)
      }
      else do {
        (m', data', _) \<leftarrow> bus_read (dev_read oc (clock 0)) mmio_bus m addr data;
        Some (stats, m', run\<lparr>run_mmio := mmio\<lparr>mmio_data := patch_at 0 data' (mmio_data mmio)\<rparr>\<rparr>)
      })
   }"

definition kvm_handle_exit ::
  "bool \<Rightarrow> (nat \<Rightarrow> nat) \<Rightarrow> bus_handle bus \<Rightarrow> bus_handle bus \<Rightarrow> kvm_run \<Rightarrow> exit_stats \<Rightarrow> machine \<Rightarrow>
   ((unit + bool) \<times> exit_stats \<times> machine \<times> kvm_run) option" where
  "kvm_handle_exit oc clock pio mmio run stats m =
     (case exit_reason_try_from (run_exit_reason run) of
        Inl code \<Rightarrow> map_option (\<lambda>s. (Inr True, s, m, run)) (count_other oc stats)
      | Inr reason \<Rightarrow>
          (case reason of
             ExitIo \<Rightarrow> map_option (\<lambda>(r, s, m', run'). (map_sum id (\<lambda>_. True) r, s, m', run'))
                 (kvm_handle_io_exit oc clock pio run stats m)
           | ExitMmIo \<Rightarrow> map_option (\<lambda>(s, m', run'). (Inr True, s, m', run'))
                 (kvm_handle_mmio_exit oc clock mmio run stats m)
           | ExitHlt \<Rightarrow> map_option (\<lambda>s. (Inr True, s, m, run)) (handle_hlt_exit oc stats)
           | ExitShutdown \<Rightarrow> map_option (\<lambda>s. (Inr False, s, m, run)) (count_shutdown oc stats)
           | ExitFailEntry \<Rightarrow> map_option (\<lambda>s. (Inr False, s, m, run)) (count_other oc stats)
           | ExitInternalError \<Rightarrow> map_option (\<lambda>s. (Inr False, s, m, run)) (count_other oc stats)
           | _ \<Rightarrow> map_option (\<lambda>s. (Inr True, s, m, run)) (count_other oc stats)))"

section \<open>bhyve\<close>

datatype vm_exit_code =
    CodeInout | CodeVmx | CodeBogus | CodeRdmsr | CodeWrmsr | CodeHlt | CodeMtrap
  | CodePause | CodePaging | CodeInstEmul | CodeRunState | CodeMmioEmul | CodeDeprecated | CodeIoapicEoi
  | CodeSuspended | CodeMmio | CodeTaskSwitch | CodeMonitor | CodeMwait | CodeSvm | CodeDeprecated2
  | CodeDebug | CodeVminsn | CodeBpt | CodeHt | CodeMax

record vm_inout =
  inout_eax :: u32
  inout_port :: u16
  inout_bytes :: u8
  inout_flags :: u8
  inout_addrsize :: u8
  inout_segment :: u8

record vm_mmio =
  vmm_bytes :: u8
  vmm_read :: u8
  vmm_gpa :: u64
  vmm_data :: u64

record vm_exit =
  vm_exitcode :: vm_exit_code
  vm_inout_u :: vm_inout
  vm_mmio_u :: vm_mmio

text \<open>The union handed back on the next entry: zeroed, or one of its variants.\<close>

datatype vm_entry_union = EntryZeroed | EntryInout vm_inout | EntryMmio vm_mmio

definition INOUT_IN :: u8 where "INOUT_IN = 1"
definition VEC_DEFAULT :: u32 where "VEC_DEFAULT = 0"
definition VEC_FULFILL_MMIO :: u32 where "VEC_FULFILL_MMIO = 2"
definition VEC_FULFILL_INOUT :: u32 where "VEC_FULFILL_INOUT = 3"

text \<open>\<open>data[..size]\<close> panics when the kernel reports more bytes than the register holds.\<close>

definition bhyve_handle_io_exit ::
  "bool \<Rightarrow> (nat \<Rightarrow> nat) \<Rightarrow> bus_handle bus \<Rightarrow> vm_inout \<Rightarrow> exit_stats \<Rightarrow> machine \<Rightarrow>
   (vm_inout \<times> exit_stats \<times> machine) option" where
  "bhyve_handle_io_exit oc clock pio inout stats m = do {
     stats \<leftarrow> count_io oc stats;
     let port = ucast (inout_port inout);
     let size = unat (inout_bytes inout);
     let data = u32_to_le (inout_eax inout);
     (if 4 < size then None
      else if inout_flags inout AND INOUT_IN \<noteq> 0 then do {
        (m', slice, _) \<leftarrow> bus_read (dev_read oc (clock 0)) pio m port (take size data);
        Some (inout\<lparr>inout_eax := from_le (patch_at 0 slice data)\<rparr>, stats, m')
      }
      else do {
        (m', _) \<leftarrow> bus_write (dev_write oc) pio m port (take size data);
        Some (inout, stats, m')
      })
   }"

definition bhyve_handle_mmio_exit ::
  "bool \<Rightarrow> (nat \<Rightarrow> nat) \<Rightarrow> bus_handle bus \<Rightarrow> vm_mmio \<Rightarrow> exit_stats \<Rightarrow> machine \<Rightarrow>
   (vm_mmio \<times> exit_stats \<times> machine) option" where
  "bhyve_handle_mmio_exit oc clock mmio_bus mmio stats m = do {
     stats \<leftarrow> count_mmio oc stats;
     let addr = vmm_gpa mmio;
     let len = unat (vmm_bytes mmio);
     let data = u64_to_le (vmm_data mmio);
     (if 8 < len then None
      else if vmm_read mmio \<noteq> 0 then do {
        (m', slice, _) \<leftarrow> bus_read (dev_read oc (clock 0)) mmio_bus m addr (take len data);
        Some (mmio\<lparr>vmm_data := from_le (patch_at 0 slice data)\<rparr>, stats, m')
      }
      else do {
        (m', _) \<leftarrow> bus_write (dev_write oc) mmio_bus m addr (take len data);
        Some (mmio, stats, m')
      })
   }"

definition bhyve_handle_exit ::
  "bool \<Rightarrow> (nat \<Rightarrow> nat) \<Rightarrow> bus_handle bus \<Rightarrow> bus_handle bus \<Rightarrow> vm_exit \<Rightarrow> exit_stats \<Rightarrow> machine \<Rightarrow>
   ((bool \<times> u32 \<times> vm_entry_union) \<times> exit_stats \<times> machine) option" where
  "bhyve_handle_exit oc clock pio mmio vm_exit stats m =
     (case vm_exitcode vm_exit of
        CodeInout \<Rightarrow>
          map_option (\<lambda>(inout, s, m'). ((True, VEC_FULFILL_INOUT, EntryInout inout), s, m'))
            (bhyve_handle_io_exit oc clock pio (vm_inout_u vm_exit) stats m)
      | CodeMmio \<Rightarrow>
          map_option (\<lambda>(u, s, m'). ((True, VEC_FULFILL_MMIO, EntryMmio u), s, m'))
            (bhyve_handle_mmio_exit oc clock mmio (vm_mmio_u vm_exit) stats m)
      | CodeHlt \<Rightarrow> map_option (\<lambda>s. ((True, VEC_DEFAULT, EntryZeroed), s, m)) (handle_hlt_exit oc stats)
      | CodeSuspended \<Rightarrow> map_option (\<lambda>s. ((False, VEC_DEFAULT, EntryZeroed), s, m)) (count_shutdown oc stats)
      | CodeVmx \<Rightarrow> map_option (\<lambda>s. ((True, VEC_DEFAULT, EntryZeroed), s, m)) (count_other oc stats)
      | CodeRdmsr \<Rightarrow> Some ((True, VEC_DEFAULT, EntryZeroed), stats, m)
      | CodeWrmsr \<Rightarrow> Some ((True, VEC_DEFAULT, EntryZeroed), stats, m)
      | CodeBogus \<Rightarrow> map_option (\<lambda>s. ((True, VEC_DEFAULT, EntryZeroed), s, m)) (count_other oc stats)
      | _ \<Rightarrow> map_option (\<lambda>s. ((True, VEC_DEFAULT, EntryZeroed), s, m)) (count_other oc stats))"

section \<open>Lemmas\<close>

lemma exit_reason_try_from_code: "exit_reason_try_from (exit_code r) = Inr r"
  by (cases r) (simp_all add: exit_reason_try_from_def)

lemma exit_code_of: "exit_reason_try_from v = Inr r \<Longrightarrow> exit_code r = v"
  by (auto simp: exit_reason_try_from_def split: if_split_asm)

lemma exit_code_of_Inl: "exit_reason_try_from v = Inl e \<Longrightarrow> exit_code r \<noteq> v"
  using exit_reason_try_from_code[of r] by auto

text \<open>In a release build every count goes up by one, modulo \<open>2^64\<close>.\<close>

lemma stats_total_release:
  "stats_total False s = Some (io_exits s + mmio_exits s + hlt_exits s + shutdown_exits s + other_exits s)"
  by (simp add: stats_total_def)

lemma stats_total_bump [simp]:
  "stats_total False (s\<lparr>io_exits := io_exits s + 1\<rparr>) = map_option ((+) 1) (stats_total False s)"
  "stats_total False (s\<lparr>mmio_exits := mmio_exits s + 1\<rparr>) = map_option ((+) 1) (stats_total False s)"
  "stats_total False (s\<lparr>hlt_exits := hlt_exits s + 1\<rparr>) = map_option ((+) 1) (stats_total False s)"
  "stats_total False (s\<lparr>shutdown_exits := shutdown_exits s + 1\<rparr>) = map_option ((+) 1) (stats_total False s)"
  "stats_total False (s\<lparr>other_exits := other_exits s + 1\<rparr>) = map_option ((+) 1) (stats_total False s)"
  by (simp_all add: stats_total_release ac_simps)

lemmas stats_defs = count_io_def count_mmio_def count_shutdown_def count_other_def handle_hlt_exit_def

text \<open>One access on a served bus, in a release build.\<close>

lemma served_read:
  assumes "served b" and "machine_inv m" and "length d \<le> 8"
  obtains m' d' c where "bus_read (dev_read oc t) b m a d = Some (m', d', c)"
    and "length d' = length d" and "machine_inv m'"
proof -
  obtain m' d' c where r: "bus_read (dev_read oc t) b m a d = Some (m', d', c)"
    using bus.bus_read_returns[of b d m oc t a] assms by (auto simp: served_def)
  show ?thesis
    using that[OF r] bus.bus_read_length[OF assms(2) r] bus.bus_read_inv[OF assms(2) r] by simp
qed

lemma served_write:
  assumes "served b" and "machine_inv m" and "length d \<le> 8"
  obtains m' c where "bus_write (dev_write False) b m a d = Some (m', c)" and "machine_inv m'"
proof -
  obtain m' c where w: "bus_write (dev_write False) b m a d = Some (m', c)"
    using bus_write_returns[OF assms(1,2), of d a] assms(3) by auto
  have "machine_inv m'" using bus.bus_write_inv[OF _ _ _ assms(2) w] assms by (simp add: served_def)
  then show ?thesis using that[OF w] by simp
qed

section \<open>What an exit asks for\<close>

text \<open>
  The specification of the exits. \<open>machine_replies\<close> runs a list of accesses on the machine
  and collects the bytes every read of the list returned; \<open>kvm_accesses\<close> and
  \<open>bhyve_accesses\<close> are the accesses an exit asks for, with direction, address and data;
  \<open>kvm_reply\<close> and \<open>bhyve_reply\<close> put the collected bytes where the host expects them, and
  \<open>kvm_counted\<close> and \<open>bhyve_counted\<close> name the one counter that moves.
\<close>

fun machine_replies ::
  "bool \<Rightarrow> bus_handle bus \<Rightarrow> bus_handle bus \<Rightarrow> machine \<Rightarrow> machine_event list \<Rightarrow> (machine \<times> bytes list) option" where
  "machine_replies oc pio mmio m [] = Some (m, [])"
| "machine_replies oc pio mmio m (PioIn now addr data # es) = do {
     (m', reply, _) \<leftarrow> bus_read (dev_read oc now) pio m addr data;
     map_option (\<lambda>(m'', rs). (m'', reply # rs)) (machine_replies oc pio mmio m' es)
   }"
| "machine_replies oc pio mmio m (MmioIn now addr data # es) = do {
     (m', reply, _) \<leftarrow> bus_read (dev_read oc now) mmio m addr data;
     map_option (\<lambda>(m'', rs). (m'', reply # rs)) (machine_replies oc pio mmio m' es)
   }"
| "machine_replies oc pio mmio m (e # es) = do {
     m' \<leftarrow> machine_step oc pio mmio m e;
     machine_replies oc pio mmio m' es
   }"

fun reply_sizes :: "machine_event list \<Rightarrow> nat list" where
  "reply_sizes [] = []"
| "reply_sizes (PioIn now addr data # es) = length data # reply_sizes es"
| "reply_sizes (MmioIn now addr data # es) = length data # reply_sizes es"
| "reply_sizes (e # es) = reply_sizes es"

text \<open>What KVM promises of the exits that carry data.\<close>

definition kvm_run_ok :: "kvm_run \<Rightarrow> bool" where
  "kvm_run_ok run \<longleftrightarrow>
     (run_exit_reason run = 2 \<longrightarrow> unat (io_size (run_io run)) \<le> 8 \<and>
        unat (io_data_offset (run_io run)) + unat (io_count (run_io run)) * unat (io_size (run_io run))
          \<le> length (run_page run)) \<and>
     (run_exit_reason run = 6 \<longrightarrow> length (mmio_data (run_mmio run)) = 8)"

text \<open>Element \<open>i\<close> of a repeated port access, and the accesses of its elements.\<close>

definition io_chunk :: "kvm_exit_io \<Rightarrow> bytes \<Rightarrow> nat \<Rightarrow> bytes" where
  "io_chunk io page i = take (unat (io_size io)) (drop (unat (io_data_offset io) + i * unat (io_size io)) page)"

definition port_accesses :: "(nat \<Rightarrow> nat) \<Rightarrow> kvm_exit_io \<Rightarrow> bytes \<Rightarrow> nat list \<Rightarrow> machine_event list" where
  "port_accesses clock io page is =
     (if io_direction io = 0 then map (\<lambda>i. PioIn (clock i) (ucast (io_port io)) (io_chunk io page i)) is
      else if io_direction io = 1 then map (\<lambda>i. PioOut (ucast (io_port io)) (io_chunk io page i)) is
      else [])"

definition kvm_accesses :: "(nat \<Rightarrow> nat) \<Rightarrow> kvm_run \<Rightarrow> machine_event list" where
  "kvm_accesses clock run =
     (if run_exit_reason run = 2 then
        port_accesses clock (run_io run) (run_page run) [0..<unat (io_count (run_io run))]
      else if run_exit_reason run = 6 then
        (let mm = run_mmio run; data = take (min (unat (mmio_len mm)) 8) (mmio_data mm) in
         [if mmio_is_write mm \<noteq> 0 then MmioOut (mmio_phys_addr mm) data else MmioIn (clock 0) (mmio_phys_addr mm) data])
      else [])"

definition kvm_reply :: "kvm_run \<Rightarrow> bytes list \<Rightarrow> kvm_run" where
  "kvm_reply run rs =
     (if run_exit_reason run = 2 \<and> io_direction (run_io run) = 0 then
        (let io = run_io run; at = unat (io_data_offset io) in
         run\<lparr>run_page := take at (run_page run) @ concat rs @
               drop (at + unat (io_count io) * unat (io_size io)) (run_page run)\<rparr>)
      else if run_exit_reason run = 6 \<and> mmio_is_write (run_mmio run) = 0 then
        (let mm = run_mmio run in
         run\<lparr>run_mmio := mm\<lparr>mmio_data := concat rs @ drop (min (unat (mmio_len mm)) 8) (mmio_data mm)\<rparr>\<rparr>)
      else run)"

definition kvm_counted :: "kvm_run \<Rightarrow> exit_stats \<Rightarrow> exit_stats" where
  "kvm_counted run s =
     (if run_exit_reason run = 2 then s\<lparr>io_exits := io_exits s + 1\<rparr>
      else if run_exit_reason run = 5 then s\<lparr>hlt_exits := hlt_exits s + 1\<rparr>
      else if run_exit_reason run = 6 then s\<lparr>mmio_exits := mmio_exits s + 1\<rparr>
      else if run_exit_reason run = 8 then s\<lparr>shutdown_exits := shutdown_exits s + 1\<rparr>
      else s\<lparr>other_exits := other_exits s + 1\<rparr>)"

text \<open>What bhyve promises of the exits that carry data.\<close>

definition vm_exit_ok :: "vm_exit \<Rightarrow> bool" where
  "vm_exit_ok x \<longleftrightarrow>
     (vm_exitcode x = CodeInout \<longrightarrow> unat (inout_bytes (vm_inout_u x)) \<le> 4) \<and>
     (vm_exitcode x = CodeMmio \<longrightarrow> unat (vmm_bytes (vm_mmio_u x)) \<le> 8)"

definition bhyve_accesses :: "(nat \<Rightarrow> nat) \<Rightarrow> vm_exit \<Rightarrow> machine_event list" where
  "bhyve_accesses clock x =
     (case vm_exitcode x of
        CodeInout \<Rightarrow>
          (let io = vm_inout_u x; port = ucast (inout_port io); data = take (unat (inout_bytes io)) (u32_to_le (inout_eax io)) in
           [if bit (inout_flags io) 0 then PioIn (clock 0) port data else PioOut port data])
      | CodeMmio \<Rightarrow>
          (let mm = vm_mmio_u x; data = take (unat (vmm_bytes mm)) (u64_to_le (vmm_data mm)) in
           [if vmm_read mm \<noteq> 0 then MmioIn (clock 0) (vmm_gpa mm) data else MmioOut (vmm_gpa mm) data])
      | _ \<Rightarrow> [])"

definition bhyve_reply :: "vm_exit \<Rightarrow> bytes list \<Rightarrow> u32 \<times> vm_entry_union" where
  "bhyve_reply x rs =
     (case vm_exitcode x of
        CodeInout \<Rightarrow>
          (let io = vm_inout_u x in
           (3, EntryInout (io\<lparr>inout_eax := from_le (concat rs @ drop (length (concat rs)) (u32_to_le (inout_eax io)))\<rparr>)))
      | CodeMmio \<Rightarrow>
          (let mm = vm_mmio_u x in
           (2, EntryMmio (mm\<lparr>vmm_data := from_le (concat rs @ drop (length (concat rs)) (u64_to_le (vmm_data mm)))\<rparr>)))
      | _ \<Rightarrow> (0, EntryZeroed))"

definition bhyve_counted :: "vm_exit \<Rightarrow> exit_stats \<Rightarrow> exit_stats" where
  "bhyve_counted x s =
     (case vm_exitcode x of
        CodeInout \<Rightarrow> s\<lparr>io_exits := io_exits s + 1\<rparr>
      | CodeMmio \<Rightarrow> s\<lparr>mmio_exits := mmio_exits s + 1\<rparr>
      | CodeHlt \<Rightarrow> s\<lparr>hlt_exits := hlt_exits s + 1\<rparr>
      | CodeSuspended \<Rightarrow> s\<lparr>shutdown_exits := shutdown_exits s + 1\<rparr>
      | CodeRdmsr \<Rightarrow> s
      | CodeWrmsr \<Rightarrow> s
      | _ \<Rightarrow> s\<lparr>other_exits := other_exits s + 1\<rparr>)"

section \<open>The handlers do what the exit asks for\<close>

lemma machine_replies_run:
  assumes "machine_replies oc pio mmio m es = Some (m', rs)"
  shows "machine_run oc pio mmio m es = Some m'"
  using assms by (induction es arbitrary: m rs rule: reply_sizes.induct) (auto simp: bind_eq_Some_conv)

lemma machine_replies_returns:
  assumes s: "served pio" "served mmio"
  shows "machine_inv m \<Longrightarrow> list_all event_ok es \<Longrightarrow>
     \<exists>m' rs. machine_replies False pio mmio m es = Some (m', rs) \<and> machine_inv m' \<and> map length rs = reply_sizes es"
proof (induction es arbitrary: m)
  case (Cons e es)
  have ok: "event_ok e" "list_all event_ok es" using Cons.prems(2) by simp_all
  obtain m1 where m1: "machine_step False pio mmio m e = Some m1"
    using machine_step_returns[OF s Cons.prems(1) ok(1)] by blast
  obtain m' rs where ih: "machine_replies False pio mmio m1 es = Some (m', rs)" "machine_inv m'" "map length rs = reply_sizes es"
    using Cons.IH[OF machine_step_inv[OF s Cons.prems(1) ok(1) m1] ok(2)] by blast
  have "length d' = length d" if "bus_read (dev_read False t) b m a d = Some (m2, d', c)" for b t a d m2 d' c
    using bus.bus_read_length[OF Cons.prems(1) that] .
  then show ?case using m1 ih by (cases e) fastforce+
qed simp

lemma io_chunk_in_page:
  assumes "off + c * sz \<le> (n :: nat)" and "i < c"
  shows "off + i * sz + sz \<le> n"
proof -
  have "Suc i * sz \<le> c * sz" using assms(2) by (intro mult_right_mono) simp_all
  then show ?thesis using assms(1) by simp
qed

lemma io_chunk_patch:
  assumes "length d = unat (io_size io)" and "i < j"
    and "unat (io_data_offset io) + i * unat (io_size io) + unat (io_size io) \<le> length page"
  shows "io_chunk io (patch_at (unat (io_data_offset io) + i * unat (io_size io)) d page) j = io_chunk io page j"
proof -
  have "Suc i * unat (io_size io) \<le> j * unat (io_size io)" using assms(2) by (intro mult_right_mono) simp_all
  then show ?thesis using assms by (simp add: io_chunk_def patch_at_def add.commute)
qed

text \<open>The loop over elements \<open>i\<close> to \<open>n\<close> performs their accesses and fills the page with the replies.\<close>

lemma kvm_io_loop_runs:
  assumes s: "served pio" and sz: "unat (io_size io) \<le> 8"
  shows "machine_inv m \<Longrightarrow> i \<le> n \<Longrightarrow> unat (io_data_offset io) + n * unat (io_size io) \<le> length page \<Longrightarrow>
     \<exists>m' rs. machine_replies False pio mmio m (port_accesses clock io page [i..<n]) = Some (m', rs) \<and>
       kvm_io_loop False clock pio io [i..<n] m page = Some (m',
         if io_direction io = 0 then take (unat (io_data_offset io) + i * unat (io_size io)) page @ concat rs @
           drop (unat (io_data_offset io) + n * unat (io_size io)) page else page)"
proof (induction "n - i" arbitrary: i m page)
  case 0
  then show ?case by (simp add: port_accesses_def)
next
  case (Suc k)
  let ?sz = "unat (io_size io)"
  let ?at = "unat (io_data_offset io) + i * ?sz"
  have i: "[i..<n] = i # [Suc i..<n]" "k = n - Suc i" "Suc i \<le> n" using Suc.hyps(2) by (simp_all add: upt_rec)
  have at: "?at + ?sz \<le> length page" using io_chunk_in_page[OF Suc.prems(3), of i] i(3) by simp
  have ld: "subslice ?at (?at + ?sz) page = io_chunk io page i" "length (io_chunk io page i) = ?sz"
    using at by (simp_all add: subslice_def io_chunk_def)
  note IH = Suc.hyps(1)[OF i(2) _ i(3)]
  consider "io_direction io = 0" | "io_direction io = 1" | "io_direction io \<notin> {0, 1}" by blast
  then show ?case
  proof cases
    case 1
    obtain m1 d' c where r: "bus_read (dev_read False (clock i)) pio m (ucast (io_port io)) (io_chunk io page i) = Some (m1, d', c)"
      "length d' = ?sz" "machine_inv m1" using served_read[OF s Suc.prems(1), of "io_chunk io page i"] ld(2) sz by metis
    let ?page = "patch_at ?at d' page"
    have p: "length ?page = length page" "take (?at + ?sz) ?page = take ?at page @ d'"
      "drop (unat (io_data_offset io) + n * ?sz) ?page = drop (unat (io_data_offset io) + n * ?sz) page"
      using at r(2) i(3) mult_right_mono[OF i(3), of ?sz] by (simp_all add: patch_at_def add.commute)
    have "port_accesses clock io ?page [Suc i..<n] = port_accesses clock io page [Suc i..<n]"
      using 1 at r(2) by (auto simp: port_accesses_def intro!: io_chunk_patch)
    then obtain m' rs where ih: "machine_replies False pio mmio m1 (port_accesses clock io page [Suc i..<n]) = Some (m', rs)"
      "kvm_io_loop False clock pio io [Suc i..<n] m1 ?page = Some (m', take (?at + ?sz) ?page @ concat rs @
         drop (unat (io_data_offset io) + n * ?sz) ?page)"
      using IH[OF r(3), of ?page] Suc.prems(3) p(1) 1 by (auto simp: ac_simps)
    then show ?thesis
      using 1 at r(1) by (intro exI[of _ m'] exI[of _ "d' # rs"])
        (simp add: i(1) Let_def KVM_EXIT_IO_IN_def port_accesses_def ld(1) p(2,3))
  next
    case 2
    obtain m1 c where r: "bus_write (dev_write False) pio m (ucast (io_port io)) (io_chunk io page i) = Some (m1, c)"
      "machine_inv m1" using served_write[OF s Suc.prems(1), of "io_chunk io page i"] ld(2) sz by metis
    then show ?thesis
      using IH[OF r(2) Suc.prems(3)] 2 at
      by (simp add: i(1) Let_def KVM_EXIT_IO_IN_def KVM_EXIT_IO_OUT_def port_accesses_def ld(1))
  next
    case 3
    then show ?thesis
      using IH[OF Suc.prems(1,3)] at
      by (simp add: i(1) Let_def KVM_EXIT_IO_IN_def KVM_EXIT_IO_OUT_def port_accesses_def)
  qed
qed

lemma port_accesses_ok: "unat (io_size io) \<le> 8 \<Longrightarrow> list_all event_ok (port_accesses clock io page is)"
  by (auto simp: port_accesses_def io_chunk_def list_all_iff)

lemma kvm_accesses_ok: "kvm_run_ok run \<Longrightarrow> list_all event_ok (kvm_accesses clock run)"
  by (auto simp: kvm_accesses_def kvm_run_ok_def Let_def port_accesses_ok)

lemma kvm_io_exit_runs:
  assumes "served pio" "machine_inv m" and ok: "kvm_run_ok run" and r: "run_exit_reason run = 2"
  shows "\<exists>m' rs. machine_replies False pio mmio m (kvm_accesses clock run) = Some (m', rs) \<and>
     kvm_handle_io_exit False clock pio run s m = Some (Inr (), kvm_counted run s, m', kvm_reply run rs)"
proof -
  have b: "unat (io_size (run_io run)) \<le> 8"
    "unat (io_data_offset (run_io run)) + unat (io_count (run_io run)) * unat (io_size (run_io run)) \<le> length (run_page run)"
    using ok r by (simp_all add: kvm_run_ok_def)
  obtain m' rs where "machine_replies False pio mmio m (kvm_accesses clock run) = Some (m', rs)"
    "kvm_io_loop False clock pio (run_io run) [0..<unat (io_count (run_io run))] m (run_page run) =
       Some (m', run_page (kvm_reply run rs))"
    using kvm_io_loop_runs[OF assms(1) b(1) assms(2) _ b(2), of 0 mmio clock] r
    by (auto simp: kvm_accesses_def kvm_reply_def Let_def)
  moreover have "run\<lparr>run_page := run_page (kvm_reply run rs)\<rparr> = kvm_reply run rs" using r by (simp add: kvm_reply_def Let_def)
  ultimately show ?thesis
    using r by (auto simp: kvm_handle_io_exit_def io_exit_def count_io_def kvm_counted_def)
qed

lemma kvm_mmio_exit_runs:
  assumes "served mmio" "machine_inv m" and ok: "kvm_run_ok run" and r: "run_exit_reason run = 6"
  shows "\<exists>m' rs. machine_replies False pio mmio m (kvm_accesses clock run) = Some (m', rs) \<and>
     kvm_handle_mmio_exit False clock mmio run s m = Some (kvm_counted run s, m', kvm_reply run rs)"
proof -
  let ?mm = "run_mmio run"
  let ?d = "take (min (unat (mmio_len ?mm)) 8) (mmio_data ?mm)"
  have l: "length ?d = min (unat (mmio_len ?mm)) 8" using ok r by (simp add: kvm_run_ok_def)
  note defs = kvm_handle_mmio_exit_def count_mmio_def kvm_accesses_def kvm_reply_def kvm_counted_def Let_def r
  show ?thesis
  proof (cases "mmio_is_write ?mm = 0")
    case True
    obtain m' d' c where "bus_read (dev_read False (clock 0)) mmio m (mmio_phys_addr ?mm) ?d = Some (m', d', c)"
      "length d' = length ?d" using served_read[OF assms(1,2), of ?d] l by (metis min.cobounded2)
    then show ?thesis using True l by (simp add: defs patch_at_def)
  next
    case False
    obtain m' c where "bus_write (dev_write False) mmio m (mmio_phys_addr ?mm) ?d = Some (m', c)"
      using served_write[OF assms(1,2), of ?d] l by (metis min.cobounded2)
    then show ?thesis using False by (simp add: defs)
  qed
qed

lemma kvm_other_exit:
  assumes "run_exit_reason run \<noteq> 2" "run_exit_reason run \<noteq> 6"
  shows "kvm_handle_exit False clock pio mmio run s m
       = Some (Inr (run_exit_reason run \<notin> {8, 9, 17}), kvm_counted run s, m, run)"
proof (cases "exit_reason_try_from (run_exit_reason run)")
  case (Inl e)
  have "exit_code ExitShutdown \<noteq> run_exit_reason run" "exit_code ExitFailEntry \<noteq> run_exit_reason run"
    "exit_code ExitInternalError \<noteq> run_exit_reason run" "exit_code ExitHlt \<noteq> run_exit_reason run"
    using exit_code_of_Inl[OF Inl] by blast+
  then show ?thesis using assms Inl by (auto simp: kvm_handle_exit_def stats_defs kvm_counted_def)
next
  case (Inr r)
  then have c: "run_exit_reason run = exit_code r" using exit_code_of by simp
  show ?thesis
    using assms Inr c by (cases r) (simp_all add: kvm_handle_exit_def stats_defs kvm_counted_def)
qed

lemma kvm_counted_total: "stats_total False (kvm_counted run s) = map_option ((+) 1) (stats_total False s)"
  by (simp add: kvm_counted_def)

lemma kvm_exit_runs:
  assumes "served pio" "served mmio" "machine_inv m" "kvm_run_ok run"
  shows "\<exists>m' rs. machine_replies False pio mmio m (kvm_accesses clock run) = Some (m', rs) \<and>
     kvm_handle_exit False clock pio mmio run s m
       = Some (Inr (run_exit_reason run \<notin> {8, 9, 17}), kvm_counted run s, m', kvm_reply run rs) \<and>
     machine_inv m' \<and> map length rs = reply_sizes (kvm_accesses clock run)"
proof -
  obtain m' rs where a: "machine_replies False pio mmio m (kvm_accesses clock run) = Some (m', rs)" "machine_inv m'"
    "map length rs = reply_sizes (kvm_accesses clock run)"
    using machine_replies_returns[OF assms(1-3) kvm_accesses_ok[OF assms(4)]] by blast
  consider "run_exit_reason run = 2" | "run_exit_reason run = 6"
    | "run_exit_reason run \<noteq> 2" "run_exit_reason run \<noteq> 6" by blast
  then have "kvm_handle_exit False clock pio mmio run s m
       = Some (Inr (run_exit_reason run \<notin> {8, 9, 17}), kvm_counted run s, m', kvm_reply run rs)"
  proof cases
    case 1
    then show ?thesis
      using kvm_io_exit_runs[OF assms(1,3,4) 1, of mmio clock s] a(1) by (auto simp: kvm_handle_exit_def exit_reason_try_from_def)
  next
    case 2
    then show ?thesis
      using kvm_mmio_exit_runs[OF assms(2,3,4) 2, of pio clock s] a(1) by (auto simp: kvm_handle_exit_def exit_reason_try_from_def)
  next
    case 3
    then show ?thesis using kvm_other_exit[OF 3, of clock pio mmio s m] a(1) by (simp add: kvm_accesses_def kvm_reply_def)
  qed
  then show ?thesis using a by blast
qed

lemma inout_in_bit: "(f :: u8) AND INOUT_IN = 0 \<longleftrightarrow> \<not> bit f 0"
  by (simp add: INOUT_IN_def and_one_eq odd_iff_mod_2_eq_one bit_0)

lemma bhyve_io_exit_runs:
  assumes "served pio" "machine_inv m" and ok: "vm_exit_ok x" and c: "vm_exitcode x = CodeInout"
  shows "\<exists>io' m' rs. machine_replies False pio mmio m (bhyve_accesses clock x) = Some (m', rs) \<and>
     bhyve_handle_io_exit False clock pio (vm_inout_u x) s m = Some (io', bhyve_counted x s, m') \<and>
     bhyve_reply x rs = (3, EntryInout io')"
proof -
  let ?io = "vm_inout_u x"
  let ?d = "take (unat (inout_bytes ?io)) (u32_to_le (inout_eax ?io))"
  have n: "unat (inout_bytes ?io) \<le> 4" using ok c by (simp add: vm_exit_ok_def)
  then have l: "length ?d = unat (inout_bytes ?io)" "length ?d \<le> 8" by simp_all
  note defs = bhyve_handle_io_exit_def count_io_def bhyve_accesses_def bhyve_reply_def bhyve_counted_def Let_def c inout_in_bit
  show ?thesis
  proof (cases "bit (inout_flags ?io) 0")
    case True
    obtain m' d' c where "bus_read (dev_read False (clock 0)) pio m (ucast (inout_port ?io)) ?d = Some (m', d', c)"
      "length d' = length ?d" using served_read[OF assms(1,2) l(2), of False "clock 0"] by metis
    then show ?thesis using True n by (simp add: defs patch_at_def)
  next
    case False
    obtain m' c where "bus_write (dev_write False) pio m (ucast (inout_port ?io)) ?d = Some (m', c)"
      using served_write[OF assms(1,2) l(2)] by metis
    then show ?thesis using False n by (simp add: defs)
  qed
qed

lemma bhyve_mmio_exit_runs:
  assumes "served mmio" "machine_inv m" and ok: "vm_exit_ok x" and c: "vm_exitcode x = CodeMmio"
  shows "\<exists>mm' m' rs. machine_replies False pio mmio m (bhyve_accesses clock x) = Some (m', rs) \<and>
     bhyve_handle_mmio_exit False clock mmio (vm_mmio_u x) s m = Some (mm', bhyve_counted x s, m') \<and>
     bhyve_reply x rs = (2, EntryMmio mm')"
proof -
  let ?mm = "vm_mmio_u x"
  let ?d = "take (unat (vmm_bytes ?mm)) (u64_to_le (vmm_data ?mm))"
  have n: "unat (vmm_bytes ?mm) \<le> 8" using ok c by (simp add: vm_exit_ok_def)
  then have l: "length ?d = unat (vmm_bytes ?mm)" "length ?d \<le> 8" by simp_all
  note defs = bhyve_handle_mmio_exit_def count_mmio_def bhyve_accesses_def bhyve_reply_def bhyve_counted_def Let_def c
  show ?thesis
  proof (cases "vmm_read ?mm = 0")
    case False
    obtain m' d' c where "bus_read (dev_read False (clock 0)) mmio m (vmm_gpa ?mm) ?d = Some (m', d', c)"
      "length d' = length ?d" using served_read[OF assms(1,2) l(2), of False "clock 0"] by metis
    then show ?thesis using False n by (simp add: defs patch_at_def)
  next
    case True
    obtain m' c where "bus_write (dev_write False) mmio m (vmm_gpa ?mm) ?d = Some (m', c)"
      using served_write[OF assms(1,2) l(2)] by metis
    then show ?thesis using True n by (simp add: defs)
  qed
qed

lemma bhyve_other_exit:
  assumes "vm_exitcode x \<noteq> CodeInout" "vm_exitcode x \<noteq> CodeMmio"
  shows "bhyve_handle_exit False clock pio mmio x s m =
       Some ((vm_exitcode x \<noteq> CodeSuspended, bhyve_reply x []), bhyve_counted x s, m) \<and> bhyve_accesses clock x = []"
  using assms by (cases "vm_exitcode x")
    (simp_all add: bhyve_handle_exit_def bhyve_reply_def bhyve_counted_def bhyve_accesses_def stats_defs VEC_DEFAULT_def)

lemma bhyve_counted_total:
  "stats_total False (bhyve_counted x s) =
     (if vm_exitcode x \<in> {CodeRdmsr, CodeWrmsr} then stats_total False s else map_option ((+) 1) (stats_total False s))"
  by (cases "vm_exitcode x") (simp_all add: bhyve_counted_def)

lemma bhyve_accesses_ok: "vm_exit_ok x \<Longrightarrow> list_all event_ok (bhyve_accesses clock x)"
  by (cases "vm_exitcode x") (auto simp: bhyve_accesses_def vm_exit_ok_def Let_def)

section \<open>Properties\<close>

text \<open>
  C12. Every KVM exit is handled: on the buses of a machine in its invariant, with the exit
  data where KVM promises it, \<open>handle_exit\<close> of a release build neither panics nor fails. The
  machine takes exactly the accesses the exit asks for, with their ports or addresses,
  directions and data: one per element of a port access, each with its slice of the shared
  page, one of at most eight bytes for MMIO, none otherwise. What the reads return is put into
  the slices of the page, or the first bytes of the MMIO data, and nothing else of the run
  page changes. The machine keeps its invariant, the counter of the exit's kind, and no other,
  goes up by one, and the vCPU stops exactly on shutdown, failed entry and internal error.
\<close>

theorem kvm_exit_handled:
  assumes "served pio" "served mmio" "machine_inv m" "kvm_run_ok run"
  shows "\<exists>m' rs. machine_replies False pio mmio m (kvm_accesses clock run) = Some (m', rs) \<and> machine_inv m' \<and>
     map length rs = reply_sizes (kvm_accesses clock run) \<and>
     kvm_handle_exit False clock pio mmio run s m
       = Some (Inr (run_exit_reason run \<notin> {8, 9, 17}), kvm_counted run s, m', kvm_reply run rs) \<and>
     stats_total False (kvm_counted run s) = map_option ((+) 1) (stats_total False s)"
  using kvm_exit_runs[OF assms, of clock s] kvm_counted_total by blast

theorem kvm_exit_handled_witness:
  "\<exists>m pio mmio m' a b. setup_machine False (\<lambda>g. Inr (KvmIrqSink 3 g) :: unit + irq_sink) (Inr (KvmMsiSink 3))
       (Some (\<lambda>_. True, \<lambda>_ _. 7)) None 0 \<lparr>gm_ptr = 1, gm_size = 0x1000000, gm_bytes = (\<lambda>_. 0)\<rparr> 0x1000000
       = Some (Inr (m, pio, mmio)) \<and>
     machine_replies False pio mmio m [PioIn 5 0x3fd [2], PioIn 5 0x3fd [3]] = Some (m', [[a], [b]]) \<and>
     kvm_handle_exit False (\<lambda>_. 5) pio mmio
       \<lparr>run_exit_reason = 2,
        run_io = \<lparr>io_direction = 0, io_size = 1, io_port = 0x3fd, io_count = 2, io_data_offset = 1\<rparr>,
        run_mmio = \<lparr>mmio_phys_addr = 0, mmio_data = [], mmio_len = 0, mmio_is_write = 0\<rparr>,
        run_page = [1, 2, 3, 4]\<rparr> stats_new m
       = Some (Inr True, stats_new\<lparr>io_exits := 1\<rparr>, m',
       \<lparr>run_exit_reason = 2,
        run_io = \<lparr>io_direction = 0, io_size = 1, io_port = 0x3fd, io_count = 2, io_data_offset = 1\<rparr>,
        run_mmio = \<lparr>mmio_phys_addr = 0, mmio_data = [], mmio_len = 0, mmio_is_write = 0\<rparr>,
        run_page = [1, a, b, 4]\<rparr>) \<and> machine_inv m'"
proof -
  let ?irq = "\<lambda>g. Inr (KvmIrqSink 3 g) :: unit + irq_sink"
  let ?src = "Some (\<lambda>_. True, \<lambda>_ _. 7)"
  let ?mem = "\<lparr>gm_ptr = 1, gm_size = 0x1000000, gm_bytes = (\<lambda>_. 0)\<rparr>"
  let ?run = "\<lparr>run_exit_reason = 2,
        run_io = \<lparr>io_direction = 0, io_size = 1, io_port = 0x3fd, io_count = 2, io_data_offset = 1\<rparr>,
        run_mmio = \<lparr>mmio_phys_addr = 0, mmio_data = [], mmio_len = 0, mmio_is_write = 0\<rparr>,
        run_page = [1, 2, 3, 4]\<rparr>"
  obtain m pio mmio where s: "setup_machine False ?irq (Inr (KvmMsiSink 3)) ?src None 0 ?mem 0x1000000
      = Some (Inr (m, pio, mmio))" and b: "served pio" "served mmio" "machine_inv m"
    using setup_machine_ok[where ram_size = "0x1000000" and register_irq = ?irq and img = None and oc = False
        and msink = "KvmMsiSink 3" and src = "(\<lambda>_. True, \<lambda>_ _. 7)" and now = 0 and mem = ?mem] by auto
  have ok: "kvm_run_ok ?run" by (simp add: kvm_run_ok_def)
  have acc: "kvm_accesses (\<lambda>_. 5) ?run = [PioIn 5 0x3fd [2], PioIn 5 0x3fd [3]]"
    by (simp add: kvm_accesses_def port_accesses_def io_chunk_def upt_rec)
  obtain m' rs where h: "machine_replies False pio mmio m [PioIn 5 0x3fd [2], PioIn 5 0x3fd [3]] = Some (m', rs)" "machine_inv m'"
    "map length rs = [1, 1]" "kvm_handle_exit False (\<lambda>_. 5) pio mmio ?run stats_new m
       = Some (Inr True, kvm_counted ?run stats_new, m', kvm_reply ?run rs)"
    using kvm_exit_handled[OF b ok, of "\<lambda>_. 5" stats_new] by (auto simp: acc)
  obtain x y where "rs = [[x], [y]]" using h(3) by (auto simp: length_Suc_conv)
  then show ?thesis using s h by (simp add: kvm_reply_def kvm_counted_def stats_new_def)
qed

text \<open>
  C27. Every bhyve exit is handled: with access sizes bhyve reports, \<open>handle_exit\<close> of a release
  build does not panic. A port or MMIO exit causes exactly the one access it describes (port
  or address, direction, the low bytes of \<open>eax\<close> or of the data word), every other exit none,
  and the machine keeps its invariant. The reply is the exit's own structure with the bytes an
  \<open>IN\<close> or an MMIO read returned in the low bytes of the register and its other bytes as they
  were, under the matching entry command, and a zeroed union under the default command for the
  other exits. The vCPU stops exactly on a suspend. The counter of the exit's kind goes up by
  one, except for the two MSR exits, which no counter sees.
\<close>

theorem bhyve_exit_handled:
  assumes "served pio" "served mmio" "machine_inv m" "vm_exit_ok x"
  shows "\<exists>m' rs. machine_replies False pio mmio m (bhyve_accesses clock x) = Some (m', rs) \<and> machine_inv m' \<and>
     map length rs = reply_sizes (bhyve_accesses clock x) \<and>
     bhyve_handle_exit False clock pio mmio x s m
       = Some ((vm_exitcode x \<noteq> CodeSuspended, bhyve_reply x rs), bhyve_counted x s, m') \<and>
     stats_total False (bhyve_counted x s) =
       (if vm_exitcode x \<in> {CodeRdmsr, CodeWrmsr} then stats_total False s
        else map_option ((+) 1) (stats_total False s))"
proof -
  obtain m' rs where a: "machine_replies False pio mmio m (bhyve_accesses clock x) = Some (m', rs)" "machine_inv m'"
    "map length rs = reply_sizes (bhyve_accesses clock x)"
    using machine_replies_returns[OF assms(1-3) bhyve_accesses_ok[OF assms(4)]] by blast
  consider "vm_exitcode x = CodeInout" | "vm_exitcode x = CodeMmio"
    | "vm_exitcode x \<noteq> CodeInout" "vm_exitcode x \<noteq> CodeMmio" by blast
  then have "bhyve_handle_exit False clock pio mmio x s m
       = Some ((vm_exitcode x \<noteq> CodeSuspended, bhyve_reply x rs), bhyve_counted x s, m')"
  proof cases
    case 1
    then show ?thesis
      using bhyve_io_exit_runs[OF assms(1,3,4) 1, of mmio clock s] a(1) by (auto simp: bhyve_handle_exit_def VEC_FULFILL_INOUT_def)
  next
    case 2
    then show ?thesis
      using bhyve_mmio_exit_runs[OF assms(2,3,4) 2, of pio clock s] a(1) by (auto simp: bhyve_handle_exit_def VEC_FULFILL_MMIO_def)
  next
    case 3
    then show ?thesis using bhyve_other_exit[OF 3, of clock pio mmio s m] a(1) by simp
  qed
  then show ?thesis using a bhyve_counted_total by blast
qed

theorem bhyve_exit_handled_witness:
  "\<exists>m'. bhyve_handle_exit False (\<lambda>_. 0) [] []
       \<lparr>vm_exitcode = CodeInout,
        vm_inout_u = \<lparr>inout_eax = 0x12345678, inout_port = 0x80, inout_bytes = 1, inout_flags = 1,
          inout_addrsize = 0, inout_segment = 0\<rparr>,
        vm_mmio_u = \<lparr>vmm_bytes = 0, vmm_read = 0, vmm_gpa = 0, vmm_data = 0\<rparr>\<rparr> stats_new
       \<lparr>m_mem = \<lparr>gm_ptr = 1, gm_size = 4096, gm_bytes = (\<lambda>_. 0)\<rparr>, m_root = pci_root_bus_new,
        m_bridge = the host_bridge, m_fns = [], m_window = mmio_window_new 4096,
        m_serial = serial_new 0 NullIrqSink\<rparr>
       = Some ((True, 3, EntryInout \<lparr>inout_eax = 0x123456ff, inout_port = 0x80, inout_bytes = 1, inout_flags = 1,
          inout_addrsize = 0, inout_segment = 0\<rparr>), stats_new\<lparr>io_exits := 1\<rparr>, m') \<and> machine_inv m'"
proof -
  let ?m = "\<lparr>m_mem = \<lparr>gm_ptr = 1, gm_size = 4096, gm_bytes = (\<lambda>_. 0)\<rparr>, m_root = pci_root_bus_new,
        m_bridge = the host_bridge, m_fns = [], m_window = mmio_window_new 4096,
        m_serial = serial_new 0 NullIrqSink\<rparr>"
  let ?x = "\<lparr>vm_exitcode = CodeInout,
        vm_inout_u = \<lparr>inout_eax = 0x12345678, inout_port = 0x80, inout_bytes = 1, inout_flags = 1,
          inout_addrsize = 0, inout_segment = 0\<rparr>,
        vm_mmio_u = \<lparr>vmm_bytes = 0, vmm_read = 0, vmm_gpa = 0, vmm_data = 0\<rparr>\<rparr>"
  have "cs_wf (the host_bridge)" using host_bridge_wf by (metis option.sel)
  then have inv: "machine_inv ?m"
    using serial_new_inv[of 0 NullIrqSink]
    by (auto simp: machine_inv_def fns_inv_def pci_root_bus_new_def mmio_window_new_def ran_def)
  have s: "served []" by (simp add: served_def bus_wf_def within_spans_def)
  have x: "vm_exit_ok ?x" by (simp add: vm_exit_ok_def)
  have "bus_read (dev_read False 0) [] ?m 0x80 [0x78] = Some (?m, [0xff], False)"
    by (simp add: bus_read_def lookup_def fill_def)
  moreover have "u32_to_le 0x12345678 = [0x78, 0x56, 0x34, 0x12]" "from_le [0xff, 0x56, 0x34, 0x12] = (0x123456ff :: u32)"
    by code_simp+
  ultimately show ?thesis
    using bhyve_exit_handled[OF s s inv x, of "\<lambda>_. 0" stats_new]
    by (auto simp: bhyve_accesses_def bhyve_reply_def bhyve_counted_def stats_new_def)
qed

end
