(* ===== verification/Runtime.thy ===== *)
theory Runtime
  imports Serial
begin

text \<open>
  The threads that drive the machine: the vCPU loop (\<open>src/vcpu.rs\<close> \<open>run_vcpu\<close>, with the
  \<open>step_run\<close> of \<open>src/kvm/core.rs\<close> and \<open>src/bhyve/core.rs\<close>), the shutdown flag it shares with the
  console (\<open>src/input.rs\<close> \<open>Shutdown\<close>), the escape machine of the console
  (\<open>src/terminal.rs\<close> \<open>EscapeState\<close>) and the stdin reader (\<open>src/input.rs\<close> \<open>reader_loop\<close>).

  The environment is explicit: \<open>requested i\<close> is what iteration \<open>i\<close> of a loop reads from the
  shutdown flag, \<open>step i\<close> what the hypervisor does in it, and the reader consumes a list of
  poll outcomes, one per iteration.
\<close>

section \<open>Shutdown\<close>

record shutdown =
  sd_flag :: bool
  sd_kick_threads :: "nat list"

definition shutdown_new :: shutdown where
  "shutdown_new = \<lparr>sd_flag = False, sd_kick_threads = []\<rparr>"

definition add_kick_target :: "nat \<Rightarrow> shutdown \<Rightarrow> shutdown" where
  "add_kick_target thread sd = sd\<lparr>sd_kick_threads := sd_kick_threads sd @ [thread]\<rparr>"

text \<open>The second component is the threads that get \<open>SIGUSR1\<close>, in order.\<close>

definition sd_request :: "shutdown \<Rightarrow> shutdown \<times> nat list" where
  "sd_request sd = (let sd' = sd\<lparr>sd_flag := True\<rparr> in (sd', sd_kick_threads sd'))"

definition sd_requested :: "shutdown \<Rightarrow> bool" where
  "sd_requested sd = sd_flag sd"

section \<open>The vCPU loop\<close>

datatype io_error_kind = Interrupted | WouldBlock | OtherKind

text \<open>
  \<open>step_run\<close> of the two hosts: \<open>res\<close> is the result of the run ioctl, \<open>handle\<close> the exit
  handler. KVM passes the ioctl's error on; bhyve turns it into a string and wraps that.
\<close>

definition kvm_step_run ::
  "io_error_kind + 'x \<Rightarrow> ('x \<Rightarrow> 'st \<Rightarrow> ('e + bool) \<times> 'st) \<Rightarrow> 'st \<Rightarrow> (io_error_kind + bool) \<times> 'st" where
  "kvm_step_run res handle st =
     (case res of
        Inr r \<Rightarrow> (case handle r st of (Inl _, st') \<Rightarrow> (Inl OtherKind, st') | (Inr b, st') \<Rightarrow> (Inr b, st'))
      | Inl e \<Rightarrow> (Inl e, st))"

definition bhyve_step_run ::
  "io_error_kind + 'x \<Rightarrow> ('x \<Rightarrow> 'st \<Rightarrow> bool \<times> 'st) \<Rightarrow> 'st \<Rightarrow> (io_error_kind + bool) \<times> 'st" where
  "bhyve_step_run res handle st =
     (case res of
        Inr x \<Rightarrow> (case handle x st of (b, st') \<Rightarrow> (Inr b, st'))
      | Inl e \<Rightarrow> (Inl OtherKind, st))"

text \<open>The loop may run for ever, so it is a partial function; it also returns the iteration it ends in.\<close>

partial_function (option) vcpu_loop ::
  "(nat \<Rightarrow> bool) \<Rightarrow> (nat \<Rightarrow> 'st \<Rightarrow> (io_error_kind + bool) \<times> 'st) \<Rightarrow> nat \<Rightarrow> 'st \<Rightarrow>
   ((io_error_kind + unit) \<times> 'st \<times> nat) option" where
  "vcpu_loop requested step i st =
     (if requested i then Some (Inr (), st, i)
      else case step i st of
          (Inr should_continue, st') \<Rightarrow>
            if \<not> should_continue then Some (Inr (), st', i)
            else vcpu_loop requested step (Suc i) st'
        | (Inl e, st') \<Rightarrow>
            if e = Interrupted \<or> e = WouldBlock then vcpu_loop requested step (Suc i) st'
            else Some (Inl e, st', i))"

definition run_vcpu ::
  "(nat \<Rightarrow> bool) \<Rightarrow> (nat \<Rightarrow> 'st \<Rightarrow> (io_error_kind + bool) \<times> 'st) \<Rightarrow> 'st \<Rightarrow> shutdown \<Rightarrow>
   ((io_error_kind + 'st) \<times> shutdown \<times> nat list) option" where
  "run_vcpu requested step stats sd =
     (case vcpu_loop requested step 0 stats of
        None \<Rightarrow> None
      | Some (result, stats', _) \<Rightarrow>
          let (sd', kicked) = sd_request sd in Some (map_sum id (\<lambda>_. stats') result, sd', kicked))"

section \<open>The console\<close>

definition CTRL_A :: u8 where "CTRL_A = 1"

datatype escape_action = Forward u8 | Quit | Help | Swallowed

record escape_state =
  prefix_seen :: bool

definition escape_new :: escape_state where
  "escape_new = \<lparr>prefix_seen = False\<rparr>"

definition feed :: "escape_state \<Rightarrow> u8 \<Rightarrow> escape_state \<times> escape_action" where
  "feed es byte =
     (if prefix_seen es then
        (es\<lparr>prefix_seen := False\<rparr>,
         if byte = 0x78 \<or> byte = 0x58 then Quit
         else if byte = 0x3f then Help
         else Forward byte)
      else if byte = CTRL_A then (es\<lparr>prefix_seen := True\<rparr>, Swallowed)
      else (es, Forward byte))"

text \<open>
  The loop over one batch. \<open>forward\<close> is the filled part of a 64-byte array, and storing past
  its end panics.
\<close>

fun batch_loop :: "escape_state \<Rightarrow> bytes \<Rightarrow> bytes \<Rightarrow> bool \<Rightarrow> (escape_state \<times> bytes \<times> bool \<times> bool) option" where
  "batch_loop es [] fwd help = Some (es, fwd, help, False)"
| "batch_loop es (b # bs) fwd help =
     (case feed es b of
        (es', Forward c) \<Rightarrow> if 64 \<le> length fwd then None else batch_loop es' bs (fwd @ [c]) help
      | (es', Swallowed) \<Rightarrow> batch_loop es' bs fwd help
      | (es', Help) \<Rightarrow> batch_loop es' bs fwd True
      | (es', Quit) \<Rightarrow> Some (es', fwd, help, True))"

text \<open>
  What \<open>poll\<close> and \<open>read\<close> may return; a failure is \<open>EINTR\<close> or not, and an empty read is the
  end of input.
\<close>

datatype poll_outcome = PollFailed bool | PollTimeout | ReadFailed bool | ReadBytes bytes

record reader =
  rd_escape :: escape_state
  rd_serial :: serial
  rd_shutdown :: shutdown
  rd_helps :: nat

definition rd_request :: "reader \<Rightarrow> reader" where
  "rd_request r = r\<lparr>rd_shutdown := fst (sd_request (rd_shutdown r))\<rparr>"

text \<open>
  One iteration at time \<open>now\<close>; the flag says whether the thread returns. The number of times
  the help text was printed stands for the output on \<open>stderr\<close>.
\<close>

definition reader_step :: "nat \<Rightarrow> poll_outcome \<Rightarrow> reader \<Rightarrow> (reader \<times> bool) option" where
  "reader_step now ev r =
     (if sd_requested (rd_shutdown r) then Some (r, True)
      else case ev of
          PollFailed eintr \<Rightarrow> if eintr then Some (r, False) else Some (rd_request r, True)
        | PollTimeout \<Rightarrow> Some (r\<lparr>rd_serial := fst (tick_cti now (rd_serial r))\<rparr>, False)
        | ReadFailed eintr \<Rightarrow> if eintr then Some (r, False) else Some (rd_request r, True)
        | ReadBytes buf \<Rightarrow>
            if buf = [] then Some (rd_request r, True)
            else do {
              (es, fwd, help, quit) \<leftarrow> batch_loop (rd_escape r) buf [] False;
              let r = r\<lparr>rd_escape := es\<rparr>;
              let r = (if fwd \<noteq> [] then r\<lparr>rd_serial := inject_rx now (rd_serial r) fwd\<rparr> else r);
              let r = (if help then r\<lparr>rd_helps := Suc (rd_helps r)\<rparr> else r);
              if quit then Some (rd_request r, True) else Some (r, False)
            })"

fun reader_loop :: "(nat \<times> poll_outcome) list \<Rightarrow> reader \<Rightarrow> (reader \<times> bool) option" where
  "reader_loop [] r = Some (r, False)"
| "reader_loop ((now, ev) # evs) r = do {
     (r', returned) \<leftarrow> reader_step now ev r;
     if returned then Some (r', True) else reader_loop evs r'
   }"

section \<open>The console's specification\<close>

text \<open>
  What the stream of typed bytes means, without batches: the bytes for the guest, whether the
  user quits, and whether a prefix is pending at the end.
\<close>

fun console_spec :: "bool \<Rightarrow> bytes \<Rightarrow> bytes \<times> bool \<times> bool" where
  "console_spec pending [] = ([], False, pending)"
| "console_spec False (b # bs) =
     (if b = 1 then console_spec True bs
      else case console_spec False bs of (g, q, p) \<Rightarrow> (b # g, q, p))"
| "console_spec True (b # bs) =
     (if b = 0x78 \<or> b = 0x58 then ([], True, False)
      else if b = 0x3f then console_spec False bs
      else case console_spec False bs of (g, q, p) \<Rightarrow> (b # g, q, p))"

text \<open>Typing a string for the guest: every Ctrl-A is doubled.\<close>

definition typed :: "bytes \<Rightarrow> bytes" where
  "typed bs = concat (map (\<lambda>b. if b = 1 then [1, 1] else [b]) bs)"

definition inject_all :: "(nat \<times> bytes) list \<Rightarrow> serial \<Rightarrow> serial" where
  "inject_all chunks s = foldl (\<lambda>s (now, c). inject_rx now s c) s chunks"

section \<open>Lemmas\<close>

lemma vcpu_loop_stops:
  assumes "requested n" and "i \<le> n"
  shows "\<exists>r st' k. vcpu_loop requested step i st = Some (r, st', k) \<and> i \<le> k \<and> k \<le> n \<and>
     r \<noteq> Inl Interrupted \<and> r \<noteq> Inl WouldBlock"
  using assms(2)
proof (induction "n - i" arbitrary: i st)
  case 0
  then have "i = n" by simp
  then show ?case using assms(1) by (subst vcpu_loop.simps) simp
next
  case (Suc d)
  have ih: "\<exists>r st'' k. vcpu_loop requested step (Suc i) st' = Some (r, st'', k) \<and> i \<le> k \<and> k \<le> n \<and>
      r \<noteq> Inl Interrupted \<and> r \<noteq> Inl WouldBlock" for st'
    using Suc.hyps(1)[of "Suc i" st'] Suc.hyps(2) by fastforce
  obtain r st' where s: "step i st = (r, st')" by (cases "step i st")
  show ?case
    using ih[of st'] s Suc.prems by (subst vcpu_loop.simps) (auto split: sum.split)
qed

lemma console_spec_append:
  "console_spec p (xs @ ys) =
     (case console_spec p xs of (g, q, p') \<Rightarrow>
        if q then (g, True, p')
        else case console_spec p' ys of (g', q', p'') \<Rightarrow> (g @ g', q', p''))"
  by (induction p xs rule: console_spec.induct) (auto split: prod.splits)

lemma console_spec_length:
  "console_spec p bs = (g, q, p') \<Longrightarrow> length g \<le> length bs"
  by (induction p bs arbitrary: g q p' rule: console_spec.induct)
     (fastforce split: prod.splits if_splits)+

lemma feed_cases:
  "feed es b =
     (\<lparr>prefix_seen = \<not> prefix_seen es \<and> b = 1\<rparr>,
      if prefix_seen es then (if b = 0x78 \<or> b = 0x58 then Quit else if b = 0x3f then Help else Forward b)
      else if b = 1 then Swallowed else Forward b)"
  by (cases es) (simp add: feed_def CTRL_A_def)

lemma batch_loop_spec:
  assumes "length fwd + length bs \<le> 64" and "console_spec (prefix_seen es) bs = (g, q, p')"
  shows "\<exists>help'. batch_loop es bs fwd hlp = Some (\<lparr>prefix_seen = p'\<rparr>, fwd @ g, help', q)"
  using assms
proof (induction es bs fwd hlp arbitrary: g rule: batch_loop.induct)
  case (1 es fwd hlp)
  then show ?case by (cases es) auto
next
  case (2 es b bs fwd hlp)
  show ?case
  proof (cases "prefix_seen es")
    case True
    then show ?thesis
      using "2.prems" "2.IH"(1)[of "\<lparr>prefix_seen = False\<rparr>" "Forward b" b "tl g"]
        "2.IH"(2)[of "\<lparr>prefix_seen = False\<rparr>" Help g]
      by (auto simp: feed_cases split: if_splits prod.splits)
  next
    case False
    then show ?thesis
      using "2.prems" "2.IH"(1)[of "\<lparr>prefix_seen = False\<rparr>" "Forward b" b "tl g"]
        "2.IH"(3)[of "\<lparr>prefix_seen = True\<rparr>" Swallowed g]
      by (auto simp: feed_cases split: if_splits prod.splits)
  qed
qed

lemma reader_step_batch:
  assumes "buf \<noteq> []" "length buf \<le> 64" "\<not> sd_requested (rd_shutdown r)"
    and "console_spec (prefix_seen (rd_escape r)) buf = (g, q, p')"
  shows "\<exists>r'. reader_step now (ReadBytes buf) r = Some (r', q) \<and> prefix_seen (rd_escape r') = p' \<and>
     rd_serial r' = (if g = [] then rd_serial r else inject_rx now (rd_serial r) g) \<and>
     sd_requested (rd_shutdown r') = q"
  using batch_loop_spec[of "[]" buf "rd_escape r" g q p' False] assms
  by (auto simp: reader_step_def rd_request_def sd_request_def sd_requested_def Let_def)

lemma console_spec_typed: "console_spec False (typed bs @ rest) =
    (case console_spec False rest of (g, q, p) \<Rightarrow> (bs @ g, q, p))"
  by (induction bs) (auto simp: typed_def split: prod.splits)

lemma reader_loop_batches:
  assumes "\<forall>(t, b) \<in> set evs. b \<noteq> [] \<and> length b \<le> 64" and "\<not> sd_requested (rd_shutdown r)"
    and "console_spec (prefix_seen (rd_escape r)) (concat (map snd evs)) = (g, q, p')"
  shows "\<exists>r' chunks. reader_loop (map (\<lambda>(t, b). (t, ReadBytes b)) evs) r = Some (r', q) \<and>
     concat (map snd chunks) = g \<and> rd_serial r' = inject_all chunks (rd_serial r) \<and>
     prefix_seen (rd_escape r') = p' \<and> sd_requested (rd_shutdown r') = q"
  using assms
proof (induction evs arbitrary: r g)
  case Nil
  then show ?case by (auto simp: inject_all_def intro!: exI[of _ "[]"])
next
  case (Cons e evs)
  obtain t b where e: "e = (t, b)" by (cases e)
  obtain g1 q1 p1 where s1: "console_spec (prefix_seen (rd_escape r)) b = (g1, q1, p1)"
    by (cases "console_spec (prefix_seen (rd_escape r)) b")
  obtain r1 where r1: "reader_step t (ReadBytes b) r = Some (r1, q1)" "prefix_seen (rd_escape r1) = p1"
    "rd_serial r1 = (if g1 = [] then rd_serial r else inject_rx t (rd_serial r) g1)"
    "sd_requested (rd_shutdown r1) = q1"
    using reader_step_batch[OF _ _ Cons.prems(2) s1, of t] Cons.prems(1) e by auto
  let ?c = "if g1 = [] then [] else [(t, g1)]"
  have c: "concat (map snd ?c) = g1" "inject_all ?c (rd_serial r) = rd_serial r1"
    using r1(3) by (simp_all add: inject_all_def)
  show ?case
  proof (cases q1)
    case True
    then have "g = g1" "q" "p' = p1" using Cons.prems(3) e s1 by (auto simp: console_spec_append split: prod.splits)
    then show ?thesis using True r1 c e by (intro exI[of _ r1] exI[of _ ?c]) simp
  next
    case False
    obtain g2 where g2: "console_spec (prefix_seen (rd_escape r1)) (concat (map snd evs)) = (g2, q, p')" "g = g1 @ g2"
      using Cons.prems(3) e s1 False r1(2) by (auto simp: console_spec_append split: prod.splits)
    obtain r' chunks where ih: "reader_loop (map (\<lambda>(t, b). (t, ReadBytes b)) evs) r1 = Some (r', q)"
      "concat (map snd chunks) = g2" "rd_serial r' = inject_all chunks (rd_serial r1)"
      "prefix_seen (rd_escape r') = p'" "sd_requested (rd_shutdown r') = q"
      using Cons.IH[OF _ _ g2(1)] Cons.prems(1) r1(4) False by auto
    have "inject_all (?c @ chunks) (rd_serial r) = rd_serial r'"
      using ih(3) c(2) by (simp add: inject_all_def)
    moreover have "concat (map snd (?c @ chunks)) = g" using c(1) ih(2) g2(2) by simp
    ultimately show ?thesis
      using ih(1,4,5) r1(1) False e by (intro exI[of _ r'] exI[of _ "?c @ chunks"]) simp
  qed
qed

section \<open>Properties\<close>

text \<open>
  C28. The console does not depend on how the terminal batches its input: however a stream of
  typed bytes is cut into reads of 1 to 64 bytes, the reader never overruns its buffer, hands
  the guest's UART, in order, exactly the bytes the escape language assigns to the guest, and
  returns with shutdown requested exactly when the stream contains the quit sequence.
\<close>

theorem console_reader_refines:
  assumes "\<forall>(t, b) \<in> set evs. b \<noteq> [] \<and> length b \<le> 64" and "\<not> sd_requested (rd_shutdown r)"
  shows "\<exists>r' quit chunks.
     reader_loop (map (\<lambda>(t, b). (t, ReadBytes b)) evs) r = Some (r', quit) \<and>
     console_spec (prefix_seen (rd_escape r)) (concat (map snd evs))
       = (concat (map snd chunks), quit, prefix_seen (rd_escape r')) \<and>
     rd_serial r' = inject_all chunks (rd_serial r) \<and> sd_requested (rd_shutdown r') = quit"
  proof -
  obtain g q p' where "console_spec (prefix_seen (rd_escape r)) (concat (map snd evs)) = (g, q, p')"
    by (cases "console_spec (prefix_seen (rd_escape r)) (concat (map snd evs))")
  then show ?thesis using reader_loop_batches[OF assms] by fastforce
qed

theorem console_reader_refines_witness:
  "\<exists>r' quit chunks.
     reader_loop (map (\<lambda>(t, b). (t, ReadBytes b)) [(0, [104, 1]), (1, [120, 105])])
       \<lparr>rd_escape = escape_new, rd_serial = serial_new 0 NullIrqSink, rd_shutdown = shutdown_new, rd_helps = 0\<rparr>
       = Some (r', quit) \<and>
     console_spec False [104, 1, 120, 105] = (concat (map snd chunks), quit, prefix_seen (rd_escape r')) \<and>
     rd_serial r' = inject_all chunks (serial_new 0 NullIrqSink) \<and> sd_requested (rd_shutdown r') = quit"
  using console_reader_refines[of "[(0, [104, 1]), (1, [120, 105])]"
      "\<lparr>rd_escape = escape_new, rd_serial = serial_new 0 NullIrqSink, rd_shutdown = shutdown_new, rd_helps = 0\<rparr>"]
  by (simp add: sd_requested_def shutdown_new_def escape_new_def)

text \<open>
  Any byte string can be typed to the guest: with every Ctrl-A doubled and the result read in
  any batches, the guest's UART receives exactly the string, no help is taken for input, the
  reader keeps running and no prefix is left pending.
\<close>

theorem console_roundtrip:
  assumes "\<forall>(t, b) \<in> set evs. b \<noteq> [] \<and> length b \<le> 64" and "concat (map snd evs) = typed bs"
    and "\<not> sd_requested (rd_shutdown r)" and "\<not> prefix_seen (rd_escape r)"
  shows "\<exists>r' chunks. reader_loop (map (\<lambda>(t, b). (t, ReadBytes b)) evs) r = Some (r', False) \<and>
     concat (map snd chunks) = bs \<and> rd_serial r' = inject_all chunks (rd_serial r) \<and>
     \<not> prefix_seen (rd_escape r') \<and> \<not> sd_requested (rd_shutdown r')"
  using reader_loop_batches[OF assms(1,3), of bs False False] console_spec_typed[of bs "[]"] assms(2,4) by simp

theorem console_roundtrip_witness:
  "\<exists>r' chunks. reader_loop (map (\<lambda>(t, b). (t, ReadBytes b)) [(0, [120, 1]), (3, [1, 13])])
       \<lparr>rd_escape = escape_new, rd_serial = serial_new 0 NullIrqSink, rd_shutdown = shutdown_new, rd_helps = 0\<rparr>
       = Some (r', False) \<and>
     concat (map snd chunks) = [120, 1, 13] \<and> rd_serial r' = inject_all chunks (serial_new 0 NullIrqSink)"
  using console_roundtrip[of "[(0, [120, 1]), (3, [1, 13])]" "[120, 1, 13]"
      "\<lparr>rd_escape = escape_new, rd_serial = serial_new 0 NullIrqSink, rd_shutdown = shutdown_new, rd_helps = 0\<rparr>"]
  by (auto simp: sd_requested_def shutdown_new_def escape_new_def typed_def)

text \<open>
  Shutdown is observed: whatever the hypervisor does, once some iteration reads the
  shutdown flag as set the vCPU loop returns no later than that iteration, a kick
  (\<open>EINTR\<close>) or a waiting AP (\<open>EAGAIN\<close>) is never reported as a failure, and on return the flag
  is set and every registered vCPU thread has been signalled.
\<close>

theorem vcpu_observes_shutdown:
  assumes "requested n"
  shows "\<exists>result st' k. vcpu_loop requested step 0 st = Some (result, st', k) \<and> k \<le> n \<and>
     run_vcpu requested step st sd
       = Some (map_sum id (\<lambda>_. st') result, sd\<lparr>sd_flag := True\<rparr>, sd_kick_threads sd) \<and>
     result \<noteq> Inl Interrupted \<and> result \<noteq> Inl WouldBlock"
  using vcpu_loop_stops[of requested n 0 step st] assms
  by (auto simp: run_vcpu_def sd_request_def Let_def)

theorem vcpu_observes_shutdown_witness:
  "\<exists>result st' k. vcpu_loop (\<lambda>i. 2 \<le> i) (\<lambda>_ (st :: nat). (Inl Interrupted, st)) 0 7 = Some (result, st', k) \<and> k \<le> 2"
  using vcpu_observes_shutdown[of "\<lambda>i. 2 \<le> i" 2 "\<lambda>_ (st :: nat). (Inl Interrupted, st)" 7 shutdown_new]
  by blast

text \<open>
  C37. What a kick does on the two hosts. A run ioctl interrupted in iteration \<open>i\<close> makes the KVM
  loop go on to the next iteration with the statistics unchanged; on bhyve, whose \<open>step_run\<close>
  rewraps the error, the same interruption ends the vCPU with an error.
\<close>

theorem kick_on_both_hosts:
  assumes "\<not> requested i" and "e = Interrupted \<or> e = WouldBlock"
  shows "(\<forall>handle. step i = kvm_step_run (Inl e) handle \<longrightarrow>
       vcpu_loop requested step i st = vcpu_loop requested step (Suc i) st) \<and>
     (\<forall>handle. step i = bhyve_step_run (Inl e) handle \<longrightarrow>
       vcpu_loop requested step i st = Some (Inl OtherKind, st, i))"
  using assms by (auto simp: kvm_step_run_def bhyve_step_run_def vcpu_loop.simps[of requested step i])

theorem kick_on_both_hosts_witness:
  "vcpu_loop (\<lambda>_. False) (\<lambda>_. bhyve_step_run (Inl Interrupted) (\<lambda>(x :: unit) st. (True, st))) 0 (5 :: nat)
     = Some (Inl OtherKind, 5, 0)"
proof -
  let ?handle = "\<lambda>(x :: unit) (st :: nat). (True, st)"
  let ?step = "\<lambda>_ :: nat. bhyve_step_run (Inl Interrupted) ?handle"
  have "\<forall>handle :: unit \<Rightarrow> nat \<Rightarrow> bool \<times> nat. ?step 0 = bhyve_step_run (Inl Interrupted) handle \<longrightarrow>
      vcpu_loop (\<lambda>_. False) ?step 0 5 = Some (Inl OtherKind, 5, 0)"
    by (rule kick_on_both_hosts[THEN conjunct2]) simp_all
  then show ?thesis by blast
qed

end
