(* ===== verification/Elf.thy ===== *)
theory Elf
  imports Memory
begin

text \<open>
  The ELF headers (\<open>src/elf.rs\<close>) and the ELF loader of \<open>src/boot.rs\<close>. A kernel file is its
  bytes and the host's errors on reading them; \<open>alloc\<close> says which sizes the host's allocator grants,
  and a size it refuses, or one above \<open>isize::MAX\<close>, ends the program (\<open>None\<close>).
\<close>

section \<open>Headers\<close>

datatype elf_class = ClassNone | ClassElf32 | ClassElf64

fun elf_class_code :: "elf_class \<Rightarrow> u8" where
  "elf_class_code ClassNone = 0"
| "elf_class_code ClassElf32 = 1"
| "elf_class_code ClassElf64 = 2"

record elf64_header =
  e_ident_magic :: bytes
  e_ident_class :: u8
  e_ident_data :: u8
  e_ident_version :: u8
  e_ident_osabi :: u8
  e_ident_abiversion :: u8
  e_ident_pad :: bytes
  e_type :: u16
  e_machine :: u16
  e_version :: u32
  e_entry :: u64
  e_phoff :: u64
  e_shoff :: u64
  e_flags :: u32
  e_ehsize :: u16
  e_phentsize :: u16
  e_phnum :: u16
  e_shentsize :: u16
  e_shnum :: u16
  e_shstrndx :: u16

datatype ph_type =
    PhNull | PhLoad | PhDynamic | PhInterp | PhNote | PhShlib | PhPhdr | PhTls
  | GnuEhFrame | GnuStack | GnuRelro

fun ph_type_code :: "ph_type \<Rightarrow> u32" where
  "ph_type_code PhNull = 0"
| "ph_type_code PhLoad = 1"
| "ph_type_code PhDynamic = 2"
| "ph_type_code PhInterp = 3"
| "ph_type_code PhNote = 4"
| "ph_type_code PhShlib = 5"
| "ph_type_code PhPhdr = 6"
| "ph_type_code PhTls = 7"
| "ph_type_code GnuEhFrame = 0x6474E550"
| "ph_type_code GnuStack = 0x6474E551"
| "ph_type_code GnuRelro = 0x6474E552"

record elf64_phdr =
  p_type :: u32
  p_flags :: u32
  p_offset :: u64
  p_vaddr :: u64
  p_paddr :: u64
  p_filesz :: u64
  p_memsz :: u64
  p_align :: u64

definition is_load :: "elf64_phdr \<Rightarrow> bool" where
  "is_load ph \<longleftrightarrow> p_type ph = ph_type_code PhLoad"

text \<open>\<open>read_struct\<close>: the two structures are \<open>repr(C)\<close> without padding, 64 and 56 bytes long.\<close>

definition parse_ehdr :: "bytes \<Rightarrow> elf64_header" where
  "parse_ehdr b =
     \<lparr>e_ident_magic = subslice 0 4 b, e_ident_class = b ! 4, e_ident_data = b ! 5, e_ident_version = b ! 6,
      e_ident_osabi = b ! 7, e_ident_abiversion = b ! 8, e_ident_pad = subslice 9 16 b,
      e_type = from_le (subslice 16 18 b), e_machine = from_le (subslice 18 20 b),
      e_version = from_le (subslice 20 24 b), e_entry = from_le (subslice 24 32 b),
      e_phoff = from_le (subslice 32 40 b), e_shoff = from_le (subslice 40 48 b),
      e_flags = from_le (subslice 48 52 b), e_ehsize = from_le (subslice 52 54 b),
      e_phentsize = from_le (subslice 54 56 b), e_phnum = from_le (subslice 56 58 b),
      e_shentsize = from_le (subslice 58 60 b), e_shnum = from_le (subslice 60 62 b),
      e_shstrndx = from_le (subslice 62 64 b)\<rparr>"

definition parse_phdr :: "bytes \<Rightarrow> elf64_phdr" where
  "parse_phdr b =
     \<lparr>p_type = from_le (subslice 0 4 b), p_flags = from_le (subslice 4 8 b),
      p_offset = from_le (subslice 8 16 b), p_vaddr = from_le (subslice 16 24 b),
      p_paddr = from_le (subslice 24 32 b), p_filesz = from_le (subslice 32 40 b),
      p_memsz = from_le (subslice 40 48 b), p_align = from_le (subslice 48 56 b)\<rparr>"

section \<open>The file\<close>

datatype 'e elf_error =
    SeekInvalid
  | UnexpectedEof
  | HostRead 'e
  | InvalidMagic
  | NotElf64
  | SegmentTooLarge
  | SegmentWrite mem_error

record 'e kfile =
  kf_bytes :: bytes
  kf_error :: "u64 \<Rightarrow> nat \<Rightarrow> 'e option"

text \<open>
  \<open>seek(SeekFrom::Start(off))\<close> and \<open>read_exact\<close>: an offset that is negative as a signed number is
  refused, a read past the end is an unexpected end of file.
\<close>

definition file_read :: "'e kfile \<Rightarrow> u64 \<Rightarrow> nat \<Rightarrow> 'e elf_error + bytes" where
  "file_read f off n =
     (if 2 ^ 63 \<le> unat off then Inl SeekInvalid
      else case kf_error f off n of
          Some e \<Rightarrow> Inl (HostRead e)
        | None \<Rightarrow>
            if length (kf_bytes f) < unat off + n then Inl UnexpectedEof
            else Inr (subslice (unat off) (unat off + n) (kf_bytes f)))"

text \<open>\<open>vec![0u8; n]\<close>.\<close>

definition vec_zeroed :: "(nat \<Rightarrow> bool) \<Rightarrow> u64 \<Rightarrow> bytes option" where
  "vec_zeroed alloc n = (if unat n < 2 ^ 63 \<and> alloc (unat n) then Some (replicate (unat n) 0) else None)"

section \<open>The loader\<close>

definition ELF_MAGIC :: bytes where
  "ELF_MAGIC = [0x7F, 0x45, 0x4C, 0x46]"

text \<open>Copy the file data of a segment, then zero the rest of its memory.\<close>

definition copy_segment :: "(nat \<Rightarrow> bool) \<Rightarrow> 'e kfile \<Rightarrow> guest_memory \<Rightarrow> elf64_phdr \<Rightarrow> u64
    \<Rightarrow> ('e elf_error + guest_memory) option" where
  "copy_segment alloc f m ph load_addr =
     (if 0 < p_filesz ph then
        (if 2 ^ 63 \<le> unat (p_offset ph) then Some (Inl SeekInvalid)
         else do {
           segment \<leftarrow> vec_zeroed alloc (p_filesz ph);
           Some (case file_read f (p_offset ph) (length segment) of
               Inl e \<Rightarrow> Inl e
             | Inr data \<Rightarrow>
                 (case write_at m load_addr data of Inl e \<Rightarrow> Inl (SegmentWrite e) | Inr m \<Rightarrow> Inr m))
         })
      else Some (Inr m))"

definition zero_bss :: "bool \<Rightarrow> (nat \<Rightarrow> bool) \<Rightarrow> guest_memory \<Rightarrow> elf64_phdr \<Rightarrow> u64
    \<Rightarrow> ('e elf_error + guest_memory) option" where
  "zero_bss oc alloc m ph load_addr =
     (if p_filesz ph < p_memsz ph then do {
        bss_start \<leftarrow> rs_add oc load_addr (p_filesz ph);
        bss_len \<leftarrow> rs_sub oc (p_memsz ph) (p_filesz ph);
        zeros \<leftarrow> vec_zeroed alloc bss_len;
        Some (case write_at m bss_start zeros of Inl e \<Rightarrow> Inl (SegmentWrite e) | Inr m \<Rightarrow> Inr m)
      }
      else Some (Inr m))"

definition load_segment :: "bool \<Rightarrow> (nat \<Rightarrow> bool) \<Rightarrow> 'e kfile \<Rightarrow> u64 \<Rightarrow> guest_memory \<Rightarrow> elf64_phdr
    \<Rightarrow> ('e elf_error + guest_memory) option" where
  "load_segment oc alloc f himem_start m ph =
     (if \<not> is_load ph then Some (Inr m)
      else do {
        let load_addr = max (p_paddr ph) himem_start;
        end_addr \<leftarrow> rs_add oc load_addr (p_memsz ph);
        if mem_size m < end_addr then Some (Inl SegmentTooLarge)
        else do {
          r \<leftarrow> copy_segment alloc f m ph load_addr;
          case r of Inl e \<Rightarrow> Some (Inl e) | Inr m \<Rightarrow> zero_bss oc alloc m ph load_addr
        }
      })"

text \<open>The loop over the program headers with the indices of the list.\<close>

fun load_segments :: "bool \<Rightarrow> (nat \<Rightarrow> bool) \<Rightarrow> 'e kfile \<Rightarrow> u64 \<Rightarrow> elf64_header \<Rightarrow> guest_memory \<Rightarrow> u16 list
    \<Rightarrow> ('e elf_error + guest_memory) option" where
  "load_segments oc alloc f himem ehdr m [] = Some (Inr m)"
| "load_segments oc alloc f himem ehdr m (i # is) = do {
     step \<leftarrow> rs_mul oc (ucast i) (ucast (e_phentsize ehdr));
     phdr_offset \<leftarrow> rs_add oc (e_phoff ehdr) step;
     case file_read f phdr_offset 56 of
       Inl e \<Rightarrow> Some (Inl e)
     | Inr b \<Rightarrow> do {
         r \<leftarrow> load_segment oc alloc f himem m (parse_phdr b);
         case r of Inl e \<Rightarrow> Some (Inl e) | Inr m \<Rightarrow> load_segments oc alloc f himem ehdr m is
       }
   }"

definition load_elf_kernel :: "bool \<Rightarrow> (nat \<Rightarrow> bool) \<Rightarrow> 'e kfile \<Rightarrow> u64 \<Rightarrow> guest_memory
    \<Rightarrow> ('e elf_error + u64 \<times> guest_memory) option" where
  "load_elf_kernel oc alloc f himem_start m =
     (case file_read f 0 64 of
        Inl e \<Rightarrow> Some (Inl e)
      | Inr b \<Rightarrow>
          let ehdr = parse_ehdr b in
          if e_ident_magic ehdr \<noteq> ELF_MAGIC then Some (Inl InvalidMagic)
          else if e_ident_class ehdr \<noteq> elf_class_code ClassElf64 then Some (Inl NotElf64)
          else do {
            r \<leftarrow> load_segments oc alloc f himem_start ehdr m (map of_nat [0..<unat (e_phnum ehdr)]);
            Some (case r of Inl e \<Rightarrow> Inl e | Inr m \<Rightarrow> Inr (e_entry ehdr, m))
          })"

section \<open>Specification\<close>

text \<open>
  The first address of a loadable segment, and the byte it puts at an address: file data, then zeros
  up to its memory size.
\<close>

definition seg_start :: "u64 \<Rightarrow> elf64_phdr \<Rightarrow> nat" where
  "seg_start himem ph = unat (max (p_paddr ph) himem)"

definition seg_byte :: "bytes \<Rightarrow> u64 \<Rightarrow> elf64_phdr \<Rightarrow> nat \<Rightarrow> u8 option" where
  "seg_byte file himem ph a =
     (if \<not> is_load ph \<or> a < seg_start himem ph then None
      else let i = a - seg_start himem ph in
        if i < unat (p_filesz ph) then Some (file ! (unat (p_offset ph) + i))
        else if i < unat (p_memsz ph) then Some 0
        else None)"

definition elf_ehdr :: "bytes \<Rightarrow> elf64_header" where
  "elf_ehdr file = parse_ehdr (take 64 file)"

definition elf_phdr :: "bytes \<Rightarrow> u16 \<Rightarrow> elf64_phdr" where
  "elf_phdr file i =
     (let off = unat (e_phoff (elf_ehdr file) + ucast i * ucast (e_phentsize (elf_ehdr file)))
      in parse_phdr (subslice off (off + 56) file))"

definition elf_phdrs :: "bytes \<Rightarrow> elf64_phdr list" where
  "elf_phdrs file = map (\<lambda>i. elf_phdr file (of_nat i)) [0..<unat (e_phnum (elf_ehdr file))]"

text \<open>A later segment covers an earlier one.\<close>

definition elf_image :: "bytes \<Rightarrow> u64 \<Rightarrow> (nat \<Rightarrow> u8) \<Rightarrow> elf64_phdr list \<Rightarrow> nat \<Rightarrow> u8" where
  "elf_image file himem mem phs a =
     foldl (\<lambda>b ph. case seg_byte file himem ph a of None \<Rightarrow> b | Some x \<Rightarrow> x) (mem a) phs"

text \<open>A file the loader accepts on a machine of \<open>ram\<close> bytes of RAM.\<close>

definition phdr_ok :: "bytes \<Rightarrow> u64 \<Rightarrow> nat \<Rightarrow> elf64_phdr \<Rightarrow> bool" where
  "phdr_ok file himem ram ph \<longleftrightarrow> (is_load ph \<longrightarrow>
     p_filesz ph \<le> p_memsz ph \<and> unat (p_offset ph) + unat (p_filesz ph) \<le> length file \<and>
     seg_start himem ph + unat (p_memsz ph) \<le> ram)"

definition elf_ok :: "bytes \<Rightarrow> u64 \<Rightarrow> nat \<Rightarrow> bool" where
  "elf_ok file himem ram \<longleftrightarrow>
     64 \<le> length file \<and> length file < 2 ^ 63 \<and> take 4 file = ELF_MAGIC \<and> file ! 4 = 2 \<and>
     unat (e_phoff (elf_ehdr file)) + (unat (e_phnum (elf_ehdr file)) - 1) * unat (e_phentsize (elf_ehdr file)) + 56
       \<le> length file \<and>
     list_all (phdr_ok file himem ram) (elf_phdrs file)"

section \<open>Lemmas\<close>

lemma file_read_Inr:
  "file_read f off n = Inr d \<Longrightarrow> d = subslice (unat off) (unat off + n) (kf_bytes f) \<and>
     unat off + n \<le> length (kf_bytes f)"
  by (auto simp: file_read_def split: if_splits option.splits)

lemma file_read_ok:
  "kf_error f off n = None \<Longrightarrow> unat off + n \<le> length (kf_bytes f) \<Longrightarrow> length (kf_bytes f) < 2 ^ 63 \<Longrightarrow>
   file_read f off n = Inr (subslice (unat off) (unat off + n) (kf_bytes f))"
  by (simp add: file_read_def)

lemma vec_zeroed_Some: "vec_zeroed alloc n = Some z \<Longrightarrow> z = replicate (unat n) 0"
  by (auto simp: vec_zeroed_def split: if_splits)

lemma write_at_bytes:
  "write_at m a d = Inr m' \<Longrightarrow> unat a + length d \<le> unat (gm_size m) \<and> gm_size m' = gm_size m \<and>
     gm_bytes m' k = (if unat a \<le> k \<and> k < unat a + length d then d ! (k - unat a) else gm_bytes m k)"
  by (auto simp: write_at_Inr_iff in_ram_def store_bytes_def)

lemma copy_segment_Inr:
  assumes "copy_segment alloc f m ph la = Some (Inr m')"
  shows "gm_size m' = gm_size m" "0 < p_filesz ph \<Longrightarrow> unat la + unat (p_filesz ph) \<le> unat (gm_size m)"
    "gm_bytes m' k = (if unat la \<le> k \<and> k < unat la + unat (p_filesz ph)
       then kf_bytes f ! (unat (p_offset ph) + (k - unat la)) else gm_bytes m k)"
proof -
  have "gm_size m' = gm_size m \<and> (0 < p_filesz ph \<longrightarrow> unat la + unat (p_filesz ph) \<le> unat (gm_size m)) \<and>
    gm_bytes m' k = (if unat la \<le> k \<and> k < unat la + unat (p_filesz ph)
       then kf_bytes f ! (unat (p_offset ph) + (k - unat la)) else gm_bytes m k)"
  proof (cases "0 < p_filesz ph")
    case True
    then obtain seg d where s: "vec_zeroed alloc (p_filesz ph) = Some seg"
      and d: "file_read f (p_offset ph) (length seg) = Inr d" and w: "write_at m la d = Inr m'"
      using assms by (auto simp: copy_segment_def split: if_splits Option.bind_splits sum.splits)
    have n: "length seg = unat (p_filesz ph)" using vec_zeroed_Some[OF s] by simp
    from file_read_Inr[OF d] have d': "length d = unat (p_filesz ph)"
      and b: "\<And>i. i < unat (p_filesz ph) \<Longrightarrow> d ! i = kf_bytes f ! (unat (p_offset ph) + i)"
      by (auto simp: n nth_subslice)
    show ?thesis using write_at_bytes[OF w, of k] by (auto simp: d' b)
  next
    case False
    then have "p_filesz ph = 0" using word_gt_0[of "p_filesz ph"] by simp
    then show ?thesis using assms by (auto simp: copy_segment_def)
  qed
  then show "gm_size m' = gm_size m" "0 < p_filesz ph \<Longrightarrow> unat la + unat (p_filesz ph) \<le> unat (gm_size m)"
    "gm_bytes m' k = (if unat la \<le> k \<and> k < unat la + unat (p_filesz ph)
       then kf_bytes f ! (unat (p_offset ph) + (k - unat la)) else gm_bytes m k)" by blast+
qed

lemma zero_bss_Inr:
  assumes "zero_bss oc alloc m ph la = Some (Inr m')" and "unat la + unat (p_filesz ph) < 2 ^ 64"
  shows "gm_size m' = gm_size m"
    "gm_bytes m' k = (if unat la + unat (p_filesz ph) \<le> k \<and> k < unat la + unat (p_memsz ph) then 0 else gm_bytes m k)"
proof -
  have "gm_size m' = gm_size m \<and>
    gm_bytes m' k = (if unat la + unat (p_filesz ph) \<le> k \<and> k < unat la + unat (p_memsz ph) then 0 else gm_bytes m k)"
  proof (cases "p_filesz ph < p_memsz ph")
    case True
    then obtain b l z where "rs_add oc la (p_filesz ph) = Some b" "rs_sub oc (p_memsz ph) (p_filesz ph) = Some l"
      and z: "vec_zeroed alloc l = Some z" and w: "write_at m b z = Inr m'"
      using assms(1) by (auto simp: zero_bss_def split: Option.bind_splits sum.splits)
    then have b: "b = la + p_filesz ph" and l: "l = p_memsz ph - p_filesz ph"
      by (auto dest: rs_add_Some rs_sub_Some)
    have le: "p_filesz ph \<le> p_memsz ph" using True by simp
    have ub: "unat b = unat la + unat (p_filesz ph)" using assms(2) by (simp add: b unat_plus_no_overflow)
    have ul: "unat l = unat (p_memsz ph) - unat (p_filesz ph)" unfolding l by (rule unat_sub[OF le])
    have ll: "unat (p_filesz ph) \<le> unat (p_memsz ph)" using le by (simp add: word_le_nat_alt)
    show ?thesis using write_at_bytes[OF w, of k] ll by (auto simp: ub ul vec_zeroed_Some[OF z])
  next
    case False
    then have "unat (p_memsz ph) \<le> unat (p_filesz ph)" by (simp add: word_less_nat_alt)
    then show ?thesis using assms(1) False by (auto simp: zero_bss_def)
  qed
  then show "gm_size m' = gm_size m" "gm_bytes m' k =
    (if unat la + unat (p_filesz ph) \<le> k \<and> k < unat la + unat (p_memsz ph) then 0 else gm_bytes m k)" by blast+
qed

lemma load_segment_Inr:
  fixes f :: "'e kfile"
  assumes "load_segment oc alloc f himem m ph = Some (Inr m')"
  shows "gm_size m' = gm_size m \<and>
     gm_bytes m' a = (case seg_byte (kf_bytes f) himem ph a of None \<Rightarrow> gm_bytes m a | Some x \<Rightarrow> x)"
proof (cases "is_load ph")
  case True
  let ?la = "max (p_paddr ph) himem"
  obtain m1 where m1: "copy_segment alloc f m ph ?la = Some (Inr m1)"
    and z: "zero_bss oc alloc m1 ph ?la = (Some (Inr m') :: ('e elf_error + _) option)"
    using assms True by (auto simp: load_segment_def Let_def split: Option.bind_splits if_splits sum.splits)
  have "unat ?la + unat (p_filesz ph) < 2 ^ 64"
  proof (cases "0 < p_filesz ph")
    case True
    then show ?thesis using copy_segment_Inr(2)[OF m1 True] unat_bound[of "gm_size m"] by simp
  next
    case False
    then have "p_filesz ph = 0" using word_gt_0[of "p_filesz ph"] by simp
    then show ?thesis using unat_bound[of ?la] by simp
  qed
  note c = copy_segment_Inr[OF m1] and b = zero_bss_Inr[OF z this]
  show ?thesis using c(1) b(1) by (auto simp: b(2) c(3) seg_byte_def seg_start_def Let_def True)
next
  case False
  then show ?thesis using assms by (simp add: load_segment_def seg_byte_def)
qed

lemma load_segments_Inr:
  fixes f :: "'e kfile"
  assumes "load_segments oc alloc f himem ehdr m is = Some (Inr m')" and "ehdr = elf_ehdr (kf_bytes f)"
  shows "gm_size m' = gm_size m \<and> gm_bytes m' a = elf_image (kf_bytes f) himem (gm_bytes m) (map (elf_phdr (kf_bytes f)) is) a"
  using assms(1)
proof (induction "is" arbitrary: m)
  case Nil
  then show ?case by (simp add: elf_image_def)
next
  case (Cons i "is")
  from Cons.prems obtain s off b m1 where s: "rs_mul oc (ucast i) (ucast (e_phentsize ehdr)) = Some s"
    "rs_add oc (e_phoff ehdr) s = Some off" and b: "file_read f off 56 = Inr b"
    and m1: "load_segment oc alloc f himem m (parse_phdr b) = Some (Inr m1)"
    and r: "load_segments oc alloc f himem ehdr m1 is = Some (Inr m')"
    by (auto split: Option.bind_splits sum.splits)
  have "off = e_phoff ehdr + ucast i * ucast (e_phentsize ehdr)"
    using s by (auto simp: rs_mul_def checked_mul_def dest: rs_add_Some split: if_splits)
  then have ph: "parse_phdr b = elf_phdr (kf_bytes f) i"
    using file_read_Inr[OF b] assms(2) by (simp add: elf_phdr_def Let_def)
  show ?case
    using Cons.IH[OF r] load_segment_Inr[OF m1, of a] by (simp add: ph elf_image_def)
qed

text \<open>Loading succeeds on a file within its bounds.\<close>

lemma write_at_ok: "unat a + length d \<le> unat (gm_size m) \<Longrightarrow> \<exists>m'. write_at m a d = Inr m'"
  by (simp add: gm.wr_Inr_iff)

lemma load_segment_ok:
  fixes f :: "'e kfile"
  assumes "phdr_ok (kf_bytes f) himem (unat (gm_size m)) ph" and "length (kf_bytes f) < 2 ^ 63"
    and "\<And>off n. kf_error f off n = None" and "\<And>n. n \<le> unat (gm_size m) \<Longrightarrow> alloc n" and "unat (gm_size m) < 2 ^ 63"
  shows "\<exists>m'. load_segment oc alloc f himem m ph = Some (Inr m')"
proof (cases "is_load ph")
  case True
  let ?la = "max (p_paddr ph) himem"
  have le: "unat (p_filesz ph) \<le> unat (p_memsz ph)" and off: "unat (p_offset ph) + unat (p_filesz ph) \<le> length (kf_bytes f)"
    and e: "unat ?la + unat (p_memsz ph) \<le> unat (gm_size m)"
    using assms(1) True by (auto simp: phdr_ok_def seg_start_def word_le_nat_alt)
  have add: "rs_add oc ?la (p_memsz ph) = Some (?la + p_memsz ph)" "rs_add oc ?la (p_filesz ph) = Some (?la + p_filesz ph)"
    using e le unat_bound[of "gm_size m"] by (simp_all add: rs_add_no_overflow)
  have nw: "unat (?la + p_memsz ph) = unat ?la + unat (p_memsz ph)" "unat (?la + p_filesz ph) = unat ?la + unat (p_filesz ph)"
    using e le unat_bound[of "gm_size m"] by (simp_all add: unat_plus_no_overflow)
  have z: "vec_zeroed alloc n = Some (replicate (unat n) 0)" if "unat n \<le> unat (gm_size m)" for n
    using that assms(4,5) by (simp add: vec_zeroed_def)
  have fr: "file_read f (p_offset ph) (unat (p_filesz ph)) =
      Inr (subslice (unat (p_offset ph)) (unat (p_offset ph) + unat (p_filesz ph)) (kf_bytes f))"
    by (rule file_read_ok) (use assms(2,3) off in simp_all)
  have "\<exists>m1. copy_segment alloc f m ph ?la = Some (Inr m1) \<and> gm_size m1 = gm_size m"
  proof (cases "0 < p_filesz ph")
    case True
    obtain m1 where m1: "write_at m ?la (subslice (unat (p_offset ph)) (unat (p_offset ph) + unat (p_filesz ph)) (kf_bytes f)) = Inr m1"
      using write_at_ok[of ?la _ m] off e le by fastforce
    have "copy_segment alloc f m ph ?la = Some (Inr m1)"
      using off assms(2) e le True by (simp add: copy_segment_def z fr m1)
    then show ?thesis using write_at_size[OF m1] by blast
  qed (simp add: copy_segment_def)
  then obtain m1 where m1: "copy_segment alloc f m ph ?la = Some (Inr m1)" "gm_size m1 = gm_size m" by blast
  have "\<exists>m'. zero_bss oc alloc m1 ph ?la = (Some (Inr m') :: ('e elf_error + _) option)"
  proof (cases "p_filesz ph < p_memsz ph")
    case True
    then have l: "p_filesz ph \<le> p_memsz ph" by simp
    have sub: "rs_sub oc (p_memsz ph) (p_filesz ph) = Some (p_memsz ph - p_filesz ph)"
      using l by (simp add: rs_sub_def not_less)
    have ul: "unat (p_memsz ph - p_filesz ph) = unat (p_memsz ph) - unat (p_filesz ph)" by (rule unat_sub[OF l])
    obtain m' where "write_at m1 (?la + p_filesz ph) (replicate (unat (p_memsz ph - p_filesz ph)) 0) = Inr m'"
      using write_at_ok[of "?la + p_filesz ph" "replicate (unat (p_memsz ph - p_filesz ph)) 0" m1] e le m1(2)
      by (auto simp: nw ul)
    then show ?thesis using True e by (simp add: zero_bss_def add sub z ul)
  qed (simp add: zero_bss_def)
  moreover have "\<not> mem_size m < ?la + p_memsz ph"
    using e by (simp add: mem_size_def word_less_nat_alt nw not_less)
  ultimately show ?thesis using True m1(1) by (auto simp: load_segment_def Let_def add)
qed (simp add: load_segment_def)

lemma unat_ucast_u16: "unat (ucast (w :: u16) :: u64) = unat w"
  using unat_bound[of w] by (simp add: unsigned_ucast_eq take_bit_nat_eq_self_iff)

lemma load_segments_ok:
  fixes f :: "'e kfile"
  assumes "list_all (\<lambda>i. phdr_ok (kf_bytes f) himem (unat (gm_size m)) (elf_phdr (kf_bytes f) i) \<and>
        unat (e_phoff ehdr) + unat i * unat (e_phentsize ehdr) + 56 \<le> length (kf_bytes f)) is"
    and "ehdr = elf_ehdr (kf_bytes f)" and "length (kf_bytes f) < 2 ^ 63" and "\<And>off n. kf_error f off n = None"
    and "\<And>n. n \<le> unat (gm_size m) \<Longrightarrow> alloc n" and "unat (gm_size m) < 2 ^ 63"
  shows "\<exists>m'. load_segments oc alloc f himem ehdr m is = Some (Inr m')"
  using assms(1,5,6)
proof (induction "is" arbitrary: m)
  case (Cons i "is")
  let ?s = "ucast i * ucast (e_phentsize ehdr) :: u64"
  have "unat i * unat (e_phentsize ehdr) < 2 ^ 16 * 2 ^ 16"
    by (rule mult_strict_mono) (use unat_bound[of i] unat_bound[of "e_phentsize ehdr"] in simp_all)
  then have us: "unat ?s = unat i * unat (e_phentsize ehdr)"
    and ms: "rs_mul oc (ucast i) (ucast (e_phentsize ehdr)) = Some ?s"
    by (simp_all add: rs_mul_def checked_mul_def unat_word_ariths unat_ucast_u16)
  have b: "unat (e_phoff ehdr) + unat ?s + 56 \<le> length (kf_bytes f)" using Cons.prems(1) by (simp add: us)
  have as: "rs_add oc (e_phoff ehdr) ?s = Some (e_phoff ehdr + ?s)" "unat (e_phoff ehdr + ?s) = unat (e_phoff ehdr) + unat ?s"
    using b assms(3) by (simp_all add: rs_add_no_overflow unat_plus_no_overflow)
  have fr: "file_read f (e_phoff ehdr + ?s) 56 = Inr (subslice (unat (e_phoff ehdr + ?s)) (unat (e_phoff ehdr + ?s) + 56) (kf_bytes f))"
    by (rule file_read_ok) (use assms(3,4) b as in simp_all)
  have ph: "parse_phdr (subslice (unat (e_phoff ehdr + ?s)) (unat (e_phoff ehdr + ?s) + 56) (kf_bytes f)) = elf_phdr (kf_bytes f) i"
    by (simp add: elf_phdr_def Let_def assms(2))
  obtain m1 where m1: "load_segment oc alloc f himem m (elf_phdr (kf_bytes f) i) = Some (Inr m1)"
    using load_segment_ok[of f himem m "elf_phdr (kf_bytes f) i" alloc oc] Cons.prems assms(3,4) by auto
  have sz: "gm_size m1 = gm_size m" using load_segment_Inr[OF m1] by simp
  obtain m' where "load_segments oc alloc f himem ehdr m1 is = Some (Inr m')"
    using Cons.IH[of m1] Cons.prems sz by auto
  then show ?case by (simp add: ms as(1) fr ph m1)
qed simp

lemma parse_ehdr_ident:
  "64 \<le> length file \<Longrightarrow> e_ident_magic (elf_ehdr file) = take 4 file \<and> e_ident_class (elf_ehdr file) = file ! 4"
  by (simp add: elf_ehdr_def parse_ehdr_def subslice_def)

lemma load_elf_kernel_Inr:
  assumes "load_elf_kernel oc alloc f himem m = Some (Inr (entry, m'))"
  shows "entry = e_entry (elf_ehdr (kf_bytes f)) \<and> gm_size m' = gm_size m \<and>
     gm_bytes m' a = elf_image (kf_bytes f) himem (gm_bytes m) (elf_phdrs (kf_bytes f)) a"
proof -
  obtain b where b: "file_read f 0 64 = Inr b"
    using assms by (auto simp: load_elf_kernel_def split: sum.splits)
  then have h: "parse_ehdr b = elf_ehdr (kf_bytes f)" using file_read_Inr[OF b] by (simp add: elf_ehdr_def subslice_def)
  let ?is = "map of_nat [0..<unat (e_phnum (elf_ehdr (kf_bytes f)))]"
  have l: "load_segments oc alloc f himem (elf_ehdr (kf_bytes f)) m ?is = Some (Inr m')"
    and e: "entry = e_entry (elf_ehdr (kf_bytes f))"
    using assms b by (auto simp: load_elf_kernel_def h Let_def split: if_splits Option.bind_splits sum.splits)
  show ?thesis using load_segments_Inr[OF l refl, of a] e by (simp add: elf_phdrs_def o_def)
qed

lemma elf_image_below: "a < unat himem \<Longrightarrow> elf_image file himem mem phs a = mem a"
proof (induction phs arbitrary: mem)
  case (Cons ph phs)
  have "unat himem \<le> seg_start himem ph" by (simp add: seg_start_def flip: word_le_nat_alt)
  then have "seg_byte file himem ph a = None" using Cons.prems by (simp add: seg_byte_def)
  then show ?case using Cons by (simp add: elf_image_def)
qed (simp add: elf_image_def)

lemma load_elf_kernel_ok:
  assumes "elf_ok (kf_bytes f) himem (unat (gm_size m))" and "\<And>off n. kf_error f off n = None"
    and "\<And>n. n \<le> unat (gm_size m) \<Longrightarrow> alloc n" and "unat (gm_size m) < 2 ^ 63"
  shows "\<exists>e m'. load_elf_kernel oc alloc f himem m = Some (Inr (e, m'))"
proof -
  let ?h = "elf_ehdr (kf_bytes f)"
  have len: "64 \<le> length (kf_bytes f)" "length (kf_bytes f) < 2 ^ 63" using assms(1) by (auto simp: elf_ok_def)
  have fr: "file_read f 0 64 = Inr (take 64 (kf_bytes f))"
    using file_read_ok[OF assms(2), of 0 64] len by (simp add: subslice_def)
  have idx: "unat (of_nat i :: u16) = i" if "i < unat (e_phnum ?h)" for i
    using that unat_bound[of "e_phnum ?h"] by (simp add: unat_of_nat)
  have "list_all (\<lambda>i. phdr_ok (kf_bytes f) himem (unat (gm_size m)) (elf_phdr (kf_bytes f) i) \<and>
      unat (e_phoff ?h) + unat i * unat (e_phentsize ?h) + 56 \<le> length (kf_bytes f)) (map of_nat [0..<unat (e_phnum ?h)])"
  proof -
    have "phdr_ok (kf_bytes f) himem (unat (gm_size m)) (elf_phdr (kf_bytes f) (of_nat i))"
      and "unat (e_phoff ?h) + i * unat (e_phentsize ?h) + 56 \<le> length (kf_bytes f)"
      if i: "i < unat (e_phnum ?h)" for i
    proof -
      show "phdr_ok (kf_bytes f) himem (unat (gm_size m)) (elf_phdr (kf_bytes f) (of_nat i))"
        using assms(1) i by (simp add: elf_ok_def list_all_iff elf_phdrs_def)
      have "i * unat (e_phentsize ?h) \<le> (unat (e_phnum ?h) - 1) * unat (e_phentsize ?h)"
        using i by (intro mult_right_mono) linarith+
      then show "unat (e_phoff ?h) + i * unat (e_phentsize ?h) + 56 \<le> length (kf_bytes f)"
        using assms(1) unfolding elf_ok_def by linarith
    qed
    then show ?thesis by (simp add: list_all_iff idx)
  qed
  then have "\<exists>m'. load_segments oc alloc f himem ?h m (map of_nat [0..<unat (e_phnum ?h)]) = Some (Inr m')"
    by (rule load_segments_ok) (use len(2) assms(2,3,4) in simp_all)
  moreover have "parse_ehdr (take 64 (kf_bytes f)) = ?h" by (simp add: elf_ehdr_def)
  ultimately show ?thesis
    using assms(1) parse_ehdr_ident[OF len(1)] by (auto simp: load_elf_kernel_def fr Let_def elf_ok_def)
qed

section \<open>Properties\<close>

text \<open>
  C21. A well-formed ELF kernel is loaded: when the headers and the file data of every loadable segment
  lie in the file and every segment ends inside RAM, loading succeeds in every build, returns the entry
  point, and leaves in memory at every address the byte of the last segment that covers it (file data
  first, zeros up to the segment's memory size) and the old byte where none does.
\<close>

theorem elf_kernel_loaded:
  assumes "elf_ok (kf_bytes f) himem (unat (gm_size m))" and "kf_error f = (\<lambda>_ _. None)"
    and "\<forall>n. n \<le> unat (gm_size m) \<longrightarrow> alloc n" and "unat (gm_size m) < 2 ^ 63"
  shows "\<exists>m'. load_elf_kernel oc alloc f himem m = Some (Inr (e_entry (elf_ehdr (kf_bytes f)), m')) \<and>
     gm_size m' = gm_size m \<and>
     (\<forall>a. gm_bytes m' a = elf_image (kf_bytes f) himem (gm_bytes m) (elf_phdrs (kf_bytes f)) a)"
proof -
  obtain e m' where l: "load_elf_kernel oc alloc f himem m = Some (Inr (e, m'))"
    using load_elf_kernel_ok[OF assms(1), of alloc oc] assms(2-4) by auto
  then show ?thesis using load_elf_kernel_Inr[OF l] by auto
qed

text \<open>A file of one segment: four bytes of code at 1 MiB and two bytes of zeros.\<close>

definition tiny_elf :: bytes where
  "tiny_elf = [
      0x7f, 0x45, 0x4c, 0x46, 2, 1, 1, 0, 0, 0, 0, 0, 0, 0, 0, 0, 2, 0, 0x3e, 0, 1, 0, 0, 0, 2, 0,
      0x10, 0, 0, 0, 0, 0, 0x40, 0, 0, 0, 0, 0, 0, 0, 0, 0, 0, 0, 0, 0, 0, 0, 0, 0, 0, 0, 0x40, 0,
      0x38, 0, 1, 0, 0, 0, 0, 0, 0, 0, 1, 0, 0, 0, 5, 0, 0, 0, 0x78, 0, 0, 0, 0, 0, 0, 0, 0, 0,
      0x10, 0, 0, 0, 0, 0, 0, 0, 0x10, 0, 0, 0, 0, 0, 4, 0, 0, 0, 0, 0, 0, 0, 6, 0, 0, 0, 0, 0, 0,
      0, 0, 0x10, 0, 0, 0, 0, 0, 0, 0x90, 0x90, 0xf4, 0xc3]"

lemma tiny_ehdr:
  "take 4 tiny_elf = ELF_MAGIC" "tiny_elf ! 4 = 2" "length tiny_elf = 124" "e_entry (elf_ehdr tiny_elf) = 0x100002"
  "e_phoff (elf_ehdr tiny_elf) = 64" "e_phentsize (elf_ehdr tiny_elf) = 56" "e_phnum (elf_ehdr tiny_elf) = 1"
  by (simp_all add: tiny_elf_def ELF_MAGIC_def elf_ehdr_def parse_ehdr_def subslice_def)

lemma tiny_phdrs:
  "elf_phdrs tiny_elf =
     [\<lparr>p_type = 1, p_flags = 5, p_offset = 120, p_vaddr = 0x100000, p_paddr = 0x100000, p_filesz = 4, p_memsz = 6,
       p_align = 0x1000\<rparr>]"
proof -
  have "subslice 64 120 tiny_elf = [1, 0, 0, 0, 5, 0, 0, 0, 0x78, 0, 0, 0, 0, 0, 0, 0, 0, 0, 0x10, 0, 0, 0, 0, 0, 0, 0, 0x10,
      0, 0, 0, 0, 0, 4, 0, 0, 0, 0, 0, 0, 0, 6, 0, 0, 0, 0, 0, 0, 0, 0, 0x10, 0, 0, 0, 0, 0, 0]"
    by (simp add: tiny_elf_def subslice_def)
  then show ?thesis by (simp add: elf_phdrs_def elf_phdr_def tiny_ehdr Let_def) (simp add: parse_phdr_def subslice_def)
qed

lemma tiny_elf_ok: "elf_ok tiny_elf 0x100000 0x101000"
  by (simp add: elf_ok_def tiny_ehdr tiny_phdrs phdr_ok_def seg_start_def)

theorem elf_kernel_loaded_witness:
  "\<exists>m'. load_elf_kernel True (\<lambda>n. n < 2 ^ 32) \<lparr>kf_bytes = tiny_elf, kf_error = \<lambda>_ _. None :: unit option\<rparr> 0x100000
       \<lparr>gm_ptr = 0x1000, gm_size = 0x101000, gm_bytes = \<lambda>_. 7\<rparr> = Some (Inr (0x100002, m')) \<and>
     map (gm_bytes m') [0xfffff, 0x100000, 0x100002, 0x100004, 0x100005, 0x100006] = [7, 0x90, 0xf4, 0, 0, 7]"
proof -
  let ?f = "\<lparr>kf_bytes = tiny_elf, kf_error = \<lambda>_ _. None :: unit option\<rparr>"
  let ?m = "\<lparr>gm_ptr = 0x1000, gm_size = 0x101000, gm_bytes = \<lambda>_. 7\<rparr> :: guest_memory"
  obtain m' where l: "load_elf_kernel True (\<lambda>n. n < 2 ^ 32) ?f 0x100000 ?m = Some (Inr (e_entry (elf_ehdr tiny_elf), m'))"
    and b: "\<And>a. gm_bytes m' a = elf_image tiny_elf 0x100000 (\<lambda>_. 7) (elf_phdrs tiny_elf) a"
    using elf_kernel_loaded[where f = ?f and himem = "0x100000" and m = ?m and alloc = "\<lambda>n. n < 2 ^ 32" and oc = True] tiny_elf_ok
    by auto
  have "map (gm_bytes m') [0xfffff, 0x100000, 0x100002, 0x100004, 0x100005, 0x100006] = [7, 0x90, 0xf4, 0, 0, 7]"
    unfolding b elf_image_def tiny_phdrs list.map
    by (simp add: seg_byte_def seg_start_def is_load_def) (simp add: tiny_elf_def)
  then show ?thesis using l by (auto simp: tiny_ehdr)
qed

text \<open>
  C22. Loading an ELF kernel never writes below 1 MiB, where the boot structures live: whatever the file
  holds, when loading succeeds every byte below \<open>himem_start\<close> and the size of memory are as before.
\<close>

theorem elf_load_confined:
  assumes "load_elf_kernel oc alloc f himem_start m = Some (Inr (entry, m'))" and "a < unat himem_start"
  shows "gm_bytes m' a = gm_bytes m a \<and> gm_size m' = gm_size m"
  using load_elf_kernel_Inr[OF assms(1), of a] elf_image_below[OF assms(2)] by simp

theorem elf_load_confined_witness:
  "\<exists>entry m'. load_elf_kernel False (\<lambda>n. n < 2 ^ 32) \<lparr>kf_bytes = tiny_elf, kf_error = \<lambda>_ _. None :: unit option\<rparr> 0x100000
       \<lparr>gm_ptr = 0x1000, gm_size = 0x101000, gm_bytes = \<lambda>_. 7\<rparr> = Some (Inr (entry, m')) \<and> gm_bytes m' 0x7000 = 7"
proof -
  let ?f = "\<lparr>kf_bytes = tiny_elf, kf_error = \<lambda>_ _. None :: unit option\<rparr>"
  let ?m = "\<lparr>gm_ptr = 0x1000, gm_size = 0x101000, gm_bytes = \<lambda>_. 7\<rparr> :: guest_memory"
  obtain e m' where l: "load_elf_kernel False (\<lambda>n. n < 2 ^ 32) ?f 0x100000 ?m = Some (Inr (e, m'))"
    using load_elf_kernel_ok[where f = ?f and himem = "0x100000" and m = ?m and alloc = "\<lambda>n. n < 2 ^ 32" and oc = False] tiny_elf_ok
    by auto
  have "(0x7000 :: nat) < unat (0x100000 :: u64)" by simp
  from elf_load_confined[OF l this] show ?thesis using l by auto
qed

text \<open>
  C35. A loadable segment without file data whose end address wraps around. With overflow
  checks the addition panics. A release build refuses the segment as too large only when the
  wrapped end is beyond the guest's memory; otherwise the size goes on to the allocation of
  the zeros, which panics for sizes a vector cannot have or the host cannot give, and a size
  it can give ends in the overflow error of guest memory. No build loads such a segment.
\<close>

theorem elf_size_wrap_panics:
  assumes "is_load ph" and "p_filesz ph = 0" and "2 ^ 64 \<le> seg_start himem ph + unat (p_memsz ph)"
  shows "load_segment True alloc f himem m ph = None \<and>
     load_segment False alloc f himem m ph =
       (if mem_size m < max (p_paddr ph) himem + p_memsz ph then Some (Inl SegmentTooLarge)
        else if 2 ^ 63 \<le> unat (p_memsz ph) \<or> \<not> alloc (unat (p_memsz ph)) then None
        else Some (Inl (SegmentWrite (AddressOverflow OpWrite (max (p_paddr ph) himem) (unat (p_memsz ph))))))"
proof -
  have pos: "0 < p_memsz ph" using assms(3) unat_bound[of "max (p_paddr ph) himem"] by (auto simp: seg_start_def word_less_nat_alt)
  have "write_at m (max (p_paddr ph) himem) (replicate (unat (p_memsz ph)) 0) =
      Inl (AddressOverflow OpWrite (max (p_paddr ph) himem) (unat (p_memsz ph)))"
    using assms(3) by (simp add: write_at_def checked_hva_def Let_def seg_start_def)
  then show ?thesis
    using assms pos by (simp add: load_segment_def Let_def rs_add_def checked_add_def seg_start_def copy_segment_def
        zero_bss_def rs_sub_def vec_zeroed_def)
qed

theorem elf_size_wrap_panics_witness:
  "load_segment True (\<lambda>n. n < 2 ^ 32) \<lparr>kf_bytes = [], kf_error = \<lambda>_ _. None :: unit option\<rparr> 0x100000
     \<lparr>gm_ptr = 0x1000, gm_size = 0x101000, gm_bytes = \<lambda>_. 0\<rparr>
     \<lparr>p_type = 1, p_flags = 6, p_offset = 0, p_vaddr = 0x100000, p_paddr = 0x100000, p_filesz = 0,
      p_memsz = 0xfffffffffff00000, p_align = 0x1000\<rparr> = None \<and>
   load_segment False (\<lambda>n. n < 2 ^ 32) \<lparr>kf_bytes = [], kf_error = \<lambda>_ _. None :: unit option\<rparr> 0x100000
     \<lparr>gm_ptr = 0x1000, gm_size = 0x101000, gm_bytes = \<lambda>_. 0\<rparr>
     \<lparr>p_type = 1, p_flags = 6, p_offset = 0, p_vaddr = 0x100000, p_paddr = 0x100000, p_filesz = 0,
      p_memsz = 0xfffffffffff00000, p_align = 0x1000\<rparr> = None \<and>
   load_segment False (\<lambda>n. n < 2 ^ 32) \<lparr>kf_bytes = [], kf_error = \<lambda>_ _. None :: unit option\<rparr> 0x100000
     \<lparr>gm_ptr = 0x1000, gm_size = 0x800, gm_bytes = \<lambda>_. 0\<rparr>
     \<lparr>p_type = 1, p_flags = 6, p_offset = 0, p_vaddr = 0, p_paddr = 0xfffffffffffff000, p_filesz = 0,
      p_memsz = 0x2000, p_align = 0x1000\<rparr> = Some (Inl SegmentTooLarge)"
proof (intro conjI)
  let ?a = "\<lambda>n :: nat. n < 2 ^ 32"
  let ?f = "\<lparr>kf_bytes = [], kf_error = \<lambda>_ _. None :: unit option\<rparr>"
  let ?m = "\<lambda>n. \<lparr>gm_ptr = 0x1000, gm_size = n, gm_bytes = \<lambda>_. 0\<rparr> :: guest_memory"
  let ?ph = "\<lparr>p_type = 1, p_flags = 6, p_offset = 0, p_vaddr = 0x100000, p_paddr = 0x100000, p_filesz = 0,
      p_memsz = 0xfffffffffff00000, p_align = 0x1000\<rparr>"
  let ?top = "\<lparr>p_type = 1, p_flags = 6, p_offset = 0, p_vaddr = 0, p_paddr = 0xfffffffffffff000, p_filesz = 0,
      p_memsz = 0x2000, p_align = 0x1000\<rparr>"
  note w = elf_size_wrap_panics[where alloc = ?a and f = ?f and himem = "0x100000"]
  have h: "is_load ?ph" "p_filesz ?ph = 0" "2 ^ 64 \<le> seg_start 0x100000 ?ph + unat (p_memsz ?ph)"
    "is_load ?top" "p_filesz ?top = 0" "2 ^ 64 \<le> seg_start 0x100000 ?top + unat (p_memsz ?top)"
    by (simp_all add: is_load_def seg_start_def max_def)
  show "load_segment True ?a ?f 0x100000 (?m 0x101000) ?ph = None" using w[OF h(1-3)] by blast
  show "load_segment False ?a ?f 0x100000 (?m 0x101000) ?ph = None"
    using w[OF h(1-3), where m = "?m 0x101000"] by (simp add: mem_size_def)
  show "load_segment False ?a ?f 0x100000 (?m 0x800) ?top = Some (Inl SegmentTooLarge)"
    using w[OF h(4-6), where m = "?m 0x800"] by (simp add: mem_size_def max_def)
qed

end
