(* ===== verification/BootParams.thy ===== *)
theory BootParams
  imports Prelude
begin

text \<open>
  The Linux boot parameters (\<open>src/bootparams.rs\<close>): the packed structures of the zero page, each as
  the list of its fields and their sizes in the order of the source. A value of a structure is its
  bytes; a field is read and written at the offset the layout gives it. Structures that hold others
  take their sizes from them, so the offsets of the zero page come out of the declarations, as they do
  in the compiler.
\<close>

section \<open>Layouts\<close>

type_synonym layout = "(string \<times> nat) list"

definition layout_size :: "layout \<Rightarrow> nat" where
  "layout_size l = sum_list (map snd l)"

definition union_size :: "layout \<Rightarrow> nat" where
  "union_size l = foldr max (map snd l) 0"

fun offset_of :: "layout \<Rightarrow> string \<Rightarrow> nat" where
  "offset_of [] f = 0"
| "offset_of ((g, n) # l) f = (if g = f then 0 else n + offset_of l f)"

fun field_size :: "layout \<Rightarrow> string \<Rightarrow> nat" where
  "field_size [] f = 0"
| "field_size ((g, n) # l) f = (if g = f then n else field_size l f)"

definition get_field :: "layout \<Rightarrow> string \<Rightarrow> bytes \<Rightarrow> bytes" where
  "get_field l f bs = subslice (offset_of l f) (offset_of l f + field_size l f) bs"

definition set_field :: "layout \<Rightarrow> string \<Rightarrow> bytes \<Rightarrow> bytes \<Rightarrow> bytes" where
  "set_field l f v bs = patch_at (offset_of l f) v bs"

section \<open>Constants\<close>

definition EDD_MBR_SIG_MAX :: nat where "EDD_MBR_SIG_MAX = 16"
definition EDDMAXNR :: nat where "EDDMAXNR = 6"
definition KERNEL_TYPE_OF_LOADER :: u8 where "KERNEL_TYPE_OF_LOADER = 0xff"
definition KERNEL_BOOT_FLAG_MAGIC_NUMBER :: u16 where "KERNEL_BOOT_FLAG_MAGIC_NUMBER = 0xaa55"
definition KERNEL_HDR_MAGIC_NUMBER :: u32 where "KERNEL_HDR_MAGIC_NUMBER = 0x53726448"
definition KERNEL_MIN_ALIGNMENT_BYTES :: u32 where "KERNEL_MIN_ALIGNMENT_BYTES = 0x01000000"
definition E820_RAM :: u32 where "E820_RAM = 1"
definition E820_RESERVED :: u32 where "E820_RESERVED = 2"
definition E820_MAX_ENTRIES_ZEROPAGE :: nat where "E820_MAX_ENTRIES_ZEROPAGE = 128"

section \<open>Structures\<close>

definition screen_info_layout :: layout where
  "screen_info_layout =
    [(''orig_x'', 1), (''orig_y'', 1), (''ext_mem_k'', 2), (''orig_video_page'', 2),
     (''orig_video_mode'', 1), (''orig_video_cols'', 1), (''flags'', 1), (''unused2'', 1),
     (''orig_video_ega_bx'', 2), (''unused3'', 2), (''orig_video_lines'', 1),
     (''orig_video_isvga'', 1), (''orig_video_points'', 2), (''lfb_width'', 2), (''lfb_height'', 2),
     (''lfb_depth'', 2), (''lfb_base'', 4), (''lfb_size'', 4), (''cl_magic'', 2), (''cl_offset'', 2),
     (''lfb_linelength'', 2), (''red_size'', 1), (''red_pos'', 1), (''green_size'', 1),
     (''green_pos'', 1), (''blue_size'', 1), (''blue_pos'', 1), (''rsvd_size'', 1), (''rsvd_pos'', 1),
     (''vesapm_seg'', 2), (''vesapm_off'', 2), (''pages'', 2), (''vesa_attributes'', 2),
     (''capabilities'', 4), (''ext_lfb_base'', 4), (''_reserved'', 2)]"

definition apm_bios_info_layout :: layout where
  "apm_bios_info_layout =
    [(''version'', 2), (''cseg'', 2), (''offset'', 4), (''cseg_16'', 2), (''dseg'', 2), (''flags'', 2),
     (''cseg_len'', 2), (''cseg_16_len'', 2), (''dseg_len'', 2)]"

definition ist_info_layout :: layout where
  "ist_info_layout =
    [(''signature'', 4), (''command'', 4), (''event'', 4), (''perf_level'', 4)]"

definition sys_desc_table_layout :: layout where
  "sys_desc_table_layout =
    [(''length'', 2), (''table'', 14)]"

definition olpc_ofw_header_layout :: layout where
  "olpc_ofw_header_layout =
    [(''ofw_magic'', 4), (''ofw_version'', 4), (''cif_handler'', 4), (''irq_desc_table'', 4)]"

definition edid_info_layout :: layout where
  "edid_info_layout =
    [(''dummy'', 128)]"

definition efi_info_layout :: layout where
  "efi_info_layout =
    [(''efi_loader_signature'', 4), (''efi_systab'', 4), (''efi_memdesc_size'', 4),
     (''efi_memdesc_version'', 4), (''efi_memmap'', 4), (''efi_memmap_size'', 4),
     (''efi_systab_hi'', 4), (''efi_memmap_hi'', 4)]"

definition setup_header_layout :: layout where
  "setup_header_layout =
    [(''setup_sects'', 1), (''root_flags'', 2), (''syssize'', 4), (''ram_size'', 2), (''vid_mode'', 2),
     (''root_dev'', 2), (''boot_flag'', 2), (''jump'', 2), (''header'', 4), (''version'', 2),
     (''realmode_swtch'', 4), (''start_sys_seg'', 2), (''kernel_version'', 2), (''type_of_loader'', 1),
     (''loadflags'', 1), (''setup_move_size'', 2), (''code32_start'', 4), (''ramdisk_image'', 4),
     (''ramdisk_size'', 4), (''bootsect_kludge'', 4), (''heap_end_ptr'', 2), (''ext_loader_ver'', 1),
     (''ext_loader_type'', 1), (''cmd_line_ptr'', 4), (''initrd_addr_max'', 4),
     (''kernel_alignment'', 4), (''relocatable_kernel'', 1), (''min_alignment'', 1),
     (''xloadflags'', 2), (''cmdline_size'', 4), (''hardware_subarch'', 4),
     (''hardware_subarch_data'', 8), (''payload_offset'', 4), (''payload_length'', 4),
     (''setup_data'', 8), (''pref_address'', 8), (''init_size'', 4), (''handover_offset'', 4),
     (''kernel_info_offset'', 4)]"

definition e820_entry_layout :: layout where
  "e820_entry_layout =
    [(''addr'', 8), (''size'', 8), (''entry_type'', 4)]"

definition interface_path_isa_layout :: layout where
  "interface_path_isa_layout =
    [(''base_address'', 2), (''reserved1'', 2), (''reserved2'', 4)]"

definition interface_path_pci_layout :: layout where
  "interface_path_pci_layout =
    [(''bus'', 1), (''slot'', 1), (''function'', 1), (''channel'', 1), (''reserved'', 4)]"

definition interface_path_ibnd_layout :: layout where
  "interface_path_ibnd_layout =
    [(''reserved'', 8)]"

definition interface_path_xprs_layout :: layout where
  "interface_path_xprs_layout =
    [(''reserved'', 8)]"

definition interface_path_htpt_layout :: layout where
  "interface_path_htpt_layout =
    [(''reserved'', 8)]"

definition interface_path_unknown_layout :: layout where
  "interface_path_unknown_layout =
    [(''reserved'', 8)]"

definition interface_path_layout :: layout where
  "interface_path_layout =
    [(''isa'', layout_size interface_path_isa_layout),
     (''pci'', layout_size interface_path_pci_layout),
     (''ibnd'', layout_size interface_path_ibnd_layout),
     (''xprs'', layout_size interface_path_xprs_layout),
     (''htpt'', layout_size interface_path_htpt_layout),
     (''unknown'', layout_size interface_path_unknown_layout)]"

definition device_path_ata_layout :: layout where
  "device_path_ata_layout =
    [(''device'', 1), (''reserved1'', 1), (''reserved2'', 2), (''reserved3'', 4), (''reserved4'', 8)]"

definition device_path_atapi_layout :: layout where
  "device_path_atapi_layout =
    [(''device'', 1), (''lun'', 1), (''reserved1'', 1), (''reserved2'', 1), (''reserved3'', 4),
     (''reserved4'', 8)]"

definition device_path_unknown_layout :: layout where
  "device_path_unknown_layout =
    [(''reserved1'', 8), (''reserved2'', 8)]"

definition device_path_scsi_layout :: layout where
  "device_path_scsi_layout =
    [(''id'', 2), (''lun'', 8), (''reserved1'', 2), (''reserved2'', 4)]"

definition device_path_usb_layout :: layout where
  "device_path_usb_layout =
    [(''serial_number'', 8), (''reserved'', 8)]"

definition device_path_i1394_layout :: layout where
  "device_path_i1394_layout =
    [(''eui'', 8), (''reserved'', 8)]"

definition device_path_fibre_layout :: layout where
  "device_path_fibre_layout =
    [(''wwid'', 8), (''lun'', 8)]"

definition device_path_i2o_layout :: layout where
  "device_path_i2o_layout =
    [(''identity_tag'', 8), (''reserved'', 8)]"

definition device_path_raid_layout :: layout where
  "device_path_raid_layout =
    [(''array_number'', 4), (''reserved1'', 4), (''reserved2'', 8)]"

definition device_path_sata_layout :: layout where
  "device_path_sata_layout =
    [(''device'', 1), (''reserved1'', 1), (''reserved2'', 2), (''reserved3'', 4), (''reserved4'', 8)]"

definition device_path_layout :: layout where
  "device_path_layout =
    [(''ata'', layout_size device_path_ata_layout), (''atapi'', layout_size device_path_atapi_layout),
     (''scsi'', layout_size device_path_scsi_layout), (''usb'', layout_size device_path_usb_layout),
     (''i1394'', layout_size device_path_i1394_layout),
     (''fibre'', layout_size device_path_fibre_layout), (''i2o'', layout_size device_path_i2o_layout),
     (''raid'', layout_size device_path_raid_layout), (''sata'', layout_size device_path_sata_layout),
     (''unknown'', layout_size device_path_unknown_layout)]"

definition edd_device_params_layout :: layout where
  "edd_device_params_layout =
    [(''length'', 2), (''info_flags'', 2), (''num_default_cylinders'', 4), (''num_default_heads'', 4),
     (''sectors_per_track'', 4), (''number_of_sectors'', 8), (''bytes_per_sector'', 2),
     (''dpte_ptr'', 4), (''key'', 2), (''device_path_info_length'', 1), (''reserved2'', 1),
     (''reserved3'', 2), (''host_bus_type'', 4), (''interface_type'', 8),
     (''interface_path'', union_size interface_path_layout),
     (''device_path'', union_size device_path_layout), (''reserved4'', 1), (''checksum'', 1)]"

definition edd_info_layout :: layout where
  "edd_info_layout =
    [(''device'', 1), (''version'', 1), (''interface_support'', 2), (''legacy_max_cylinder'', 2),
     (''legacy_max_head'', 1), (''legacy_sectors_per_track'', 1),
     (''params'', layout_size edd_device_params_layout)]"

definition boot_params_layout :: layout where
  "boot_params_layout =
    [(''screen_info'', layout_size screen_info_layout),
     (''apm_bios_info'', layout_size apm_bios_info_layout), (''_pad2'', 4), (''tboot_addr'', 8),
     (''ist_info'', layout_size ist_info_layout), (''acpi_rsdp_addr'', 8), (''_pad3'', 8),
     (''hd0_info'', 16), (''hd1_info'', 16), (''sys_desc_table'', layout_size sys_desc_table_layout),
     (''olpc_ofw_header'', layout_size olpc_ofw_header_layout), (''ext_ramdisk_image'', 4),
     (''ext_ramdisk_size'', 4), (''ext_cmd_line_ptr'', 4), (''_pad4'', 112), (''cc_blob_address'', 4),
     (''edid_info'', layout_size edid_info_layout), (''efi_info'', layout_size efi_info_layout),
     (''alt_mem_k'', 4), (''scratch'', 4), (''e820_entries'', 1), (''eddbuf_entries'', 1),
     (''edd_mbr_sig_buf_entries'', 1), (''kbd_status'', 1), (''secure_boot'', 1), (''_pad5'', 2),
     (''sentinel'', 1), (''_pad6'', 1), (''hdr'', layout_size setup_header_layout),
     (''_pad7'', 0x290 - 0x1f1 - layout_size setup_header_layout),
     (''edd_mbr_sig_buffer'', EDD_MBR_SIG_MAX * 4),
     (''e820_table'', E820_MAX_ENTRIES_ZEROPAGE * layout_size e820_entry_layout), (''_pad8'', 48),
     (''eddbuf'', EDDMAXNR * layout_size edd_info_layout), (''_pad9'', 276)]"

text \<open>\<open>BootParams::new\<close>: all zero.\<close>

definition boot_params_new :: bytes where
  "boot_params_new = replicate (layout_size boot_params_layout) 0"

text \<open>\<open>boot_params.hdr.f = v\<close> and \<open>boot_params.hdr.f\<close>.\<close>

definition set_hdr :: "string \<Rightarrow> bytes \<Rightarrow> bytes \<Rightarrow> bytes" where
  "set_hdr f v bp = set_field boot_params_layout ''hdr''
     (set_field setup_header_layout f v (get_field boot_params_layout ''hdr'' bp)) bp"

definition get_hdr :: "string \<Rightarrow> bytes \<Rightarrow> bytes" where
  "get_hdr f bp = get_field setup_header_layout f (get_field boot_params_layout ''hdr'' bp)"

record e820_entry =
  e_addr :: u64
  e_size :: u64
  e_type :: u32

definition e820_bytes :: "e820_entry \<Rightarrow> bytes" where
  "e820_bytes e = u64_to_le (e_addr e) @ u64_to_le (e_size e) @ u32_to_le (e_type e)"

text \<open>\<open>boot_params.e820_table[i] = e\<close>, for an index inside the table.\<close>

definition set_e820 :: "nat \<Rightarrow> e820_entry \<Rightarrow> bytes \<Rightarrow> bytes" where
  "set_e820 i e bp = set_field boot_params_layout ''e820_table''
     (patch_at (i * layout_size e820_entry_layout) (e820_bytes e)
       (get_field boot_params_layout ''e820_table'' bp)) bp"

text \<open>The kernel's reading of an entry of the table.\<close>

definition get_e820 :: "nat \<Rightarrow> bytes \<Rightarrow> e820_entry" where
  "get_e820 i bp =
     (let e = subslice (i * 20) (i * 20 + 20) (get_field boot_params_layout ''e820_table'' bp)
      in \<lparr>e_addr = from_le (subslice 0 8 e), e_size = from_le (subslice 8 16 e), e_type = from_le (subslice 16 20 e)\<rparr>)"

section \<open>Lemmas on layouts\<close>

abbreviation field_names :: "layout \<Rightarrow> string set" where
  "field_names l \<equiv> fst ` set l"

lemma layout_size_simps [simp]:
  "layout_size [] = 0" "layout_size ((f, n) # l) = n + layout_size l"
  by (simp_all add: layout_size_def)

lemma field_bound: "f \<in> field_names l \<Longrightarrow> offset_of l f + field_size l f \<le> layout_size l"
  by (induction l f rule: offset_of.induct) auto

lemma fields_disjoint:
  "f \<in> field_names l \<Longrightarrow> g \<in> field_names l \<Longrightarrow> f \<noteq> g \<Longrightarrow>
   offset_of l f + field_size l f \<le> offset_of l g \<or> offset_of l g + field_size l g \<le> offset_of l f"
  by (induction l f rule: offset_of.induct) auto

lemma length_get_field:
  "f \<in> field_names l \<Longrightarrow> length bs = layout_size l \<Longrightarrow> length (get_field l f bs) = field_size l f"
  using field_bound[of f l] by (simp add: get_field_def)

lemma length_set_field:
  "f \<in> field_names l \<Longrightarrow> length bs = layout_size l \<Longrightarrow> length v = field_size l f \<Longrightarrow>
   length (set_field l f v bs) = layout_size l"
  using field_bound[of f l] by (simp add: set_field_def)

lemma get_set_field:
  assumes "f \<in> field_names l" "g \<in> field_names l" "length bs = layout_size l" "length v = field_size l f"
  shows "get_field l g (set_field l f v bs) = (if g = f then v else get_field l g bs)"
proof (rule nth_equalityI)
  show len: "length (get_field l g (set_field l f v bs)) = length (if g = f then v else get_field l g bs)"
    using assms by (simp add: length_get_field length_set_field)
  fix i assume "i < length (get_field l g (set_field l f v bs))"
  then have i: "i < field_size l g" using assms by (simp add: length_get_field length_set_field)
  have b: "offset_of l f + length v \<le> length bs" "offset_of l g + field_size l g \<le> length bs"
    using field_bound[OF assms(1)] field_bound[OF assms(2)] assms(3,4) by simp_all
  have "get_field l g (set_field l f v bs) ! i = set_field l f v bs ! (offset_of l g + i)"
    using i b by (simp add: get_field_def set_field_def nth_subslice)
  also have "\<dots> = (if g = f then v ! i else bs ! (offset_of l g + i))"
    using i b fields_disjoint[OF assms(1,2)] assms(4) by (auto simp: set_field_def nth_patch_at)
  finally show "get_field l g (set_field l f v bs) ! i = (if g = f then v else get_field l g bs) ! i"
    using i b by (simp add: get_field_def nth_subslice)
qed

section \<open>The zero page\<close>

lemma bp_structures [simp]:
  "layout_size screen_info_layout = 64" "layout_size apm_bios_info_layout = 20" "layout_size ist_info_layout = 16"
  "layout_size sys_desc_table_layout = 16" "layout_size olpc_ofw_header_layout = 16"
  "layout_size edid_info_layout = 128" "layout_size efi_info_layout = 32"
  "layout_size setup_header_layout = 123" "layout_size e820_entry_layout = 20"
  "layout_size edd_info_layout = 82"
  by code_simp+

lemma bp_size [simp]: "layout_size boot_params_layout = 4096"
  by code_simp

lemma bp_fields [simp]:
  "''hdr'' \<in> field_names boot_params_layout" "field_size boot_params_layout ''hdr'' = 123"
  "''e820_table'' \<in> field_names boot_params_layout" "field_size boot_params_layout ''e820_table'' = 2560"
  "''e820_entries'' \<in> field_names boot_params_layout" "field_size boot_params_layout ''e820_entries'' = 1"
  by code_simp+

lemma hdr_fields [simp]:
  "''type_of_loader'' \<in> field_names setup_header_layout" "field_size setup_header_layout ''type_of_loader'' = 1"
  "''boot_flag'' \<in> field_names setup_header_layout" "field_size setup_header_layout ''boot_flag'' = 2"
  "''header'' \<in> field_names setup_header_layout" "field_size setup_header_layout ''header'' = 4"
  "''cmd_line_ptr'' \<in> field_names setup_header_layout" "field_size setup_header_layout ''cmd_line_ptr'' = 4"
  "''cmdline_size'' \<in> field_names setup_header_layout" "field_size setup_header_layout ''cmdline_size'' = 4"
  "''kernel_alignment'' \<in> field_names setup_header_layout" "field_size setup_header_layout ''kernel_alignment'' = 4"
  "''vid_mode'' \<in> field_names setup_header_layout" "field_size setup_header_layout ''vid_mode'' = 2"
  "''loadflags'' \<in> field_names setup_header_layout" "field_size setup_header_layout ''loadflags'' = 1"
  "''heap_end_ptr'' \<in> field_names setup_header_layout" "field_size setup_header_layout ''heap_end_ptr'' = 2"
  "''code32_start'' \<in> field_names setup_header_layout" "field_size setup_header_layout ''code32_start'' = 4"
  "''ramdisk_image'' \<in> field_names setup_header_layout" "field_size setup_header_layout ''ramdisk_image'' = 4"
  "''ramdisk_size'' \<in> field_names setup_header_layout" "field_size setup_header_layout ''ramdisk_size'' = 4"
  by code_simp+

lemma length_bp_new [simp]: "length boot_params_new = 4096"
  by (simp add: boot_params_new_def)

lemma length_set_bp [simp]:
  "f \<in> field_names boot_params_layout \<Longrightarrow> length bp = 4096 \<Longrightarrow> length v = field_size boot_params_layout f \<Longrightarrow>
   length (set_field boot_params_layout f v bp) = 4096"
  using length_set_field[of f boot_params_layout bp v] by simp

lemma get_set_bp [simp]:
  "f \<in> field_names boot_params_layout \<Longrightarrow> g \<in> field_names boot_params_layout \<Longrightarrow> length bp = 4096 \<Longrightarrow>
   length v = field_size boot_params_layout f \<Longrightarrow>
   get_field boot_params_layout g (set_field boot_params_layout f v bp) =
     (if g = f then v else get_field boot_params_layout g bp)"
  by (rule get_set_field) simp_all

lemma length_get_hdr_bytes [simp]:
  "length bp = 4096 \<Longrightarrow> length (get_field boot_params_layout ''hdr'' bp) = 123"
  "length bp = 4096 \<Longrightarrow> length (get_field boot_params_layout ''e820_table'' bp) = 2560"
  using length_get_field[of _ boot_params_layout bp] by simp_all

lemma length_set_hdr [simp]:
  assumes "f \<in> field_names setup_header_layout" "length bp = 4096" "length v = field_size setup_header_layout f"
  shows "length (set_hdr f v bp) = 4096"
  using assms length_set_field[of f setup_header_layout _ v] by (simp add: set_hdr_def)

lemma get_set_hdr [simp]:
  assumes "f \<in> field_names setup_header_layout" "g \<in> field_names setup_header_layout" "length bp = 4096"
    "length v = field_size setup_header_layout f"
  shows "get_hdr g (set_hdr f v bp) = (if g = f then v else get_hdr g bp)"
  using assms length_set_field[of f setup_header_layout _ v] get_set_field[of f setup_header_layout g _ v]
  by (simp add: set_hdr_def get_hdr_def)

lemma get_bp_set_hdr [simp]:
  assumes "f \<in> field_names setup_header_layout" "g \<in> field_names boot_params_layout" "g \<noteq> ''hdr''" "length bp = 4096"
    "length v = field_size setup_header_layout f"
  shows "get_field boot_params_layout g (set_hdr f v bp) = get_field boot_params_layout g bp"
  using assms length_set_field[of f setup_header_layout _ v] by (simp add: set_hdr_def)

lemma get_hdr_set_bp [simp]:
  assumes "g \<in> field_names boot_params_layout" "g \<noteq> ''hdr''" "length bp = 4096" "length v = field_size boot_params_layout g"
  shows "get_hdr f (set_field boot_params_layout g v bp) = get_hdr f bp"
  using assms by (simp add: get_hdr_def)

lemma get_hdr_set_whole [simp]:
  "length bp = 4096 \<Longrightarrow> length h = 123 \<Longrightarrow>
   get_hdr f (set_field boot_params_layout ''hdr'' h bp) = get_field setup_header_layout f h"
  by (simp add: get_hdr_def)

lemma length_e820_bytes [simp]: "length (e820_bytes e) = 20"
  by (simp add: e820_bytes_def)

lemma set_e820_simps [simp]:
  assumes "i < 128" "length bp = 4096"
  shows "length (set_e820 i e bp) = 4096" "get_hdr f (set_e820 i e bp) = get_hdr f bp"
  using assms by (simp_all add: set_e820_def)

lemma e820_decode: "from_le (subslice 0 8 (e820_bytes e)) = e_addr e" "from_le (subslice 8 16 (e820_bytes e)) = e_size e"
  "from_le (subslice 16 20 (e820_bytes e)) = e_type e"
  by (simp_all add: e820_bytes_def subslice_def)

lemma get_set_e820 [simp]:
  assumes "i < 128" "j < 128" "length bp = 4096"
  shows "get_e820 j (set_e820 i e bp) = (if j = i then e else get_e820 j bp)"
proof -
  let ?T = "get_field boot_params_layout ''e820_table'' bp"
  have T: "get_field boot_params_layout ''e820_table'' (set_e820 i e bp) = patch_at (i * 20) (e820_bytes e) ?T"
    using assms by (simp add: set_e820_def)
  have "subslice (j * 20) (j * 20 + 20) (patch_at (i * 20) (e820_bytes e) ?T) =
      (if j = i then e820_bytes e else subslice (j * 20) (j * 20 + 20) ?T)"
    using assms by (intro nth_equalityI) (auto simp: nth_subslice nth_patch_at)
  then show ?thesis
    unfolding get_e820_def T Let_def using assms by (simp add: e820_decode)
qed

lemma get_e820_other [simp]:
  assumes "length bp = 4096"
  shows "f \<in> field_names setup_header_layout \<Longrightarrow> length v = field_size setup_header_layout f \<Longrightarrow>
      get_e820 i (set_hdr f v bp) = get_e820 i bp"
    and "f \<in> field_names boot_params_layout \<Longrightarrow> f \<noteq> ''e820_table'' \<Longrightarrow> length v = field_size boot_params_layout f \<Longrightarrow>
      get_e820 i (set_field boot_params_layout f v bp) = get_e820 i bp"
  using assms by (simp_all add: get_e820_def)

section \<open>The documented layout\<close>

text \<open>
  The fields of the zero page, of the setup header in it and of the screen information at its start, as Linux
  documents them: name, offset from the start of the zero page, size.
\<close>

definition zero_page_fields :: "(string \<times> nat \<times> nat) list" where
  "zero_page_fields =
    [(''screen_info'', 0x000, 64), (''apm_bios_info'', 0x040, 20), (''_pad2'', 0x054, 4),
     (''tboot_addr'', 0x058, 8), (''ist_info'', 0x060, 16), (''acpi_rsdp_addr'', 0x070, 8),
     (''_pad3'', 0x078, 8), (''hd0_info'', 0x080, 16), (''hd1_info'', 0x090, 16),
     (''sys_desc_table'', 0x0a0, 16), (''olpc_ofw_header'', 0x0b0, 16),
     (''ext_ramdisk_image'', 0x0c0, 4), (''ext_ramdisk_size'', 0x0c4, 4),
     (''ext_cmd_line_ptr'', 0x0c8, 4), (''_pad4'', 0x0cc, 112), (''cc_blob_address'', 0x13c, 4),
     (''edid_info'', 0x140, 128), (''efi_info'', 0x1c0, 32), (''alt_mem_k'', 0x1e0, 4),
     (''scratch'', 0x1e4, 4), (''e820_entries'', 0x1e8, 1), (''eddbuf_entries'', 0x1e9, 1),
     (''edd_mbr_sig_buf_entries'', 0x1ea, 1), (''kbd_status'', 0x1eb, 1), (''secure_boot'', 0x1ec, 1),
     (''_pad5'', 0x1ed, 2), (''sentinel'', 0x1ef, 1), (''_pad6'', 0x1f0, 1), (''hdr'', 0x1f1, 123),
     (''_pad7'', 0x26c, 36), (''edd_mbr_sig_buffer'', 0x290, 64), (''e820_table'', 0x2d0, 2560),
     (''_pad8'', 0xcd0, 48), (''eddbuf'', 0xd00, 492), (''_pad9'', 0xeec, 276)]"

definition setup_header_fields :: "(string \<times> nat \<times> nat) list" where
  "setup_header_fields =
    [(''setup_sects'', 0x1f1, 1), (''root_flags'', 0x1f2, 2), (''syssize'', 0x1f4, 4),
     (''ram_size'', 0x1f8, 2), (''vid_mode'', 0x1fa, 2), (''root_dev'', 0x1fc, 2),
     (''boot_flag'', 0x1fe, 2), (''jump'', 0x200, 2), (''header'', 0x202, 4), (''version'', 0x206, 2),
     (''realmode_swtch'', 0x208, 4), (''start_sys_seg'', 0x20c, 2), (''kernel_version'', 0x20e, 2),
     (''type_of_loader'', 0x210, 1), (''loadflags'', 0x211, 1), (''setup_move_size'', 0x212, 2),
     (''code32_start'', 0x214, 4), (''ramdisk_image'', 0x218, 4), (''ramdisk_size'', 0x21c, 4),
     (''bootsect_kludge'', 0x220, 4), (''heap_end_ptr'', 0x224, 2), (''ext_loader_ver'', 0x226, 1),
     (''ext_loader_type'', 0x227, 1), (''cmd_line_ptr'', 0x228, 4), (''initrd_addr_max'', 0x22c, 4),
     (''kernel_alignment'', 0x230, 4), (''relocatable_kernel'', 0x234, 1), (''min_alignment'', 0x235, 1),
     (''xloadflags'', 0x236, 2), (''cmdline_size'', 0x238, 4), (''hardware_subarch'', 0x23c, 4),
     (''hardware_subarch_data'', 0x240, 8), (''payload_offset'', 0x248, 4),
     (''payload_length'', 0x24c, 4), (''setup_data'', 0x250, 8), (''pref_address'', 0x258, 8),
     (''init_size'', 0x260, 4), (''handover_offset'', 0x264, 4), (''kernel_info_offset'', 0x268, 4)]"

definition screen_info_fields :: "(string \<times> nat \<times> nat) list" where
  "screen_info_fields =
    [(''orig_x'', 0x00, 1), (''orig_y'', 0x01, 1), (''ext_mem_k'', 0x02, 2),
     (''orig_video_page'', 0x04, 2), (''orig_video_mode'', 0x06, 1), (''orig_video_cols'', 0x07, 1),
     (''flags'', 0x08, 1), (''unused2'', 0x09, 1), (''orig_video_ega_bx'', 0x0a, 2),
     (''unused3'', 0x0c, 2), (''orig_video_lines'', 0x0e, 1), (''orig_video_isvga'', 0x0f, 1),
     (''orig_video_points'', 0x10, 2), (''lfb_width'', 0x12, 2), (''lfb_height'', 0x14, 2),
     (''lfb_depth'', 0x16, 2), (''lfb_base'', 0x18, 4), (''lfb_size'', 0x1c, 4), (''cl_magic'', 0x20, 2),
     (''cl_offset'', 0x22, 2), (''lfb_linelength'', 0x24, 2), (''red_size'', 0x26, 1),
     (''red_pos'', 0x27, 1), (''green_size'', 0x28, 1), (''green_pos'', 0x29, 1),
     (''blue_size'', 0x2a, 1), (''blue_pos'', 0x2b, 1), (''rsvd_size'', 0x2c, 1),
     (''rsvd_pos'', 0x2d, 1), (''vesapm_seg'', 0x2e, 2), (''vesapm_off'', 0x30, 2), (''pages'', 0x32, 2),
     (''vesa_attributes'', 0x34, 2), (''capabilities'', 0x36, 4), (''ext_lfb_base'', 0x3a, 4),
     (''_reserved'', 0x3e, 2)]"

definition laid_out :: "nat \<Rightarrow> layout \<Rightarrow> (string \<times> nat \<times> nat) list" where
  "laid_out base l = map (\<lambda>(f, n). (f, base + offset_of l f, n)) l"

lemma layout_tables:
  "zero_page_fields = laid_out 0 boot_params_layout" "setup_header_fields = laid_out 0x1f1 setup_header_layout"
  "screen_info_fields = laid_out 0 screen_info_layout" "distinct (map fst boot_params_layout)"
  "distinct (map fst setup_header_layout)" "distinct (map fst screen_info_layout)"
  by code_simp+

lemma field_size_eq: "distinct (map fst l) \<Longrightarrow> (f, n) \<in> set l \<Longrightarrow> field_size l f = n"
  by (induction l f rule: field_size.induct) force+

lemma laid_outD:
  assumes "(f, at, n) \<in> set (laid_out base l)" and "distinct (map fst l)"
  shows "f \<in> field_names l" "at = base + offset_of l f" "n = field_size l f"
  using assms field_size_eq[OF assms(2)] by (force simp: laid_out_def)+

lemma get_field_at: "get_field l f bs = take (field_size l f) (drop (offset_of l f) bs)"
  by (simp add: get_field_def subslice_def)

lemma get_field_within:
  assumes "f \<in> field_names l" and "field_size outer g = layout_size l"
  shows "get_field l f (get_field outer g bs) = take (field_size l f) (drop (offset_of outer g + offset_of l f) bs)"
  using field_bound[OF assms(1)] assms(2) by (simp add: get_field_at drop_take min_def add.commute)

lemma set_field_at: "length v = field_size l f \<Longrightarrow>
   set_field l f v bs = take (offset_of l f) bs @ v @ drop (offset_of l f + field_size l f) bs"
  by (simp add: set_field_def patch_at_def)

lemma patch_within:
  assumes "i + length v \<le> n" and "at + n \<le> length bs"
  shows "patch_at at (patch_at i v (subslice at (at + n) bs)) bs = patch_at (at + i) v bs"
  using assms by (intro nth_equalityI) (auto simp: nth_patch_at nth_subslice)

section \<open>Properties\<close>

text \<open>
  C33. The zero page is laid out as Linux documents it. Reading a field of the boot parameters, of the setup
  header or of the screen information returns exactly the bytes at the documented offset and of the
  documented size, writing a field of the boot parameters or of the setup header, or an entry of the
  memory map, replaces exactly those bytes and no others, for all 35 fields of the zero page, all 39 of the setup
  header and all 36 of the screen information.
\<close>

theorem zero_page_layout:
  assumes "length bp = 4096" and "(f, at, n) \<in> set zero_page_fields" and "length v = n"
    and "(g, hat, hn) \<in> set setup_header_fields" and "length w = hn"
    and "(h, sat, sn) \<in> set screen_info_fields" and "i < 128"
  shows "get_field boot_params_layout f bp = take n (drop at bp) \<and>
     set_field boot_params_layout f v bp = take at bp @ v @ drop (at + n) bp \<and>
     get_hdr g bp = take hn (drop hat bp) \<and>
     set_hdr g w bp = take hat bp @ w @ drop (hat + hn) bp \<and>
     get_field screen_info_layout h (get_field boot_params_layout ''screen_info'' bp) = take sn (drop sat bp) \<and>
     set_e820 i e bp = take (0x2d0 + i * 20) bp @ u64_to_le (e_addr e) @ u64_to_le (e_size e) @ u32_to_le (e_type e) @
       drop (0x2d0 + i * 20 + 20) bp \<and>
     map fst zero_page_fields = map fst boot_params_layout \<and> map fst setup_header_fields = map fst setup_header_layout \<and>
     map fst screen_info_fields = map fst screen_info_layout"
proof -
  note z = laid_outD[OF assms(2)[unfolded layout_tables(1)] layout_tables(4)]
  note hd = laid_outD[OF assms(4)[unfolded layout_tables(2)] layout_tables(5)]
  note s = laid_outD[OF assms(6)[unfolded layout_tables(3)] layout_tables(6)]
  have o: "offset_of boot_params_layout ''hdr'' = 0x1f1" "offset_of boot_params_layout ''screen_info'' = 0"
    "field_size boot_params_layout ''screen_info'' = 64" "offset_of boot_params_layout ''e820_table'' = 0x2d0" by code_simp+
  have sh: "set_hdr g w bp = take hat bp @ w @ drop (hat + hn) bp"
    using patch_within[of "offset_of setup_header_layout g" w 123 "0x1f1" bp] field_bound[OF hd(1)] assms(1,5) hd(2,3)
    by (simp add: set_hdr_def set_field_def get_field_def o) (simp add: patch_at_def)
  have se: "set_e820 i e bp = take (0x2d0 + i * 20) bp @ e820_bytes e @ drop (0x2d0 + i * 20 + 20) bp"
    using patch_within[of "i * 20" "e820_bytes e" 2560 "0x2d0" bp] assms(1,7)
    by (simp add: set_e820_def set_field_def get_field_def o) (simp add: patch_at_def)
  show ?thesis
    using z hd s assms(3) set_field_at[of v boot_params_layout f bp] get_field_within[OF hd(1), of boot_params_layout "''hdr''" bp]
      get_field_within[OF s(1), of boot_params_layout "''screen_info''" bp]
    by (simp add: get_field_at[of boot_params_layout f] get_hdr_def o sh se) (simp add: e820_bytes_def layout_tables(1-3) laid_out_def comp_def case_prod_unfold)
qed

theorem zero_page_layout_witness:
  "set_hdr ''cmd_line_ptr'' [0, 0, 2, 0] boot_params_new = take 0x228 boot_params_new @ [0, 0, 2, 0] @ drop 0x22c boot_params_new \<and>
   set_field boot_params_layout ''e820_entries'' [2] boot_params_new = take 0x1e8 boot_params_new @ [2] @ drop 0x1e9 boot_params_new \<and>
   set_e820 1 \<lparr>e_addr = 0x100000, e_size = 0, e_type = 1\<rparr> boot_params_new = take 0x2e4 boot_params_new @
     u64_to_le 0x100000 @ u64_to_le 0 @ u32_to_le 1 @ drop 0x2f8 boot_params_new"
proof -
  have m: "(''e820_entries'', 0x1e8, 1) \<in> set zero_page_fields" "(''cmd_line_ptr'', 0x228, 4) \<in> set setup_header_fields"
    "(''cl_offset'', 0x22, 2) \<in> set screen_info_fields"
    by (simp_all add: zero_page_fields_def setup_header_fields_def screen_info_fields_def)
  show ?thesis
    using zero_page_layout[OF length_bp_new m(1) _ m(2) _ m(3), of "[2]" "[0, 0, 2, 0]" 1
        "\<lparr>e_addr = 0x100000, e_size = 0, e_type = 1\<rparr>"] by simp
qed

end
