(* ===== verification/CpuState.thy ===== *)
theory CpuState
  imports Prelude
begin

text \<open>
  The processor state a vCPU starts from: the host-neutral registers of \<open>src/traits.rs\<close>, their
  KVM form (\<open>src/kvm/api.rs\<close>, the conversions of \<open>src/kvm/core.rs\<close>) and their bhyve form, one
  register or segment descriptor at a time (\<open>src/bhyve/api.rs\<close>, \<open>src/bhyve/core.rs\<close>), and the
  segment helpers of \<open>src/boot.rs\<close>.

  bhyve's register ioctls are the operations of a record \<open>vm_ops\<close> on an unknown kernel state;
  \<open>vm_laws\<close> states what they document: a store succeeds and is what the next load of that register
  returns, and no other register moves.
\<close>

section \<open>Host-neutral registers\<close>

record segment =
  seg_base :: u64
  seg_limit :: u32
  seg_selector :: u16
  seg_type :: u8
  seg_present :: u8
  seg_dpl :: u8
  seg_db :: u8
  seg_s :: u8
  seg_l :: u8
  seg_g :: u8
  seg_avl :: u8
  seg_unusable :: u8
  seg_padding :: u8

record dtable =
  dt_base :: u64
  dt_limit :: u16
  dt_padding :: "u16 list"

record sregs =
  sr_cs :: segment
  sr_ds :: segment
  sr_es :: segment
  sr_fs :: segment
  sr_gs :: segment
  sr_ss :: segment
  sr_tr :: segment
  sr_ldt :: segment
  sr_gdt :: dtable
  sr_idt :: dtable
  sr_cr0 :: u64
  sr_cr2 :: u64
  sr_cr3 :: u64
  sr_cr4 :: u64
  sr_cr8 :: u64
  sr_efer :: u64
  sr_apic_base :: u64
  sr_interrupt_bitmap :: "u64 list"

record regs =
  rax :: u64
  rbx :: u64
  rcx :: u64
  rdx :: u64
  rsi :: u64
  rdi :: u64
  rsp :: u64
  rbp :: u64
  r8 :: u64
  r9 :: u64
  r10 :: u64
  r11 :: u64
  r12 :: u64
  r13 :: u64
  r14 :: u64
  r15 :: u64
  rip :: u64
  rflags :: u64

section \<open>KVM\<close>

record kvm_segment =
  ks_base :: u64
  ks_limit :: u32
  ks_selector :: u16
  ks_type :: u8
  ks_present :: u8
  ks_dpl :: u8
  ks_db :: u8
  ks_s :: u8
  ks_l :: u8
  ks_g :: u8
  ks_avl :: u8
  ks_unusable :: u8
  ks_padding :: u8

record kvm_dtable =
  kd_base :: u64
  kd_limit :: u16
  kd_padding :: "u16 list"

record kvm_sregs =
  k_cs :: kvm_segment
  k_ds :: kvm_segment
  k_es :: kvm_segment
  k_fs :: kvm_segment
  k_gs :: kvm_segment
  k_ss :: kvm_segment
  k_tr :: kvm_segment
  k_ldt :: kvm_segment
  k_gdt :: kvm_dtable
  k_idt :: kvm_dtable
  k_cr0 :: u64
  k_cr2 :: u64
  k_cr3 :: u64
  k_cr4 :: u64
  k_cr8 :: u64
  k_efer :: u64
  k_apic_base :: u64
  k_interrupt_bitmap :: "u64 list"

record kvm_regs =
  k_rax :: u64
  k_rbx :: u64
  k_rcx :: u64
  k_rdx :: u64
  k_rsi :: u64
  k_rdi :: u64
  k_rsp :: u64
  k_rbp :: u64
  k_r8 :: u64
  k_r9 :: u64
  k_r10 :: u64
  k_r11 :: u64
  k_r12 :: u64
  k_r13 :: u64
  k_r14 :: u64
  k_r15 :: u64
  k_rip :: u64
  k_rflags :: u64

text \<open>The argument of \<open>KVM_SET_REGS\<close> and the result of \<open>KVM_GET_REGS\<close>.\<close>

definition kvm_regs_of :: "regs \<Rightarrow> kvm_regs" where
  "kvm_regs_of r =
    \<lparr>k_rax = rax r, k_rbx = rbx r, k_rcx = rcx r, k_rdx = rdx r, k_rsi = rsi r,
     k_rdi = rdi r, k_rsp = rsp r, k_rbp = rbp r, k_r8 = r8 r, k_r9 = r9 r, k_r10 = r10 r,
     k_r11 = r11 r, k_r12 = r12 r, k_r13 = r13 r, k_r14 = r14 r, k_r15 = r15 r, k_rip = rip r,
     k_rflags = rflags r\<rparr>"

definition of_kvm_regs :: "kvm_regs \<Rightarrow> regs" where
  "of_kvm_regs r =
    \<lparr>rax = k_rax r, rbx = k_rbx r, rcx = k_rcx r, rdx = k_rdx r, rsi = k_rsi r,
     rdi = k_rdi r, rsp = k_rsp r, rbp = k_rbp r, r8 = k_r8 r, r9 = k_r9 r, r10 = k_r10 r,
     r11 = k_r11 r, r12 = k_r12 r, r13 = k_r13 r, r14 = k_r14 r, r15 = k_r15 r, rip = k_rip r,
     rflags = k_rflags r\<rparr>"

definition kvm_segment_of :: "segment \<Rightarrow> kvm_segment" where
  "kvm_segment_of s =
    \<lparr>ks_base = seg_base s, ks_limit = seg_limit s, ks_selector = seg_selector s, ks_type = seg_type s,
     ks_present = seg_present s, ks_dpl = seg_dpl s, ks_db = seg_db s, ks_s = seg_s s, ks_l = seg_l s,
     ks_g = seg_g s, ks_avl = seg_avl s, ks_unusable = seg_unusable s, ks_padding = seg_padding s\<rparr>"

definition of_kvm_segment :: "kvm_segment \<Rightarrow> segment" where
  "of_kvm_segment s =
    \<lparr>seg_base = ks_base s, seg_limit = ks_limit s, seg_selector = ks_selector s, seg_type = ks_type s,
     seg_present = ks_present s, seg_dpl = ks_dpl s, seg_db = ks_db s, seg_s = ks_s s, seg_l = ks_l s,
     seg_g = ks_g s, seg_avl = ks_avl s, seg_unusable = ks_unusable s, seg_padding = ks_padding s\<rparr>"

definition kvm_dtable_of :: "dtable \<Rightarrow> kvm_dtable" where
  "kvm_dtable_of d = \<lparr>kd_base = dt_base d, kd_limit = dt_limit d, kd_padding = dt_padding d\<rparr>"

definition of_kvm_dtable :: "kvm_dtable \<Rightarrow> dtable" where
  "of_kvm_dtable d = \<lparr>dt_base = kd_base d, dt_limit = kd_limit d, dt_padding = kd_padding d\<rparr>"

text \<open>The argument of \<open>KVM_SET_SREGS\<close> and the result of \<open>KVM_GET_SREGS\<close>.\<close>

definition kvm_sregs_of :: "sregs \<Rightarrow> kvm_sregs" where
  "kvm_sregs_of s =
    \<lparr>k_cs = kvm_segment_of (sr_cs s), k_ds = kvm_segment_of (sr_ds s), k_es = kvm_segment_of (sr_es s),
     k_fs = kvm_segment_of (sr_fs s), k_gs = kvm_segment_of (sr_gs s), k_ss = kvm_segment_of (sr_ss s),
     k_tr = kvm_segment_of (sr_tr s), k_ldt = kvm_segment_of (sr_ldt s),
     k_gdt = kvm_dtable_of (sr_gdt s), k_idt = kvm_dtable_of (sr_idt s), k_cr0 = sr_cr0 s,
     k_cr2 = sr_cr2 s, k_cr3 = sr_cr3 s, k_cr4 = sr_cr4 s, k_cr8 = sr_cr8 s, k_efer = sr_efer s,
     k_apic_base = sr_apic_base s, k_interrupt_bitmap = sr_interrupt_bitmap s\<rparr>"

definition of_kvm_sregs :: "kvm_sregs \<Rightarrow> sregs" where
  "of_kvm_sregs s =
    \<lparr>sr_cs = of_kvm_segment (k_cs s), sr_ds = of_kvm_segment (k_ds s), sr_es = of_kvm_segment (k_es s),
     sr_fs = of_kvm_segment (k_fs s), sr_gs = of_kvm_segment (k_gs s), sr_ss = of_kvm_segment (k_ss s),
     sr_tr = of_kvm_segment (k_tr s), sr_ldt = of_kvm_segment (k_ldt s),
     sr_gdt = of_kvm_dtable (k_gdt s), sr_idt = of_kvm_dtable (k_idt s), sr_cr0 = k_cr0 s,
     sr_cr2 = k_cr2 s, sr_cr3 = k_cr3 s, sr_cr4 = k_cr4 s, sr_cr8 = k_cr8 s, sr_efer = k_efer s,
     sr_apic_base = k_apic_base s, sr_interrupt_bitmap = k_interrupt_bitmap s\<rparr>"

text \<open>
  The vCPU's four register ioctls on the state \<open>'k\<close> of the kernel, and the vCPU's operations over them.
\<close>

record ('k, 'e) kvm_ops =
  io_get_regs :: "'k \<Rightarrow> 'e + kvm_regs"
  io_set_regs :: "'k \<Rightarrow> kvm_regs \<Rightarrow> 'e + 'k"
  io_get_sregs :: "'k \<Rightarrow> 'e + kvm_sregs"
  io_set_sregs :: "'k \<Rightarrow> kvm_sregs \<Rightarrow> 'e + 'k"

text \<open>The \<open>?\<close> operator.\<close>

definition sbind :: "'e + 'a \<Rightarrow> ('a \<Rightarrow> 'e + 'b) \<Rightarrow> 'e + 'b" where
  "sbind r f = (case r of Inl e \<Rightarrow> Inl e | Inr v \<Rightarrow> f v)"

definition kvm_set_regs :: "('k, 'e) kvm_ops \<Rightarrow> 'k \<Rightarrow> regs \<Rightarrow> 'e + 'k" where
  "kvm_set_regs ops k r = io_set_regs ops k (kvm_regs_of r)"

definition kvm_get_regs :: "('k, 'e) kvm_ops \<Rightarrow> 'k \<Rightarrow> 'e + regs" where
  "kvm_get_regs ops k = sbind (io_get_regs ops k) (\<lambda>r. Inr (of_kvm_regs r))"

definition kvm_set_sregs :: "('k, 'e) kvm_ops \<Rightarrow> 'k \<Rightarrow> sregs \<Rightarrow> 'e + 'k" where
  "kvm_set_sregs ops k s = io_set_sregs ops k (kvm_sregs_of s)"

definition kvm_get_sregs :: "('k, 'e) kvm_ops \<Rightarrow> 'k \<Rightarrow> 'e + sregs" where
  "kvm_get_sregs ops k = sbind (io_get_sregs ops k) (\<lambda>s. Inr (of_kvm_sregs s))"

section \<open>bhyve\<close>

datatype vm_reg_name =
    RegRax | RegRbx | RegRcx | RegRdx | RegRsi | RegRdi | RegRbp | RegR8 | RegR9 | RegR10
  | RegR11 | RegR12 | RegR13 | RegR14 | RegR15 | RegCr0 | RegCr3 | RegCr4 | RegDr7 | RegRsp
  | RegRip | RegRflags | RegEs | RegCs | RegSs | RegDs | RegFs | RegGs | RegLdtr | RegTr
  | RegIdtr | RegGdtr | RegEfer | RegCr2 | RegPdpte0 | RegPdpte1 | RegPdpte2 | RegPdpte3 | RegIntrShadow | RegDr0
  | RegDr1 | RegDr2 | RegDr3 | RegDr6 | RegEntryInstLength | RegXcr0 | RegLast

record seg_desc =
  sd_base :: u64
  sd_limit :: u32
  sd_access :: u32

definition seg_desc_of :: "segment \<Rightarrow> seg_desc" where
  "seg_desc_of s =
     \<lparr>sd_base = seg_base s, sd_limit = seg_limit s,
      sd_access =
        (ucast (seg_type s) AND 0x000f)
        OR push_bit 4 (ucast (seg_s s) AND 0x1)
        OR push_bit 5 (ucast (seg_dpl s) AND 0x3)
        OR push_bit 7 (ucast (seg_present s) AND 0x1)
        OR push_bit 12 (ucast (seg_avl s) AND 0x1)
        OR push_bit 13 (ucast (seg_l s) AND 0x1)
        OR push_bit 14 (ucast (seg_db s) AND 0x1)
        OR push_bit 15 (ucast (seg_g s) AND 0x1)
        OR push_bit 16 (ucast (seg_unusable s) AND 0x1)\<rparr>"

definition of_seg_desc :: "seg_desc \<Rightarrow> segment" where
  "of_seg_desc d =
     \<lparr>seg_base = sd_base d, seg_limit = sd_limit d, seg_selector = 0,
      seg_type = ucast (sd_access d AND 0x000f),
      seg_present = ucast (drop_bit 7 (sd_access d) AND 0x1),
      seg_dpl = ucast (drop_bit 5 (sd_access d) AND 0x3),
      seg_db = ucast (drop_bit 14 (sd_access d) AND 0x1),
      seg_s = ucast (drop_bit 4 (sd_access d) AND 0x1),
      seg_l = ucast (drop_bit 13 (sd_access d) AND 0x1),
      seg_g = ucast (drop_bit 15 (sd_access d) AND 0x1),
      seg_avl = ucast (drop_bit 12 (sd_access d) AND 0x1),
      seg_unusable = ucast (drop_bit 16 (sd_access d) AND 0x1),
      seg_padding = 0\<rparr>"

definition dtable_desc :: "dtable \<Rightarrow> seg_desc" where
  "dtable_desc d = \<lparr>sd_base = dt_base d, sd_limit = ucast (dt_limit d), sd_access = 0\<rparr>"

definition desc_dtable :: "seg_desc \<Rightarrow> dtable" where
  "desc_dtable d = \<lparr>dt_base = sd_base d, dt_limit = ucast (sd_limit d), dt_padding = [0, 0, 0]\<rparr>"

record ('k, 'e) vm_ops =
  op_set_reg :: "'k \<Rightarrow> vm_reg_name \<Rightarrow> u64 \<Rightarrow> 'e + 'k"
  op_get_reg :: "'k \<Rightarrow> vm_reg_name \<Rightarrow> 'e + u64"
  op_set_desc :: "'k \<Rightarrow> vm_reg_name \<Rightarrow> seg_desc \<Rightarrow> 'e + 'k"
  op_get_desc :: "'k \<Rightarrow> vm_reg_name \<Rightarrow> 'e + seg_desc"

text \<open>
  A run of \<open>set_register(..)?\<close>, \<open>set_segment(..)?\<close> or \<open>set_dtable(..)?\<close> statements, in order.
  A segment is a descriptor and its selector.
\<close>

fun set_registers :: "('k, 'e) vm_ops \<Rightarrow> 'k \<Rightarrow> (vm_reg_name \<times> u64) list \<Rightarrow> 'e + 'k" where
  "set_registers ops k [] = Inr k"
| "set_registers ops k ((r, v) # rs) = sbind (op_set_reg ops k r v) (\<lambda>k'. set_registers ops k' rs)"

definition set_segment :: "('k, 'e) vm_ops \<Rightarrow> 'k \<Rightarrow> vm_reg_name \<Rightarrow> segment \<Rightarrow> 'e + 'k" where
  "set_segment ops k r s =
     sbind (op_set_desc ops k r (seg_desc_of s)) (\<lambda>k'. op_set_reg ops k' r (ucast (seg_selector s)))"

definition get_segment :: "('k, 'e) vm_ops \<Rightarrow> 'k \<Rightarrow> vm_reg_name \<Rightarrow> 'e + segment" where
  "get_segment ops k r =
     sbind (op_get_desc ops k r) (\<lambda>d. sbind (op_get_reg ops k r) (\<lambda>v.
       Inr ((of_seg_desc d)\<lparr>seg_selector := ucast v\<rparr>)))"

fun set_segments :: "('k, 'e) vm_ops \<Rightarrow> 'k \<Rightarrow> (vm_reg_name \<times> segment) list \<Rightarrow> 'e + 'k" where
  "set_segments ops k [] = Inr k"
| "set_segments ops k ((r, s) # rs) = sbind (set_segment ops k r s) (\<lambda>k'. set_segments ops k' rs)"

definition set_dtable :: "('k, 'e) vm_ops \<Rightarrow> 'k \<Rightarrow> vm_reg_name \<Rightarrow> dtable \<Rightarrow> 'e + 'k" where
  "set_dtable ops k r d = op_set_desc ops k r (dtable_desc d)"

definition get_dtable :: "('k, 'e) vm_ops \<Rightarrow> 'k \<Rightarrow> vm_reg_name \<Rightarrow> 'e + dtable" where
  "get_dtable ops k r = sbind (op_get_desc ops k r) (\<lambda>d. Inr (desc_dtable d))"

definition bhyve_set_regs :: "('k, 'e) vm_ops \<Rightarrow> 'k \<Rightarrow> regs \<Rightarrow> 'e + 'k" where
  "bhyve_set_regs ops k r = set_registers ops k
     [(RegRax, rax r), (RegRbx, rbx r), (RegRcx, rcx r), (RegRdx, rdx r), (RegRsi, rsi r),
      (RegRdi, rdi r), (RegRsp, rsp r), (RegRbp, rbp r), (RegR8, r8 r), (RegR9, r9 r), (RegR10, r10 r),
      (RegR11, r11 r), (RegR12, r12 r), (RegR13, r13 r), (RegR14, r14 r), (RegR15, r15 r),
      (RegRip, rip r), (RegRflags, rflags r)]"

definition bhyve_get_regs :: "('k, 'e) vm_ops \<Rightarrow> 'k \<Rightarrow> 'e + regs" where
  "bhyve_get_regs ops k =
     sbind (op_get_reg ops k RegRax) (\<lambda>rax'. sbind (op_get_reg ops k RegRbx) (\<lambda>rbx'.
     sbind (op_get_reg ops k RegRcx) (\<lambda>rcx'. sbind (op_get_reg ops k RegRdx) (\<lambda>rdx'.
     sbind (op_get_reg ops k RegRsi) (\<lambda>rsi'. sbind (op_get_reg ops k RegRdi) (\<lambda>rdi'.
     sbind (op_get_reg ops k RegRsp) (\<lambda>rsp'. sbind (op_get_reg ops k RegRbp) (\<lambda>rbp'.
     sbind (op_get_reg ops k RegR8) (\<lambda>r8'. sbind (op_get_reg ops k RegR9) (\<lambda>r9'.
     sbind (op_get_reg ops k RegR10) (\<lambda>r10'. sbind (op_get_reg ops k RegR11) (\<lambda>r11'.
     sbind (op_get_reg ops k RegR12) (\<lambda>r12'. sbind (op_get_reg ops k RegR13) (\<lambda>r13'.
     sbind (op_get_reg ops k RegR14) (\<lambda>r14'. sbind (op_get_reg ops k RegR15) (\<lambda>r15'.
     sbind (op_get_reg ops k RegRip) (\<lambda>rip'. sbind (op_get_reg ops k RegRflags) (\<lambda>rflags'.
     Inr \<lparr>rax = rax', rbx = rbx', rcx = rcx', rdx = rdx', rsi = rsi', rdi = rdi', rsp = rsp', rbp = rbp',
        r8 = r8', r9 = r9', r10 = r10', r11 = r11', r12 = r12', r13 = r13', r14 = r14', r15 = r15',
        rip = rip', rflags = rflags'\<rparr>))))))))))))))))))"

definition bhyve_set_sregs :: "('k, 'e) vm_ops \<Rightarrow> 'k \<Rightarrow> sregs \<Rightarrow> 'e + 'k" where
  "bhyve_set_sregs ops k s =
     sbind (set_segments ops k
     [(RegCs, sr_cs s), (RegDs, sr_ds s), (RegEs, sr_es s), (RegFs, sr_fs s), (RegGs, sr_gs s),
      (RegSs, sr_ss s), (RegTr, sr_tr s), (RegLdtr, sr_ldt s)]) (\<lambda>k.
     sbind (set_dtable ops k RegGdtr (sr_gdt s)) (\<lambda>k.
     sbind (set_dtable ops k RegIdtr (sr_idt s)) (\<lambda>k.
     set_registers ops k
     [(RegCr0, sr_cr0 s), (RegCr2, sr_cr2 s), (RegCr3, sr_cr3 s), (RegCr4, sr_cr4 s), (RegEfer, sr_efer s)])))"

definition bhyve_get_sregs :: "('k, 'e) vm_ops \<Rightarrow> 'k \<Rightarrow> 'e + sregs" where
  "bhyve_get_sregs ops k =
     sbind (get_segment ops k RegCs) (\<lambda>cs'. sbind (get_segment ops k RegDs) (\<lambda>ds'.
     sbind (get_segment ops k RegEs) (\<lambda>es'. sbind (get_segment ops k RegFs) (\<lambda>fs'.
     sbind (get_segment ops k RegGs) (\<lambda>gs'. sbind (get_segment ops k RegSs) (\<lambda>ss'.
     sbind (get_segment ops k RegTr) (\<lambda>tr'. sbind (get_segment ops k RegLdtr) (\<lambda>ldt'.
     sbind (get_dtable ops k RegGdtr) (\<lambda>gdt'. sbind (get_dtable ops k RegIdtr) (\<lambda>idt'.
     sbind (op_get_reg ops k RegCr0) (\<lambda>cr0'. sbind (op_get_reg ops k RegCr2) (\<lambda>cr2'.
     sbind (op_get_reg ops k RegCr3) (\<lambda>cr3'. sbind (op_get_reg ops k RegCr4) (\<lambda>cr4'.
     sbind (op_get_reg ops k RegEfer) (\<lambda>efer'.
     Inr \<lparr>sr_cs = cs', sr_ds = ds', sr_es = es', sr_fs = fs', sr_gs = gs', sr_ss = ss', sr_tr = tr',
         sr_ldt = ldt', sr_gdt = gdt', sr_idt = idt', sr_cr0 = cr0', sr_cr2 = cr2', sr_cr3 = cr3',
         sr_cr4 = cr4', sr_cr8 = 0, sr_efer = efer', sr_apic_base = 0, sr_interrupt_bitmap = [0, 0, 0, 0]\<rparr>)))))))))))))))"

text \<open>The mode bhyve is told when it translates an address.\<close>

datatype vm_cpu_mode = ModeReal | ModeProtected | ModeCompatibility | ModeSixtyFourBit

datatype vm_paging_mode = PagingFlat | PagingThirtyTwo | PagingPae | PagingSixtyFour

definition cpu_mode :: "sregs \<Rightarrow> vm_cpu_mode" where
  "cpu_mode s =
     (if sr_efer s AND 0x400 \<noteq> 0 then
        (if seg_l (sr_cs s) \<noteq> 0 then ModeSixtyFourBit else ModeCompatibility)
      else if sr_cr0 s AND 1 \<noteq> 0 then ModeProtected
      else ModeReal)"

definition paging_mode :: "sregs \<Rightarrow> vm_paging_mode" where
  "paging_mode s =
     (if sr_cr0 s AND 0x80000000 = 0 then PagingFlat
      else if sr_cr4 s AND 0x20 = 0 then PagingThirtyTwo
      else if sr_efer s AND 0x100 \<noteq> 0 then PagingSixtyFour
      else PagingPae)"

section \<open>Segments of the boot state\<close>

definition generate_segment :: "u16 \<Rightarrow> u8 \<Rightarrow> segment" where
  "generate_segment selector_index typ =
     \<lparr>seg_base = 0, seg_limit = 0x000fffff, seg_selector = push_bit 3 selector_index, seg_type = typ,
      seg_present = 1, seg_dpl = 0, seg_db = 0, seg_s = 1, seg_l = 1, seg_g = 1, seg_avl = 0,
      seg_unusable = 0, seg_padding = 0\<rparr>"

definition segment_gdt_entry :: "segment \<Rightarrow> u64" where
  "segment_gdt_entry seg =
     (let base = seg_base seg;
          limit = ucast (seg_limit seg);
          flags = push_bit 3 (ucast (seg_g seg) AND 0x1)
            OR push_bit 2 (ucast (seg_db seg) AND 0x1)
            OR push_bit 1 (ucast (seg_l seg) AND 0x1)
            OR (ucast (seg_avl seg) AND 0x1);
          access = push_bit 7 (ucast (seg_present seg) AND 0x1)
            OR push_bit 5 (ucast (seg_dpl seg) AND 0x3)
            OR push_bit 4 (ucast (seg_s seg) AND 0x1)
            OR (ucast (seg_type seg) AND 0xf)
      in push_bit 32 (base AND 0xff000000)
         OR push_bit 16 (base AND 0x00ffffff)
         OR (limit AND 0x0000ffff)
         OR push_bit 32 (limit AND 0x000f0000)
         OR push_bit 52 flags
         OR push_bit 40 access)"

definition make_flat32_segment :: "segment \<Rightarrow> u8 \<Rightarrow> segment" where
  "make_flat32_segment seg typ =
     seg\<lparr>seg_base := 0, seg_limit := 0xffffffff, seg_g := 1, seg_db := 1, seg_l := 0, seg_type := typ\<rparr>"

section \<open>Specification\<close>

text \<open>
  What bhyve's register ioctls document: every register is stored and loaded, and the segment and
  table registers have a descriptor beside their value.
\<close>

definition has_desc :: "vm_reg_name \<Rightarrow> bool" where
  "has_desc r \<longleftrightarrow> r \<in> {RegCs, RegDs, RegEs, RegFs, RegGs, RegSs, RegTr, RegLdtr, RegGdtr, RegIdtr}"

definition vm_laws :: "('k, 'e) vm_ops \<Rightarrow> bool" where
  "vm_laws ops \<longleftrightarrow>
     (\<forall>k r v. \<exists>k'. op_set_reg ops k r v = Inr k' \<and> op_get_reg ops k' = (op_get_reg ops k)(r := Inr v) \<and>
        op_get_desc ops k' = op_get_desc ops k) \<and>
     (\<forall>k r d. has_desc r \<longrightarrow> (\<exists>k'. op_set_desc ops k r d = Inr k' \<and> op_get_desc ops k' = (op_get_desc ops k)(r := Inr d) \<and>
        op_get_reg ops k' = op_get_reg ops k))"

text \<open>Every field of a segment fits its bits; every segment does and the arrays have their lengths.\<close>

definition seg_ok :: "segment \<Rightarrow> bool" where
  "seg_ok s \<longleftrightarrow> seg_type s < 2 ^ 4 \<and> seg_s s < 2 ^ 1 \<and> seg_dpl s < 2 ^ 2 \<and> seg_present s < 2 ^ 1 \<and>
     seg_avl s < 2 ^ 1 \<and> seg_l s < 2 ^ 1 \<and> seg_db s < 2 ^ 1 \<and> seg_g s < 2 ^ 1 \<and> seg_unusable s < 2 ^ 1"

definition sregs_ok :: "sregs \<Rightarrow> bool" where
  "sregs_ok s \<longleftrightarrow> list_all (\<lambda>g. seg_ok g \<and> seg_padding g = 0)
     [sr_cs s, sr_ds s, sr_es s, sr_fs s, sr_gs s, sr_ss s, sr_tr s, sr_ldt s] \<and>
     length (dt_padding (sr_gdt s)) = 3 \<and> length (dt_padding (sr_idt s)) = 3 \<and> length (sr_interrupt_bitmap s) = 4"

text \<open>The arrays of KVM's structure have their lengths.\<close>

definition kvm_sregs_ok :: "kvm_sregs \<Rightarrow> bool" where
  "kvm_sregs_ok s \<longleftrightarrow> length (kd_padding (k_gdt s)) = 3 \<and> length (kd_padding (k_idt s)) = 3 \<and>
     length (k_interrupt_bitmap s) = 4"

definition bhyve_kept :: "sregs \<Rightarrow> sregs" where
  "bhyve_kept s = s\<lparr>sr_gdt := (sr_gdt s)\<lparr>dt_padding := [0, 0, 0]\<rparr>, sr_idt := (sr_idt s)\<lparr>dt_padding := [0, 0, 0]\<rparr>,
     sr_cr8 := 0, sr_apic_base := 0, sr_interrupt_bitmap := [0, 0, 0, 0]\<rparr>"

text \<open>A descriptor table entry, as the processor reads it.\<close>

definition gdt_decode :: "u64 \<Rightarrow> segment" where
  "gdt_decode e =
     \<lparr>seg_base = (drop_bit 16 e AND mask 24) OR push_bit 24 (drop_bit 56 e AND mask 8),
      seg_limit = ucast ((e AND mask 16) OR push_bit 16 (drop_bit 48 e AND mask 4)), seg_selector = 0,
      seg_type = ucast (drop_bit 40 e AND mask 4), seg_present = ucast (drop_bit 47 e AND mask 1),
      seg_dpl = ucast (drop_bit 45 e AND mask 2), seg_db = ucast (drop_bit 54 e AND mask 1),
      seg_s = ucast (drop_bit 44 e AND mask 1), seg_l = ucast (drop_bit 53 e AND mask 1),
      seg_g = ucast (drop_bit 55 e AND mask 1), seg_avl = ucast (drop_bit 52 e AND mask 1),
      seg_unusable = 0, seg_padding = 0\<rparr>"

section \<open>Lemmas\<close>

lemma sbind_Inr [simp]: "sbind (Inr x) f = f x" and sbind_Inl [simp]: "sbind (Inl e) f = Inl e"
  by (simp_all add: sbind_def)

lemma word_masks:
  "(0x1 :: 32 word) = mask 1" "(0x3 :: 32 word) = mask 2" "(0xf :: 32 word) = mask 4"
  "(0x1 :: 64 word) = mask 1" "(0x3 :: 64 word) = mask 2" "(0xf :: 64 word) = mask 4"
  by (simp_all add: mask_eq_exp_minus_1)

text \<open>A field of \<open>m\<close> bits at position \<open>k\<close>.\<close>

lemma bit_field:
  assumes "k + m \<le> LENGTH('a)"
  shows "bit (push_bit k (ucast (f :: 'b::len word) AND mask m) :: 'a::len word) n \<longleftrightarrow> k \<le> n \<and> n < k + m \<and> bit f (n - k)"
  using assms bit_imp_le_length[of f "n - k"] by (auto simp: bit_simps)

lemma field_extract:
  assumes "f < 2 ^ m" and "m \<le> 8" and "\<And>i. i < m \<Longrightarrow> bit (A :: 'a::len word) (k + i) \<longleftrightarrow> bit f i" and "8 \<le> LENGTH('a)"
  shows "ucast (drop_bit k A AND mask m) = (f :: u8)"
proof (rule bit_word_eqI)
  fix n assume "n < LENGTH(8)"
  then show "bit (ucast (drop_bit k A AND mask m) :: u8) n \<longleftrightarrow> bit f n"
    using small_word_bit[OF assms(1), of n] assms(2,4) assms(3)[of n] by (auto simp: bit_simps)
qed

lemma bit_access:
  "bit (sd_access (seg_desc_of s)) n \<longleftrightarrow>
     0 \<le> n \<and> n < 0 + 4 \<and> bit (seg_type s) (n - 0) \<or> 4 \<le> n \<and> n < 4 + 1 \<and> bit (seg_s s) (n - 4) \<or>
     5 \<le> n \<and> n < 5 + 2 \<and> bit (seg_dpl s) (n - 5) \<or> 7 \<le> n \<and> n < 7 + 1 \<and> bit (seg_present s) (n - 7) \<or>
     12 \<le> n \<and> n < 12 + 1 \<and> bit (seg_avl s) (n - 12) \<or> 13 \<le> n \<and> n < 13 + 1 \<and> bit (seg_l s) (n - 13) \<or>
     14 \<le> n \<and> n < 14 + 1 \<and> bit (seg_db s) (n - 14) \<or> 15 \<le> n \<and> n < 15 + 1 \<and> bit (seg_g s) (n - 15) \<or>
     16 \<le> n \<and> n < 16 + 1 \<and> bit (seg_unusable s) (n - 16)"
proof -
  have t: "ucast (seg_type s) AND 0x000f = (push_bit 0 (ucast (seg_type s) AND mask 4) :: u32)"
    by (simp add: word_masks)
  have b: "bit (push_bit 0 (ucast f AND mask 4) :: u32) n \<longleftrightarrow> 0 \<le> n \<and> n < 0 + 4 \<and> bit f (n - 0)"
    "bit (push_bit 4 (ucast f AND mask 1) :: u32) n \<longleftrightarrow> 4 \<le> n \<and> n < 4 + 1 \<and> bit f (n - 4)"
    "bit (push_bit 5 (ucast f AND mask 2) :: u32) n \<longleftrightarrow> 5 \<le> n \<and> n < 5 + 2 \<and> bit f (n - 5)"
    "bit (push_bit 7 (ucast f AND mask 1) :: u32) n \<longleftrightarrow> 7 \<le> n \<and> n < 7 + 1 \<and> bit f (n - 7)"
    "bit (push_bit 12 (ucast f AND mask 1) :: u32) n \<longleftrightarrow> 12 \<le> n \<and> n < 12 + 1 \<and> bit f (n - 12)"
    "bit (push_bit 13 (ucast f AND mask 1) :: u32) n \<longleftrightarrow> 13 \<le> n \<and> n < 13 + 1 \<and> bit f (n - 13)"
    "bit (push_bit 14 (ucast f AND mask 1) :: u32) n \<longleftrightarrow> 14 \<le> n \<and> n < 14 + 1 \<and> bit f (n - 14)"
    "bit (push_bit 15 (ucast f AND mask 1) :: u32) n \<longleftrightarrow> 15 \<le> n \<and> n < 15 + 1 \<and> bit f (n - 15)"
    "bit (push_bit 16 (ucast f AND mask 1) :: u32) n \<longleftrightarrow> 16 \<le> n \<and> n < 16 + 1 \<and> bit f (n - 16)" for f :: u8
    by (rule bit_field; simp)+
  show ?thesis
    unfolding seg_desc_of_def seg_desc.simps t unfolding word_masks bit_or_iff b by (simp only: disj_assoc)
qed

lemma of_seg_desc_of:
  assumes "seg_ok s"
  shows "of_seg_desc (seg_desc_of s) = s\<lparr>seg_selector := 0, seg_padding := 0\<rparr>"
proof -
  have "ucast (drop_bit 0 (sd_access (seg_desc_of s)) AND mask 4) = seg_type s"
    using assms by (intro field_extract) (auto simp: seg_ok_def bit_access)
  moreover have "ucast (drop_bit 4 (sd_access (seg_desc_of s)) AND mask 1) = seg_s s"
    "ucast (drop_bit 7 (sd_access (seg_desc_of s)) AND mask 1) = seg_present s"
    "ucast (drop_bit 12 (sd_access (seg_desc_of s)) AND mask 1) = seg_avl s"
    "ucast (drop_bit 13 (sd_access (seg_desc_of s)) AND mask 1) = seg_l s"
    "ucast (drop_bit 14 (sd_access (seg_desc_of s)) AND mask 1) = seg_db s"
    "ucast (drop_bit 15 (sd_access (seg_desc_of s)) AND mask 1) = seg_g s"
    "ucast (drop_bit 16 (sd_access (seg_desc_of s)) AND mask 1) = seg_unusable s"
    "ucast (drop_bit 5 (sd_access (seg_desc_of s)) AND mask 2) = seg_dpl s"
    using assms by (intro field_extract; simp add: seg_ok_def bit_access; presburger?)+
  ultimately show ?thesis
    unfolding of_seg_desc_def word_masks by (simp add: seg_desc_of_def)
qed

lemma wide_masks:
  "(0xff000000 :: u64) = push_bit 24 (mask 8)" "(0x00ffffff :: u64) = mask 24"
  "(0x0000ffff :: u64) = mask 16" "(0x000f0000 :: u64) = push_bit 16 (mask 4)"
  by (simp_all add: mask_eq_exp_minus_1)

lemma bit_gdt_entry:
  "bit (segment_gdt_entry s) n \<longleftrightarrow>
     56 \<le> n \<and> n < 64 \<and> bit (seg_base s) (n - 32) \<or> 16 \<le> n \<and> n < 40 \<and> bit (seg_base s) (n - 16) \<or>
     n < 16 \<and> bit (seg_limit s) n \<or> 48 \<le> n \<and> n < 52 \<and> bit (seg_limit s) (n - 32) \<or>
     n = 55 \<and> bit (seg_g s) 0 \<or> n = 54 \<and> bit (seg_db s) 0 \<or> n = 53 \<and> bit (seg_l s) 0 \<or>
     n = 52 \<and> bit (seg_avl s) 0 \<or> n = 47 \<and> bit (seg_present s) 0 \<or>
     45 \<le> n \<and> n < 47 \<and> bit (seg_dpl s) (n - 45) \<or> n = 44 \<and> bit (seg_s s) 0 \<or>
     40 \<le> n \<and> n < 44 \<and> bit (seg_type s) (n - 40)"
proof -
  have one: "k + 1 \<le> 64 \<Longrightarrow> bit (push_bit k (ucast f AND mask 1) :: u64) n \<longleftrightarrow> n = k \<and> bit f 0" for f :: u8 and k
    by (subst bit_field) auto
  have p: "push_bit a (push_bit b (w :: u64)) = push_bit (a + b) w" for a b w by (simp add: add.commute)
  have b: "bit (push_bit 32 (seg_base s AND push_bit 24 (mask 8))) n \<longleftrightarrow> 56 \<le> n \<and> n < 64 \<and> bit (seg_base s) (n - 32)"
    "bit (push_bit 16 (seg_base s AND mask 24)) n \<longleftrightarrow> 16 \<le> n \<and> n < 40 \<and> bit (seg_base s) (n - 16)"
    "bit (ucast (seg_limit s) AND mask 16 :: u64) n \<longleftrightarrow> n < 16 \<and> bit (seg_limit s) n"
    "bit (push_bit 32 (ucast (seg_limit s) AND push_bit 16 (mask 4)) :: u64) n \<longleftrightarrow> 48 \<le> n \<and> n < 52 \<and> bit (seg_limit s) (n - 32)"
    by (auto simp: bit_simps)
  have f: "bit (push_bit 45 (ucast (seg_dpl s) AND mask 2) :: u64) n \<longleftrightarrow> 45 \<le> n \<and> n < 45 + 2 \<and> bit (seg_dpl s) (n - 45)"
    "bit (push_bit 40 (ucast (seg_type s) AND mask 4) :: u64) n \<longleftrightarrow> 40 \<le> n \<and> n < 40 + 4 \<and> bit (seg_type s) (n - 40)"
    by (rule bit_field; simp)+
  have o: "bit (push_bit 55 (ucast (seg_g s) AND mask 1) :: u64) n \<longleftrightarrow> n = 55 \<and> bit (seg_g s) 0"
    "bit (push_bit 54 (ucast (seg_db s) AND mask 1) :: u64) n \<longleftrightarrow> n = 54 \<and> bit (seg_db s) 0"
    "bit (push_bit 53 (ucast (seg_l s) AND mask 1) :: u64) n \<longleftrightarrow> n = 53 \<and> bit (seg_l s) 0"
    "bit (push_bit 52 (ucast (seg_avl s) AND mask 1) :: u64) n \<longleftrightarrow> n = 52 \<and> bit (seg_avl s) 0"
    "bit (push_bit 47 (ucast (seg_present s) AND mask 1) :: u64) n \<longleftrightarrow> n = 47 \<and> bit (seg_present s) 0"
    "bit (push_bit 44 (ucast (seg_s s) AND mask 1) :: u64) n \<longleftrightarrow> n = 44 \<and> bit (seg_s s) 0"
    by (rule one; simp)+
  have e: "segment_gdt_entry s =
      push_bit 32 (seg_base s AND push_bit 24 (mask 8)) OR push_bit 16 (seg_base s AND mask 24) OR
      (ucast (seg_limit s) AND mask 16) OR push_bit 32 (ucast (seg_limit s) AND push_bit 16 (mask 4)) OR
      (push_bit (52 + 3) (ucast (seg_g s) AND mask 1) OR push_bit (52 + 2) (ucast (seg_db s) AND mask 1) OR
       push_bit (52 + 1) (ucast (seg_l s) AND mask 1) OR push_bit 52 (ucast (seg_avl s) AND mask 1)) OR
      (push_bit (40 + 7) (ucast (seg_present s) AND mask 1) OR push_bit (40 + 5) (ucast (seg_dpl s) AND mask 2) OR
       push_bit (40 + 4) (ucast (seg_s s) AND mask 1) OR push_bit 40 (ucast (seg_type s) AND mask 4))"
    unfolding segment_gdt_entry_def Let_def wide_masks word_masks push_bit_or p ..
  have n: "(52 + 3 :: nat) = 55" "(52 + 2 :: nat) = 54" "(52 + 1 :: nat) = 53" "(40 + 7 :: nat) = 47"
    "(40 + 5 :: nat) = 45" "(40 + 4 :: nat) = 44" by simp_all
  show ?thesis unfolding e n bit_or_iff b o f by (simp add: disj_assoc)
qed

lemma gdt_decode_entry:
  assumes "seg_ok s" and "seg_base s < 2 ^ 32" and "seg_limit s < 2 ^ 20"
  shows "gdt_decode (segment_gdt_entry s) = s\<lparr>seg_selector := 0, seg_unusable := 0, seg_padding := 0\<rparr>"
proof -
  let ?e = "segment_gdt_entry s"
  have base: "(drop_bit 16 ?e AND mask 24) OR push_bit 24 (drop_bit 56 ?e AND mask 8) = seg_base s"
  proof (rule bit_word_eqI)
    fix i assume "i < LENGTH(64)"
    then show "bit ((drop_bit 16 ?e AND mask 24) OR push_bit 24 (drop_bit 56 ?e AND mask 8)) i \<longleftrightarrow> bit (seg_base s) i"
      using small_word_bit[OF assms(2), of i] by (cases "i < 24") (auto simp: bit_simps bit_gdt_entry)
  qed
  have limit: "ucast ((?e AND mask 16) OR push_bit 16 (drop_bit 48 ?e AND mask 4)) = seg_limit s"
  proof (rule bit_word_eqI)
    fix i assume "i < LENGTH(32)"
    then show "bit (ucast ((?e AND mask 16) OR push_bit 16 (drop_bit 48 ?e AND mask 4)) :: u32) i \<longleftrightarrow> bit (seg_limit s) i"
      using small_word_bit[OF assms(3), of i] by (cases "i < 16") (auto simp: bit_simps bit_gdt_entry)
  qed
  have "ucast (drop_bit 40 ?e AND mask 4) = seg_type s" "ucast (drop_bit 47 ?e AND mask 1) = seg_present s"
    "ucast (drop_bit 45 ?e AND mask 2) = seg_dpl s" "ucast (drop_bit 54 ?e AND mask 1) = seg_db s"
    "ucast (drop_bit 44 ?e AND mask 1) = seg_s s" "ucast (drop_bit 53 ?e AND mask 1) = seg_l s"
    "ucast (drop_bit 55 ?e AND mask 1) = seg_g s" "ucast (drop_bit 52 ?e AND mask 1) = seg_avl s"
    using assms(1) by (intro field_extract; simp add: seg_ok_def bit_gdt_entry; presburger?)+
  then show ?thesis using base limit by (simp add: gdt_decode_def)
qed

lemma set_registers_view:
  assumes "vm_laws ops"
  shows "\<exists>k'. set_registers ops k rs = Inr k' \<and>
     op_get_reg ops k' = foldl (\<lambda>f (r, v). f(r := Inr v)) (op_get_reg ops k) rs \<and>
     op_get_desc ops k' = op_get_desc ops k"
proof (induction rs arbitrary: k)
  case (Cons p rs)
  obtain r v where p: "p = (r, v)" by (cases p)
  obtain k1 where k1: "op_set_reg ops k r v = Inr k1" "op_get_reg ops k1 = (op_get_reg ops k)(r := Inr v)"
    "op_get_desc ops k1 = op_get_desc ops k" using assms unfolding vm_laws_def by meson
  show ?case using Cons[of k1] k1 p by simp
qed simp

lemma set_segment_view:
  assumes "vm_laws ops" and "has_desc r"
  shows "\<exists>k'. set_segment ops k r s = Inr k' \<and>
     op_get_reg ops k' = (op_get_reg ops k)(r := Inr (ucast (seg_selector s))) \<and>
     op_get_desc ops k' = (op_get_desc ops k)(r := Inr (seg_desc_of s))"
proof -
  obtain k1 where k1: "op_set_desc ops k r (seg_desc_of s) = Inr k1"
    "op_get_desc ops k1 = (op_get_desc ops k)(r := Inr (seg_desc_of s))" "op_get_reg ops k1 = op_get_reg ops k"
    using assms unfolding vm_laws_def by meson
  obtain k2 where "op_set_reg ops k1 r (ucast (seg_selector s)) = Inr k2"
    "op_get_reg ops k2 = (op_get_reg ops k1)(r := Inr (ucast (seg_selector s)))" "op_get_desc ops k2 = op_get_desc ops k1"
    using assms unfolding vm_laws_def by meson
  then show ?thesis using k1 by (simp add: set_segment_def)
qed

lemma set_segments_view:
  assumes "vm_laws ops" and "list_all (\<lambda>(r, s). has_desc r) rs"
  shows "\<exists>k'. set_segments ops k rs = Inr k' \<and>
     op_get_reg ops k' = foldl (\<lambda>f (r, s). f(r := Inr (ucast (seg_selector s)))) (op_get_reg ops k) rs \<and>
     op_get_desc ops k' = foldl (\<lambda>f (r, s). f(r := Inr (seg_desc_of s))) (op_get_desc ops k) rs"
  using assms(2)
proof (induction rs arbitrary: k)
  case (Cons p rs)
  obtain r s where p: "p = (r, s)" and r: "has_desc r" using Cons.prems by (cases p) auto
  obtain k1 where k1: "set_segment ops k r s = Inr k1"
    "op_get_reg ops k1 = (op_get_reg ops k)(r := Inr (ucast (seg_selector s)))"
    "op_get_desc ops k1 = (op_get_desc ops k)(r := Inr (seg_desc_of s))"
    using set_segment_view[OF assms(1) r] by blast
  show ?case using Cons.IH[of k1] Cons.prems k1 p by simp
qed simp

lemma set_dtable_view:
  assumes "vm_laws ops" and "has_desc r"
  shows "\<exists>k'. set_dtable ops k r d = Inr k' \<and> op_get_reg ops k' = op_get_reg ops k \<and>
     op_get_desc ops k' = (op_get_desc ops k)(r := Inr (dtable_desc d))"
  using assms unfolding vm_laws_def set_dtable_def by meson

lemma desc_dtable_of: "desc_dtable (dtable_desc d) = d\<lparr>dt_padding := [0, 0, 0]\<rparr>"
  by (simp add: desc_dtable_def dtable_desc_def)

lemma segment_back:
  "seg_ok s \<Longrightarrow> seg_padding s = 0 \<Longrightarrow> (of_seg_desc (seg_desc_of s))\<lparr>seg_selector := seg_selector s\<rparr> = s"
  by (simp add: of_seg_desc_of)

text \<open>The two halves of the state live in different registers.\<close>

lemma bhyve_get_regs_cong:
  assumes "\<And>r. r \<in> {RegRax, RegRbx, RegRcx, RegRdx, RegRsi, RegRdi, RegRsp, RegRbp, RegR8, RegR9, RegR10,
      RegR11, RegR12, RegR13, RegR14, RegR15, RegRip, RegRflags} \<Longrightarrow> op_get_reg ops k' r = op_get_reg ops k r"
  shows "bhyve_get_regs ops k' = bhyve_get_regs ops k"
  unfolding bhyve_get_regs_def using assms by simp

lemma bhyve_get_sregs_cong:
  assumes "\<And>r. r \<in> {RegCs, RegDs, RegEs, RegFs, RegGs, RegSs, RegTr, RegLdtr, RegCr0, RegCr2, RegCr3,
      RegCr4, RegEfer} \<Longrightarrow> op_get_reg ops k' r = op_get_reg ops k r"
    and "op_get_desc ops k' = op_get_desc ops k"
  shows "bhyve_get_sregs ops k' = bhyve_get_sregs ops k"
  unfolding bhyve_get_sregs_def get_segment_def get_dtable_def using assms by simp

lemma bhyve_regs_back:
  assumes "vm_laws ops"
  shows "\<exists>k'. bhyve_set_regs ops k r = Inr k' \<and> bhyve_get_regs ops k' = Inr r \<and>
     bhyve_get_sregs ops k' = bhyve_get_sregs ops k"
proof -
  let ?rs = "[(RegRax, rax r), (RegRbx, rbx r), (RegRcx, rcx r), (RegRdx, rdx r), (RegRsi, rsi r),
      (RegRdi, rdi r), (RegRsp, rsp r), (RegRbp, rbp r), (RegR8, r8 r), (RegR9, r9 r), (RegR10, r10 r),
      (RegR11, r11 r), (RegR12, r12 r), (RegR13, r13 r), (RegR14, r14 r), (RegR15, r15 r),
      (RegRip, rip r), (RegRflags, rflags r)]"
  obtain k' where k': "set_registers ops k ?rs = Inr k'"
    "op_get_reg ops k' = foldl (\<lambda>f (r, v). f(r := Inr v)) (op_get_reg ops k) ?rs"
    "op_get_desc ops k' = op_get_desc ops k"
    using set_registers_view[OF assms] by blast
  have "bhyve_get_regs ops k' = Inr r" unfolding bhyve_get_regs_def k'(2) by simp
  moreover have "bhyve_get_sregs ops k' = bhyve_get_sregs ops k"
    by (rule bhyve_get_sregs_cong) (auto simp: k'(2,3))
  ultimately show ?thesis using k'(1) unfolding bhyve_set_regs_def by blast
qed

lemma bhyve_sregs_back:
  assumes "vm_laws ops" and "sregs_ok s"
  shows "\<exists>k'. bhyve_set_sregs ops k s = Inr k' \<and> bhyve_get_sregs ops k' = Inr (bhyve_kept s) \<and>
     bhyve_get_regs ops k' = bhyve_get_regs ops k"
proof -
  let ?segs = "[(RegCs, sr_cs s), (RegDs, sr_ds s), (RegEs, sr_es s), (RegFs, sr_fs s), (RegGs, sr_gs s),
      (RegSs, sr_ss s), (RegTr, sr_tr s), (RegLdtr, sr_ldt s)]"
  let ?regs = "[(RegCr0, sr_cr0 s), (RegCr2, sr_cr2 s), (RegCr3, sr_cr3 s), (RegCr4, sr_cr4 s), (RegEfer, sr_efer s)]"
  obtain k1 where k1: "set_segments ops k ?segs = Inr k1"
    "op_get_reg ops k1 = foldl (\<lambda>f (r, s). f(r := Inr (ucast (seg_selector s)))) (op_get_reg ops k) ?segs"
    "op_get_desc ops k1 = foldl (\<lambda>f (r, s). f(r := Inr (seg_desc_of s))) (op_get_desc ops k) ?segs"
    using set_segments_view[OF assms(1), of ?segs k] by (auto simp: has_desc_def)
  obtain k2 where k2: "set_dtable ops k1 RegGdtr (sr_gdt s) = Inr k2" "op_get_reg ops k2 = op_get_reg ops k1"
    "op_get_desc ops k2 = (op_get_desc ops k1)(RegGdtr := Inr (dtable_desc (sr_gdt s)))"
    using set_dtable_view[OF assms(1)] by (metis has_desc_def insertCI)
  obtain k3 where k3: "set_dtable ops k2 RegIdtr (sr_idt s) = Inr k3" "op_get_reg ops k3 = op_get_reg ops k2"
    "op_get_desc ops k3 = (op_get_desc ops k2)(RegIdtr := Inr (dtable_desc (sr_idt s)))"
    using set_dtable_view[OF assms(1)] by (metis has_desc_def insertCI)
  obtain k4 where k4: "set_registers ops k3 ?regs = Inr k4"
    "op_get_reg ops k4 = foldl (\<lambda>f (r, v). f(r := Inr v)) (op_get_reg ops k3) ?regs" "op_get_desc ops k4 = op_get_desc ops k3"
    using set_registers_view[OF assms(1)] by blast
  have set: "bhyve_set_sregs ops k s = Inr k4" unfolding bhyve_set_sregs_def k1(1) sbind_Inr k2(1) k3(1) k4(1) ..
  have seg: "get_segment ops k4 r = Inr g"
    if "op_get_desc ops k4 r = Inr (seg_desc_of g)" "op_get_reg ops k4 r = Inr (ucast (seg_selector g))"
      "seg_ok g \<and> seg_padding g = 0" for r g
    using that segment_back[of g] by (simp add: get_segment_def)
  have segs: "get_segment ops k4 RegCs = Inr (sr_cs s)" "get_segment ops k4 RegDs = Inr (sr_ds s)"
    "get_segment ops k4 RegEs = Inr (sr_es s)" "get_segment ops k4 RegFs = Inr (sr_fs s)"
    "get_segment ops k4 RegGs = Inr (sr_gs s)" "get_segment ops k4 RegSs = Inr (sr_ss s)"
    "get_segment ops k4 RegTr = Inr (sr_tr s)" "get_segment ops k4 RegLdtr = Inr (sr_ldt s)"
    using assms(2) by (intro seg; simp add: k4 k3 k2 k1 sregs_ok_def)+
  have dts: "get_dtable ops k4 RegGdtr = Inr ((sr_gdt s)\<lparr>dt_padding := [0, 0, 0]\<rparr>)"
    "get_dtable ops k4 RegIdtr = Inr ((sr_idt s)\<lparr>dt_padding := [0, 0, 0]\<rparr>)"
    by (simp_all add: get_dtable_def k4 k3 k2 k1 desc_dtable_of)
  have "bhyve_get_sregs ops k4 = Inr (bhyve_kept s)"
    unfolding bhyve_get_sregs_def segs dts sbind_Inr by (simp add: k4 k3 k2 k1 bhyve_kept_def)
  moreover have "bhyve_get_regs ops k4 = bhyve_get_regs ops k"
    by (rule bhyve_get_regs_cong) (auto simp: k4 k3 k2 k1)
  ultimately show ?thesis using set by blast
qed

lemma kvm_regs_back: "of_kvm_regs (kvm_regs_of r) = r"
  by (simp add: of_kvm_regs_def kvm_regs_of_def)

lemma kvm_sregs_back: "of_kvm_sregs (kvm_sregs_of s) = s"
  by (simp add: of_kvm_sregs_def kvm_sregs_of_def of_kvm_segment_def kvm_segment_of_def
      of_kvm_dtable_def kvm_dtable_of_def)

lemma kvm_sregs_of_ok: "sregs_ok s \<Longrightarrow> kvm_sregs_ok (kvm_sregs_of s)"
  by (simp add: sregs_ok_def kvm_sregs_ok_def kvm_sregs_of_def kvm_dtable_of_def)

section \<open>The vCPU's interface\<close>

text \<open>
  The register operations of the trait \<open>Vcpu\<close>, and the two hosts' implementations of them.
\<close>

record ('k, 'e) vcpu_ops =
  v_get_regs :: "'k \<Rightarrow> 'e + regs"
  v_set_regs :: "'k \<Rightarrow> regs \<Rightarrow> 'e + 'k"
  v_get_sregs :: "'k \<Rightarrow> 'e + sregs"
  v_set_sregs :: "'k \<Rightarrow> sregs \<Rightarrow> 'e + 'k"

definition kvm_vcpu :: "('k, 'e) kvm_ops \<Rightarrow> ('k, 'e) vcpu_ops" where
  "kvm_vcpu ops = \<lparr>v_get_regs = kvm_get_regs ops, v_set_regs = kvm_set_regs ops,
     v_get_sregs = kvm_get_sregs ops, v_set_sregs = kvm_set_sregs ops\<rparr>"

definition bhyve_vcpu :: "('k, 'e) vm_ops \<Rightarrow> ('k, 'e) vcpu_ops" where
  "bhyve_vcpu ops = \<lparr>v_get_regs = bhyve_get_regs ops, v_set_regs = bhyve_set_regs ops,
     v_get_sregs = bhyve_get_sregs ops, v_set_sregs = bhyve_set_sregs ops\<rparr>"

text \<open>
  What booting relies on: a state that was set is the state read back, up to the part the host
  keeps, and the general and the special registers do not interfere.
\<close>

locale vcpu_state =
  fixes v :: "('k, 'e) vcpu_ops" and kept :: "sregs \<Rightarrow> sregs"
  assumes set_regs: "\<exists>k'. v_set_regs v k r = Inr k' \<and> v_get_regs v k' = Inr r \<and> v_get_sregs v k' = v_get_sregs v k"
    and set_sregs: "sregs_ok s \<Longrightarrow>
      \<exists>k'. v_set_sregs v k s = Inr k' \<and> v_get_sregs v k' = Inr (kept s) \<and> v_get_regs v k' = v_get_regs v k"
    and kept_mode: "sr_cr0 (kept s) = sr_cr0 s" "sr_cr3 (kept s) = sr_cr3 s" "sr_cr4 (kept s) = sr_cr4 s"
      "sr_efer (kept s) = sr_efer s" "sr_cs (kept s) = sr_cs s" "sr_ds (kept s) = sr_ds s"
      "sr_es (kept s) = sr_es s" "sr_fs (kept s) = sr_fs s" "sr_gs (kept s) = sr_gs s" "sr_ss (kept s) = sr_ss s"
      "dt_base (sr_gdt (kept s)) = dt_base (sr_gdt s)" "dt_limit (sr_gdt (kept s)) = dt_limit (sr_gdt s)"

text \<open>The kernel's side: KVM's four ioctls store and load whole structures, bhyve's single registers.\<close>

locale kvm_kernel =
  fixes ops :: "('k, 'e) kvm_ops"
  assumes regs: "\<exists>k'. io_set_regs ops k r = Inr k' \<and> io_get_regs ops k' = Inr r \<and> io_get_sregs ops k' = io_get_sregs ops k"
    and sregs: "kvm_sregs_ok s \<Longrightarrow> \<exists>k'. io_set_sregs ops k s = Inr k' \<and> io_get_sregs ops k' = Inr s \<and> io_get_regs ops k' = io_get_regs ops k"

locale bhyve_kernel =
  fixes ops :: "('k, 'e) vm_ops"
  assumes laws: "vm_laws ops"

sublocale kvm_kernel \<subseteq> kvm: vcpu_state "kvm_vcpu ops" "\<lambda>s. s"
proof
  show "\<exists>k'. v_set_regs (kvm_vcpu ops) k r = Inr k' \<and> v_get_regs (kvm_vcpu ops) k' = Inr r \<and>
      v_get_sregs (kvm_vcpu ops) k' = v_get_sregs (kvm_vcpu ops) k" for k r
    using regs[of k "kvm_regs_of r"]
    by (auto simp: kvm_vcpu_def kvm_set_regs_def kvm_get_regs_def kvm_get_sregs_def kvm_regs_back)
  show "\<exists>k'. v_set_sregs (kvm_vcpu ops) k s = Inr k' \<and> v_get_sregs (kvm_vcpu ops) k' = Inr s \<and>
      v_get_regs (kvm_vcpu ops) k' = v_get_regs (kvm_vcpu ops) k" if "sregs_ok s" for k s
    using sregs[OF kvm_sregs_of_ok[OF that], of k]
    by (auto simp: kvm_vcpu_def kvm_set_sregs_def kvm_get_sregs_def kvm_get_regs_def kvm_sregs_back)
qed simp_all

sublocale bhyve_kernel \<subseteq> bhyve: vcpu_state "bhyve_vcpu ops" bhyve_kept
  by unfold_locales
    (simp_all add: bhyve_vcpu_def bhyve_regs_back[OF laws] bhyve_sregs_back[OF laws], simp_all add: bhyve_kept_def)

text \<open>The kernel as a register file, where both hosts' laws hold.\<close>

definition kvm_file :: "(kvm_regs \<times> kvm_sregs, unit) kvm_ops" where
  "kvm_file = \<lparr>io_get_regs = (\<lambda>(r, s). Inr r), io_set_regs = (\<lambda>(r, s) r'. Inr (r', s)),
     io_get_sregs = (\<lambda>(r, s). Inr s), io_set_sregs = (\<lambda>(r, s) s'. Inr (r, s'))\<rparr>"

definition bhyve_file :: "((vm_reg_name \<Rightarrow> u64) \<times> (vm_reg_name \<Rightarrow> seg_desc), unit) vm_ops" where
  "bhyve_file = \<lparr>op_set_reg = (\<lambda>(f, g) r v. Inr (f(r := v), g)), op_get_reg = (\<lambda>(f, g) r. Inr (f r)),
     op_set_desc = (\<lambda>(f, g) r d. Inr (f, g(r := d))), op_get_desc = (\<lambda>(f, g) r. Inr (g r))\<rparr>"

interpretation kvm_file: kvm_kernel kvm_file
  by unfold_locales (auto simp: kvm_file_def)

interpretation bhyve_file: bhyve_kernel bhyve_file
  by unfold_locales (auto simp: vm_laws_def bhyve_file_def)

text \<open>A vCPU after reset on each.\<close>

definition fresh_regs :: regs where
  "fresh_regs = \<lparr>rax = 0, rbx = 0, rcx = 0, rdx = 0, rsi = 0, rdi = 0, rsp = 0, rbp = 0, r8 = 0, r9 = 0, r10 = 0, r11 = 0,
     r12 = 0, r13 = 0, r14 = 0, r15 = 0, rip = 0xfff0, rflags = 2\<rparr>"

definition fresh_sregs :: sregs where
  "fresh_sregs =
     \<lparr>sr_cs = generate_segment 0 11, sr_ds = generate_segment 0 3, sr_es = generate_segment 0 3, sr_fs = generate_segment 0 3,
      sr_gs = generate_segment 0 3, sr_ss = generate_segment 0 3, sr_tr = generate_segment 0 11, sr_ldt = generate_segment 0 2,
      sr_gdt = \<lparr>dt_base = 0, dt_limit = 0xffff, dt_padding = [0, 0, 0]\<rparr>,
      sr_idt = \<lparr>dt_base = 0, dt_limit = 0xffff, dt_padding = [0, 0, 0]\<rparr>, sr_cr0 = 0x60000010, sr_cr2 = 0, sr_cr3 = 0,
      sr_cr4 = 0, sr_cr8 = 0, sr_efer = 0, sr_apic_base = 0xfee00900, sr_interrupt_bitmap = [0, 0, 0, 0]\<rparr>"

definition fresh_vcpu :: "kvm_regs \<times> kvm_sregs" where
  "fresh_vcpu = (kvm_regs_of fresh_regs, kvm_sregs_of fresh_sregs)"

definition fresh_bhyve :: "(vm_reg_name \<Rightarrow> u64) \<times> (vm_reg_name \<Rightarrow> seg_desc)" where
  "fresh_bhyve = (\<lambda>_. 0, \<lambda>_. seg_desc_of (generate_segment 1 11))"

lemma generate_ok: "t < 16 \<Longrightarrow> seg_ok (generate_segment i t) \<and> seg_padding (generate_segment i t) = 0"
  by (simp add: seg_ok_def generate_segment_def)

lemma fresh_vcpu_state:
  "v_get_regs (kvm_vcpu kvm_file) fresh_vcpu = Inr fresh_regs" "v_get_sregs (kvm_vcpu kvm_file) fresh_vcpu = Inr fresh_sregs"
  "sregs_ok fresh_sregs"
  by (simp_all add: kvm_vcpu_def kvm_get_regs_def kvm_get_sregs_def fresh_vcpu_def kvm_file_def kvm_regs_back kvm_sregs_back)
    (simp add: fresh_sregs_def sregs_ok_def generate_ok)

lemma fresh_bhyve_state:
  "\<exists>r. v_get_regs (bhyve_vcpu bhyve_file) fresh_bhyve = Inr r"
  "\<exists>s. v_get_sregs (bhyve_vcpu bhyve_file) fresh_bhyve = Inr s \<and> sregs_ok s"
proof -
  have g: "of_seg_desc (seg_desc_of (generate_segment 1 11)) = (generate_segment 1 11)\<lparr>seg_selector := 0\<rparr>"
    using of_seg_desc_of[of "generate_segment 1 11"] generate_ok[of 11 1] by (simp add: generate_segment_def)
  show "\<exists>r. v_get_regs (bhyve_vcpu bhyve_file) fresh_bhyve = Inr r"
    by (simp add: bhyve_vcpu_def bhyve_get_regs_def sbind_def bhyve_file_def fresh_bhyve_def)
  show "\<exists>s. v_get_sregs (bhyve_vcpu bhyve_file) fresh_bhyve = Inr s \<and> sregs_ok s"
    using generate_ok[of 11 1]
    by (simp add: bhyve_vcpu_def bhyve_get_sregs_def get_segment_def get_dtable_def bhyve_file_def fresh_bhyve_def g sregs_ok_def
        seg_ok_def desc_dtable_def)
qed

section \<open>Properties\<close>

text \<open>
  The processor state set on a vCPU is the state read back. Through KVM's structures both
  halves survive unchanged. On bhyve, whose ioctls move one register or descriptor at a
  time, setting the general registers and reading them returns them all, and setting the special
  registers and reading them returns every segment, table, control register and EFER; CR8, the APIC
  base, the interrupt bitmap and the table padding, for which bhyve has no register, read as zero.
  Setting one half leaves the other.
\<close>

theorem vcpu_state_roundtrip:
  assumes "vm_laws ops" and "sregs_ok s"
  shows "of_kvm_regs (kvm_regs_of r) = r \<and> of_kvm_sregs (kvm_sregs_of s) = s \<and>
     (\<exists>k'. bhyve_set_regs ops k r = Inr k' \<and> bhyve_get_regs ops k' = Inr r \<and>
        bhyve_get_sregs ops k' = bhyve_get_sregs ops k) \<and>
     (\<exists>k'. bhyve_set_sregs ops k s = Inr k' \<and> bhyve_get_sregs ops k' = Inr (bhyve_kept s) \<and>
        bhyve_get_regs ops k' = bhyve_get_regs ops k)"
  using kvm_regs_back kvm_sregs_back bhyve_regs_back[OF assms(1)] bhyve_sregs_back[OF assms] by blast

theorem vcpu_state_roundtrip_witness:
  "\<exists>k'. bhyve_set_sregs bhyve_file (\<lambda>_. 0, \<lambda>_. seg_desc_of (generate_segment 1 11))
       \<lparr>sr_cs = generate_segment 1 11, sr_ds = generate_segment 2 3, sr_es = generate_segment 2 3,
        sr_fs = generate_segment 2 3, sr_gs = generate_segment 2 3, sr_ss = generate_segment 2 3,
        sr_tr = generate_segment 3 11, sr_ldt = generate_segment 4 2,
        sr_gdt = \<lparr>dt_base = 0x500, dt_limit = 23, dt_padding = [0, 0, 0]\<rparr>,
        sr_idt = \<lparr>dt_base = 0, dt_limit = 0, dt_padding = [0, 0, 0]\<rparr>, sr_cr0 = 0x80000001, sr_cr2 = 0,
        sr_cr3 = 0xa000, sr_cr4 = 0x20, sr_cr8 = 0, sr_efer = 0x500, sr_apic_base = 0,
        sr_interrupt_bitmap = [0, 0, 0, 0]\<rparr> = Inr k'"
  (is "\<exists>k'. bhyve_set_sregs bhyve_file ?k ?s = _")
proof -
  have "seg_ok (generate_segment i t)" if "t < 16" for i t
    using that by (simp add: seg_ok_def generate_segment_def)
  moreover have "seg_padding (generate_segment i t) = 0" for i t by (simp add: generate_segment_def)
  ultimately have s: "sregs_ok ?s" by (simp add: sregs_ok_def)
  from vcpu_state_roundtrip[OF bhyve_file.laws s, where k = ?k] show ?thesis by blast
qed

text \<open>
  A descriptor table entry holds its segment: for fields within their widths, a base below 4 GiB
  and a limit below 1 MiB, decoding the entry the way the processor lays it out (limit and base
  split over three places) gives back every field of the segment.
\<close>

theorem gdt_entry_roundtrip:
  assumes "seg_ok s" and "seg_base s < 2 ^ 32" and "seg_limit s < 2 ^ 20"
  shows "gdt_decode (segment_gdt_entry s) = s\<lparr>seg_selector := 0, seg_unusable := 0, seg_padding := 0\<rparr>"
  using gdt_decode_entry[OF assms] .

theorem gdt_entry_roundtrip_witness:
  "gdt_decode (segment_gdt_entry ((generate_segment 1 11)\<lparr>seg_base := 0x12345678\<rparr>)) =
     (generate_segment 1 11)\<lparr>seg_base := 0x12345678, seg_selector := 0\<rparr>"
  using gdt_entry_roundtrip[of "(generate_segment 1 11)\<lparr>seg_base := 0x12345678\<rparr>"]
  by (simp add: seg_ok_def generate_segment_def)

end
