(* ===== verification/Boot.thy ===== *)
theory Boot
  imports Elf BootParams CpuState
begin

text \<open>
  Loading a kernel and preparing the first vCPU (\<open>src/boot.rs\<close>): the image format, the initial RAM
  disk, the boot parameters with the memory map, the command line, and the registers, page tables and
  descriptor table the kernel starts with.

  The vCPU is a record of operations on the host kernel's state (theory \<open>CpuState\<close>); the kernel file is
  its bytes and read errors (theory \<open>Elf\<close>); the initial RAM disk is absent, or a read that failed, or
  its bytes. An index out of range is \<open>None\<close>; an error drops the half-written guest, which never runs.
\<close>

section \<open>Constants\<close>

definition CMDLINE_ADDR :: u64 where "CMDLINE_ADDR = 0x20000"
definition EFER_LME :: u64 where "EFER_LME = push_bit 8 1"
definition EFER_LMA :: u64 where "EFER_LMA = push_bit 10 1"
definition EFER_NXE :: u64 where "EFER_NXE = push_bit 11 1"
definition BOOT_STACK_POINTER :: u64 where "BOOT_STACK_POINTER = 0x8ff0"
definition ZERO_PAGE_START :: u64 where "ZERO_PAGE_START = 0x7000"
definition EBDA_START :: u64 where "EBDA_START = 0x9fc00"
definition HIMEM_START :: u64 where "HIMEM_START = 0x100000"
definition NORMAL_VGA_MODE :: u16 where "NORMAL_VGA_MODE = 0xFFFF"
definition LINUX_BOOT_HDR_LOAD_HIGH :: u8 where "LINUX_BOOT_HDR_LOAD_HIGH = 1"
definition LINUX_BOOT_HDR_KEEP_SEGMENTS :: u8 where "LINUX_BOOT_HDR_KEEP_SEGMENTS = push_bit 6 1"
definition LINUX_BOOT_HDR_CAN_USE_HEAP :: u8 where "LINUX_BOOT_HDR_CAN_USE_HEAP = push_bit 7 1"
definition LINUX_HEAP_END_PTR :: u16 where "LINUX_HEAP_END_PTR = 0xFE00"
definition SETUP_HEADER_OFFSET :: nat where "SETUP_HEADER_OFFSET = 0x1F1"
definition INITRAMFS_ADDR :: u64 where "INITRAMFS_ADDR = 0x8000000"
definition BOOT_GDT_OFFSET :: u64 where "BOOT_GDT_OFFSET = 0x500"
definition X86_CR0_PE :: u64 where "X86_CR0_PE = 1"
definition X86_CR4_PAE :: u64 where "X86_CR4_PAE = 0x20"
definition X86_CR0_PG :: u64 where "X86_CR0_PG = 0x80000000"

lemmas boot_consts =
  CMDLINE_ADDR_def EFER_LME_def EFER_LMA_def EFER_NXE_def BOOT_STACK_POINTER_def ZERO_PAGE_START_def
  EBDA_START_def HIMEM_START_def NORMAL_VGA_MODE_def LINUX_BOOT_HDR_LOAD_HIGH_def
  LINUX_BOOT_HDR_KEEP_SEGMENTS_def LINUX_BOOT_HDR_CAN_USE_HEAP_def LINUX_HEAP_END_PTR_def
  SETUP_HEADER_OFFSET_def INITRAMFS_ADDR_def BOOT_GDT_OFFSET_def X86_CR0_PE_def X86_CR4_PAE_def X86_CR0_PG_def

section \<open>The kernel image\<close>

datatype kernel_image_format = BzImage | Elf64

datatype ('e, 'v) boot_error =
    OpenFailed 'e
  | KernelReadFailed 'e
  | UnsupportedFormat
  | PayloadBeyondEnd nat nat
  | KernelWrite mem_error
  | ElfLoad "'e elf_error"
  | InitrdRead 'e
  | InitrdTooLarge
  | InitrdWrite mem_error
  | HeaderTooSmall
  | BootParamsWrite mem_error
  | CmdlineTooLong nat
  | CmdlineWrite mem_error
  | GdtWrite nat mem_error
  | Pml4Write mem_error
  | PdptWrite mem_error
  | PdWrite mem_error
  | GetRegs 'v
  | SetRegs 'v
  | GetSregs 'v
  | SetSregs 'v

definition is_elf64 :: "bytes \<Rightarrow> bool" where
  "is_elf64 data \<longleftrightarrow> 5 \<le> length data \<and> data ! 0 = 0x7F \<and> data ! 1 = 0x45 \<and> data ! 2 = 0x4C \<and>
     data ! 3 = 0x46 \<and> data ! 4 = 2"

text \<open>
  The tests are evaluated from left to right, and each indexes the image without a check of its length.
\<close>

definition is_bzimage :: "bytes \<Rightarrow> bool option" where
  "is_bzimage data = do {
     b0 \<leftarrow> nth_opt data 0x1FE;
     if b0 \<noteq> 0x55 then Some False else do {
     b1 \<leftarrow> nth_opt data 0x1FF;
     if b1 \<noteq> 0xAA then Some False else do {
     h \<leftarrow> (if 0x206 \<le> length data then Some (subslice 0x202 0x206 data) else None);
     if h \<noteq> [0x48, 0x64, 0x72, 0x53] then Some False else do {
     v0 \<leftarrow> nth_opt data 0x206;
     v1 \<leftarrow> nth_opt data 0x207;
     Some (0x0200 \<le> (from_le [v0, v1] :: u16)) }}}}"

definition detect_kernel_image_format :: "bytes \<Rightarrow> (('e, 'v) boot_error + kernel_image_format) option" where
  "detect_kernel_image_format data =
     (if is_elf64 data then Some (Inr Elf64)
      else do {
        bz \<leftarrow> is_bzimage data;
        Some (if bz then Inr BzImage else Inl UnsupportedFormat)
      })"

definition get_setup_sects :: "bytes \<Rightarrow> u8 option" where
  "get_setup_sects kernel_data = do {
     setup_sects \<leftarrow> nth_opt kernel_data 0x1F1;
     Some (if setup_sects = 0 then 4 else setup_sects)
   }"

section \<open>Memory contents\<close>

text \<open>
  The initial RAM disk: no path given or no such file (\<open>None\<close>), or the result of reading it.
\<close>

definition load_initrd :: "guest_memory \<Rightarrow> ('e + bytes) option \<Rightarrow> ('e, 'v) boot_error + (u32 \<times> u32) \<times> guest_memory" where
  "load_initrd mem initrd =
     (case initrd of
        None \<Rightarrow> Inr ((0, 0), mem)
      | Some (Inl e) \<Rightarrow> Inl (InitrdRead e)
      | Some (Inr content) \<Rightarrow>
          if 2 ^ 32 \<le> length content then Inl InitrdTooLarge
          else let initrd_size = of_nat (length content); initrd_addr = INITRAMFS_ADDR in
            (case write_at mem initrd_addr content of
               Inl e \<Rightarrow> Inl (InitrdWrite e)
             | Inr mem \<Rightarrow> Inr ((ucast initrd_addr, initrd_size), mem)))"

definition setup_cmdline :: "guest_memory \<Rightarrow> bytes \<Rightarrow> ('e, 'v) boot_error + guest_memory" where
  "setup_cmdline mem cmdline =
     (let cmdline_bytes = cmdline @ [0] in
      if 2048 < length cmdline_bytes then Inl (CmdlineTooLong (length cmdline_bytes))
      else (case write_at mem CMDLINE_ADDR cmdline_bytes of
          Inl e \<Rightarrow> Inl (CmdlineWrite e)
        | Inr mem \<Rightarrow> Inr mem))"

definition read_setup_header :: "bytes \<Rightarrow> ('e, 'v) boot_error + bytes" where
  "read_setup_header kernel_data =
     (let start = SETUP_HEADER_OFFSET; fin = start + layout_size setup_header_layout in
      if length kernel_data < fin then Inl HeaderTooSmall
      else Inr (subslice start fin kernel_data))"

text \<open>The memory map; \<open>last_addr - HIMEM_START\<close> is a plain subtraction.\<close>

definition e820_map :: "bool \<Rightarrow> u64 \<Rightarrow> e820_entry list option" where
  "e820_map oc last_addr = do {
     low_size \<leftarrow> rs_sub oc HIMEM_START EBDA_START;
     high_size \<leftarrow> rs_sub oc last_addr HIMEM_START;
     Some [\<lparr>e_addr = 0, e_size = EBDA_START, e_type = E820_RAM\<rparr>,
           \<lparr>e_addr = EBDA_START, e_size = low_size, e_type = E820_RESERVED\<rparr>,
           \<lparr>e_addr = HIMEM_START, e_size = high_size, e_type = E820_RAM\<rparr>]
   }"

fun fill_e820 :: "nat \<Rightarrow> e820_entry list \<Rightarrow> bytes \<Rightarrow> bytes" where
  "fill_e820 i [] bp = bp"
| "fill_e820 i (e # es) bp = fill_e820 (Suc i) es (set_e820 i e bp)"

text \<open>The header fields every kernel gets, and those copied from a bzImage and then overridden.\<close>

definition base_hdr :: "u32 \<Rightarrow> bytes \<Rightarrow> bytes" where
  "base_hdr cmdline_size bp =
     set_hdr ''kernel_alignment'' (u32_to_le KERNEL_MIN_ALIGNMENT_BYTES)
     (set_hdr ''cmdline_size'' (u32_to_le cmdline_size)
     (set_hdr ''cmd_line_ptr'' (u32_to_le (ucast CMDLINE_ADDR))
     (set_hdr ''header'' (u32_to_le KERNEL_HDR_MAGIC_NUMBER)
     (set_hdr ''boot_flag'' (u16_to_le KERNEL_BOOT_FLAG_MAGIC_NUMBER)
     (set_hdr ''type_of_loader'' [KERNEL_TYPE_OF_LOADER] bp)))))"

definition bzimage_hdr :: "u32 \<Rightarrow> bytes \<Rightarrow> bytes \<Rightarrow> bytes" where
  "bzimage_hdr cmdline_size header bp =
     (let bp = set_field boot_params_layout ''hdr'' header bp;
          bp = set_hdr ''vid_mode'' (u16_to_le NORMAL_VGA_MODE) bp;
          bp = set_hdr ''type_of_loader'' [0xFF] bp;
          bp = set_hdr ''loadflags'' [hd (get_hdr ''loadflags'' bp) OR
                 (LINUX_BOOT_HDR_LOAD_HIGH OR LINUX_BOOT_HDR_KEEP_SEGMENTS OR LINUX_BOOT_HDR_CAN_USE_HEAP)] bp;
          bp = set_hdr ''heap_end_ptr'' (u16_to_le LINUX_HEAP_END_PTR) bp;
          bp = set_hdr ''cmd_line_ptr'' (u32_to_le (ucast CMDLINE_ADDR)) bp;
          bp = set_hdr ''cmdline_size'' (u32_to_le cmdline_size) bp
      in set_hdr ''code32_start'' (u32_to_le (ucast HIMEM_START)) bp)"

definition setup_boot_params :: "bool \<Rightarrow> guest_memory \<Rightarrow> kernel_image_format \<Rightarrow> bytes \<Rightarrow> bytes \<Rightarrow> u32 \<Rightarrow> u32
    \<Rightarrow> (('e, 'v) boot_error + guest_memory) option" where
  "setup_boot_params oc mem image_format kernel_data cmdline initrd_addr initrd_size = do {
     cmdline_size \<leftarrow> rs_add oc 1 (of_nat (length cmdline) :: u32);
     let boot_params = base_hdr cmdline_size boot_params_new;
     e820_table \<leftarrow> e820_map oc (mem_size mem);
     let boot_params = fill_e820 0 e820_table boot_params;
     let boot_params = set_field boot_params_layout ''e820_entries'' [of_nat (length e820_table)] boot_params;
     let hdr_done = (if image_format = BzImage
        then (case read_setup_header kernel_data of
            Inl e \<Rightarrow> Inl e
          | Inr header \<Rightarrow> Inr (bzimage_hdr (of_nat (length cmdline + 1)) header boot_params))
        else Inr boot_params);
     Some (case hdr_done of
         Inl e \<Rightarrow> Inl e
       | Inr boot_params \<Rightarrow>
           let boot_params = set_hdr ''ramdisk_size'' (u32_to_le initrd_size)
                 (set_hdr ''ramdisk_image'' (u32_to_le initrd_addr) boot_params)
           in (case write_obj (\<lambda>b. b) mem ZERO_PAGE_START boot_params of
                 Inl e \<Rightarrow> Inl (BootParamsWrite e)
               | Inr mem \<Rightarrow> Inr mem))
   }"

section \<open>Processor state\<close>

definition setup_general_registers :: "('k, 'v) vcpu_ops \<Rightarrow> 'k \<Rightarrow> u64 \<Rightarrow> ('e, 'v) boot_error + 'k" where
  "setup_general_registers v k entry_point =
     (case v_get_regs v k of
        Inl e \<Rightarrow> Inl (GetRegs e)
      | Inr r \<Rightarrow>
          (case v_set_regs v k (r\<lparr>rip := entry_point, rsp := BOOT_STACK_POINTER, rbp := BOOT_STACK_POINTER,
                rsi := ZERO_PAGE_START, rflags := 0x2\<rparr>) of
             Inl e \<Rightarrow> Inl (SetRegs e)
           | Inr k \<Rightarrow> Inr k))"

definition protected_mode_sregs :: "sregs \<Rightarrow> sregs" where
  "protected_mode_sregs s =
     s\<lparr>sr_cs := make_flat32_segment (sr_cs s) 0xb, sr_ds := make_flat32_segment (sr_ds s) 0x3,
       sr_es := make_flat32_segment (sr_es s) 0x3, sr_fs := make_flat32_segment (sr_fs s) 0x3,
       sr_gs := make_flat32_segment (sr_gs s) 0x3, sr_ss := make_flat32_segment (sr_ss s) 0x3,
       sr_cr0 := (sr_cr0 s OR X86_CR0_PE) AND NOT X86_CR0_PG, sr_cr4 := sr_cr4 s AND NOT X86_CR4_PAE,
       sr_efer := sr_efer s AND NOT (EFER_LME OR EFER_LMA OR EFER_NXE)\<rparr>"

definition setup_protected_mode :: "('k, 'v) vcpu_ops \<Rightarrow> 'k \<Rightarrow> ('e, 'v) boot_error + 'k" where
  "setup_protected_mode v k =
     (case v_get_sregs v k of
        Inl e \<Rightarrow> Inl (GetSregs e)
      | Inr s \<Rightarrow>
          (case v_set_sregs v k (protected_mode_sregs s) of Inl e \<Rightarrow> Inl (SetSregs e) | Inr k \<Rightarrow> Inr k))"

text \<open>A sequence of writes that stops at the first that fails, with the error of that write.\<close>

fun write_all :: "guest_memory \<Rightarrow> (u64 \<times> bytes \<times> (mem_error \<Rightarrow> 'x)) list \<Rightarrow> 'x + guest_memory" where
  "write_all m [] = Inr m"
| "write_all m ((a, d, err) # ws) = (case write_at m a d of Inl e \<Rightarrow> Inl (err e) | Inr m \<Rightarrow> write_all m ws)"

definition CODE_SEG :: segment where "CODE_SEG = generate_segment 1 0xb"
definition DATA_SEG :: segment where "DATA_SEG = generate_segment 2 0x3"

definition gdt_table :: "u64 list" where
  "gdt_table = [0, segment_gdt_entry CODE_SEG, segment_gdt_entry DATA_SEG]"

type_synonym ('e, 'v) boot_write = "u64 \<times> bytes \<times> (mem_error \<Rightarrow> ('e, 'v) boot_error)"

definition gdt_writes :: "('e, 'v) boot_write list" where
  "gdt_writes = map (\<lambda>i. (BOOT_GDT_OFFSET + of_nat (i * 8), u64_to_le (gdt_table ! i), GdtWrite i)) [0..<3]"

definition page_table_writes :: "('e, 'v) boot_write list" where
  "page_table_writes =
     (let boot_pml4_addr = 0xa000; boot_pdpte_addr = 0xb000; boot_pde_addr = 0xc000 in
      [(boot_pml4_addr, u64_to_le (boot_pdpte_addr OR 0b11), Pml4Write),
       (boot_pdpte_addr, u64_to_le (boot_pde_addr OR 0b11), PdptWrite)] @
      map (\<lambda>i. (boot_pde_addr + of_nat i * 8, u64_to_le (push_bit 21 (of_nat i) OR 0b10000011), PdWrite)) [0..<512])"

definition long_mode_sregs :: "sregs \<Rightarrow> sregs" where
  "long_mode_sregs s =
     s\<lparr>sr_cs := CODE_SEG, sr_ds := DATA_SEG, sr_es := DATA_SEG, sr_fs := DATA_SEG, sr_gs := DATA_SEG,
       sr_ss := DATA_SEG,
       sr_gdt := (sr_gdt s)\<lparr>dt_base := BOOT_GDT_OFFSET, dt_limit := of_nat (length gdt_table * 8) - 1\<rparr>,
       sr_cr3 := 0xa000, sr_cr4 := sr_cr4 s OR X86_CR4_PAE,
       sr_cr0 := (sr_cr0 s OR X86_CR0_PE) OR X86_CR0_PG, sr_efer := sr_efer s OR (EFER_LMA OR EFER_LME)\<rparr>"

definition setup_long_mode :: "('k, 'v) vcpu_ops \<Rightarrow> 'k \<Rightarrow> guest_memory \<Rightarrow> ('e, 'v) boot_error + 'k \<times> guest_memory" where
  "setup_long_mode v k mem =
     (case v_get_sregs v k of
        Inl e \<Rightarrow> Inl (GetSregs e)
      | Inr s \<Rightarrow>
          (case write_all mem (gdt_writes @ page_table_writes) of
             Inl e \<Rightarrow> Inl e
           | Inr mem \<Rightarrow>
               (case v_set_sregs v k (long_mode_sregs s) of Inl e \<Rightarrow> Inl (SetSregs e) | Inr k \<Rightarrow> Inr (k, mem))))"

section \<open>Loading a kernel\<close>

text \<open>
  Place the kernel in memory and find its entry point. The offset of the payload is at most
  256 sectors, so its arithmetic cannot overflow.
\<close>

definition load_image :: "bool \<Rightarrow> (nat \<Rightarrow> bool) \<Rightarrow> 'e kfile \<Rightarrow> kernel_image_format \<Rightarrow> guest_memory
    \<Rightarrow> (('e, 'v) boot_error + u64 \<times> guest_memory) option" where
  "load_image oc alloc f format mem =
     (case format of
        BzImage \<Rightarrow> do {
          setup_sects \<leftarrow> get_setup_sects (kf_bytes f);
          let payload_offset = (unat setup_sects + 1) * 512;
          Some (if length (kf_bytes f) \<le> payload_offset
            then Inl (PayloadBeyondEnd payload_offset (length (kf_bytes f)))
            else (case write_at mem HIMEM_START (drop payload_offset (kf_bytes f)) of
                Inl e \<Rightarrow> Inl (KernelWrite e)
              | Inr mem \<Rightarrow> Inr (HIMEM_START, mem)))
        }
      | Elf64 \<Rightarrow> do {
          r \<leftarrow> load_elf_kernel oc alloc f HIMEM_START mem;
          Some (case r of Inl e \<Rightarrow> Inl (ElfLoad e) | Inr (entry, mem) \<Rightarrow> Inr (entry, mem))
        })"

text \<open>The operations after the image is in place.\<close>

definition finish_boot :: "bool \<Rightarrow> ('k, 'v) vcpu_ops \<Rightarrow> 'k \<Rightarrow> kernel_image_format \<Rightarrow> bytes \<Rightarrow> bytes \<Rightarrow> ('e + bytes) option
    \<Rightarrow> u64 \<Rightarrow> guest_memory \<Rightarrow> (('e, 'v) boot_error + 'k \<times> guest_memory) option" where
  "finish_boot oc v k format kernel_data cmdline initrd kernel_entry mem =
     (case load_initrd mem initrd of
        Inl e \<Rightarrow> Some (Inl e)
      | Inr ((initrd_addr, initrd_size), mem) \<Rightarrow> do {
          r \<leftarrow> setup_boot_params oc mem format kernel_data cmdline initrd_addr initrd_size;
          Some (sbind r (\<lambda>mem.
            sbind (setup_cmdline mem cmdline) (\<lambda>mem.
            sbind (setup_general_registers v k kernel_entry) (\<lambda>k.
              case format of
                BzImage \<Rightarrow> sbind (setup_protected_mode v k) (\<lambda>k. Inr (k, mem))
              | Elf64 \<Rightarrow> setup_long_mode v k mem))))
        })"

definition load_kernel :: "bool \<Rightarrow> (nat \<Rightarrow> bool) \<Rightarrow> guest_memory \<Rightarrow> ('k, 'v) vcpu_ops \<Rightarrow> 'k \<Rightarrow> 'e + 'e + 'e kfile
    \<Rightarrow> bytes \<Rightarrow> ('e + bytes) option \<Rightarrow> (('e, 'v) boot_error + 'k \<times> guest_memory) option" where
  "load_kernel oc alloc mem v k kernel_file cmdline initrd =
     (case kernel_file of
        Inl e \<Rightarrow> Some (Inl (OpenFailed e))
      | Inr (Inl e) \<Rightarrow> Some (Inl (KernelReadFailed e))
      | Inr (Inr f) \<Rightarrow> do {
          fmt \<leftarrow> detect_kernel_image_format (kf_bytes f);
          case fmt of
            Inl e \<Rightarrow> Some (Inl e)
          | Inr format \<Rightarrow> do {
              r \<leftarrow> load_image oc alloc f format mem;
              case r of
                Inl e \<Rightarrow> Some (Inl e)
              | Inr (entry, mem) \<Rightarrow> finish_boot oc v k format (kf_bytes f) cmdline initrd entry mem
            }
        })"

section \<open>Specification\<close>

text \<open>
  The processor's translation of an address with four levels of page tables: 9 bits of the address
  select the entry of each level, bit 0 of an entry is presence and bit 7 of the middle levels a large page.
\<close>

definition pt_entry :: "guest_memory \<Rightarrow> u64 \<Rightarrow> u64 \<Rightarrow> nat \<Rightarrow> u64 option" where
  "pt_entry m table va level =
     (case read_at m ((table AND push_bit 12 (mask 40)) + push_bit 3 (drop_bit level va AND mask 9)) 8 of
        Inl _ \<Rightarrow> None
      | Inr d \<Rightarrow> (let e = from_le d in if bit e 0 then Some e else None))"

definition page_at :: "nat \<Rightarrow> u64 \<Rightarrow> u64 \<Rightarrow> u64" where
  "page_at bits e va = (e AND push_bit bits (mask (52 - bits))) OR (va AND mask bits)"

definition page_walk :: "guest_memory \<Rightarrow> u64 \<Rightarrow> u64 \<Rightarrow> u64 option" where
  "page_walk m cr3 va = do {
     e4 \<leftarrow> pt_entry m cr3 va 39;
     e3 \<leftarrow> pt_entry m e4 va 30;
     if bit e3 7 then Some (page_at 30 e3 va) else do {
     e2 \<leftarrow> pt_entry m e3 va 21;
     if bit e2 7 then Some (page_at 21 e2 va) else do {
     e1 \<leftarrow> pt_entry m e2 va 12;
     Some (page_at 12 e1 va) }}}"

section \<open>Lemmas on writes\<close>

definition apart :: "u64 \<Rightarrow> nat \<Rightarrow> u64 \<Rightarrow> nat \<Rightarrow> bool" where
  "apart a n b k \<longleftrightarrow> unat a + n \<le> unat b \<or> unat b + k \<le> unat a"

lemma write_all_append:
  "write_all m (ws @ us) = (case write_all m ws of Inl e \<Rightarrow> Inl e | Inr m \<Rightarrow> write_all m us)"
  by (induction m ws rule: write_all.induct) (auto split: sum.split)

lemma write_all_size: "write_all m ws = Inr m' \<Longrightarrow> gm_size m' = gm_size m"
  by (induction m ws rule: write_all.induct) (auto split: sum.splits dest: write_at_size)

lemma write_all_ok:
  "list_all (\<lambda>(a, d, e). unat a + length d \<le> unat (gm_size m)) ws \<Longrightarrow> \<exists>m'. write_all m ws = Inr m'"
proof (induction m ws rule: write_all.induct)
  case (2 m a d err ws)
  then obtain m1 where m1: "write_at m a d = Inr m1" using write_at_ok[of a d m] by auto
  then show ?case using "2.IH"[OF m1] "2.prems" write_at_size[OF m1] by simp
qed simp

lemma write_all_frame:
  "write_all m ws = Inr m' \<Longrightarrow> list_all (\<lambda>(a, d, e). apart b n a (length d)) ws \<Longrightarrow> read_at m' b n = read_at m b n"
proof (induction m ws rule: write_all.induct)
  case (2 m a d err ws)
  obtain m1 where m1: "write_at m a d = Inr m1" and r: "write_all m1 ws = Inr m'"
    using "2.prems"(1) by (auto split: sum.splits)
  then show ?case using "2.IH"[OF m1 r] "2.prems"(2) read_at_disjoint[OF m1, of b n] by (auto simp: apart_def)
qed simp

lemma write_all_read:
  assumes "write_all m (ws @ (a, d, e) # us) = Inr m'" and "list_all (\<lambda>(b, c, x). apart a (length d) b (length c)) us"
  shows "read_at m' a (length d) = Inr d"
proof -
  obtain m1 m2 where m2: "write_at m1 a d = Inr m2" and u: "write_all m2 us = Inr m'"
    using assms(1) by (auto simp: write_all_append split: sum.splits)
  show ?thesis using write_all_frame[OF u assms(2)] gm.rd_wr_same[OF m2] by simp
qed

section \<open>The page tables\<close>

lemma nat_word_small: "n < 2 ^ LENGTH('a) \<Longrightarrow> unat (of_nat n :: 'a::len word) = n"
  by (simp add: unat_of_nat)

lemma page_table_split:
  assumes "i < 512"
  shows "gdt_writes @ page_table_writes =
      (gdt_writes @ take (i + 2) page_table_writes) @
      (0xc000 + of_nat i * 8, u64_to_le (push_bit 21 (of_nat i) OR 0x83), PdWrite) #
      map (\<lambda>i. (0xc000 + of_nat i * 8, u64_to_le (push_bit 21 (of_nat i) OR 0x83), PdWrite)) [Suc i..<512]"
proof -
  have "[0..<512] = [0..<i] @ [i..<512]" using assms upt_add_eq_append[of 0 i "512 - i"] by simp
  moreover have "[i..<512] = i # [Suc i..<512]" by (rule upt_conv_Cons[OF assms])
  ultimately have s: "[0..<512] = [0..<i] @ i # [Suc i..<512]" by (simp only:)
  show ?thesis unfolding page_table_writes_def Let_def s map_append list.map by simp
qed

lemma unat_pd_addr: "i < 512 \<Longrightarrow> unat (0xc000 + of_nat i * 8 :: u64) = 0xc000 + i * 8"
proof -
  assume i: "i < 512"
  have "(0xc000 + of_nat i * 8 :: u64) = of_nat (0xc000 + i * 8)" by simp
  then show ?thesis using i nat_word_small[of "0xc000 + i * 8", where ?'a = 64] by simp
qed

lemma pd_entry_read:
  assumes "write_all m (gdt_writes @ page_table_writes :: ('e, 'v) boot_write list) = Inr m'" and "i < 512"
  shows "read_at m' (0xc000 + of_nat i * 8) 8 = Inr (u64_to_le (push_bit 21 (of_nat i) OR 0x83))"
proof -
  show ?thesis
    using write_all_read[OF assms(1)[unfolded page_table_split[OF assms(2)]]] assms(2) by (auto simp: list_all_iff apart_def unat_pd_addr)
qed

lemma page_table_roots:
  assumes "write_all m (gdt_writes @ page_table_writes :: ('e, 'v) boot_write list) = Inr m'"
  shows "read_at m' 0xa000 8 = Inr (u64_to_le 0xb003)" "read_at m' 0xb000 8 = Inr (u64_to_le 0xc003)"
    "j < 3 \<Longrightarrow> read_at m' (BOOT_GDT_OFFSET + of_nat (j * 8)) 8 = Inr (u64_to_le (gdt_table ! j))"
proof -
  let ?pd = "map (\<lambda>i. (0xc000 + of_nat i * 8 :: u64, u64_to_le (push_bit 21 (of_nat i) OR 0x83), PdWrite)) [0..<512] :: ('e, 'v) boot_write list"
  have pt: "page_table_writes = (0xa000, u64_to_le 0xb003, Pml4Write) # (0xb000, u64_to_le 0xc003, PdptWrite) # ?pd"
    by (simp add: page_table_writes_def)
  have pd: "list_all (\<lambda>(b, c, x). apart a 8 b (length c)) ?pd" if "unat a + 8 \<le> 0xc000" for a
    using that by (auto simp: list_all_iff apart_def unat_pd_addr)
  have rest: "list_all (\<lambda>(b, c, x). apart a 8 b (length c)) (page_table_writes :: ('e, 'v) boot_write list)"
    if "unat a + 8 \<le> 0xa000" for a
    using that pd[of a] by (simp add: pt apart_def)
  show "read_at m' 0xb000 8 = Inr (u64_to_le 0xc003)"
    using write_all_read[of m "gdt_writes @ [(0xa000, u64_to_le 0xb003, Pml4Write)]" "0xb000" "u64_to_le 0xc003" PdptWrite ?pd m']
      assms pd[of "0xb000"] unfolding pt by simp
  show "read_at m' 0xa000 8 = Inr (u64_to_le 0xb003)"
    using write_all_read[of m gdt_writes "0xa000" "u64_to_le 0xb003" Pml4Write "(0xb000, u64_to_le 0xc003, PdptWrite) # ?pd" m']
      assms pd[of "0xa000"] unfolding pt by (simp add: apart_def)
  have g: "(gdt_writes :: ('e, 'v) boot_write list) = [(0x500, u64_to_le (gdt_table ! 0), GdtWrite 0),
      (0x508, u64_to_le (gdt_table ! 1), GdtWrite 1), (0x510, u64_to_le (gdt_table ! 2), GdtWrite 2)]"
    by (simp add: gdt_writes_def BOOT_GDT_OFFSET_def upt_rec numeral_3_eq_3) (simp add: numeral_2_eq_2)
  let ?w1 = "(0x508, u64_to_le (gdt_table ! 1), GdtWrite 1) :: ('e, 'v) boot_write"
    and ?w2 = "(0x510, u64_to_le (gdt_table ! 2), GdtWrite 2) :: ('e, 'v) boot_write"
  have "read_at m' 0x500 8 = Inr (u64_to_le (gdt_table ! 0))" "read_at m' 0x508 8 = Inr (u64_to_le (gdt_table ! 1))"
    "read_at m' 0x510 8 = Inr (u64_to_le (gdt_table ! 2))"
    using write_all_read[of m "[]" "0x500" "u64_to_le (gdt_table ! 0)" "GdtWrite 0" "?w1 # ?w2 # page_table_writes" m']
      write_all_read[of m "[(0x500, u64_to_le (gdt_table ! 0), GdtWrite 0)]" "0x508" "u64_to_le (gdt_table ! 1)" "GdtWrite 1"
        "?w2 # page_table_writes" m']
      write_all_read[of m "[(0x500, u64_to_le (gdt_table ! 0), GdtWrite 0), ?w1]" "0x510" "u64_to_le (gdt_table ! 2)"
        "GdtWrite 2" page_table_writes m']
      assms rest[of "0x500"] rest[of "0x508"] rest[of "0x510"] unfolding g by (simp_all add: apart_def)
  then show "j < 3 \<Longrightarrow> read_at m' (BOOT_GDT_OFFSET + of_nat (j * 8)) 8 = Inr (u64_to_le (gdt_table ! j))"
    by (auto simp: less_Suc_eq numeral_3_eq_3 numeral_2_eq_2 BOOT_GDT_OFFSET_def)
qed

text \<open>The tables in memory: the two roots, the 512 entries of the directory and the three descriptors.\<close>

definition tables_in_place :: "guest_memory \<Rightarrow> bool" where
  "tables_in_place m \<longleftrightarrow> read_at m 0xa000 8 = Inr (u64_to_le 0xb003) \<and> read_at m 0xb000 8 = Inr (u64_to_le 0xc003) \<and>
     (\<forall>i<512. read_at m (0xc000 + of_nat i * 8) 8 = Inr (u64_to_le (push_bit 21 (of_nat i) OR 0x83))) \<and>
     (\<forall>j<3. read_at m (BOOT_GDT_OFFSET + of_nat (j * 8)) 8 = Inr (u64_to_le (gdt_table ! j)))"

lemma tables_written:
  "write_all m (gdt_writes @ page_table_writes :: ('e, 'v) boot_write list) = Inr m' \<Longrightarrow> tables_in_place m'"
  unfolding tables_in_place_def using page_table_roots pd_entry_read by blast

text \<open>An entry of the page directory maps its 2 MiB to themselves.\<close>

lemma page_at_identity:
  assumes "va < 2 ^ 30"
  shows "page_at 21 (push_bit 21 (drop_bit 21 va AND mask 9) OR 0x83) va = va"
proof (rule bit_word_eqI)
  fix n assume "n < LENGTH(64)"
  have "bit (0x83 :: u64) n \<Longrightarrow> n < 8"
    using small_word_bit[of "0x83 :: u64" 8 n] by simp
  then show "bit (page_at 21 (push_bit 21 (drop_bit 21 va AND mask 9) OR 0x83) va) n \<longleftrightarrow> bit va n"
    using small_word_bit[OF assms, of n] by (auto simp: page_at_def bit_simps)
qed

lemma low_address_levels:
  assumes "va < 2 ^ 30"
  shows "drop_bit 39 va AND mask 9 = (0 :: u64)" "drop_bit 30 va AND mask 9 = (0 :: u64)"
  using small_word_bit[OF assms] by (fastforce intro!: bit_word_eqI simp: bit_simps)+

lemma pd_entry_bits: "bit (push_bit 21 (i :: u64) OR 0x83) 0" "bit (push_bit 21 i OR 0x83) 7"
  by (simp_all add: bit_or_iff bit_push_bit_iff)

lemma identity_walk:
  assumes "tables_in_place m'" and "va < 2 ^ 30"
  shows "page_walk m' 0xa000 va = Some va"
proof -
  have e4: "pt_entry m' 0xa000 va 39 = Some 0xb003" and e3: "pt_entry m' 0xb003 va 30 = Some 0xc003"
    using assms(1) unfolding tables_in_place_def pt_entry_def low_address_levels[OF assms(2)]
    by (simp_all add: push_bit_eq_mult mask_eq_exp_minus_1)
  let ?i = "drop_bit 21 va AND mask 9 :: u64"
  have i: "unat ?i < 512"
    using take_bit_nat_less_exp[of 9 "unat (drop_bit 21 va)"]
    by (simp add: unsigned_take_bit_eq del: take_bit_nat_less_exp flip: take_bit_eq_mask)
  have "0xc000 + push_bit 3 ?i = 0xc000 + of_nat (unat ?i) * 8" by (simp add: push_bit_eq_mult)
  moreover have "read_at m' (0xc000 + of_nat (unat ?i) * 8) 8 = Inr (u64_to_le (push_bit 21 ?i OR 0x83))"
    using assms(1) i spec[of "\<lambda>i. i < 512 \<longrightarrow> read_at m' (0xc000 + of_nat i * 8) 8 = Inr (u64_to_le (push_bit 21 (of_nat i) OR 0x83))" "unat ?i"]
    unfolding tables_in_place_def by (simp del: push_bit_and)
  ultimately have "pt_entry m' 0xc003 va 21 = Some (push_bit 21 ?i OR 0x83)"
    using pd_entry_bits(1)[of ?i] by (simp add: pt_entry_def push_bit_eq_mult mask_eq_exp_minus_1)
  then show ?thesis
    using e4 e3 pd_entry_bits(2)[of ?i] page_at_identity[OF assms(2)] by (simp add: page_walk_def)
qed

section \<open>The zero page\<close>

lemma fill_e820_length: "i + length es \<le> 128 \<Longrightarrow> length bp = 4096 \<Longrightarrow> length (fill_e820 i es bp) = 4096"
  by (induction i es bp rule: fill_e820.induct) simp_all

lemma fill_e820_hdr:
  "i + length es \<le> 128 \<Longrightarrow> length bp = 4096 \<Longrightarrow> get_hdr f (fill_e820 i es bp) = get_hdr f bp"
  by (induction i es bp rule: fill_e820.induct) simp_all

lemma fill_e820_below:
  "i + length es \<le> 128 \<Longrightarrow> length bp = 4096 \<Longrightarrow> j < i \<Longrightarrow> get_e820 j (fill_e820 i es bp) = get_e820 j bp"
  by (induction i es bp rule: fill_e820.induct) simp_all

lemma fill_e820_entry:
  "i + length es \<le> 128 \<Longrightarrow> length bp = 4096 \<Longrightarrow> j < length es \<Longrightarrow> get_e820 (i + j) (fill_e820 i es bp) = es ! j"
proof (induction i es bp arbitrary: j rule: fill_e820.induct)
  case (2 i e es bp)
  then show ?case by (cases j) (simp_all add: fill_e820_below)
qed simp

lemma base_hdr_facts:
  assumes "length bp = 4096"
  shows "length (base_hdr n bp) = 4096"
    "get_hdr ''type_of_loader'' (base_hdr n bp) = [0xff]" "get_hdr ''boot_flag'' (base_hdr n bp) = u16_to_le 0xaa55"
    "get_hdr ''header'' (base_hdr n bp) = u32_to_le 0x53726448" "get_hdr ''cmd_line_ptr'' (base_hdr n bp) = u32_to_le 0x20000"
    "get_hdr ''cmdline_size'' (base_hdr n bp) = u32_to_le n"
  using assms by (simp_all add: base_hdr_def KERNEL_TYPE_OF_LOADER_def KERNEL_BOOT_FLAG_MAGIC_NUMBER_def
      KERNEL_HDR_MAGIC_NUMBER_def CMDLINE_ADDR_def)

definition overridden :: "string list" where
  "overridden = [''vid_mode'', ''type_of_loader'', ''loadflags'', ''heap_end_ptr'', ''cmd_line_ptr'', ''cmdline_size'',
     ''code32_start'', ''ramdisk_image'', ''ramdisk_size'']"

lemma bzimage_hdr_facts:
  assumes "length bp = 4096" and "length h = 123"
  shows "length (bzimage_hdr n h bp) = 4096" "get_e820 i (bzimage_hdr n h bp) = get_e820 i bp"
    "get_field boot_params_layout ''e820_entries'' (bzimage_hdr n h bp) = get_field boot_params_layout ''e820_entries'' bp"
    "get_hdr ''type_of_loader'' (bzimage_hdr n h bp) = [0xff]" "get_hdr ''cmd_line_ptr'' (bzimage_hdr n h bp) = u32_to_le 0x20000"
    "get_hdr ''cmdline_size'' (bzimage_hdr n h bp) = u32_to_le n" "get_hdr ''code32_start'' (bzimage_hdr n h bp) = u32_to_le 0x100000"
    "get_hdr ''loadflags'' (bzimage_hdr n h bp) = [hd (get_field setup_header_layout ''loadflags'' h) OR 0xc1]"
    "f \<in> field_names setup_header_layout \<Longrightarrow> f \<notin> set overridden \<Longrightarrow>
      get_hdr f (bzimage_hdr n h bp) = get_field setup_header_layout f h"
  using assms by (simp_all add: bzimage_hdr_def Let_def overridden_def boot_consts push_bit_eq_mult)

definition zero_page_ok :: "kernel_image_format \<Rightarrow> bytes \<Rightarrow> bytes \<Rightarrow> u32 \<Rightarrow> u32 \<Rightarrow> u64 \<Rightarrow> bytes \<Rightarrow> bool" where
  "zero_page_ok fmt data cmdline initrd_addr initrd_size ram bp \<longleftrightarrow>
     length bp = 4096 \<and> get_field boot_params_layout ''e820_entries'' bp = [3] \<and>
     map (\<lambda>i. get_e820 i bp) [0, 1, 2] =
       [\<lparr>e_addr = 0, e_size = 0x9fc00, e_type = 1\<rparr>, \<lparr>e_addr = 0x9fc00, e_size = 0x60400, e_type = 2\<rparr>,
        \<lparr>e_addr = 0x100000, e_size = ram - 0x100000, e_type = 1\<rparr>] \<and>
     get_hdr ''type_of_loader'' bp = [0xff] \<and> get_hdr ''cmd_line_ptr'' bp = u32_to_le 0x20000 \<and>
     get_hdr ''cmdline_size'' bp = u32_to_le (of_nat (length cmdline + 1)) \<and>
     get_hdr ''ramdisk_image'' bp = u32_to_le initrd_addr \<and> get_hdr ''ramdisk_size'' bp = u32_to_le initrd_size \<and>
     (case fmt of
        Elf64 \<Rightarrow> get_hdr ''boot_flag'' bp = u16_to_le 0xaa55 \<and> get_hdr ''header'' bp = u32_to_le 0x53726448
      | BzImage \<Rightarrow>
          (let h = subslice 0x1f1 0x26c data in
           get_hdr ''code32_start'' bp = u32_to_le 0x100000 \<and>
           get_hdr ''loadflags'' bp = [hd (get_field setup_header_layout ''loadflags'' h) OR 0xc1] \<and>
           list_all (\<lambda>(f, n). f \<in> set overridden \<or> get_hdr f bp = get_field setup_header_layout f h) setup_header_layout))"

lemma e820_map_eq:
  "0x100000 \<le> ram \<Longrightarrow> e820_map oc ram =
     Some [\<lparr>e_addr = 0, e_size = 0x9fc00, e_type = 1\<rparr>, \<lparr>e_addr = 0x9fc00, e_size = 0x60400, e_type = 2\<rparr>,
        \<lparr>e_addr = 0x100000, e_size = ram - 0x100000, e_type = 1\<rparr>]"
  by (simp add: e820_map_def rs_sub_def not_less HIMEM_START_def EBDA_START_def E820_RAM_def E820_RESERVED_def)

lemma ramdisk_fields:
  assumes "length bp = 4096"
  shows "length (set_hdr ''ramdisk_size'' (u32_to_le s) (set_hdr ''ramdisk_image'' (u32_to_le a) bp)) = 4096"
    "f \<in> field_names setup_header_layout \<Longrightarrow>
     get_hdr f (set_hdr ''ramdisk_size'' (u32_to_le s) (set_hdr ''ramdisk_image'' (u32_to_le a) bp)) =
       (if f = ''ramdisk_size'' then u32_to_le s else if f = ''ramdisk_image'' then u32_to_le a else get_hdr f bp)"
    "get_e820 i (set_hdr ''ramdisk_size'' (u32_to_le s) (set_hdr ''ramdisk_image'' (u32_to_le a) bp)) = get_e820 i bp"
    "get_field boot_params_layout ''e820_entries'' (set_hdr ''ramdisk_size'' (u32_to_le s) (set_hdr ''ramdisk_image'' (u32_to_le a) bp)) =
      get_field boot_params_layout ''e820_entries'' bp"
  using assms by simp_all

lemma base_page:
  fixes ram :: u64 and n :: u32
  defines "es \<equiv> [\<lparr>e_addr = 0, e_size = 0x9fc00, e_type = 1\<rparr>, \<lparr>e_addr = 0x9fc00, e_size = 0x60400, e_type = 2\<rparr>,
        \<lparr>e_addr = 0x100000, e_size = ram - 0x100000, e_type = 1\<rparr>]"
  defines "bp \<equiv> set_field boot_params_layout ''e820_entries'' [3] (fill_e820 0 es (base_hdr n boot_params_new))"
  shows "length bp = 4096" "get_field boot_params_layout ''e820_entries'' bp = [3]" "map (\<lambda>i. get_e820 i bp) [0, 1, 2] = es"
    "get_hdr f bp = get_hdr f (base_hdr n boot_params_new)"
proof -
  let ?b = "base_hdr n boot_params_new" and ?f = "fill_e820 0 es (base_hdr n boot_params_new)"
  have b: "length ?b = 4096" by (rule base_hdr_facts) simp
  have es: "length es = 3" by (simp add: es_def)
  have f: "length ?f = 4096" using fill_e820_length[of 0 es ?b] b es by simp
  show "length bp = 4096" "get_field boot_params_layout ''e820_entries'' bp = [3]" using f by (simp_all add: bp_def)
  show "get_hdr f bp = get_hdr f ?b" using f fill_e820_hdr[of 0 es ?b f] b es by (simp add: bp_def)
  have "get_e820 j bp = es ! j" if "j < 3" for j
    using f fill_e820_entry[of 0 es ?b j] b es that by (simp add: bp_def)
  then show "map (\<lambda>i. get_e820 i bp) [0, 1, 2] = es" by (simp add: es_def)
qed

lemma zero_page_bzimage:
  assumes "length bp = 4096" "get_field boot_params_layout ''e820_entries'' bp = [3]"
    "map (\<lambda>i. get_e820 i bp) [0, 1, 2] =
       [\<lparr>e_addr = 0, e_size = 0x9fc00, e_type = 1\<rparr>, \<lparr>e_addr = 0x9fc00, e_size = 0x60400, e_type = 2\<rparr>,
        \<lparr>e_addr = 0x100000, e_size = ram - 0x100000, e_type = 1\<rparr>]"
    and "h = subslice 0x1f1 0x26c data" "length h = 123" "n = of_nat (length cmdline + 1)"
  shows "zero_page_ok BzImage data cmdline ia isz ram
     (set_hdr ''ramdisk_size'' (u32_to_le isz) (set_hdr ''ramdisk_image'' (u32_to_le ia) (bzimage_hdr n h bp)))"
proof -
  note z = bzimage_hdr_facts[OF assms(1,5), where n = n]
  note r = ramdisk_fields[OF z(1), where s = isz and a = ia]
  let ?bp = "set_hdr ''ramdisk_size'' (u32_to_le isz) (set_hdr ''ramdisk_image'' (u32_to_le ia) (bzimage_hdr n h bp))"
  have "f \<in> set overridden \<or> get_hdr f ?bp = get_field setup_header_layout f h" if "(f, m) \<in> set setup_header_layout" for f m
  proof -
    have f: "f \<in> field_names setup_header_layout" using that by (rule rev_image_eqI) simp
    show ?thesis
    proof (rule disjCI)
      assume o: "\<not> get_hdr f ?bp = get_field setup_header_layout f h"
      show "f \<in> set overridden"
      proof (rule ccontr)
        assume n: "f \<notin> set overridden"
        then have "f \<noteq> ''ramdisk_size'' \<and> f \<noteq> ''ramdisk_image''" by (auto simp: overridden_def)
        then show False using o r(2)[OF f] z(9)[OF f n] by (simp del: get_set_hdr)
      qed
    qed
  qed
  then have "list_all (\<lambda>(f, n). f \<in> set overridden \<or> get_hdr f ?bp = get_field setup_header_layout f h) setup_header_layout"
    by (auto simp: list_all_iff)
  then show ?thesis using assms r z unfolding zero_page_ok_def by (simp add: Let_def)
qed

lemma zero_page_elf:
  assumes "length bp = 4096" "get_field boot_params_layout ''e820_entries'' bp = [3]"
    "map (\<lambda>i. get_e820 i bp) [0, 1, 2] =
       [\<lparr>e_addr = 0, e_size = 0x9fc00, e_type = 1\<rparr>, \<lparr>e_addr = 0x9fc00, e_size = 0x60400, e_type = 2\<rparr>,
        \<lparr>e_addr = 0x100000, e_size = ram - 0x100000, e_type = 1\<rparr>]"
    and "\<And>f. get_hdr f bp = get_hdr f (base_hdr n boot_params_new)" "n = of_nat (length cmdline + 1)"
  shows "zero_page_ok Elf64 data cmdline ia isz ram
     (set_hdr ''ramdisk_size'' (u32_to_le isz) (set_hdr ''ramdisk_image'' (u32_to_le ia) bp))"
  using assms ramdisk_fields[OF assms(1), where s = isz and a = ia] base_hdr_facts[of boot_params_new n]
  unfolding zero_page_ok_def by simp

lemma setup_boot_params_ok:
  assumes "0x100000 \<le> gm_size mem" and "length cmdline + 1 < 2 ^ 32" and "fmt = BzImage \<Longrightarrow> 0x26c \<le> length data"
  shows "\<exists>bp m'. setup_boot_params oc mem fmt data cmdline ia isz = Some (Inr m') \<and>
     write_at mem 0x7000 bp = Inr m' \<and> zero_page_ok fmt data cmdline ia isz (gm_size mem) bp"
proof -
  define n where "n = (of_nat (length cmdline + 1) :: u32)"
  define es where "es = [\<lparr>e_addr = 0, e_size = 0x9fc00, e_type = 1\<rparr>, \<lparr>e_addr = 0x9fc00, e_size = 0x60400, e_type = 2\<rparr>,
        \<lparr>e_addr = 0x100000, e_size = gm_size mem - 0x100000, e_type = 1\<rparr>]"
  define b where "b = set_field boot_params_layout ''e820_entries'' [3] (fill_e820 0 es (base_hdr n boot_params_new))"
  define p where "p = (if fmt = BzImage then bzimage_hdr n (subslice 0x1f1 0x26c data) b else b)"
  define bp where "bp = set_hdr ''ramdisk_size'' (u32_to_le isz) (set_hdr ''ramdisk_image'' (u32_to_le ia) p)"
  have n: "rs_add oc 1 (of_nat (length cmdline) :: u32) = Some n"
    using assms(2) unfolding n_def by (subst rs_add_no_overflow) (simp_all add: unat_of_nat)
  have e: "e820_map oc (mem_size mem) = Some es" unfolding mem_size_def es_def by (rule e820_map_eq[OF assms(1)])
  note page = base_page[where n = n and ram = "gm_size mem", folded es_def, folded b_def]
  have ok: "zero_page_ok fmt data cmdline ia isz (gm_size mem) bp"
  proof (cases fmt)
    case BzImage
    then show ?thesis unfolding bp_def p_def
      using zero_page_bzimage[OF page(1,2) page(3)[unfolded es_def] refl _ n_def] assms(3) by simp
  next
    case Elf64
    then show ?thesis unfolding bp_def p_def
      using zero_page_elf[OF page(1,2) page(3)[unfolded es_def] page(4) n_def] by simp
  qed
  have "0x100000 \<le> unat (gm_size mem)" using assms(1) by (simp add: word_le_nat_alt)
  then obtain m' where w: "write_at mem 0x7000 bp = Inr m'"
    using write_at_ok[of "0x7000" bp mem] ok by (auto simp: zero_page_ok_def)
  have len: "of_nat (length es) = (3 :: u8)" by (simp add: es_def)
  have "setup_boot_params oc mem fmt data cmdline ia isz = Some (Inr m')"
    using w assms(3)
    unfolding setup_boot_params_def n e Option.bind.simps Let_def len n_def[symmetric] b_def[symmetric] bp_def p_def
    by (cases fmt) (simp_all add: read_setup_header_def SETUP_HEADER_OFFSET_def write_obj_def ZERO_PAGE_START_def)
  then show ?thesis using w ok by blast
qed

section \<open>The processor's modes\<close>

lemma flat32_ok: "seg_ok g \<Longrightarrow> t < 16 \<Longrightarrow> seg_ok (make_flat32_segment g t)"
  by (simp add: seg_ok_def make_flat32_segment_def)

lemma protected_mode_ok: "sregs_ok s \<Longrightarrow> sregs_ok (protected_mode_sregs s)"
  by (simp add: sregs_ok_def protected_mode_sregs_def flat32_ok) (simp add: make_flat32_segment_def)

lemma long_mode_ok: "sregs_ok s \<Longrightarrow> sregs_ok (long_mode_sregs s)"
  by (simp add: sregs_ok_def long_mode_sregs_def CODE_SEG_def DATA_SEG_def generate_ok)

lemma and_single_bit: "(w :: u64) AND push_bit n 1 = 0 \<longleftrightarrow> \<not> bit w n" if "n < 64"
proof
  assume "w AND push_bit n 1 = 0"
  then have "\<not> bit (w AND push_bit n 1) n" by simp
  then show "\<not> bit w n" using that by (simp add: bit_simps)
next
  assume "\<not> bit w n"
  then show "w AND push_bit n 1 = 0" by (intro bit_word_eqI) (auto simp: bit_simps)
qed

lemma mode_bits:
  "(w :: u64) AND 0x400 = 0 \<longleftrightarrow> \<not> bit w 10" "w AND 0x100 = 0 \<longleftrightarrow> \<not> bit w 8" "w AND 1 = 0 \<longleftrightarrow> \<not> bit w 0"
  "w AND 0x80000000 = 0 \<longleftrightarrow> \<not> bit w 31" "w AND 0x20 = 0 \<longleftrightarrow> \<not> bit w 5"
  using and_single_bit[of 10 w] and_single_bit[of 8 w] and_single_bit[of 0 w] and_single_bit[of 31 w] and_single_bit[of 5 w]
  by (simp_all add: push_bit_eq_mult)

lemma protected_mode_bits:
  "\<not> bit (sr_efer (protected_mode_sregs s)) 8" "\<not> bit (sr_efer (protected_mode_sregs s)) 10"
  "\<not> bit (sr_efer (protected_mode_sregs s)) 11" "\<not> bit (sr_cr4 (protected_mode_sregs s)) 5"
  "bit (sr_cr0 (protected_mode_sregs s)) 0" "\<not> bit (sr_cr0 (protected_mode_sregs s)) 31"
  by (simp_all add: protected_mode_sregs_def EFER_LME_def EFER_LMA_def EFER_NXE_def X86_CR0_PE_def X86_CR0_PG_def
      X86_CR4_PAE_def bit_and_iff bit_or_iff bit_not_iff)

lemma long_mode_bits:
  "bit (sr_efer (long_mode_sregs s)) 10" "bit (sr_efer (long_mode_sregs s)) 8" "bit (sr_cr0 (long_mode_sregs s)) 0"
  "bit (sr_cr0 (long_mode_sregs s)) 31" "bit (sr_cr4 (long_mode_sregs s)) 5"
  by (simp_all add: long_mode_sregs_def EFER_LME_def EFER_LMA_def X86_CR0_PE_def X86_CR0_PG_def X86_CR4_PAE_def
      bit_or_iff)

text \<open>
  The state the 32-bit boot protocol asks for: protected mode without paging, long mode and the physical
  address extension off, and every segment flat, that is 32-bit, based at 0 and 4 GiB long, readable code in
  \<open>CS\<close> and writable data in the others.
\<close>

definition flat_segment :: "u8 \<Rightarrow> segment \<Rightarrow> bool" where
  "flat_segment typ g \<longleftrightarrow> seg_base g = 0 \<and> seg_limit g = 0xffffffff \<and> seg_g g = 1 \<and> seg_db g = 1 \<and> seg_l g = 0 \<and>
     seg_type g = typ"

definition flat32_state :: "sregs \<Rightarrow> bool" where
  "flat32_state s \<longleftrightarrow> cpu_mode s = ModeProtected \<and> paging_mode s = PagingFlat \<and>
     \<not> bit (sr_efer s) 8 \<and> \<not> bit (sr_efer s) 10 \<and> \<not> bit (sr_efer s) 11 \<and> \<not> bit (sr_cr4 s) 5 \<and>
     flat_segment 0xb (sr_cs s) \<and> list_all (flat_segment 0x3) [sr_ds s, sr_es s, sr_fs s, sr_gs s, sr_ss s]"

text \<open>The part of the segment registers that the boot loader leaves as the host has it.\<close>

definition segment_rest :: "segment \<Rightarrow> u16 \<times> u8 list" where
  "segment_rest g = (seg_selector g, [seg_present g, seg_dpl g, seg_s g, seg_avl g, seg_unusable g])"

definition boot_segments :: "sregs \<Rightarrow> segment list" where
  "boot_segments s = [sr_cs s, sr_ds s, sr_es s, sr_fs s, sr_gs s, sr_ss s]"

context vcpu_state
begin

lemma general_registers:
  assumes "v_get_regs v k = Inr r"
  shows "\<exists>k'. setup_general_registers v k entry = Inr k' \<and> v_get_sregs v k' = v_get_sregs v k \<and>
     v_get_regs v k' = Inr (r\<lparr>rip := entry, rsp := 0x8ff0, rbp := 0x8ff0, rsi := 0x7000, rflags := 2\<rparr>)"
  using set_regs[of k "r\<lparr>rip := entry, rsp := 0x8ff0, rbp := 0x8ff0, rsi := 0x7000, rflags := 2\<rparr>"] assms
  by (auto simp: setup_general_registers_def BOOT_STACK_POINTER_def ZERO_PAGE_START_def)

lemma protected_mode:
  assumes "v_get_sregs v k = Inr s" and "sregs_ok s"
  shows "\<exists>k'. setup_protected_mode v k = Inr k' \<and> v_get_regs v k' = v_get_regs v k \<and>
     v_get_sregs v k' = Inr (kept (protected_mode_sregs s))"
  using set_sregs[OF protected_mode_ok[OF assms(2)], of k] assms(1) by (auto simp: setup_protected_mode_def)

lemma long_mode:
  assumes "v_get_sregs v k = Inr s" and "sregs_ok s"
    and "write_all mem (gdt_writes @ page_table_writes :: ('x, 'e) boot_write list) = Inr m'"
  shows "\<exists>k'. setup_long_mode v k mem = (Inr (k', m') :: ('x, 'e) boot_error + _) \<and> v_get_regs v k' = v_get_regs v k \<and>
     v_get_sregs v k' = Inr (kept (long_mode_sregs s))"
  using set_sregs[OF long_mode_ok[OF assms(2)], of k] assms(1,3) by (auto simp: setup_long_mode_def)

lemma protected_mode_flat:
  "flat32_state (kept (protected_mode_sregs s))"
  "map segment_rest (boot_segments (kept (protected_mode_sregs s))) = map segment_rest (boot_segments s)"
proof -
  have "flat_segment 0xb (sr_cs (protected_mode_sregs s))" "flat_segment 0x3 (sr_ds (protected_mode_sregs s))"
    "flat_segment 0x3 (sr_es (protected_mode_sregs s))" "flat_segment 0x3 (sr_fs (protected_mode_sregs s))"
    "flat_segment 0x3 (sr_gs (protected_mode_sregs s))" "flat_segment 0x3 (sr_ss (protected_mode_sregs s))"
    by (simp_all add: flat_segment_def protected_mode_sregs_def make_flat32_segment_def)
  then show "flat32_state (kept (protected_mode_sregs s))"
    using protected_mode_bits[of s] by (simp add: flat32_state_def cpu_mode_def paging_mode_def kept_mode mode_bits)
  show "map segment_rest (boot_segments (kept (protected_mode_sregs s))) = map segment_rest (boot_segments s)"
    by (simp add: boot_segments_def segment_rest_def kept_mode)
      (simp add: protected_mode_sregs_def make_flat32_segment_def)
qed

lemma long_mode_modes:
  "cpu_mode (kept (long_mode_sregs s)) = ModeSixtyFourBit" "paging_mode (kept (long_mode_sregs s)) = PagingSixtyFour"
proof -
  have "seg_l (sr_cs (long_mode_sregs s)) = 1" by (simp add: long_mode_sregs_def CODE_SEG_def generate_segment_def)
  then show "cpu_mode (kept (long_mode_sregs s)) = ModeSixtyFourBit"
    "paging_mode (kept (long_mode_sregs s)) = PagingSixtyFour"
    using long_mode_bits[of s] by (simp_all add: cpu_mode_def paging_mode_def kept_mode mode_bits)
qed

end

section \<open>The whole boot\<close>

text \<open>The initial RAM disk as the kernel finds it: its bytes, and the address and size it is told.\<close>

definition initrd_bytes :: "('e + bytes) option \<Rightarrow> bytes" where
  "initrd_bytes initrd = (case initrd of Some (Inr c) \<Rightarrow> c | _ \<Rightarrow> [])"

definition initrd_place :: "('e + bytes) option \<Rightarrow> u32 \<times> u32" where
  "initrd_place initrd = (case initrd of Some (Inr c) \<Rightarrow> (0x8000000, of_nat (length c)) | _ \<Rightarrow> (0, 0))"

definition initrd_ok :: "('e + bytes) option \<Rightarrow> nat \<Rightarrow> bool" where
  "initrd_ok initrd ram \<longleftrightarrow>
     (case initrd of None \<Rightarrow> True | Some (Inl _) \<Rightarrow> False
      | Some (Inr c) \<Rightarrow> length c < 2 ^ 32 \<and> 0x8000000 + length c \<le> ram)"

text \<open>
  The memory the kernel starts in: the boot parameters, the command line, and above 1 MiB the kernel's
  image with the initial RAM disk over it.
\<close>

definition booted_memory :: "kernel_image_format \<Rightarrow> bytes \<Rightarrow> bytes \<Rightarrow> ('e + bytes) option \<Rightarrow> (nat \<Rightarrow> u8) \<Rightarrow> u64
    \<Rightarrow> guest_memory \<Rightarrow> bool" where
  "booted_memory fmt data cmdline initrd img ram m \<longleftrightarrow> gm_size m = ram \<and>
     (\<exists>bp. read_at m 0x7000 4096 = Inr bp \<and>
        zero_page_ok fmt data cmdline (fst (initrd_place initrd)) (snd (initrd_place initrd)) ram bp) \<and>
     read_at m 0x20000 (length cmdline + 1) = Inr (cmdline @ [0]) \<and>
     (\<forall>a. 0x100000 \<le> a \<longrightarrow> gm_bytes m a =
        (if 0x8000000 \<le> a \<and> a < 0x8000000 + length (initrd_bytes initrd) then initrd_bytes initrd ! (a - 0x8000000)
         else img a))"

lemma load_initrd_ok:
  fixes initrd :: "('e + bytes) option"
  assumes "initrd_ok initrd (unat (gm_size m))"
  shows "\<exists>m'. load_initrd m initrd = (Inr (initrd_place initrd, m') :: ('e, 'v) boot_error + _) \<and> gm_size m' = gm_size m \<and>
     (\<forall>a. gm_bytes m' a = (if 0x8000000 \<le> a \<and> a < 0x8000000 + length (initrd_bytes initrd)
        then initrd_bytes initrd ! (a - 0x8000000) else gm_bytes m a))"
proof (cases initrd)
  case None
  then show ?thesis by (auto simp: load_initrd_def initrd_place_def initrd_bytes_def)
next
  case (Some x)
  then obtain c where x: "initrd = Some (Inr c)" using assms by (cases x) (auto simp: initrd_ok_def)
  then have c: "length c < 2 ^ 32" "0x8000000 + length c \<le> unat (gm_size m)" using assms by (auto simp: initrd_ok_def)
  obtain m' where w: "write_at m 0x8000000 c = Inr m'" using write_at_ok[of "0x8000000" c m] c(2) by auto
  have "load_initrd m initrd = (Inr (initrd_place initrd, m') :: ('e, 'v) boot_error + _)"
    using c(1) w by (simp add: x load_initrd_def initrd_place_def INITRAMFS_ADDR_def Let_def)
  moreover have "gm_bytes m' a = (if 0x8000000 \<le> a \<and> a < 0x8000000 + length c then c ! (a - 0x8000000) else gm_bytes m a)" for a
    using write_at_bytes[OF w, of a] by simp
  ultimately show ?thesis using write_at_size[OF w] by (auto simp: x initrd_bytes_def)
qed

lemma boot_memory_written:
  fixes initrd :: "('e + bytes) option"
  assumes "0x100000 \<le> gm_size m" and "initrd_ok initrd (unat (gm_size m))" and "length cmdline \<le> 2047"
    and "fmt = BzImage \<Longrightarrow> 0x26c \<le> length data"
  shows "\<exists>m1 m2 m3. load_initrd m initrd = (Inr (initrd_place initrd, m1) :: ('e, 'v) boot_error + _) \<and>
     setup_boot_params oc m1 fmt data cmdline (fst (initrd_place initrd)) (snd (initrd_place initrd)) =
       (Some (Inr m2) :: (('e, 'v) boot_error + _) option) \<and>
     setup_cmdline m2 cmdline = (Inr m3 :: ('e, 'v) boot_error + _) \<and> booted_memory fmt data cmdline initrd (gm_bytes m) (gm_size m) m3"
proof -
  obtain m1 where m1: "load_initrd m initrd = (Inr (initrd_place initrd, m1) :: ('e, 'v) boot_error + _)" "gm_size m1 = gm_size m"
    and b1: "\<And>a. gm_bytes m1 a = (if 0x8000000 \<le> a \<and> a < 0x8000000 + length (initrd_bytes initrd)
        then initrd_bytes initrd ! (a - 0x8000000) else gm_bytes m a)"
    using load_initrd_ok[OF assms(2)] by blast
  let ?a = "fst (initrd_place initrd)" and ?s = "snd (initrd_place initrd)"
  have c: "length cmdline + 1 < 2 ^ 32" using assms(3) by simp
  obtain bp m2 where m2: "setup_boot_params oc m1 fmt data cmdline ?a ?s = (Some (Inr m2) :: (('e, 'v) boot_error + _) option)"
    and w2: "write_at m1 0x7000 bp = Inr m2"
    and bp: "zero_page_ok fmt data cmdline ?a ?s (gm_size m1) bp"
    using setup_boot_params_ok[where mem = m1 and ia = ?a and isz = ?s and oc = oc and fmt = fmt, OF _ c assms(4)] assms(1) m1(2) by auto
  have len: "length bp = 4096" using bp by (simp add: zero_page_ok_def)
  have "0x100000 \<le> unat (gm_size m2)" using assms(1) m1(2) write_at_size[OF w2] by (simp add: word_le_nat_alt)
  then obtain m3 where w3: "write_at m2 0x20000 (cmdline @ [0]) = Inr m3"
    using write_at_ok[of "0x20000" "cmdline @ [0]" m2] assms(3) by auto
  have m3: "setup_cmdline m2 cmdline = (Inr m3 :: ('e, 'v) boot_error + _)" using w3 assms(3) by (simp add: setup_cmdline_def CMDLINE_ADDR_def Let_def)
  have r: "read_at m3 0x7000 4096 = Inr bp"
    using read_at_disjoint[OF w3, of "0x7000" 4096] gm.rd_wr_same[OF w2] len by simp
  have h: "gm_bytes m3 a = gm_bytes m1 a" if "0x100000 \<le> a" for a
    using that write_at_bytes[OF w3, of a] write_at_bytes[OF w2, of a] len assms(3) by simp
  have "booted_memory fmt data cmdline initrd (gm_bytes m) (gm_size m) m3"
    unfolding booted_memory_def using r bp gm.rd_wr_same[OF w3] h b1 write_at_size[OF w3] write_at_size[OF w2] m1(2) by auto
  then show ?thesis using m1(1) m2 m3 by blast
qed

lemma write_all_bytes:
  "write_all m ws = Inr m' \<Longrightarrow> list_all (\<lambda>(b, d, e). a < unat b \<or> unat b + length d \<le> a) ws \<Longrightarrow>
   gm_bytes m' a = gm_bytes m a"
proof (induction m ws rule: write_all.induct)
  case (2 m b d err ws)
  obtain m1 where m1: "write_at m b d = Inr m1" and r: "write_all m1 ws = Inr m'"
    using "2.prems"(1) by (auto split: sum.splits)
  then show ?case using "2.IH"[OF m1 r] "2.prems"(2) write_at_bytes[OF m1, of a] by auto
qed simp

text \<open>The tables of long mode lie in low memory, apart from the boot parameters and the command line.\<close>

lemma table_writes_low:
  "list_all (\<lambda>(b, d, e). 0x500 \<le> unat b \<and> unat b + length d \<le> 0x518 \<or> 0xa000 \<le> unat b \<and> unat b + length d \<le> 0xd000)
     (gdt_writes @ page_table_writes :: ('e, 'v) boot_write list)"
proof -
  have "list_all (\<lambda>(b, d, e). 0x500 \<le> unat b \<and> unat b + length d \<le> 0x518) (gdt_writes :: ('e, 'v) boot_write list)"
    by (simp add: gdt_writes_def BOOT_GDT_OFFSET_def upt_rec numeral_3_eq_3)
  moreover have "list_all (\<lambda>(b, d, e). 0xa000 \<le> unat b \<and> unat b + length d \<le> 0xd000) (page_table_writes :: ('e, 'v) boot_write list)"
    by (auto simp: page_table_writes_def list_all_iff unat_pd_addr)
  ultimately show ?thesis by (auto simp: list_all_iff)
qed

lemma tables_keep_boot_memory:
  assumes "booted_memory fmt data cmdline initrd img ram m" and "length cmdline \<le> 2047"
    and "write_all m (gdt_writes @ page_table_writes :: ('e, 'v) boot_write list) = Inr m'"
  shows "booted_memory fmt data cmdline initrd img ram m'"
proof -
  let ?ws = "gdt_writes @ page_table_writes :: ('e, 'v) boot_write list"
  have low: "list_all (\<lambda>(b, d, e). 0x500 \<le> unat b \<and> unat b + length d \<le> 0x518 \<or>
      0xa000 \<le> unat b \<and> unat b + length d \<le> 0xd000) ?ws"
    by (rule table_writes_low)
  have "list_all (\<lambda>(a, d, e). apart b n a (length d)) ?ws"
    if "0x518 \<le> unat b" "unat b + n \<le> 0xa000 \<or> 0xd000 \<le> unat b" for b n
    using that list.pred_mono_strong[OF low] by (fastforce simp: apart_def)
  then have r: "read_at m' b n = read_at m b n" if "0x518 \<le> unat b" "unat b + n \<le> 0xa000 \<or> 0xd000 \<le> unat b" for b n
    using write_all_frame[OF assms(3)] that by blast
  have "list_all (\<lambda>(b, d, e). a < unat b \<or> unat b + length d \<le> a) ?ws" if "0x100000 \<le> a" for a
    using that list.pred_mono_strong[OF low] by fastforce
  then have "gm_bytes m' a = gm_bytes m a" if "0x100000 \<le> a" for a
    using write_all_bytes[OF assms(3)] that by blast
  then show ?thesis
    using assms(1,2) write_all_size[OF assms(3)] by (auto simp: booted_memory_def r)
qed

section \<open>Properties\<close>

text \<open>What the processor finds through the descriptor table and the page tables of long mode.\<close>

definition long_mode_state :: "guest_memory \<Rightarrow> sregs \<Rightarrow> bool" where
  "long_mode_state m s \<longleftrightarrow>
     cpu_mode s = ModeSixtyFourBit \<and> paging_mode s = PagingSixtyFour \<and>
     (\<forall>va. va < 2 ^ 30 \<longrightarrow> page_walk m (sr_cr3 s) va = Some va) \<and>
     dt_limit (sr_gdt s) = 23 \<and>
     list_all (\<lambda>g. \<exists>d. read_at m (dt_base (sr_gdt s) + ucast (seg_selector g)) 8 = Inr d \<and>
        gdt_decode (from_le d) = g\<lparr>seg_selector := 0\<rparr>) [sr_cs s, sr_ds s]"

lemma table_entries:
  assumes "tables_in_place m'"
  shows "\<exists>d. read_at m' (0x500 + ucast (seg_selector CODE_SEG)) 8 = Inr d \<and> gdt_decode (from_le d) = CODE_SEG\<lparr>seg_selector := 0\<rparr>"
    "\<exists>d. read_at m' (0x500 + ucast (seg_selector DATA_SEG)) 8 = Inr d \<and> gdt_decode (from_le d) = DATA_SEG\<lparr>seg_selector := 0\<rparr>"
proof -
  have d: "gdt_decode (segment_gdt_entry (generate_segment i t)) = (generate_segment i t)\<lparr>seg_selector := 0\<rparr>" if "t < 16" for i t
    using gdt_decode_entry[of "generate_segment i t"] generate_ok[OF that] by (simp add: generate_segment_def)
  have c: "read_at m' 0x508 8 = Inr (u64_to_le (segment_gdt_entry CODE_SEG))"
    "read_at m' 0x510 8 = Inr (u64_to_le (segment_gdt_entry DATA_SEG))"
    using assms[unfolded tables_in_place_def BOOT_GDT_OFFSET_def] by (auto simp: gdt_table_def dest: spec[of _ 1] spec[of _ 2])
  have "(0x500 :: u64) + ucast (seg_selector CODE_SEG) = 0x508" "(0x500 :: u64) + ucast (seg_selector DATA_SEG) = 0x510"
    by (simp_all add: CODE_SEG_def DATA_SEG_def generate_segment_def push_bit_eq_mult)
  then show "\<exists>d. read_at m' (0x500 + ucast (seg_selector CODE_SEG)) 8 = Inr d \<and> gdt_decode (from_le d) = CODE_SEG\<lparr>seg_selector := 0\<rparr>"
    "\<exists>d. read_at m' (0x500 + ucast (seg_selector DATA_SEG)) 8 = Inr d \<and> gdt_decode (from_le d) = DATA_SEG\<lparr>seg_selector := 0\<rparr>"
    using c d[of "0xb" 1] d[of 3 2] by (simp_all add: CODE_SEG_def DATA_SEG_def)
qed

lemma long_mode_tables:
  assumes "vcpu_state v kept" and "tables_in_place m'"
  shows "long_mode_state m' (kept (long_mode_sregs s))"
proof -
  have "sr_cr3 (long_mode_sregs s) = 0xa000" "dt_base (sr_gdt (long_mode_sregs s)) = 0x500"
    "dt_limit (sr_gdt (long_mode_sregs s)) = 23" "sr_cs (long_mode_sregs s) = CODE_SEG" "sr_ds (long_mode_sregs s) = DATA_SEG"
    by (simp_all add: long_mode_sregs_def BOOT_GDT_OFFSET_def gdt_table_def)
  then show ?thesis
    unfolding long_mode_state_def using vcpu_state.long_mode_modes[OF assms(1), of s] identity_walk[OF assms(2)] table_entries[OF assms(2)]
    by (simp add: vcpu_state.kept_mode[OF assms(1)])
qed

lemma table_writes_ok:
  "0xd000 \<le> unat (gm_size m) \<Longrightarrow> \<exists>m'. write_all m (gdt_writes @ page_table_writes :: ('e, 'v) boot_write list) = Inr m'"
proof (rule write_all_ok)
  assume m: "0xd000 \<le> unat (gm_size m)"
  show "list_all (\<lambda>(a, d, e). unat a + length d \<le> unat (gm_size m)) (gdt_writes @ page_table_writes :: ('e, 'v) boot_write list)"
    by (rule list.pred_mono_strong[OF table_writes_low]) (use m in auto)
qed

text \<open>
  C15. Long mode is set up as the processor reads it. On every vCPU and with RAM up to 0xd000 at least,
  setting up long mode succeeds and keeps the general registers; afterwards the processor is in 64-bit
  mode with four-level paging, the page walk from CR3 maps every address of the first gigabyte to itself,
  and the descriptors the code and data selectors select in the table decode to the segments
  loaded in CS and DS.
\<close>

theorem long_mode_identity:
  assumes "vcpu_state v kept" and "v_get_sregs v k = Inr s" and "sregs_ok s" and "0xd000 \<le> unat (gm_size m)"
  shows "\<exists>k' m' s'. setup_long_mode v k m = Inr (k', m') \<and> v_get_sregs v k' = Inr s' \<and> v_get_regs v k' = v_get_regs v k \<and>
     long_mode_state m' s'"
  using vcpu_state.long_mode[OF assms(1-3)] long_mode_tables[OF assms(1) tables_written] table_writes_ok[OF assms(4)] by meson

theorem long_mode_identity_witness:
  "\<exists>k' m' s'. setup_long_mode (bhyve_vcpu bhyve_file) (\<lambda>_. 0, \<lambda>_. seg_desc_of (generate_segment 1 11))
       \<lparr>gm_ptr = 0x1000, gm_size = 0x100000, gm_bytes = \<lambda>_. 0\<rparr> = (Inr (k', m') :: (unit, unit) boot_error + _) \<and>
     v_get_sregs (bhyve_vcpu bhyve_file) k' = Inr s' \<and> page_walk m' (sr_cr3 s') 0x12345678 = Some 0x12345678"
proof -
  let ?k = "(\<lambda>_. 0, \<lambda>_. seg_desc_of (generate_segment 1 11)) :: (vm_reg_name \<Rightarrow> u64) \<times> (vm_reg_name \<Rightarrow> seg_desc)"
  let ?m = "\<lparr>gm_ptr = 0x1000, gm_size = 0x100000, gm_bytes = \<lambda>_. 0\<rparr> :: guest_memory"
  obtain s where "v_get_sregs (bhyve_vcpu bhyve_file) ?k = Inr s" "sregs_ok s"
    using fresh_bhyve_state unfolding fresh_bhyve_def by blast
  moreover have "0xd000 \<le> unat (gm_size ?m)" by simp
  ultimately obtain k' m' s' where "setup_long_mode (bhyve_vcpu bhyve_file) ?k ?m = (Inr (k', m') :: (unit, unit) boot_error + _)"
    and "v_get_sregs (bhyve_vcpu bhyve_file) k' = Inr s'" and st: "long_mode_state m' s'"
    using long_mode_identity[OF bhyve_file.bhyve.vcpu_state_axioms] by blast
  moreover have "page_walk m' (sr_cr3 s') 0x12345678 = Some 0x12345678" using st by (simp add: long_mode_state_def)
  ultimately show ?thesis by blast
qed

text \<open>
  The vCPU at the kernel's entry point: interrupts off, the stack below the boot structures and RSI on
  the boot parameters.
\<close>

definition entry_regs :: "u64 \<Rightarrow> regs \<Rightarrow> bool" where
  "entry_regs entry r \<longleftrightarrow> rip r = entry \<and> rsi r = 0x7000 \<and> rsp r = 0x8ff0 \<and> rbp r = 0x8ff0 \<and> rflags r = 2"

lemma finish_bzimage:
  fixes v :: "('k, 'v) vcpu_ops" and initrd :: "('e + bytes) option"
  assumes "vcpu_state v kept" and "v_get_regs v k = Inr r" and "v_get_sregs v k = Inr s" and "sregs_ok s"
    and "0x100000 \<le> gm_size m" and "initrd_ok initrd (unat (gm_size m))" and "length cmdline \<le> 2047" and "0x26c \<le> length data"
  shows "\<exists>k' m' r'. finish_boot oc v k BzImage data cmdline initrd entry m = Some (Inr (k', m')) \<and>
     booted_memory BzImage data cmdline initrd (gm_bytes m) (gm_size m) m' \<and>
     v_get_regs v k' = Inr r' \<and> entry_regs entry r' \<and> v_get_sregs v k' = Inr (kept (protected_mode_sregs s))"
proof -
  obtain m1 m2 m3 where m1: "load_initrd m initrd = (Inr (initrd_place initrd, m1) :: ('e, 'v) boot_error + _)"
    and m2: "setup_boot_params oc m1 BzImage data cmdline (fst (initrd_place initrd)) (snd (initrd_place initrd)) =
      (Some (Inr m2) :: (('e, 'v) boot_error + _) option)"
    and m3: "setup_cmdline m2 cmdline = (Inr m3 :: ('e, 'v) boot_error + _)"
    and b: "booted_memory BzImage data cmdline initrd (gm_bytes m) (gm_size m) m3"
    using boot_memory_written[OF assms(5-7), of BzImage data] assms(8) by blast
  obtain k1 where k1: "setup_general_registers v k entry = (Inr k1 :: ('e, 'v) boot_error + _)" "v_get_sregs v k1 = Inr s"
    "v_get_regs v k1 = Inr (r\<lparr>rip := entry, rsp := 0x8ff0, rbp := 0x8ff0, rsi := 0x7000, rflags := 2\<rparr>)"
    using vcpu_state.general_registers[OF assms(1,2)] assms(3) by metis
  obtain k2 where k2: "setup_protected_mode v k1 = (Inr k2 :: ('e, 'v) boot_error + _)" "v_get_regs v k2 = v_get_regs v k1"
    "v_get_sregs v k2 = Inr (kept (protected_mode_sregs s))"
    using vcpu_state.protected_mode[OF assms(1) k1(2) assms(4)] by metis
  have "finish_boot oc v k BzImage data cmdline initrd entry m = Some (Inr (k2, m3))"
    using m1 m2 m3 k1(1) k2(1) by (cases "initrd_place initrd") (simp add: finish_boot_def)
  then show ?thesis using b k1(3) k2(2,3) by (auto simp: entry_regs_def)
qed

lemma finish_elf:
  fixes v :: "('k, 'v) vcpu_ops" and initrd :: "('e + bytes) option"
  assumes "vcpu_state v kept" and "v_get_regs v k = Inr r" and "v_get_sregs v k = Inr s" and "sregs_ok s"
    and "0x100000 \<le> gm_size m" and "initrd_ok initrd (unat (gm_size m))" and "length cmdline \<le> 2047"
  shows "\<exists>k' m' r'. finish_boot oc v k Elf64 data cmdline initrd entry m = Some (Inr (k', m')) \<and>
     booted_memory Elf64 data cmdline initrd (gm_bytes m) (gm_size m) m' \<and>
     v_get_regs v k' = Inr r' \<and> entry_regs entry r' \<and> v_get_sregs v k' = Inr (kept (long_mode_sregs s)) \<and> tables_in_place m'"
proof -
  obtain m1 m2 m3 where m1: "load_initrd m initrd = (Inr (initrd_place initrd, m1) :: ('e, 'v) boot_error + _)"
    and m2: "setup_boot_params oc m1 Elf64 data cmdline (fst (initrd_place initrd)) (snd (initrd_place initrd)) =
      (Some (Inr m2) :: (('e, 'v) boot_error + _) option)"
    and m3: "setup_cmdline m2 cmdline = (Inr m3 :: ('e, 'v) boot_error + _)"
    and b: "booted_memory Elf64 data cmdline initrd (gm_bytes m) (gm_size m) m3"
    using boot_memory_written[OF assms(5-7), of Elf64 data] by blast
  obtain k1 where k1: "setup_general_registers v k entry = (Inr k1 :: ('e, 'v) boot_error + _)" "v_get_sregs v k1 = Inr s"
    "v_get_regs v k1 = Inr (r\<lparr>rip := entry, rsp := 0x8ff0, rbp := 0x8ff0, rsi := 0x7000, rflags := 2\<rparr>)"
    using vcpu_state.general_registers[OF assms(1,2)] assms(3) by metis
  have "0xd000 \<le> unat (gm_size m3)" using b assms(5) by (simp add: booted_memory_def word_le_nat_alt)
  then obtain m4 where w: "write_all m3 (gdt_writes @ page_table_writes :: ('e, 'v) boot_write list) = Inr m4"
    using table_writes_ok by blast
  obtain k2 where k2: "setup_long_mode v k1 m3 = (Inr (k2, m4) :: ('e, 'v) boot_error + _)" "v_get_regs v k2 = v_get_regs v k1"
    "v_get_sregs v k2 = Inr (kept (long_mode_sregs s))"
    using vcpu_state.long_mode[OF assms(1) k1(2) assms(4) w] by blast
  have "finish_boot oc v k Elf64 data cmdline initrd entry m = Some (Inr (k2, m4))"
    using m1 m2 m3 k1(1) k2(1) by (cases "initrd_place initrd") (simp add: finish_boot_def)
  then show ?thesis
    using tables_keep_boot_memory[OF b assms(7) w] k1(3) k2(2,3) tables_written[OF w] by (auto simp: entry_regs_def)
qed

lemma load_bzimage:
  fixes v :: "('k, 'v) vcpu_ops" and initrd :: "('e + bytes) option"
  assumes "vcpu_state v kept" and "v_get_regs v k = Inr r" and "v_get_sregs v k = Inr s" and "sregs_ok s"
    and "detect_kernel_image_format (kf_bytes f) = (Some (Inr BzImage) :: (('e, 'v) boot_error + _) option)"
    and "get_setup_sects (kf_bytes f) = Some sects" and "(unat sects + 1) * 512 < length (kf_bytes f)"
    and "0x100000 + length (kf_bytes f) \<le> unat (gm_size m) + (unat sects + 1) * 512"
    and "initrd_ok initrd (unat (gm_size m))" and "length cmdline \<le> 2047"
  shows "\<exists>k' m' r'. load_kernel oc alloc m v k (Inr (Inr f)) cmdline initrd = Some (Inr (k', m')) \<and>
     booted_memory BzImage (kf_bytes f) cmdline initrd
       (store_bytes (gm_bytes m) 0x100000 (drop ((unat sects + 1) * 512) (kf_bytes f))) (gm_size m) m' \<and>
     v_get_regs v k' = Inr r' \<and> entry_regs 0x100000 r' \<and> v_get_sregs v k' = Inr (kept (protected_mode_sregs s))"
proof -
  let ?off = "(unat sects + 1) * 512" and ?data = "kf_bytes f"
  obtain m1 where w: "write_at m 0x100000 (drop ?off ?data) = Inr m1"
    using write_at_ok[of "0x100000" "drop ?off ?data" m] assms(7,8) by (auto simp: le_diff_conv)
  have m1: "gm_size m1 = gm_size m" "gm_bytes m1 = store_bytes (gm_bytes m) 0x100000 (drop ?off ?data)"
    using w by (auto simp: write_at_Inr_iff)
  have im: "load_image oc alloc f BzImage m = (Some (Inr (0x100000, m1)) :: (('e, 'v) boot_error + _) option)"
    using assms(6,7) w by (simp add: load_image_def HIMEM_START_def Let_def)
  have "sects \<noteq> 0" using assms(6) by (auto simp: get_setup_sects_def split: Option.bind_splits if_splits)
  then have "unat sects \<noteq> 0" by (simp add: unat_eq_zero)
  then have "1024 \<le> ?off" by simp
  then have len: "0x26c \<le> length ?data" using assms(7) by linarith
  have "0x100000 \<le> unat (gm_size m)" using assms(7,8) by linarith
  then have sz: "0x100000 \<le> gm_size m1" using m1(1) by (simp add: word_le_nat_alt)
  obtain k' m' r' where "finish_boot oc v k BzImage ?data cmdline initrd 0x100000 m1 = Some (Inr (k', m'))"
    "booted_memory BzImage ?data cmdline initrd (gm_bytes m1) (gm_size m1) m'" "v_get_regs v k' = Inr r'"
    "entry_regs 0x100000 r'" "v_get_sregs v k' = Inr (kept (protected_mode_sregs s))"
    using finish_bzimage[OF assms(1-4) sz _ assms(10) len, of initrd] assms(9) m1(1) by metis
  moreover from this(1) have "load_kernel oc alloc m v k (Inr (Inr f)) cmdline initrd = Some (Inr (k', m'))"
    using assms(5) im by (simp add: load_kernel_def)
  ultimately show ?thesis using m1 by metis
qed

text \<open>
  C13. A bzImage boots. On every vCPU, with a payload inside the file that fits RAM above 1 MiB, a command line
  of at most 2047 bytes and an initial RAM disk (if any) that fits RAM above 128 MiB, loading succeeds in
  every build. The vCPU is then in 32-bit protected mode without paging, every segment register flat (based at 0,
  4 GiB long, 32-bit, code in CS and data in the others, and otherwise as the host had it), at 0x100000 with RSI on
  the boot parameters; these hold the memory map, the addresses and sizes of command line and RAM disk, and the
  image's own setup header in every field the loader does not set; the command line and its
  terminator are at 0x20000, and memory above 1 MiB holds the payload with the RAM disk over it.
\<close>

theorem bzimage_boots:
  fixes v :: "('k, 'v) vcpu_ops" and initrd :: "('e + bytes) option"
  assumes "vcpu_state v kept" and "v_get_regs v k = Inr r" and "v_get_sregs v k = Inr s" and "sregs_ok s"
    and "detect_kernel_image_format (kf_bytes f) = (Some (Inr BzImage) :: (('e, 'v) boot_error + _) option)"
    and "get_setup_sects (kf_bytes f) = Some sects" and "(unat sects + 1) * 512 < length (kf_bytes f)"
    and "0x100000 + length (kf_bytes f) \<le> unat (gm_size m) + (unat sects + 1) * 512"
    and "initrd_ok initrd (unat (gm_size m))" and "length cmdline \<le> 2047"
  shows "\<exists>k' m' r' s'. load_kernel oc alloc m v k (Inr (Inr f)) cmdline initrd = Some (Inr (k', m')) \<and>
     booted_memory BzImage (kf_bytes f) cmdline initrd
       (store_bytes (gm_bytes m) 0x100000 (drop ((unat sects + 1) * 512) (kf_bytes f))) (gm_size m) m' \<and>
     v_get_regs v k' = Inr r' \<and> entry_regs 0x100000 r' \<and>
     v_get_sregs v k' = Inr s' \<and> flat32_state s' \<and>
     map segment_rest (boot_segments s') = map segment_rest (boot_segments s)"
  using load_bzimage[OF assms] vcpu_state.protected_mode_flat[OF assms(1), of s] by metis

text \<open>An image of one setup sector and two bytes of payload.\<close>

definition tiny_bzimage :: bytes where
  "tiny_bzimage = replicate 0x1f1 0 @ [1] @ replicate 12 0 @ [0x55, 0xaa, 0, 0, 0x48, 0x64, 0x72, 0x53, 0, 2] @
     replicate 504 0 @ [0x90, 0xf4]"

lemma tiny_bzimage_facts:
  "length tiny_bzimage = 1026" "get_setup_sects tiny_bzimage = Some 1"
  "detect_kernel_image_format tiny_bzimage = Some (Inr BzImage)"
proof -
  show len: "length tiny_bzimage = 1026" by (simp add: tiny_bzimage_def)
  have n: "tiny_bzimage ! 0 = 0" "tiny_bzimage ! 0x1f1 = 1" "tiny_bzimage ! 0x1fe = 0x55" "tiny_bzimage ! 0x1ff = 0xaa"
    "tiny_bzimage ! 0x206 = 0" "tiny_bzimage ! 0x207 = 2"
    by (simp_all add: tiny_bzimage_def nth_append)
  have s: "subslice 0x202 0x206 tiny_bzimage = [0x48, 0x64, 0x72, 0x53]"
    by (simp add: tiny_bzimage_def subslice_def)
  show "get_setup_sects tiny_bzimage = Some 1" by (simp add: get_setup_sects_def nth_opt_def len n)
  have "is_bzimage tiny_bzimage = Some True" by (simp add: is_bzimage_def nth_opt_def len n s)
  then show "detect_kernel_image_format tiny_bzimage = Some (Inr BzImage)"
    by (simp add: detect_kernel_image_format_def is_elf64_def n)
qed

theorem bzimage_boots_witness:
  "\<exists>k' m' r' s'. load_kernel True (\<lambda>n. n < 2 ^ 32) \<lparr>gm_ptr = 0x1000, gm_size = 0x9000000, gm_bytes = \<lambda>_. 0\<rparr>
       (kvm_vcpu kvm_file) fresh_vcpu (Inr (Inr \<lparr>kf_bytes = tiny_bzimage, kf_error = \<lambda>_ _. None :: unit option\<rparr>)) [0x71]
       (Some (Inr [1, 2, 3])) = Some (Inr (k', m')) \<and>
     read_at m' 0x20000 2 = Inr [0x71, 0] \<and> gm_bytes m' 0x100001 = 0xf4 \<and> gm_bytes m' 0x8000002 = 3 \<and>
     v_get_regs (kvm_vcpu kvm_file) k' = Inr r' \<and> rip r' = 0x100000 \<and>
     v_get_sregs (kvm_vcpu kvm_file) k' = Inr s' \<and> seg_limit (sr_cs s') = 0xffffffff"
proof -
  let ?f = "\<lparr>kf_bytes = tiny_bzimage, kf_error = \<lambda>_ _. None :: unit option\<rparr>"
  let ?m = "\<lparr>gm_ptr = 0x1000, gm_size = 0x9000000, gm_bytes = \<lambda>_. 0\<rparr> :: guest_memory"
  obtain k' m' r' s' where l: "load_kernel True (\<lambda>n. n < 2 ^ 32) ?m (kvm_vcpu kvm_file) fresh_vcpu (Inr (Inr ?f)) [0x71]
      (Some (Inr [1, 2, 3])) = Some (Inr (k', m'))"
    and b: "booted_memory BzImage tiny_bzimage [0x71] (Some (Inr [1, 2, 3] :: unit + bytes))
      (store_bytes (\<lambda>_. 0) 0x100000 (drop 1024 tiny_bzimage)) 0x9000000 m'"
    and r: "v_get_regs (kvm_vcpu kvm_file) k' = Inr r'" "entry_regs 0x100000 r'"
    and s: "v_get_sregs (kvm_vcpu kvm_file) k' = Inr s'" "flat32_state s'"
    using bzimage_boots[where f = ?f and m = ?m and sects = 1 and cmdline = "[0x71]" and initrd = "Some (Inr [1, 2, 3])"
      and oc = True and alloc = "\<lambda>n. n < 2 ^ 32", OF kvm_file.kvm.vcpu_state_axioms fresh_vcpu_state]
    by (auto simp: tiny_bzimage_facts initrd_ok_def)
  have "drop 1024 tiny_bzimage = [0x90, 0xf4]" by (simp add: tiny_bzimage_def)
  then have "gm_bytes m' 0x100001 = 0xf4 \<and> gm_bytes m' 0x8000002 = 3"
    using b by (simp add: booted_memory_def initrd_bytes_def store_bytes_def)
  moreover have "read_at m' 0x20000 2 = Inr [0x71, 0]" using b by (simp add: booted_memory_def numeral_2_eq_2)
  ultimately show ?thesis using l r s by (auto simp: entry_regs_def flat32_state_def flat_segment_def)
qed

lemma load_elf:
  fixes v :: "('k, 'v) vcpu_ops" and initrd :: "('e + bytes) option"
  assumes "vcpu_state v kept" and "v_get_regs v k = Inr r" and "v_get_sregs v k = Inr s" and "sregs_ok s"
    and "elf_ok (kf_bytes f) 0x100000 (unat (gm_size m))" and "kf_error f = (\<lambda>_ _. None)"
    and "\<forall>n. n \<le> unat (gm_size m) \<longrightarrow> alloc n" and "unat (gm_size m) < 2 ^ 63" and "0x100000 \<le> unat (gm_size m)"
    and "initrd_ok initrd (unat (gm_size m))" and "length cmdline \<le> 2047"
  shows "\<exists>k' m' r'. load_kernel oc alloc m v k (Inr (Inr f)) cmdline initrd = Some (Inr (k', m')) \<and>
     booted_memory Elf64 (kf_bytes f) cmdline initrd
       (elf_image (kf_bytes f) 0x100000 (gm_bytes m) (elf_phdrs (kf_bytes f))) (gm_size m) m' \<and>
     v_get_regs v k' = Inr r' \<and> entry_regs (e_entry (elf_ehdr (kf_bytes f))) r' \<and>
     v_get_sregs v k' = Inr (kept (long_mode_sregs s)) \<and> tables_in_place m'"
proof -
  let ?data = "kf_bytes f"
  have "64 \<le> length ?data" "take 4 ?data = [0x7f, 0x45, 0x4c, 0x46]" "?data ! 4 = 2"
    using assms(5) by (auto simp: elf_ok_def ELF_MAGIC_def)
  moreover have "?data ! i = take 4 ?data ! i" if "i < 4" for i using that by simp
  ultimately have "is_elf64 ?data" by (simp add: is_elf64_def)
  then have d: "detect_kernel_image_format ?data = (Some (Inr Elf64) :: (('e, 'v) boot_error + _) option)"
    by (simp add: detect_kernel_image_format_def)
  obtain e m1 where l: "load_elf_kernel oc alloc f 0x100000 m = Some (Inr (e, m1))"
    using load_elf_kernel_ok[OF assms(5), of alloc oc] assms(6-8) by auto
  have m1: "e = e_entry (elf_ehdr ?data)" "gm_size m1 = gm_size m" "gm_bytes m1 = elf_image ?data 0x100000 (gm_bytes m) (elf_phdrs ?data)"
    using load_elf_kernel_Inr[OF l] by auto
  have im: "load_image oc alloc f Elf64 m = (Some (Inr (e, m1)) :: (('e, 'v) boot_error + _) option)"
    using l by (simp add: load_image_def HIMEM_START_def)
  have sz: "0x100000 \<le> gm_size m1" using assms(9) m1(2) by (simp add: word_le_nat_alt)
  obtain k' m' r' where "finish_boot oc v k Elf64 ?data cmdline initrd e m1 = Some (Inr (k', m'))"
    "booted_memory Elf64 ?data cmdline initrd (gm_bytes m1) (gm_size m1) m'" "v_get_regs v k' = Inr r'"
    "entry_regs e r'" "v_get_sregs v k' = Inr (kept (long_mode_sregs s))" "tables_in_place m'"
    using finish_elf[OF assms(1-4) sz _ assms(11), of initrd] assms(10) m1(2) by metis
  moreover from this(1) have "load_kernel oc alloc m v k (Inr (Inr f)) cmdline initrd = Some (Inr (k', m'))"
    using d im by (simp add: load_kernel_def)
  ultimately show ?thesis using m1 by metis
qed

text \<open>
  C14. An ELF kernel boots. On every vCPU, with a well-formed file whose segments fit RAM, a command line of at
  most 2047 bytes and an initial RAM disk that fits, loading succeeds in every build. The vCPU is then in
  64-bit mode over identity-mapped memory at the file's entry point; the boot parameters and the command
  line are in place, and memory above 1 MiB holds the ELF image with the RAM disk over it.
\<close>

theorem elf_boots:
  fixes v :: "('k, 'v) vcpu_ops" and initrd :: "('e + bytes) option"
  assumes "vcpu_state v kept" and "v_get_regs v k = Inr r" and "v_get_sregs v k = Inr s" and "sregs_ok s"
    and "elf_ok (kf_bytes f) 0x100000 (unat (gm_size m))" and "kf_error f = (\<lambda>_ _. None)"
    and "\<forall>n. n \<le> unat (gm_size m) \<longrightarrow> alloc n" and "unat (gm_size m) < 2 ^ 63" and "0x100000 \<le> unat (gm_size m)"
    and "initrd_ok initrd (unat (gm_size m))" and "length cmdline \<le> 2047"
  shows "\<exists>k' m' r' s'. load_kernel oc alloc m v k (Inr (Inr f)) cmdline initrd = Some (Inr (k', m')) \<and>
     booted_memory Elf64 (kf_bytes f) cmdline initrd
       (elf_image (kf_bytes f) 0x100000 (gm_bytes m) (elf_phdrs (kf_bytes f))) (gm_size m) m' \<and>
     v_get_regs v k' = Inr r' \<and> entry_regs (e_entry (elf_ehdr (kf_bytes f))) r' \<and>
     v_get_sregs v k' = Inr s' \<and> long_mode_state m' s'"
  using load_elf[OF assms] long_mode_tables[OF assms(1)] by metis

theorem elf_boots_witness:
  "\<exists>k' m' r'. load_kernel False (\<lambda>n. n < 2 ^ 32) \<lparr>gm_ptr = 0x1000, gm_size = 0x101000, gm_bytes = \<lambda>_. 0\<rparr>
       (kvm_vcpu kvm_file) fresh_vcpu (Inr (Inr \<lparr>kf_bytes = tiny_elf, kf_error = \<lambda>_ _. None :: unit option\<rparr>)) [0x71]
       None = Some (Inr (k', m')) \<and>
     gm_bytes m' 0x100002 = 0xf4 \<and> v_get_regs (kvm_vcpu kvm_file) k' = Inr r' \<and> rip r' = 0x100002"
proof -
  let ?f = "\<lparr>kf_bytes = tiny_elf, kf_error = \<lambda>_ _. None :: unit option\<rparr>"
  let ?m = "\<lparr>gm_ptr = 0x1000, gm_size = 0x101000, gm_bytes = \<lambda>_. 0\<rparr> :: guest_memory"
  obtain k' m' r' where l: "load_kernel False (\<lambda>n. n < 2 ^ 32) ?m (kvm_vcpu kvm_file) fresh_vcpu (Inr (Inr ?f)) [0x71] None =
      Some (Inr (k', m'))"
    and b: "booted_memory Elf64 tiny_elf [0x71] (None :: (unit + bytes) option)
      (elf_image tiny_elf 0x100000 (\<lambda>_. 0) (elf_phdrs tiny_elf)) 0x101000 m'"
    and r: "v_get_regs (kvm_vcpu kvm_file) k' = Inr r'" "entry_regs (e_entry (elf_ehdr tiny_elf)) r'"
    using elf_boots[where f = ?f and m = ?m and cmdline = "[0x71]" and initrd = None
      and oc = False and alloc = "\<lambda>n. n < 2 ^ 32", OF kvm_file.kvm.vcpu_state_axioms fresh_vcpu_state]
    by (auto simp: tiny_elf_ok initrd_ok_def)
  have "elf_image tiny_elf 0x100000 (\<lambda>_. 0) (elf_phdrs tiny_elf) 0x100002 = 0xf4"
    unfolding elf_image_def tiny_phdrs by (simp add: seg_byte_def seg_start_def is_load_def) (simp add: tiny_elf_def)
  then have "gm_bytes m' 0x100002 = 0xf4" using b by (simp add: booted_memory_def initrd_bytes_def)
  then show ?thesis using l r by (auto simp: entry_regs_def tiny_ehdr)
qed

lemma protocol_version: "0x0200 \<le> (from_le [a, b] :: u16) \<longleftrightarrow> 2 \<le> b"
proof -
  have "ucast a AND push_bit 8 (ucast b :: u16) = 0"
    by (rule bit_word_eqI) (auto simp: bit_simps dest: bit_imp_le_length)
  then have e: "(from_le [a, b] :: u16) = ucast a + push_bit 8 (ucast b)"
    using disjunctive_add_eq_or[of "ucast a :: u16" "push_bit 8 (ucast b)"] by simp
  have "unat b < 256" "unat a < 256" using unat_bound[of b] unat_bound[of a] by simp_all
  then have u: "unat (ucast b :: u16) = unat b" "unat (ucast a :: u16) = unat a"
    by (simp_all add: unsigned_ucast_eq take_bit_nat_eq_self_iff)
  then have "unat (push_bit 8 (ucast b :: u16)) = 256 * unat b"
    using \<open>unat b < 256\<close> by (simp add: push_bit_eq_mult unat_word_ariths)
  note u = this u(2)
  have "unat (from_le [a, b] :: u16) = unat a + 256 * unat b"
    using \<open>unat b < 256\<close> \<open>unat a < 256\<close> unfolding e by (subst unat_plus_no_overflow) (simp_all add: u)
  then show ?thesis using \<open>unat a < 256\<close> by (simp add: word_le_nat_alt del: from_le.simps) linarith
qed

text \<open>
  C34. The image format is detected without a length check for bzImages: an ELF64 image is recognised at any
  length and an image of at least 0x208 bytes always gets an answer (bzImage exactly for the boot flag, the
  signature and a protocol of 2.00 or later), but any other image of at most 0x1fe bytes makes the loader panic
  instead of reporting the unsupported format.
\<close>

theorem image_detection:
  "(is_elf64 data \<longrightarrow> detect_kernel_image_format data = Some (Inr Elf64)) \<and>
   (\<not> is_elf64 data \<and> 0x208 \<le> length data \<longrightarrow> detect_kernel_image_format data =
      Some (if data ! 0x1fe = 0x55 \<and> data ! 0x1ff = 0xaa \<and>
         subslice 0x202 0x206 data = [0x48, 0x64, 0x72, 0x53] \<and> 2 \<le> data ! 0x207
       then Inr BzImage else Inl UnsupportedFormat)) \<and>
   (\<not> is_elf64 data \<and> length data \<le> 0x1fe \<longrightarrow> detect_kernel_image_format data = None)"
  by (auto simp: detect_kernel_image_format_def is_bzimage_def nth_opt_def protocol_version simp del: from_le.simps)

theorem image_detection_witness:
  "detect_kernel_image_format [0x23, 0x21] = None \<and> detect_kernel_image_format [0x7f, 0x45, 0x4c, 0x46, 2] = Some (Inr Elf64)"
  using image_detection[of "[0x23, 0x21]"] image_detection[of "[0x7f, 0x45, 0x4c, 0x46, 2]"] by (simp add: is_elf64_def)

end
