(* ===== verification/Backend.thy ===== *)
theory Backend
  imports Sinks CpuState Memory
begin

text \<open>
  The hypervisor back ends: how a VM and its vCPUs are created on KVM (\<open>src/kvm/core.rs\<close>) and on
  bhyve (\<open>src/bhyve/core.rs\<close>), down to the requests and structures each ioctl is given. The host kernel
  is a record of operations on its own state \<open>'k\<close>: a raw \<open>ioctl\<close> returns a C \<open>int\<close> and leaves an
  error behind, the structured calls return the error or the structure the kernel filled in.

  A program on the host runs until its first error, which it returns with the state reached; \<open>traced\<close>
  hosts keep a log of the calls made on them, for any host underneath.
\<close>

section \<open>Programs on the host\<close>

type_synonym ('k, 'x, 'a) hprog = "'k \<Rightarrow> ('x + 'a) \<times> 'k"

definition hreturn :: "'a \<Rightarrow> ('k, 'x, 'a) hprog" where
  "hreturn a k = (Inr a, k)"

definition hfail :: "'x \<Rightarrow> ('k, 'x, 'a) hprog" where
  "hfail e k = (Inl e, k)"

text \<open>The \<open>?\<close> operator, and \<open>map_err(..)?\<close>.\<close>

definition hbind :: "('k, 'x, 'a) hprog \<Rightarrow> ('a \<Rightarrow> ('k, 'x, 'b) hprog) \<Rightarrow> ('k, 'x, 'b) hprog" where
  "hbind p f k = (case p k of (Inl e, k) \<Rightarrow> (Inl e, k) | (Inr a, k) \<Rightarrow> f a k)"

definition map_err :: "('e \<Rightarrow> 'x) \<Rightarrow> ('k, 'e, 'a) hprog \<Rightarrow> ('k, 'x, 'a) hprog" where
  "map_err g p k = (case p k of (Inl e, k) \<Rightarrow> (Inl (g e), k) | (Inr a, k) \<Rightarrow> (Inr a, k))"

text \<open>\<open>ioctl_with_val\<close> and its siblings: a negative result is an error.\<close>

definition ioctl_result :: "i32 \<times> 'e \<Rightarrow> 'e + i32" where
  "ioctl_result r = (if sint (fst r) < 0 then Inl (snd r) else Inr (fst r))"

section \<open>KVM\<close>

definition KVM_API_VERSION :: i32 where "KVM_API_VERSION = 12"
definition KVM_TSS_ADDRESS :: u64 where "KVM_TSS_ADDRESS = 0xfffbd000"
definition KVM_PIT_SPEAKER_DUMMY :: u32 where "KVM_PIT_SPEAKER_DUMMY = 1"

definition KVM_GET_API_VERSION :: u64 where "KVM_GET_API_VERSION = io_req KVMIO 0x00"
definition KVM_CREATE_VM :: u64 where "KVM_CREATE_VM = io_req KVMIO 0x01"
definition KVM_GET_VCPU_MMAP_SIZE :: u64 where "KVM_GET_VCPU_MMAP_SIZE = io_req KVMIO 0x04"
definition KVM_CREATE_VCPU :: u64 where "KVM_CREATE_VCPU = io_req KVMIO 0x41"
definition KVM_SET_TSS_ADDR :: u64 where "KVM_SET_TSS_ADDR = io_req KVMIO 0x47"
definition KVM_CREATE_IRQCHIP :: u64 where "KVM_CREATE_IRQCHIP = io_req KVMIO 0x60"

record kvm_userspace_memory_region =
  mr_slot :: u32
  mr_flags :: u32
  mr_guest_phys_addr :: u64
  mr_memory_size :: u64
  mr_userspace_addr :: u64

record kvm_pit_config =
  pit_flags :: u32
  pit_pad :: "u32 list"

record kvm_cpuid_entry2 =
  ce_function :: u32
  ce_index :: u32
  ce_flags :: u32
  ce_eax :: u32
  ce_ebx :: u32
  ce_ecx :: u32
  ce_edx :: u32
  ce_padding :: "u32 list"

record kvm_cpuid2 =
  cp_nent :: u32
  cp_padding :: u32
  cp_entries :: "kvm_cpuid_entry2 list"

text \<open>
  The system calls of the back end: opening \<open>/dev/kvm\<close>, the ioctls with a value argument by their
  request number, the structured ones (\<open>KVM_SET_USER_MEMORY_REGION\<close>, \<open>KVM_CREATE_PIT2\<close>,
  \<open>KVM_GET_SUPPORTED_CPUID\<close>, \<open>KVM_SET_CPUID2\<close>), and \<open>mmap\<close> of a vCPU's run structure.
\<close>

record ('k, 'e) kvm_host =
  kh_open :: "'k \<Rightarrow> ('e + i32) \<times> 'k"
  kh_ioctl :: "i32 \<Rightarrow> u64 \<Rightarrow> u64 \<Rightarrow> 'k \<Rightarrow> (i32 \<times> 'e) \<times> 'k"
  kh_region :: "i32 \<Rightarrow> kvm_userspace_memory_region \<Rightarrow> 'k \<Rightarrow> (i32 \<times> 'e) \<times> 'k"
  kh_pit :: "i32 \<Rightarrow> kvm_pit_config \<Rightarrow> 'k \<Rightarrow> (i32 \<times> 'e) \<times> 'k"
  kh_get_cpuid :: "i32 \<Rightarrow> kvm_cpuid2 \<Rightarrow> 'k \<Rightarrow> ('e + kvm_cpuid2) \<times> 'k"
  kh_set_cpuid :: "i32 \<Rightarrow> kvm_cpuid2 \<Rightarrow> 'k \<Rightarrow> (i32 \<times> 'e) \<times> 'k"
  kh_mmap :: "i32 \<Rightarrow> u64 \<Rightarrow> 'k \<Rightarrow> ('e + u64) \<times> 'k"

record kvm_vm =
  kvm_fd :: i32
  vm_fd :: i32
  vm_mmap_size :: u64

record kvm_vcpu_handle =
  vcpu_fd :: i32
  vcpu_run :: u64
  vcpu_mmap_size :: u64
  vcpu_kvm_fd :: i32

datatype 'e backend_error =
    BeOpen 'e
  | BeIoctl u64 'e
  | BeVersion i32
  | BeUnsupported
  | BeRegion 'e
  | BePit 'e
  | BeCpuid 'e
  | BeCpuidTooMany u32
  | BeSetCpuid 'e
  | BeMmap 'e
  | BeMmapNull
  | BeCreate 'e
  | BeRecreate 'e
  | BeDestroy 'e
  | BeOpenVm 'e
  | BeMemseg 'e
  | BeMemmap 'e
  | BeCapability 'e
  | BeRunState 'e
  | BeGla2Gpa 'e
  | BeFault i32
  | BeRegs 'e
  | BeInstrRead mem_error

definition kioctl :: "('k, 'e) kvm_host \<Rightarrow> i32 \<Rightarrow> u64 \<Rightarrow> u64 \<Rightarrow> ('k, 'e backend_error, i32) hprog" where
  "kioctl h fd req arg = map_err (BeIoctl req) (\<lambda>k. apfst ioctl_result (kh_ioctl h fd req arg k))"

definition kvm_open :: "('k, 'e) kvm_host \<Rightarrow> ('k, 'e backend_error, i32) hprog" where
  "kvm_open h = map_err BeOpen (kh_open h)"

definition kvm_new :: "('k, 'e) kvm_host \<Rightarrow> ('k, 'e backend_error, i32) hprog" where
  "kvm_new h =
     hbind (kvm_open h) (\<lambda>fd.
     hbind (kioctl h fd KVM_GET_API_VERSION 0) (\<lambda>api_version.
     if api_version \<noteq> KVM_API_VERSION then hfail (BeVersion api_version) else hreturn fd))"

definition kvm_create_vm :: "('k, 'e) kvm_host \<Rightarrow> i32 \<Rightarrow> ('k, 'e backend_error, kvm_vm) hprog" where
  "kvm_create_vm h fd =
     hbind (kioctl h fd KVM_CREATE_VM 0) (\<lambda>vmfd.
     hbind (kioctl h fd KVM_GET_VCPU_MMAP_SIZE 0) (\<lambda>sz.
     hreturn \<lparr>kvm_fd = fd, vm_fd = vmfd, vm_mmap_size = scast sz\<rparr>))"

definition set_user_memory_region :: "('k, 'e) kvm_host \<Rightarrow> kvm_vm \<Rightarrow> u32 \<Rightarrow> u64 \<Rightarrow> u64 \<Rightarrow> u64
    \<Rightarrow> ('k, 'e backend_error, i32) hprog" where
  "set_user_memory_region h vm slot gpa sz uaddr =
     map_err BeRegion (\<lambda>k. apfst ioctl_result (kh_region h (vm_fd vm)
       \<lparr>mr_slot = slot, mr_flags = 0, mr_guest_phys_addr = gpa, mr_memory_size = sz, mr_userspace_addr = uaddr\<rparr> k))"

definition create_irqchip :: "('k, 'e) kvm_host \<Rightarrow> kvm_vm \<Rightarrow> ('k, 'e backend_error, i32) hprog" where
  "create_irqchip h vm = kioctl h (vm_fd vm) KVM_CREATE_IRQCHIP 0"

definition create_pit2 :: "('k, 'e) kvm_host \<Rightarrow> kvm_vm \<Rightarrow> ('k, 'e backend_error, i32) hprog" where
  "create_pit2 h vm = map_err BePit (\<lambda>k. apfst ioctl_result
     (kh_pit h (vm_fd vm) \<lparr>pit_flags = KVM_PIT_SPEAKER_DUMMY, pit_pad = replicate 15 0\<rparr> k))"

definition set_tss_address :: "('k, 'e) kvm_host \<Rightarrow> kvm_vm \<Rightarrow> u64 \<Rightarrow> ('k, 'e backend_error, i32) hprog" where
  "set_tss_address h vm addr = kioctl h (vm_fd vm) KVM_SET_TSS_ADDR addr"

definition kvm_vm_setup :: "('k, 'e) kvm_host \<Rightarrow> kvm_vm \<Rightarrow> ('k, 'e backend_error, unit) hprog" where
  "kvm_vm_setup h vm =
     hbind (create_irqchip h vm) (\<lambda>_.
     hbind (create_pit2 h vm) (\<lambda>_.
     hbind (set_tss_address h vm KVM_TSS_ADDRESS) (\<lambda>_. hreturn ())))"

definition kvm_register_memory_region :: "('k, 'e) kvm_host \<Rightarrow> kvm_vm \<Rightarrow> u64 \<Rightarrow> u64 \<Rightarrow> u64
    \<Rightarrow> ('k, 'e backend_error, unit) hprog" where
  "kvm_register_memory_region h vm gpa sz hpa = hbind (set_user_memory_region h vm 0 gpa sz hpa) (\<lambda>_. hreturn ())"

definition kvm_create_vcpu :: "('k, 'e) kvm_host \<Rightarrow> kvm_vm \<Rightarrow> u32 \<Rightarrow> ('k, 'e backend_error, kvm_vcpu_handle) hprog" where
  "kvm_create_vcpu h vm vcpu_id =
     hbind (kioctl h (vm_fd vm) KVM_CREATE_VCPU (ucast vcpu_id)) (\<lambda>fd.
     hbind (map_err BeMmap (kh_mmap h fd (vm_mmap_size vm))) (\<lambda>ptr.
     if ptr = 0 then hfail BeMmapNull
     else hreturn \<lparr>vcpu_fd = fd, vcpu_run = ptr, vcpu_mmap_size = vm_mmap_size vm, vcpu_kvm_fd = kvm_fd vm\<rparr>))"

text \<open>The table of CPUID leaves: room for 256, all zero, with the count telling the kernel so.\<close>

definition cpuid_room :: kvm_cpuid2 where
  "cpuid_room = \<lparr>cp_nent = 256, cp_padding = 0, cp_entries =
     replicate 256 \<lparr>ce_function = 0, ce_index = 0, ce_flags = 0, ce_eax = 0, ce_ebx = 0, ce_ecx = 0, ce_edx = 0,
       ce_padding = [0, 0, 0]\<rparr>\<rparr>"

definition get_supported_cpuid :: "('k, 'e) kvm_host \<Rightarrow> i32 \<Rightarrow> ('k, 'e backend_error, kvm_cpuid2) hprog" where
  "get_supported_cpuid h fd =
     hbind (map_err BeCpuid (kh_get_cpuid h fd cpuid_room)) (\<lambda>cpuid.
     if length (cp_entries cpuid) < unat (cp_nent cpuid) then hfail (BeCpuidTooMany (cp_nent cpuid))
     else hreturn cpuid)"

definition kvm_vcpu_setup :: "('k, 'e) kvm_host \<Rightarrow> kvm_vcpu_handle \<Rightarrow> ('k, 'e backend_error, unit) hprog" where
  "kvm_vcpu_setup h vcpu =
     hbind (get_supported_cpuid h (vcpu_kvm_fd vcpu)) (\<lambda>cpuid.
     hbind (map_err BeSetCpuid (\<lambda>k. apfst ioctl_result (kh_set_cpuid h (vcpu_fd vcpu) cpuid k))) (\<lambda>_.
     hreturn ()))"

definition kvm_register_irq :: "kvm_vm \<Rightarrow> u32 \<Rightarrow> 'x + irq_sink" where
  "kvm_register_irq vm irq = Inr (KvmIrqSink (vm_fd vm) irq)"

definition kvm_msi_sink :: "kvm_vm \<Rightarrow> 'x + msi_sink" where
  "kvm_msi_sink vm = Inr (KvmMsiSink (vm_fd vm))"

section \<open>bhyve\<close>

definition VMMCTL_IOC_BASE :: u32 where "VMMCTL_IOC_BASE = push_bit 16 0x56 OR push_bit 8 0x4d"
definition VMM_CPU_IOC_BASE :: u32 where "VMM_CPU_IOC_BASE = push_bit 16 0x76 OR push_bit 8 0x70"
definition VMM_INTERFACE_VERSION :: u32 where "VMM_INTERFACE_VERSION = VMMCTL_IOC_BASE OR 0x04"
definition VM_ACTIVATE_CPU :: u32 where "VM_ACTIVATE_CPU = VMM_CPU_IOC_BASE OR 0x10"
definition VM_RESET_CPU :: u32 where "VM_RESET_CPU = VMM_CPU_IOC_BASE OR 0x16"
definition VMM_CURRENT_INTERFACE_VERSION :: i32 where "VMM_CURRENT_INTERFACE_VERSION = 18"
definition VM_MAX_NAMELEN :: nat where "VM_MAX_NAMELEN = 128"
definition VM_MAX_SEG_NAMELEN :: nat where "VM_MAX_SEG_NAMELEN = 128"
definition VRS_INIT :: u32 where "VRS_INIT = push_bit 0 1"
definition VRS_RUN :: u32 where "VRS_RUN = push_bit 1 1"
definition VRK_RESET :: u32 where "VRK_RESET = 0"

record vm_create_req =
  cr_name :: bytes
  cr_flags :: u64

record vm_destroy_req =
  dr_name :: bytes

record vm_memseg =
  ms_segid :: i32
  ms_len :: u64
  ms_name :: bytes

record vm_memmap =
  mm_gpa :: u64
  mm_segid :: i32
  mm_segoff :: u64
  mm_len :: u64
  mm_prot :: i32
  mm_flags :: i32

record vm_vcpu_reset =
  vr_vcpuid :: i32
  vr_kind :: u32

record vm_run_state =
  rs_vcpuid :: i32
  rs_state :: u32
  rs_sipi_vector :: u8
  rs_pad :: bytes

datatype vm_cap_type = HaltExit | MtrapExit | PauseExit | EnableInvpcid | BptExit

record vm_capability =
  vc_cpuid :: i32
  vc_captype :: vm_cap_type
  vc_capval :: i32
  vc_allcpus :: i32

record vm_guest_paging =
  gp_cr3 :: u64
  gp_cpl :: i32
  gp_cpu_mode :: vm_cpu_mode
  gp_paging_mode :: vm_paging_mode

record vm_gla2gpa =
  gg_vcpuid :: i32
  gg_prot :: i32
  gg_gla :: u64
  gg_paging :: vm_guest_paging
  gg_fault :: i32
  gg_gpa :: u64

text \<open>
  The calls on \<open>/dev/vmmctl\<close> and on the VM's device, by their ioctl; \<open>bh_exists\<close> recognises the
  error kind \<open>AlreadyExists\<close>.
\<close>

record ('k, 'e) bhyve_host =
  bh_open :: "'k \<Rightarrow> ('e + i32) \<times> 'k"
  bh_version :: "i32 \<Rightarrow> 'k \<Rightarrow> (i32 \<times> 'e) \<times> 'k"
  bh_supported :: "i32 \<Rightarrow> 'k \<Rightarrow> (i32 \<times> 'e) \<times> 'k"
  bh_create :: "i32 \<Rightarrow> vm_create_req \<Rightarrow> 'k \<Rightarrow> (i32 \<times> 'e) \<times> 'k"
  bh_destroy :: "i32 \<Rightarrow> vm_destroy_req \<Rightarrow> 'k \<Rightarrow> (i32 \<times> 'e) \<times> 'k"
  bh_open_vm :: "bytes \<Rightarrow> 'k \<Rightarrow> ('e + i32) \<times> 'k"
  bh_activate :: "i32 \<Rightarrow> i32 \<Rightarrow> 'k \<Rightarrow> (i32 \<times> 'e) \<times> 'k"
  bh_reset :: "i32 \<Rightarrow> vm_vcpu_reset \<Rightarrow> 'k \<Rightarrow> (i32 \<times> 'e) \<times> 'k"
  bh_alloc_memseg :: "i32 \<Rightarrow> vm_memseg \<Rightarrow> 'k \<Rightarrow> (i32 \<times> 'e) \<times> 'k"
  bh_mmap_memseg :: "i32 \<Rightarrow> vm_memmap \<Rightarrow> 'k \<Rightarrow> (i32 \<times> 'e) \<times> 'k"
  bh_mmap :: "i32 \<Rightarrow> u64 \<Rightarrow> u64 \<Rightarrow> u64 \<Rightarrow> 'k \<Rightarrow> ('e + unit) \<times> 'k"
  bh_get_capability :: "i32 \<Rightarrow> vm_capability \<Rightarrow> 'k \<Rightarrow> ('e + vm_capability) \<times> 'k"
  bh_set_run_state :: "i32 \<Rightarrow> vm_run_state \<Rightarrow> 'k \<Rightarrow> (i32 \<times> 'e) \<times> 'k"
  bh_gla2gpa :: "i32 \<Rightarrow> vm_gla2gpa \<Rightarrow> 'k \<Rightarrow> ('e + vm_gla2gpa) \<times> 'k"
  bh_close :: "i32 \<Rightarrow> 'k \<Rightarrow> 'k"
  bh_exists :: "'e \<Rightarrow> bool"

record bhyve_vm =
  bv_hypervisor :: i32
  bv_fd :: i32
  bv_name :: bytes
  bv_next_segid :: i32

record bhyve_vcpu_handle =
  bc_vm_fd :: i32
  bc_id :: u32

text \<open>A name goes into a C array of fixed size, cut so that a terminator remains.\<close>

definition name_array :: "bytes \<Rightarrow> bytes" where
  "name_array name =
     (let len = min (length name) (VM_MAX_NAMELEN - 1)
      in patch_at 0 (take len name) (replicate VM_MAX_NAMELEN 0))"

definition create_vm_req :: "bytes \<Rightarrow> vm_create_req" where
  "create_vm_req name = \<lparr>cr_name = name_array name, cr_flags = 0\<rparr>"

definition destroy_vm_req :: "bytes \<Rightarrow> vm_destroy_req" where
  "destroy_vm_req name = \<lparr>dr_name = name_array name\<rparr>"

definition bhyve_open :: "('k, 'e) bhyve_host \<Rightarrow> ('k, 'e backend_error, i32) hprog" where
  "bhyve_open h = map_err BeOpen (bh_open h)"

definition bcall :: "('e \<Rightarrow> 'x) \<Rightarrow> ('k \<Rightarrow> (i32 \<times> 'e) \<times> 'k) \<Rightarrow> ('k, 'x, i32) hprog" where
  "bcall err c = map_err err (\<lambda>k. apfst ioctl_result (c k))"

definition bhyve_new :: "('k, 'e) bhyve_host \<Rightarrow> ('k, 'e backend_error, i32) hprog" where
  "bhyve_new h =
     hbind (bhyve_open h) (\<lambda>fd.
     hbind (bcall (BeIoctl (ucast VMM_INTERFACE_VERSION)) (bh_version h fd)) (\<lambda>api_version.
     if api_version \<noteq> VMM_CURRENT_INTERFACE_VERSION then hfail (BeVersion api_version)
     else hbind (bcall (\<lambda>_. BeUnsupported) (bh_supported h fd)) (\<lambda>_. hreturn fd)))"

definition bhyve_destroy_vm :: "('k, 'e) bhyve_host \<Rightarrow> i32 \<Rightarrow> bytes \<Rightarrow> ('k, 'e backend_error, i32) hprog" where
  "bhyve_destroy_vm h fd name = bcall BeDestroy (bh_destroy h fd (destroy_vm_req name))"

text \<open>A VM that exists already is destroyed and created again.\<close>

definition bhyve_create_vm :: "('k, 'e) bhyve_host \<Rightarrow> i32 \<Rightarrow> bytes \<Rightarrow> ('k, 'e backend_error, bhyve_vm) hprog" where
  "bhyve_create_vm h fd name =
     (let req = create_vm_req name in
      hbind (\<lambda>k. case bcall id (bh_create h fd req) k of
          (Inr v, k) \<Rightarrow> (Inr v, k)
        | (Inl e, k) \<Rightarrow>
            if bh_exists h e
            then hbind (bhyve_destroy_vm h fd name) (\<lambda>_. bcall BeRecreate (bh_create h fd req)) k
            else (Inl (BeCreate e), k)) (\<lambda>_.
      hbind (map_err BeOpenVm (bh_open_vm h name)) (\<lambda>vmfd.
      hreturn \<lparr>bv_hypervisor = fd, bv_fd = vmfd, bv_name = name, bv_next_segid = 0\<rparr>)))"

text \<open>Dropping the VM closes its device and destroys it; a failure is only reported.\<close>

definition bhyve_drop :: "('k, 'e) bhyve_host \<Rightarrow> bhyve_vm \<Rightarrow> 'k \<Rightarrow> 'k" where
  "bhyve_drop h vm k = snd (bhyve_destroy_vm h (bv_hypervisor vm) (bv_name vm) (bh_close h (bv_fd vm) k))"

definition bhyve_create_vcpu :: "('k, 'e) bhyve_host \<Rightarrow> bhyve_vm \<Rightarrow> u32 \<Rightarrow> ('k, 'e backend_error, bhyve_vcpu_handle) hprog" where
  "bhyve_create_vcpu h vm i =
     hbind (bcall (BeIoctl (ucast VM_ACTIVATE_CPU)) (bh_activate h (bv_fd vm) i)) (\<lambda>_.
     hbind (bcall (BeIoctl (ucast VM_RESET_CPU)) (bh_reset h (bv_fd vm) \<lparr>vr_vcpuid = i, vr_kind = VRK_RESET\<rparr>)) (\<lambda>_.
     hreturn \<lparr>bc_vm_fd = bv_fd vm, bc_id = i\<rparr>))"

text \<open>
  The segment is allocated in the kernel, mapped into the guest, and mapped over the host's RAM; the
  protections are read, write and execute. The counter of segments moves whatever happens.
\<close>

definition bhyve_register_memory_region :: "('k, 'e) bhyve_host \<Rightarrow> bhyve_vm \<Rightarrow> u64 \<Rightarrow> u64 \<Rightarrow> u64
    \<Rightarrow> 'k \<Rightarrow> ('e backend_error + unit) \<times> bhyve_vm \<times> 'k" where
  "bhyve_register_memory_region h vm gpa sz hpa k =
     (let segid = bv_next_segid vm;
          vm' = vm\<lparr>bv_next_segid := segid + 1\<rparr>;
          (r, k') =
            hbind (bcall BeMemseg (bh_alloc_memseg h (bv_fd vm)
              \<lparr>ms_segid = segid, ms_len = sz, ms_name = replicate VM_MAX_SEG_NAMELEN 0\<rparr>)) (\<lambda>_.
            hbind (bcall BeMemmap (bh_mmap_memseg h (bv_fd vm)
              \<lparr>mm_gpa = gpa, mm_segid = segid, mm_segoff = 0, mm_len = sz, mm_prot = 7, mm_flags = 0\<rparr>)) (\<lambda>_.
            map_err BeMmap (bh_mmap h (bv_fd vm) hpa sz gpa))) k
      in (r, vm', k'))"

definition get_capability :: "('k, 'e) bhyve_host \<Rightarrow> bhyve_vcpu_handle \<Rightarrow> vm_cap_type \<Rightarrow> ('k, 'e backend_error, i32) hprog" where
  "get_capability h c cap =
     hbind (map_err BeCapability (bh_get_capability h (bc_vm_fd c)
       \<lparr>vc_cpuid = bc_id c, vc_captype = cap, vc_capval = 0, vc_allcpus = 0\<rparr>)) (\<lambda>vmcap. hreturn (vc_capval vmcap))"

text \<open>The capabilities are only reported; an error of the kernel ends the setup.\<close>

fun check_capabilities :: "('k, 'e) bhyve_host \<Rightarrow> bhyve_vcpu_handle \<Rightarrow> vm_cap_type list \<Rightarrow> ('k, 'e backend_error, unit) hprog" where
  "check_capabilities h c [] = hreturn ()"
| "check_capabilities h c (cap # caps) =
     hbind (get_capability h c cap) (\<lambda>_. check_capabilities h c caps)"

definition bhyve_vcpu_setup :: "('k, 'e) bhyve_host \<Rightarrow> bhyve_vcpu_handle \<Rightarrow> ('k, 'e backend_error, unit) hprog" where
  "bhyve_vcpu_setup h c =
     hbind (check_capabilities h c [HaltExit, MtrapExit, PauseExit, EnableInvpcid, BptExit]) (\<lambda>_.
     hbind (bcall BeRunState (bh_set_run_state h (bc_vm_fd c)
       \<lparr>rs_vcpuid = bc_id c, rs_state = (if bc_id c = 0 then VRS_RUN else VRS_INIT), rs_sipi_vector = 0, rs_pad = [0, 0, 0]\<rparr>)) (\<lambda>_.
     hreturn ()))"

definition bhyve_register_irq :: "bhyve_vm \<Rightarrow> u32 \<Rightarrow> 'x + irq_sink" where
  "bhyve_register_irq vm irq = Inr (BhyveIrqSink (bv_fd vm) irq)"

definition bhyve_msi_sink :: "bhyve_vm \<Rightarrow> 'x + msi_sink" where
  "bhyve_msi_sink vm = Inr (BhyveMsiSink (bv_fd vm))"

text \<open>
  The address of an instruction is translated by the kernel with the paging state of the vCPU; a
  translation that fails or faults falls back to the untranslated address. \<open>PROT_READ\<close> is 1.
\<close>

definition gla2gpa :: "('k, 'e) bhyve_host \<Rightarrow> ('k, 'e) vm_ops \<Rightarrow> bhyve_vcpu_handle \<Rightarrow> u64 \<Rightarrow> i32
    \<Rightarrow> ('k, 'e backend_error, u64) hprog" where
  "gla2gpa h ops c gla prot k =
     (case bhyve_get_sregs ops k of
        Inl e \<Rightarrow> (Inl (BeRegs e), k)
      | Inr s \<Rightarrow>
          hbind (map_err BeGla2Gpa (bh_gla2gpa h (bc_vm_fd c)
            \<lparr>gg_vcpuid = bc_id c, gg_prot = prot, gg_gla = gla,
             gg_paging = \<lparr>gp_cr3 = sr_cr3 s, gp_cpl = ucast (seg_dpl (sr_cs s) AND 3), gp_cpu_mode = cpu_mode s,
                gp_paging_mode = paging_mode s\<rparr>, gg_fault = 0, gg_gpa = 0\<rparr>)) (\<lambda>gg.
          if gg_fault gg \<noteq> 0 then hfail (BeFault (gg_fault gg)) else hreturn (gg_gpa gg)) k)"

definition read_instr :: "('k, 'e) bhyve_host \<Rightarrow> ('k, 'e) vm_ops \<Rightarrow> bhyve_vcpu_handle \<Rightarrow> guest_memory
    \<Rightarrow> ('k, 'e backend_error, bytes) hprog" where
  "read_instr h ops c memory k =
     (case bhyve_get_regs ops k of
        Inl e \<Rightarrow> (Inl (BeRegs e), k)
      | Inr r \<Rightarrow>
          (case gla2gpa h ops c (rip r) 1 k of (t, k) \<Rightarrow>
             let gpa = (case t of Inr gpa \<Rightarrow> gpa | Inl _ \<Rightarrow> rip r)
             in (case read_at memory gpa 15 of Inl e \<Rightarrow> (Inl (BeInstrRead e), k) | Inr d \<Rightarrow> (Inr d, k))))"

section \<open>The interface of a back end\<close>

text \<open>
  The traits \<open>Hypervisor\<close>, \<open>Vm\<close> and \<open>Vcpu\<close> as \<open>main\<close> uses them: \<open>'h\<close>, \<open>'m\<close> and \<open>'c\<close> are the host's
  handles of the hypervisor, the VM and a vCPU. \<open>be_drop\<close> is what dropping the VM does beside closing its file.
\<close>

record ('k, 'x, 'v, 'h, 'm, 'c) backend =
  be_new :: "('k, 'x, 'h) hprog"
  be_create_vm :: "'h \<Rightarrow> bytes \<Rightarrow> ('k, 'x, 'm) hprog"
  be_setup :: "'m \<Rightarrow> ('k, 'x, unit) hprog"
  be_register_memory_region :: "'m \<Rightarrow> u64 \<Rightarrow> u64 \<Rightarrow> u64 \<Rightarrow> ('k, 'x, 'm) hprog"
  be_create_vcpu :: "'m \<Rightarrow> u32 \<Rightarrow> ('k, 'x, 'c) hprog"
  be_vcpu_setup :: "'c \<Rightarrow> ('k, 'x, unit) hprog"
  be_register_irq :: "'m \<Rightarrow> u32 \<Rightarrow> 'x + irq_sink"
  be_msi_sink :: "'m \<Rightarrow> 'x + msi_sink"
  be_vcpu :: "'c \<Rightarrow> ('k, 'v) vcpu_ops"
  be_drop :: "'m \<Rightarrow> 'k \<Rightarrow> 'k"

definition kvm_backend :: "('k, 'e) kvm_host \<Rightarrow> (kvm_vcpu_handle \<Rightarrow> ('k, 'v) kvm_ops)
    \<Rightarrow> ('k, 'e backend_error, 'v, i32, kvm_vm, kvm_vcpu_handle) backend" where
  "kvm_backend h ops =
     \<lparr>be_new = kvm_new h, be_create_vm = (\<lambda>fd _. kvm_create_vm h fd), be_setup = kvm_vm_setup h,
      be_register_memory_region = (\<lambda>vm gpa sz hpa. hbind (kvm_register_memory_region h vm gpa sz hpa) (\<lambda>_. hreturn vm)),
      be_create_vcpu = kvm_create_vcpu h, be_vcpu_setup = kvm_vcpu_setup h,
      be_register_irq = kvm_register_irq, be_msi_sink = kvm_msi_sink, be_vcpu = (\<lambda>c. kvm_vcpu (ops c)), be_drop = (\<lambda>vm k. k)\<rparr>"

definition bhyve_backend :: "('k, 'e) bhyve_host \<Rightarrow> (bhyve_vcpu_handle \<Rightarrow> ('k, 'v) vm_ops)
    \<Rightarrow> ('k, 'e backend_error, 'v, i32, bhyve_vm, bhyve_vcpu_handle) backend" where
  "bhyve_backend h ops =
     \<lparr>be_new = bhyve_new h, be_create_vm = bhyve_create_vm h, be_setup = (\<lambda>_. hreturn ()),
      be_register_memory_region = (\<lambda>vm gpa sz hpa k. case bhyve_register_memory_region h vm gpa sz hpa k of
          (Inl e, _, k) \<Rightarrow> (Inl e, k) | (Inr _, vm, k) \<Rightarrow> (Inr vm, k)),
      be_create_vcpu = bhyve_create_vcpu h, be_vcpu_setup = bhyve_vcpu_setup h,
      be_register_irq = bhyve_register_irq, be_msi_sink = bhyve_msi_sink, be_vcpu = (\<lambda>c. bhyve_vcpu (ops c)), be_drop = bhyve_drop h\<rparr>"

text \<open>
  What \<open>main\<close> asks of the back end: the VM, then its memory and the first vCPU before a kernel is loaded, and
  every other vCPU after the devices are in place.
\<close>

definition bring_up_vm :: "('k, 'x, 'v, 'h, 'm, 'c) backend \<Rightarrow> bytes \<Rightarrow> ('k, 'x, 'm) hprog" where
  "bring_up_vm be name =
     hbind (be_new be) (\<lambda>hv.
     hbind (be_create_vm be hv name) (\<lambda>vm.
     hbind (be_setup be vm) (\<lambda>_. hreturn vm)))"

definition add_vcpu :: "('k, 'x, 'v, 'h, 'm, 'c) backend \<Rightarrow> 'm \<Rightarrow> u32 \<Rightarrow> ('k, 'x, 'c) hprog" where
  "add_vcpu be vm i =
     hbind (be_create_vcpu be vm i) (\<lambda>vcpu.
     hbind (be_vcpu_setup be vcpu) (\<lambda>_. hreturn vcpu))"

definition bring_up_bsp :: "('k, 'x, 'v, 'h, 'm, 'c) backend \<Rightarrow> 'm \<Rightarrow> u64 \<Rightarrow> u64 \<Rightarrow> ('k, 'x, 'm \<times> 'c) hprog" where
  "bring_up_bsp be vm ram_size hva =
     hbind (be_register_memory_region be vm 0 ram_size hva) (\<lambda>vm.
     hbind (add_vcpu be vm 0) (\<lambda>vcpu. hreturn (vm, vcpu)))"

text \<open>The application processors, by ascending id.\<close>

fun add_vcpus :: "('k, 'x, 'v, 'h, 'm, 'c) backend \<Rightarrow> 'm \<Rightarrow> u32 list \<Rightarrow> ('k, 'x, 'c list) hprog" where
  "add_vcpus be vm [] = hreturn []"
| "add_vcpus be vm (i # is) = hbind (add_vcpu be vm i) (\<lambda>c. hbind (add_vcpus be vm is) (\<lambda>cs. hreturn (c # cs)))"

text \<open>
  Everything main asks of the back end until the vCPUs run, without what it does in between (loading the
  kernel into memory and registers, and the devices).
\<close>

definition bring_up :: "('k, 'x, 'v, 'h, 'm, 'c) backend \<Rightarrow> bytes \<Rightarrow> u64 \<Rightarrow> u64 \<Rightarrow> u32 \<Rightarrow> ('k, 'x, 'm \<times> 'c list) hprog" where
  "bring_up be name ram_size hva num_cpus =
     hbind (bring_up_vm be name) (\<lambda>vm.
     hbind (bring_up_bsp be vm ram_size hva) (\<lambda>(vm, vcpu).
     hbind (add_vcpus be vm (map of_nat [1..<unat num_cpus])) (\<lambda>aps. hreturn (vm, vcpu # aps))))"

section \<open>Traces\<close>

text \<open>A call on the host, with its arguments and what the kernel gave back for it.\<close>

datatype kvm_event =
    EvOpen "i32 option"
  | EvIoctl i32 u64 u64 i32
  | EvRegion i32 kvm_userspace_memory_region
  | EvPit i32 kvm_pit_config
  | EvGetCpuid i32 kvm_cpuid2 "kvm_cpuid2 option"
  | EvSetCpuid i32 kvm_cpuid2
  | EvMmap i32 u64 "u64 option"

definition logged :: "('r \<Rightarrow> 'ev) \<Rightarrow> ('k \<Rightarrow> 'r \<times> 'k) \<Rightarrow> 'k \<times> 'ev list \<Rightarrow> 'r \<times> 'k \<times> 'ev list" where
  "logged ev f s = (case f (fst s) of (r, k) \<Rightarrow> (r, k, snd s @ [ev r]))"

definition given :: "'e + 'a \<Rightarrow> 'a option" where
  "given r = (case r of Inl _ \<Rightarrow> None | Inr a \<Rightarrow> Some a)"

definition kvm_traced :: "('k, 'e) kvm_host \<Rightarrow> ('k \<times> kvm_event list, 'e) kvm_host" where
  "kvm_traced h =
     \<lparr>kh_open = logged (\<lambda>r. EvOpen (given r)) (kh_open h),
      kh_ioctl = (\<lambda>fd req arg. logged (\<lambda>r. EvIoctl fd req arg (fst r)) (kh_ioctl h fd req arg)),
      kh_region = (\<lambda>fd m. logged (\<lambda>_. EvRegion fd m) (kh_region h fd m)),
      kh_pit = (\<lambda>fd p. logged (\<lambda>_. EvPit fd p) (kh_pit h fd p)),
      kh_get_cpuid = (\<lambda>fd c. logged (\<lambda>r. EvGetCpuid fd c (given r)) (kh_get_cpuid h fd c)),
      kh_set_cpuid = (\<lambda>fd c. logged (\<lambda>_. EvSetCpuid fd c) (kh_set_cpuid h fd c)),
      kh_mmap = (\<lambda>fd n. logged (\<lambda>r. EvMmap fd n (given r)) (kh_mmap h fd n))\<rparr>"

text \<open>
  The calls that bring up a VM on KVM: \<open>sz\<close> is the size the kernel reports for the run structure, \<open>r1\<close> and
  \<open>r2\<close> are the results of two requests that only fail or succeed. Then those for vCPU \<open>i\<close>: the kernel's
  \<open>table\<close> of CPUID leaves is asked for with room for 256 of them, all zero, and handed to the vCPU as it came.
\<close>

definition kvm_vm_calls :: "kvm_vm \<Rightarrow> i32 \<Rightarrow> i32 \<Rightarrow> i32 \<Rightarrow> u64 \<Rightarrow> u64 \<Rightarrow> kvm_event list" where
  "kvm_vm_calls vm sz r1 r2 ram_size hva =
     [EvOpen (Some (kvm_fd vm)), EvIoctl (kvm_fd vm) KVM_GET_API_VERSION 0 12,
      EvIoctl (kvm_fd vm) KVM_CREATE_VM 0 (vm_fd vm), EvIoctl (kvm_fd vm) KVM_GET_VCPU_MMAP_SIZE 0 sz,
      EvIoctl (vm_fd vm) KVM_CREATE_IRQCHIP 0 r1, EvPit (vm_fd vm) \<lparr>pit_flags = 1, pit_pad = replicate 15 0\<rparr>,
      EvIoctl (vm_fd vm) KVM_SET_TSS_ADDR 0xfffbd000 r2,
      EvRegion (vm_fd vm)
        \<lparr>mr_slot = 0, mr_flags = 0, mr_guest_phys_addr = 0, mr_memory_size = ram_size, mr_userspace_addr = hva\<rparr>]"

definition kvm_vcpu_calls :: "kvm_vm \<Rightarrow> nat \<Rightarrow> kvm_vcpu_handle \<Rightarrow> kvm_cpuid2 \<Rightarrow> kvm_event list" where
  "kvm_vcpu_calls vm i c table =
     [EvIoctl (vm_fd vm) KVM_CREATE_VCPU (of_nat i) (vcpu_fd c),
      EvMmap (vcpu_fd c) (vm_mmap_size vm) (Some (vcpu_run c)),
      EvGetCpuid (kvm_fd vm) \<lparr>cp_nent = 256, cp_padding = 0, cp_entries =
        replicate 256 \<lparr>ce_function = 0, ce_index = 0, ce_flags = 0, ce_eax = 0, ce_ebx = 0, ce_ecx = 0, ce_edx = 0,
          ce_padding = [0, 0, 0]\<rparr>\<rparr> (Some table),
      EvSetCpuid (vcpu_fd c) table]"

definition kvm_vcpu_done :: "kvm_vcpu_handle \<Rightarrow> kvm_cpuid2 \<Rightarrow> bool" where
  "kvm_vcpu_done c table \<longleftrightarrow> vcpu_run c \<noteq> 0 \<and> unat (cp_nent table) \<le> length (cp_entries table)"

section \<open>Lemmas\<close>

lemma hbind_Inr_iff:
  "hbind p f k = (Inr b, k') \<longleftrightarrow> (\<exists>a k1. p k = (Inr a, k1) \<and> f a k1 = (Inr b, k'))"
  by (auto simp: hbind_def split: prod.splits sum.splits)

lemma hreturn_iff: "hreturn a k = (Inr b, k') \<longleftrightarrow> b = a \<and> k' = k"
  by (auto simp: hreturn_def)

lemma hfail_iff [simp]: "hfail e k \<noteq> (Inr b, k')"
  by (simp add: hfail_def)

lemma map_err_Inr_iff: "map_err g p k = (Inr b, k') \<longleftrightarrow> p k = (Inr b, k')"
  by (auto simp: map_err_def split: prod.splits sum.splits)

lemma logged_Inr:
  "logged ev f (k, l) = (r, s) \<Longrightarrow> \<exists>k'. f k = (r, k') \<and> s = (k', l @ [ev r])"
  by (auto simp: logged_def split: prod.splits)

lemma apfst_logged:
  "apfst ioctl_result (logged ev f (k, l)) = (Inr v, s) \<Longrightarrow> \<exists>e k'. f k = ((v, e), k') \<and> s = (k', l @ [ev (v, e)])"
  by (auto simp: logged_def ioctl_result_def split: prod.splits if_splits)

lemma given_Inr [simp]: "given (Inr a) = Some a"
  by (simp add: given_def)

lemma kioctl_traced:
  "kioctl (kvm_traced h) fd req arg (k, l) = (Inr v, s) \<Longrightarrow> \<exists>k'. s = (k', l @ [EvIoctl fd req arg v])"
  by (auto simp: kioctl_def map_err_Inr_iff kvm_traced_def dest!: apfst_logged)

text \<open>Each step of the bring-up on a traced host, as the calls it adds to the log.\<close>

lemma kvm_new_traced:
  assumes "kvm_new (kvm_traced h) (k, l) = (Inr fd, s)"
  shows "\<exists>k'. s = (k', l @ [EvOpen (Some fd), EvIoctl fd KVM_GET_API_VERSION 0 12])"
proof -
  have o: "kh_open (kvm_traced h) (k, l) = (Inr fd, s) \<Longrightarrow> \<exists>k'. s = (k', l @ [EvOpen (Some fd)])" for k l fd s
    by (auto simp: kvm_traced_def dest!: logged_Inr)
  show ?thesis
    using assms unfolding kvm_new_def kvm_open_def
    by (auto simp: hbind_Inr_iff map_err_Inr_iff hreturn_iff KVM_API_VERSION_def split: if_splits dest!: o kioctl_traced)
qed

lemma kvm_create_vm_traced:
  assumes "kvm_create_vm (kvm_traced h) fd (k, l) = (Inr vm, s)"
  shows "\<exists>k' sz. s = (k', l @ [EvIoctl fd KVM_CREATE_VM 0 (vm_fd vm), EvIoctl fd KVM_GET_VCPU_MMAP_SIZE 0 sz]) \<and>
     kvm_fd vm = fd \<and> vm_mmap_size vm = scast sz"
  using assms unfolding kvm_create_vm_def by (auto simp: hbind_Inr_iff hreturn_iff dest!: kioctl_traced)

lemma kvm_vm_setup_traced:
  assumes "kvm_vm_setup (kvm_traced h) vm (k, l) = (Inr u, s)"
  shows "\<exists>k' r1 r2. s = (k', l @ [EvIoctl (vm_fd vm) KVM_CREATE_IRQCHIP 0 r1,
      EvPit (vm_fd vm) \<lparr>pit_flags = 1, pit_pad = replicate 15 0\<rparr>, EvIoctl (vm_fd vm) KVM_SET_TSS_ADDR 0xfffbd000 r2])"
proof -
  have p: "create_pit2 (kvm_traced h) vm (k, l) = (Inr v, s) \<Longrightarrow>
      \<exists>k'. s = (k', l @ [EvPit (vm_fd vm) \<lparr>pit_flags = 1, pit_pad = replicate 15 0\<rparr>])" for k l v s
    by (auto simp: create_pit2_def map_err_Inr_iff kvm_traced_def KVM_PIT_SPEAKER_DUMMY_def dest!: apfst_logged)
  show ?thesis
    using assms unfolding kvm_vm_setup_def create_irqchip_def set_tss_address_def KVM_TSS_ADDRESS_def
    by (auto simp: hbind_Inr_iff hreturn_iff dest!: kioctl_traced p)
qed

lemma kvm_register_traced:
  assumes "kvm_register_memory_region (kvm_traced h) vm gpa sz hva (k, l) = (Inr u, s)"
  shows "\<exists>k'. s = (k', l @ [EvRegion (vm_fd vm) \<lparr>mr_slot = 0, mr_flags = 0, mr_guest_phys_addr = gpa, mr_memory_size = sz,
      mr_userspace_addr = hva\<rparr>])"
  using assms unfolding kvm_register_memory_region_def set_user_memory_region_def
  by (auto simp: hbind_Inr_iff map_err_Inr_iff hreturn_iff kvm_traced_def dest!: apfst_logged)

lemma kvm_create_vcpu_traced:
  assumes "kvm_create_vcpu (kvm_traced h) vm i (k, l) = (Inr c, s)"
  shows "\<exists>k'. s = (k', l @ [EvIoctl (vm_fd vm) KVM_CREATE_VCPU (ucast i) (vcpu_fd c),
      EvMmap (vcpu_fd c) (vm_mmap_size vm) (Some (vcpu_run c))]) \<and> vcpu_kvm_fd c = kvm_fd vm \<and> vcpu_run c \<noteq> 0"
proof -
  have m: "kh_mmap (kvm_traced h) fd n (k, l) = (Inr p, s) \<Longrightarrow> \<exists>k'. s = (k', l @ [EvMmap fd n (Some p)])" for fd n k l p s
    by (auto simp: kvm_traced_def dest!: logged_Inr)
  show ?thesis
    using assms unfolding kvm_create_vcpu_def
    by (auto simp: hbind_Inr_iff map_err_Inr_iff hreturn_iff split: if_splits dest!: kioctl_traced m)
qed

lemma kvm_vcpu_setup_traced:
  assumes "kvm_vcpu_setup (kvm_traced h) c (k, l) = (Inr u, s)"
  shows "\<exists>k' table. s = (k', l @ [EvGetCpuid (vcpu_kvm_fd c) cpuid_room (Some table), EvSetCpuid (vcpu_fd c) table]) \<and>
     unat (cp_nent table) \<le> length (cp_entries table)"
proof -
  have g: "kh_get_cpuid (kvm_traced h) fd r (k, l) = (Inr p, s) \<Longrightarrow> \<exists>k'. s = (k', l @ [EvGetCpuid fd r (Some p)])" for fd r k l p s
    by (auto simp: kvm_traced_def dest!: logged_Inr)
  have st: "apfst ioctl_result (kh_set_cpuid (kvm_traced h) fd r (k, l)) = (Inr p, s) \<Longrightarrow> \<exists>k'. s = (k', l @ [EvSetCpuid fd r])"
    for fd r k l p s by (auto simp: kvm_traced_def dest!: apfst_logged)
  show ?thesis
    using assms unfolding kvm_vcpu_setup_def get_supported_cpuid_def
    by (auto simp: hbind_Inr_iff map_err_Inr_iff hreturn_iff not_less split: if_splits dest!: g st)
qed

lemma add_vcpu_traced:
  assumes "add_vcpu (kvm_backend (kvm_traced h) ops) vm i (k, l) = (Inr c, s)"
  shows "\<exists>k' table. s = (k', l @ kvm_vcpu_calls vm (unat i) c table) \<and> kvm_vcpu_done c table"
  using assms unfolding add_vcpu_def kvm_backend_def
  by (auto simp: hbind_Inr_iff hreturn_iff kvm_vcpu_calls_def kvm_vcpu_done_def cpuid_room_def
      dest!: kvm_create_vcpu_traced kvm_vcpu_setup_traced)

lemma add_vcpus_traced:
  "add_vcpus (kvm_backend (kvm_traced h) ops) vm is (k, l) = (Inr cs, s) \<Longrightarrow>
   \<exists>k' tables. length cs = length is \<and> length tables = length is \<and> list_all2 kvm_vcpu_done cs tables \<and>
     s = (k', l @ concat (map (\<lambda>(i, c, t). kvm_vcpu_calls vm (unat i) c t) (zip is (zip cs tables))))"
proof (induction "is" arbitrary: k l cs s)
  case (Cons i "is")
  obtain c s1 cs1 where a: "add_vcpu (kvm_backend (kvm_traced h) ops) vm i (k, l) = (Inr c, s1)"
    "add_vcpus (kvm_backend (kvm_traced h) ops) vm is s1 = (Inr cs1, s)" "cs = c # cs1"
    using Cons.prems by (auto simp: hbind_Inr_iff hreturn_iff)
  obtain k1 t where t: "s1 = (k1, l @ kvm_vcpu_calls vm (unat i) c t)" "kvm_vcpu_done c t"
    using add_vcpu_traced[OF a(1)] by blast
  obtain k' ts where "length cs1 = length is" "length ts = length is" "list_all2 kvm_vcpu_done cs1 ts"
    "s = (k', (l @ kvm_vcpu_calls vm (unat i) c t) @ concat (map (\<lambda>(i, c, t). kvm_vcpu_calls vm (unat i) c t) (zip is (zip cs1 ts))))"
    using Cons.IH[OF a(2)[unfolded t(1)]] by blast
  then show ?case using t(2) a(3) by (intro exI[of _ k'] exI[of _ "t # ts"]) simp
qed (simp add: hreturn_iff)

lemma vcpu_ids: "map unat (map of_nat [1..<unat (n :: u32)] :: u32 list) = [1..<unat n]"
proof (intro nth_equalityI)
  fix i assume "i < length (map unat (map of_nat [1..<unat n] :: u32 list))"
  then have "unat (of_nat (Suc i) :: u32) = Suc i"
    using unat_bound[of n] by (simp add: unat_of_nat del: of_nat_Suc)
  then show "map unat (map of_nat [1..<unat n] :: u32 list) ! i = [1..<unat n] ! i"
    using \<open>i < _\<close> by simp
qed simp

lemma bring_up_traced:
  assumes "bring_up (kvm_backend (kvm_traced h) ops) name ram_size hva n (k, []) = (Inr (vm, cs), (k', calls))"
  shows "\<exists>sz r1 r2 tables. vm_mmap_size vm = scast sz \<and> length cs = max 1 (unat n) \<and> list_all2 kvm_vcpu_done cs tables \<and>
     calls = kvm_vm_calls vm sz r1 r2 ram_size hva @
       concat (map (\<lambda>(i, c, table). kvm_vcpu_calls vm i c table) (zip [0..<length cs] (zip cs tables)))"
proof -
  let ?be = "kvm_backend (kvm_traced h) ops"
  obtain vm0 s1 s2 c aps where u: "bring_up_vm ?be name (k, []) = (Inr vm0, s1)" "bring_up_bsp ?be vm0 ram_size hva s1 = (Inr (vm, c), s2)"
    "add_vcpus ?be vm (map of_nat [1..<unat n]) s2 = (Inr aps, (k', calls))" "cs = c # aps"
    using assms by (auto simp: bring_up_def hbind_Inr_iff hreturn_iff)
  obtain k1 sz r1 r2 where v: "vm_mmap_size vm0 = scast sz" "s1 = (k1, butlast (kvm_vm_calls vm0 sz r1 r2 ram_size hva))"
    using u(1) unfolding bring_up_vm_def kvm_backend_def kvm_vm_calls_def
    by (auto simp: hbind_Inr_iff hreturn_iff dest!: kvm_new_traced kvm_create_vm_traced kvm_vm_setup_traced)
  obtain k2 s3 where b: "vm = vm0" "s3 = (k2, kvm_vm_calls vm sz r1 r2 ram_size hva)" "add_vcpu ?be vm 0 s3 = (Inr c, s2)"
    using u(2) unfolding bring_up_bsp_def v(2)
    by (auto simp: hbind_Inr_iff hreturn_iff kvm_backend_def kvm_vm_calls_def dest!: kvm_register_traced)
  obtain k3 t where t: "s2 = (k3, kvm_vm_calls vm sz r1 r2 ram_size hva @ kvm_vcpu_calls vm 0 c t)" "kvm_vcpu_done c t"
    using add_vcpu_traced[OF b(3)[unfolded b(2)]] by auto
  let ?is = "map of_nat [1..<unat n] :: u32 list"
  obtain ts where a: "length aps = length ?is" "length ts = length ?is" "list_all2 kvm_vcpu_done aps ts"
    "calls = kvm_vm_calls vm sz r1 r2 ram_size hva @ kvm_vcpu_calls vm 0 c t @
       concat (map (\<lambda>(i, c, t). kvm_vcpu_calls vm (unat i) c t) (zip ?is (zip aps ts)))"
    using add_vcpus_traced[OF u(3)[unfolded t(1)]] by auto
  have "map (\<lambda>(i, c, t). kvm_vcpu_calls vm (unat i) c t) (zip is (zip aps ts)) =
      map (\<lambda>(i, c, t). kvm_vcpu_calls vm i c t) (zip (map unat is) (zip aps ts))" for "is" :: "u32 list"
    by (simp add: zip_map1 comp_def case_prod_unfold)
  note calls = a(4)[unfolded this vcpu_ids]
  have ids: "[0..<length cs] = 0 # [1..<unat n]" and n: "length cs = max 1 (unat n)"
    using a(1) by (cases "unat n"; simp add: u(4) upt_conv_Cons)+
  have "calls = kvm_vm_calls vm sz r1 r2 ram_size hva @
      concat (map (\<lambda>(i, c, t). kvm_vcpu_calls vm i c t) (zip [0..<length cs] (zip cs (t # ts))))"
    unfolding ids calls by (simp add: u(4))
  moreover have "list_all2 kvm_vcpu_done cs (t # ts)" using a(3) t(2) u(4) by simp
  ultimately show ?thesis using v(1) b(1) n by blast
qed

section \<open>Properties\<close>

text \<open>
  C17. The order in which KVM is asked, and with what. Whatever the kernel answers, when the bring-up of a VM
  with \<open>n\<close> CPUs succeeds the calls made were exactly these, in this order: version (which is 12), VM, size of the
  run structure, then on the VM the interrupt controller before the timer, the task-state address and all
  of RAM as slot 0 at address 0, and only then every vCPU by ascending id: it is created, its run structure mapped
  at the reported size, the kernel's CPUID table asked for with room for 256 leaves, and that very table
  set on the vCPU. The descriptors used are the ones the kernel gave for the open, the VM and the vCPU; the
  run structure is where \<open>mmap\<close> put it and not null, and a table's count is within the table.
\<close>

theorem kvm_bring_up_order:
  assumes "bring_up (kvm_backend (kvm_traced h) ops) name ram_size hva n (k, []) = (Inr (vm, cs), (k', calls))"
  shows "\<exists>sz r1 r2 tables. vm_mmap_size vm = scast sz \<and> length cs = max 1 (unat n) \<and> list_all2 kvm_vcpu_done cs tables \<and>
     calls = kvm_vm_calls vm sz r1 r2 ram_size hva @
       concat (map (\<lambda>(i, c, table). kvm_vcpu_calls vm i c table) (zip [0..<length cs] (zip cs tables)))"
  using bring_up_traced[OF assms] .

text \<open>A kernel that grants every request: descriptors 3, 4 and 5, and the two CPUID leaves it supports.\<close>

definition kvm_generous :: "(unit, unit) kvm_host" where
  "kvm_generous =
     \<lparr>kh_open = (\<lambda>k. (Inr 3, k)),
      kh_ioctl = (\<lambda>fd req arg k. ((if req = KVM_GET_API_VERSION then 12 else if req = KVM_GET_VCPU_MMAP_SIZE then 0x3000
        else if req = KVM_CREATE_VM then 4 else if req = KVM_CREATE_VCPU then 5 else 0, ()), k)),
      kh_region = (\<lambda>fd r k. ((0, ()), k)), kh_pit = (\<lambda>fd p k. ((0, ()), k)),
      kh_get_cpuid = (\<lambda>fd c k. (Inr (c\<lparr>cp_nent := 2\<rparr>), k)), kh_set_cpuid = (\<lambda>fd c k. ((0, ()), k)),
      kh_mmap = (\<lambda>fd n k. (Inr 0x7f0000000000, k))\<rparr>"

theorem kvm_bring_up_order_witness:
  "\<forall>ops. \<exists>calls sz r1 r2 tables.
     bring_up (kvm_backend (kvm_traced kvm_generous) ops) [] 0x40000000 0x7f1000000000 2 ((), []) =
       (Inr (\<lparr>kvm_fd = 3, vm_fd = 4, vm_mmap_size = 0x3000\<rparr>,
          [\<lparr>vcpu_fd = 5, vcpu_run = 0x7f0000000000, vcpu_mmap_size = 0x3000, vcpu_kvm_fd = 3\<rparr>,
           \<lparr>vcpu_fd = 5, vcpu_run = 0x7f0000000000, vcpu_mmap_size = 0x3000, vcpu_kvm_fd = 3\<rparr>]), ((), calls)) \<and>
     calls = kvm_vm_calls \<lparr>kvm_fd = 3, vm_fd = 4, vm_mmap_size = 0x3000\<rparr> sz r1 r2 0x40000000 0x7f1000000000 @
       concat (map (\<lambda>(i, c, table). kvm_vcpu_calls \<lparr>kvm_fd = 3, vm_fd = 4, vm_mmap_size = 0x3000\<rparr> i c table)
         (zip [0, 1] (zip [\<lparr>vcpu_fd = 5, vcpu_run = 0x7f0000000000, vcpu_mmap_size = 0x3000, vcpu_kvm_fd = 3\<rparr>,
           \<lparr>vcpu_fd = 5, vcpu_run = 0x7f0000000000, vcpu_mmap_size = 0x3000, vcpu_kvm_fd = 3\<rparr>] tables)))"
proof
  fix ops :: "kvm_vcpu_handle \<Rightarrow> (unit \<times> kvm_event list, 'a) kvm_ops"
  have q: "KVM_GET_API_VERSION = 0xAE00" "KVM_CREATE_VM = 0xAE01" "KVM_GET_VCPU_MMAP_SIZE = 0xAE04" "KVM_CREATE_VCPU = 0xAE41"
    "KVM_SET_TSS_ADDR = 0xAE47" "KVM_CREATE_IRQCHIP = 0xAE60"
    by code_simp+
  have room: "length (cp_entries cpuid_room) = 256" by (simp add: cpuid_room_def)
  let ?be = "kvm_backend (kvm_traced kvm_generous) ops"
  let ?vm = "\<lparr>kvm_fd = 3, vm_fd = 4, vm_mmap_size = 0x3000\<rparr>"
  let ?c = "\<lparr>vcpu_fd = 5, vcpu_run = 0x7f0000000000, vcpu_mmap_size = 0x3000, vcpu_kvm_fd = 3\<rparr>"
  note host = kvm_backend_def kvm_traced_def kvm_generous_def logged_def hbind_def hreturn_def map_err_def ioctl_result_def kioctl_def q
  have v: "\<exists>l. bring_up_vm ?be [] ((), []) = (Inr ?vm, ((), l))"
    by (simp add: bring_up_vm_def host kvm_new_def kvm_open_def kvm_create_vm_def KVM_API_VERSION_def kvm_vm_setup_def
        create_irqchip_def create_pit2_def set_tss_address_def)
  have m: "\<exists>l'. be_register_memory_region ?be ?vm 0 sz p ((), l) = (Inr ?vm, ((), l'))"
    for sz p l by (simp add: host kvm_register_memory_region_def set_user_memory_region_def)
  have c: "\<exists>l'. add_vcpu ?be ?vm i ((), l) = (Inr ?c, ((), l'))" for i l
    by (simp add: add_vcpu_def host kvm_create_vcpu_def kvm_vcpu_setup_def get_supported_cpuid_def room)
  have "\<exists>calls. bring_up ?be [] 0x40000000 0x7f1000000000 2 ((), []) =
      (Inr (?vm, [?c, ?c]), ((), calls))"
  proof -
    obtain l1 where l1: "bring_up_vm ?be [] ((), []) = (Inr ?vm, ((), l1))" using v by blast
    obtain l2 where l2: "be_register_memory_region ?be ?vm 0 0x40000000 0x7f1000000000 ((), l1) = (Inr ?vm, ((), l2))"
      using m by blast
    obtain l3 where l3: "add_vcpu ?be ?vm 0 ((), l2) = (Inr ?c, ((), l3))" using c by blast
    obtain l4 where l4: "add_vcpu ?be ?vm 1 ((), l3) = (Inr ?c, ((), l4))" using c by blast
    show ?thesis by (simp add: bring_up_def bring_up_bsp_def hbind_def hreturn_def upt_rec l1 l2 l3 l4)
  qed
  then obtain calls where b: "bring_up ?be [] 0x40000000 0x7f1000000000 2 ((), []) = (Inr (?vm, [?c, ?c]), ((), calls))"
    by blast
  have "\<exists>sz r1 r2 tables. calls = kvm_vm_calls ?vm sz r1 r2 0x40000000 0x7f1000000000 @
       concat (map (\<lambda>(i, c, table). kvm_vcpu_calls ?vm i c table) (zip [0, 1] (zip [?c, ?c] tables)))"
    using kvm_bring_up_order[OF b] by (auto simp: upt_rec)
  then show "\<exists>calls sz r1 r2 tables. bring_up ?be [] 0x40000000 0x7f1000000000 2 ((), []) = (Inr (?vm, [?c, ?c]), ((), calls)) \<and>
     calls = kvm_vm_calls ?vm sz r1 r2 0x40000000 0x7f1000000000 @
       concat (map (\<lambda>(i, c, table). kvm_vcpu_calls ?vm i c table) (zip [0, 1] (zip [?c, ?c] tables)))" using b by blast
qed

end
