(* ===== verification/Hypervisor.thy ===== *)
theory Hypervisor
  imports Backend
begin

text \<open>
  The contract between \<open>main\<close> and a back end (the traits \<open>Hypervisor\<close>, \<open>Vm\<close> and \<open>Vcpu\<close> of \<open>src/traits.rs\<close>), as
  the locale \<open>hypervisor\<close>, and the two back ends as sublocales of it: on a kernel that grants its calls,
  the code of \<open>src/kvm/core.rs\<close> and of \<open>src/bhyve/core.rs\<close> keeps the contract.
\<close>

section \<open>The contract\<close>

text \<open>
  What \<open>main\<close> relies on. \<open>up vm n k\<close>: in host state \<open>k\<close> the VM \<open>vm\<close> is set up and its vCPUs are those with
  the ids below \<open>n\<close>; \<open>live c k\<close>: \<open>c\<close> is one of them. A new vCPU has a readable, well-formed state and
  leaves those of the others alone, and so does registering memory; the registers of a vCPU obey the
  laws of \<open>vcpu_state\<close>.
\<close>

definition same_state :: "('k, 'v) vcpu_ops \<Rightarrow> 'k \<Rightarrow> 'k \<Rightarrow> bool" where
  "same_state v k k' \<longleftrightarrow> v_get_regs v k' = v_get_regs v k \<and> v_get_sregs v k' = v_get_sregs v k"

definition fresh_state :: "('k, 'v) vcpu_ops \<Rightarrow> 'k \<Rightarrow> bool" where
  "fresh_state v k \<longleftrightarrow> (\<exists>r s. v_get_regs v k = Inr r \<and> v_get_sregs v k = Inr s \<and> sregs_ok s)"

locale hypervisor =
  fixes be :: "('k, 'x, 'v, 'h, 'm, 'c) backend" and kept :: "sregs \<Rightarrow> sregs"
    and up :: "'m \<Rightarrow> nat \<Rightarrow> 'k \<Rightarrow> bool" and live :: "'c \<Rightarrow> 'k \<Rightarrow> bool"
  assumes vm_up: "\<exists>vm k'. bring_up_vm be name k = (Inr vm, k') \<and> up vm 0 k'"
    and ram: "up vm 0 k \<Longrightarrow> \<exists>vm' k'. be_register_memory_region be vm 0 sz hva k = (Inr vm', k') \<and> up vm' 0 k'"
    and vcpu: "up vm n k \<Longrightarrow> n < 255 \<Longrightarrow>
      \<exists>c k'. add_vcpu be vm (of_nat n) k = (Inr c, k') \<and> up vm (Suc n) k' \<and> live c k' \<and> fresh_state (be_vcpu be c) k' \<and>
        (\<forall>c'. live c' k \<longrightarrow> live c' k' \<and> same_state (be_vcpu be c') k k')"
    and state: "vcpu_state (be_vcpu be c) kept"
    and set_regs: "v_set_regs (be_vcpu be c) k r = Inr k' \<Longrightarrow> (up vm n k \<longrightarrow> up vm n k') \<and> (live c' k \<longrightarrow> live c' k')"
    and set_sregs: "v_set_sregs (be_vcpu be c) k s = Inr k' \<Longrightarrow> (up vm n k \<longrightarrow> up vm n k') \<and> (live c' k \<longrightarrow> live c' k')"
    and sinks: "\<exists>s. be_register_irq be vm g = Inr s" "\<exists>s. be_msi_sink be vm = Inr s"

text \<open>
  The two kernels that keep it. A call is granted when its result is not negative. \<open>own vmfd n k\<close> and \<open>cpu fd k\<close>
  say which VMs, with how many vCPUs, and which vCPUs exist; only creating one changes that.
\<close>

definition quiet :: "(i32 \<Rightarrow> nat \<Rightarrow> 'k \<Rightarrow> bool) \<Rightarrow> ('q \<Rightarrow> 'k \<Rightarrow> bool) \<Rightarrow> ('q \<Rightarrow> ('k, 'v) vcpu_ops) \<Rightarrow> 'k \<Rightarrow> 'k \<Rightarrow> bool" where
  "quiet own cpu v k k' \<longleftrightarrow> (\<forall>fd n. own fd n k \<longrightarrow> own fd n k') \<and> (\<forall>c. cpu c k \<longrightarrow> cpu c k' \<and> same_state (v c) k k')"

definition granted :: "(i32 \<times> 'e) \<times> 'k \<Rightarrow> ('k \<Rightarrow> bool) \<Rightarrow> bool" where
  "granted r P \<longleftrightarrow> 0 \<le> sint (fst (fst r)) \<and> P (snd r)"

locale kvm_system =
  fixes h :: "('k, 'e) kvm_host" and ops :: "kvm_vcpu_handle \<Rightarrow> ('k, 'v) kvm_ops"
    and own :: "i32 \<Rightarrow> nat \<Rightarrow> 'k \<Rightarrow> bool" and cpu :: "kvm_vcpu_handle \<Rightarrow> 'k \<Rightarrow> bool"
  assumes dev: "\<exists>fd k'. kh_open h k = (Inr fd, k')"
    and version: "\<exists>e k'. kh_ioctl h fd KVM_GET_API_VERSION 0 k = ((12, e), k')"
    and create: "\<exists>r e k'. kh_ioctl h fd KVM_CREATE_VM 0 k = ((r, e), k') \<and> 0 \<le> sint r \<and> own r 0 k'"
    and plain: "req \<in> {KVM_GET_VCPU_MMAP_SIZE, KVM_CREATE_IRQCHIP, KVM_SET_TSS_ADDR} \<Longrightarrow>
      granted (kh_ioctl h fd req arg k) (quiet own cpu (\<lambda>c. kvm_vcpu (ops c)) k)"
    and pit: "granted (kh_pit h fd p k) (quiet own cpu (\<lambda>c. kvm_vcpu (ops c)) k)"
    and region: "granted (kh_region h fd rg k) (quiet own cpu (\<lambda>c. kvm_vcpu (ops c)) k)"
    and cpuids: "\<exists>t k'. kh_get_cpuid h fd t0 k = (Inr t, k') \<and> unat (cp_nent t) \<le> length (cp_entries t) \<and>
      quiet own cpu (\<lambda>c. kvm_vcpu (ops c)) k k'"
    and cpuid: "granted (kh_set_cpuid h fd t k) (quiet own cpu (\<lambda>c. kvm_vcpu (ops c)) k)"
    and add: "own vmfd n k \<Longrightarrow> n < 255 \<Longrightarrow> \<exists>fd e k1 p k'. kh_ioctl h vmfd KVM_CREATE_VCPU (of_nat n) k = ((fd, e), k1) \<and>
      0 \<le> sint fd \<and> kh_mmap h fd sz k1 = (Inr p, k') \<and> p \<noteq> 0 \<and> own vmfd (Suc n) k' \<and>
      (\<forall>kfd. let c = \<lparr>vcpu_fd = fd, vcpu_run = p, vcpu_mmap_size = sz, vcpu_kvm_fd = kfd\<rparr> in
         cpu c k' \<and> fresh_state (kvm_vcpu (ops c)) k') \<and>
      (\<forall>c. cpu c k \<longrightarrow> cpu c k' \<and> same_state (kvm_vcpu (ops c)) k k')"
    and regs: "kvm_kernel (ops c)"
    and store: "io_set_regs (ops c) k gr = Inr k' \<Longrightarrow> (own vm n k \<longrightarrow> own vm n k') \<and> (cpu c' k \<longrightarrow> cpu c' k')"
      "io_set_sregs (ops c) k sr = Inr k' \<Longrightarrow> (own vm n k \<longrightarrow> own vm n k') \<and> (cpu c' k \<longrightarrow> cpu c' k')"

lemma quiet_refl: "quiet own cpu v k k"
  by (simp add: quiet_def same_state_def)

lemma quiet_trans: "quiet own cpu v k k1 \<Longrightarrow> quiet own cpu v k1 k2 \<Longrightarrow> quiet own cpu v k k2"
  by (simp add: quiet_def same_state_def)

lemma granted_call:
  assumes "granted (c k) P"
  shows "\<exists>v k'. map_err err (\<lambda>k. apfst ioctl_result (c k)) k = (Inr v, k') \<and> P k'"
  using assms by (cases "c k") (auto simp: granted_def map_err_def ioctl_result_def apfst_def)

lemma hbind_Inr: "p k = (Inr a, k1) \<Longrightarrow> hbind p f k = f a k1"
  by (simp add: hbind_def)

context kvm_kernel
begin

lemma kvm_registers: "vcpu_state (kvm_vcpu ops) (\<lambda>s. s)"
  by (rule kvm.vcpu_state_axioms)

end

context bhyve_kernel
begin

lemma bhyve_registers: "vcpu_state (bhyve_vcpu ops) bhyve_kept"
  by (rule bhyve.vcpu_state_axioms)

end

section \<open>KVM\<close>

context kvm_system
begin

abbreviation same :: "'k \<Rightarrow> 'k \<Rightarrow> bool" where
  "same \<equiv> quiet own cpu (\<lambda>c. kvm_vcpu (ops c))"

lemma ioctl_plain:
  assumes "req \<in> {KVM_GET_VCPU_MMAP_SIZE, KVM_CREATE_IRQCHIP, KVM_SET_TSS_ADDR}"
  shows "\<exists>v k'. kioctl h fd req arg k = (Inr v, k') \<and> same k k'"
  unfolding kioctl_def by (rule granted_call[OF plain[OF assms]])

lemma call_ok:
  "\<exists>v k'. create_pit2 h vm k = (Inr v, k') \<and> same k k'"
  "\<exists>v k'. set_user_memory_region h vm slot gpa sz hva k = (Inr v, k') \<and> same k k'"
  "\<exists>v k'. map_err err (\<lambda>k. apfst ioctl_result (kh_set_cpuid h fd t k)) k = (Inr v, k') \<and> same k k'"
  unfolding create_pit2_def set_user_memory_region_def
  by (rule granted_call, rule pit, rule granted_call, rule region, rule granted_call, rule cpuid)

lemma new_vm:
  "\<exists>vm k'. bring_up_vm (kvm_backend h ops) name k = (Inr vm, k') \<and> own (vm_fd vm) 0 k'"
proof -
  obtain fd k1 where o: "kh_open h k = (Inr fd, k1)" using dev by blast
  obtain e k2 where v: "kh_ioctl h fd KVM_GET_API_VERSION 0 k1 = ((12, e), k2)" using version by blast
  have n: "kvm_new h k = (Inr fd, k2)"
    by (simp add: kvm_new_def kvm_open_def kioctl_def map_err_def hbind_def o v ioctl_result_def KVM_API_VERSION_def hreturn_def)
  obtain r e3 k3 where c: "kh_ioctl h fd KVM_CREATE_VM 0 k2 = ((r, e3), k3)" "0 \<le> sint r" "own r 0 k3" using create by blast
  obtain v4 k4 where m: "kioctl h fd KVM_GET_VCPU_MMAP_SIZE 0 k3 = (Inr v4, k4)" "same k3 k4" using ioctl_plain by blast
  let ?vm = "\<lparr>kvm_fd = fd, vm_fd = r, vm_mmap_size = scast v4\<rparr>"
  have "kioctl h fd KVM_CREATE_VM 0 k2 = (Inr r, k3)"
    using c by (simp add: kioctl_def map_err_def ioctl_result_def)
  then have cv: "kvm_create_vm h fd k2 = (Inr ?vm, k4)"
    by (simp add: kvm_create_vm_def hbind_def m(1) hreturn_def)
  obtain v5 k5 where i: "create_irqchip h ?vm k4 = (Inr v5, k5)" "same k4 k5"
    unfolding create_irqchip_def using ioctl_plain by blast
  obtain v6 k6 where p: "create_pit2 h ?vm k5 = (Inr v6, k6)" "same k5 k6"
    using call_ok(1) by blast
  obtain v7 k7 where t: "set_tss_address h ?vm KVM_TSS_ADDRESS k6 = (Inr v7, k7)" "same k6 k7"
    unfolding set_tss_address_def using ioctl_plain by blast
  have "kvm_vm_setup h ?vm k4 = (Inr (), k7)"
    by (simp add: kvm_vm_setup_def hbind_def i(1) p(1) t(1) hreturn_def)
  then have "bring_up_vm (kvm_backend h ops) name k = (Inr ?vm, k7)"
    by (simp add: bring_up_vm_def kvm_backend_def hbind_def n cv hreturn_def)
  moreover have "own (vm_fd ?vm) 0 k7" using c(3) m(2) i(2) p(2) t(2) by (simp add: quiet_def)
  ultimately show ?thesis by blast
qed

lemma new_vcpu:
  assumes "own (vm_fd vm) n k" and "n < 255"
  shows "\<exists>c k'. add_vcpu (kvm_backend h ops) vm (of_nat n) k = (Inr c, k') \<and> own (vm_fd vm) (Suc n) k' \<and> cpu c k' \<and>
     fresh_state (kvm_vcpu (ops c)) k' \<and> (\<forall>c'. cpu c' k \<longrightarrow> cpu c' k' \<and> same_state (kvm_vcpu (ops c')) k k')"
proof -
  have u: "ucast (of_nat n :: u32) = (of_nat n :: u64)"
    using assms(2) by (simp add: word_eq_iff_unsigned unsigned_ucast_eq unsigned_of_nat take_bit_nat_eq_self)
  let ?c = "\<lambda>fd p. \<lparr>vcpu_fd = fd, vcpu_run = p, vcpu_mmap_size = vm_mmap_size vm, vcpu_kvm_fd = kvm_fd vm\<rparr>"
  obtain fd e k1 p k2 where a: "kh_ioctl h (vm_fd vm) KVM_CREATE_VCPU (of_nat n) k = ((fd, e), k1)" "0 \<le> sint fd"
    "kh_mmap h fd (vm_mmap_size vm) k1 = (Inr p, k2)" "p \<noteq> 0" "own (vm_fd vm) (Suc n) k2" "cpu (?c fd p) k2"
    "fresh_state (kvm_vcpu (ops (?c fd p))) k2" "\<forall>c. cpu c k \<longrightarrow> cpu c k2 \<and> same_state (kvm_vcpu (ops c)) k k2"
    using add[OF assms, of "vm_mmap_size vm"] by (auto simp: Let_def)
  have c: "kvm_create_vcpu h vm (of_nat n) k = (Inr (?c fd p), k2)"
    using a(2-4) by (simp add: kvm_create_vcpu_def u hbind_def kioctl_def map_err_def a(1) ioctl_result_def hreturn_def)
  obtain t k3 where g: "kh_get_cpuid h (kvm_fd vm) cpuid_room k2 = (Inr t, k3)" "unat (cp_nent t) \<le> length (cp_entries t)" "same k2 k3"
    using cpuids by blast
  obtain v k4 where s: "map_err BeSetCpuid (\<lambda>k. apfst ioctl_result (kh_set_cpuid h fd t k)) k3 = (Inr v, k4)" "same k3 k4"
    using call_ok(3) by blast
  have "kvm_vcpu_setup h (?c fd p) k2 = (Inr (), k4)"
    using g(2) s(1) by (simp add: kvm_vcpu_setup_def get_supported_cpuid_def hbind_def map_err_def g(1) hreturn_def not_less)
  then have "add_vcpu (kvm_backend h ops) vm (of_nat n) k = (Inr (?c fd p), k4)"
    by (simp add: add_vcpu_def kvm_backend_def hbind_def c hreturn_def)
  moreover have q: "same k2 k4" using quiet_trans[OF g(3) s(2)] .
  moreover have "own (vm_fd vm) (Suc n) k4" "cpu (?c fd p) k4" using q a(5,6) by (auto simp: quiet_def)
  moreover have "fresh_state (kvm_vcpu (ops (?c fd p))) k4"
    using q a(6,7) by (auto simp: quiet_def fresh_state_def same_state_def)
  moreover have "\<forall>c'. cpu c' k \<longrightarrow> cpu c' k4 \<and> same_state (kvm_vcpu (ops c')) k k4"
    using q a(8) by (auto simp: quiet_def same_state_def)
  ultimately show ?thesis by blast
qed

end

sublocale kvm_system \<subseteq> kvm: hypervisor "kvm_backend h ops" "\<lambda>s. s" "\<lambda>vm. own (vm_fd vm)" cpu
proof (rule hypervisor.intro)
  show "\<exists>vm k'. bring_up_vm (kvm_backend h ops) name k = (Inr vm, k') \<and> own (vm_fd vm) 0 k'" for name k by (rule new_vm)
  show "\<exists>vm' k'. be_register_memory_region (kvm_backend h ops) vm 0 sz hva k = (Inr vm', k') \<and> own (vm_fd vm') 0 k'"
    if "own (vm_fd vm) 0 k" for vm k sz hva
  proof -
    obtain v k' where "set_user_memory_region h vm 0 0 sz hva k = (Inr v, k')" "same k k'"
      using call_ok(2) by blast
    then show ?thesis
      using that by (auto simp: kvm_backend_def kvm_register_memory_region_def hbind_def hreturn_def quiet_def)
  qed
  show "\<exists>c k'. add_vcpu (kvm_backend h ops) vm (of_nat n) k = (Inr c, k') \<and> own (vm_fd vm) (Suc n) k' \<and> cpu c k' \<and>
      fresh_state (be_vcpu (kvm_backend h ops) c) k' \<and>
      (\<forall>c'. cpu c' k \<longrightarrow> cpu c' k' \<and> same_state (be_vcpu (kvm_backend h ops) c') k k')"
    if "own (vm_fd vm) n k" "n < 255" for vm n k
    using new_vcpu[OF that] by (simp add: kvm_backend_def)
  show "vcpu_state (be_vcpu (kvm_backend h ops) c) (\<lambda>s. s)" for c
    using kvm_kernel.kvm_registers[OF regs] by (simp add: kvm_backend_def)
qed (use store in \<open>auto simp: kvm_backend_def kvm_vcpu_def kvm_set_regs_def kvm_set_sregs_def kvm_register_irq_def kvm_msi_sink_def\<close>)

section \<open>bhyve\<close>

text \<open>A VM of the name may be left over from an earlier run: then it can be destroyed, and created afterwards.\<close>

locale bhyve_system =
  fixes h :: "('k, 'e) bhyve_host" and ops :: "bhyve_vcpu_handle \<Rightarrow> ('k, 'v) vm_ops"
    and named :: "bytes \<Rightarrow> 'k \<Rightarrow> bool" and own :: "i32 \<Rightarrow> nat \<Rightarrow> 'k \<Rightarrow> bool" and cpu :: "bhyve_vcpu_handle \<Rightarrow> 'k \<Rightarrow> bool"
  assumes dev: "\<exists>fd k'. bh_open h k = (Inr fd, k')"
    and version: "\<exists>e k'. bh_version h fd k = ((18, e), k')"
    and supported: "granted (bh_supported h fd k) (\<lambda>_. True)"
    and create: "granted (bh_create h fd (create_vm_req name) k) (named name) \<or>
      (\<exists>r e k1. bh_create h fd (create_vm_req name) k = ((r, e), k1) \<and> sint r < 0 \<and> bh_exists h e \<and>
        granted (bh_destroy h fd (destroy_vm_req name) k1) (\<lambda>k2. granted (bh_create h fd (create_vm_req name) k2) (named name)))"
    and vm: "named name k \<Longrightarrow> \<exists>vmfd k'. bh_open_vm h name k = (Inr vmfd, k') \<and> own vmfd 0 k'"
    and seg: "granted (bh_alloc_memseg h vmfd sg k) (quiet own cpu (\<lambda>c. bhyve_vcpu (ops c)) k)"
    and mapping: "granted (bh_mmap_memseg h vmfd mm k) (quiet own cpu (\<lambda>c. bhyve_vcpu (ops c)) k)"
    and ram_map: "\<exists>k'. bh_mmap h vmfd hva sz gpa k = (Inr (), k') \<and> quiet own cpu (\<lambda>c. bhyve_vcpu (ops c)) k k'"
    and add: "own vmfd n k \<Longrightarrow> n < 255 \<Longrightarrow> granted (bh_activate h vmfd (of_nat n) k) (\<lambda>k1.
      granted (bh_reset h vmfd \<lparr>vr_vcpuid = of_nat n, vr_kind = VRK_RESET\<rparr> k1) (\<lambda>k'. own vmfd (Suc n) k' \<and>
        cpu \<lparr>bc_vm_fd = vmfd, bc_id = of_nat n\<rparr> k' \<and>
        fresh_state (bhyve_vcpu (ops \<lparr>bc_vm_fd = vmfd, bc_id = of_nat n\<rparr>)) k' \<and>
        (\<forall>c. cpu c k \<longrightarrow> cpu c k' \<and> same_state (bhyve_vcpu (ops c)) k k')))"
    and capability: "\<exists>v k'. bh_get_capability h vmfd cap k = (Inr v, k') \<and> quiet own cpu (\<lambda>c. bhyve_vcpu (ops c)) k k'"
    and run_state: "granted (bh_set_run_state h vmfd rs k) (quiet own cpu (\<lambda>c. bhyve_vcpu (ops c)) k)"
    and regs: "bhyve_kernel (ops c)"
    and store: "op_set_reg (ops c) k rn rv = Inr k' \<Longrightarrow> (own vmfd n k \<longrightarrow> own vmfd n k') \<and> (cpu c' k \<longrightarrow> cpu c' k')"
      "op_set_desc (ops c) k rn ds = Inr k' \<Longrightarrow> (own vmfd n k \<longrightarrow> own vmfd n k') \<and> (cpu c' k \<longrightarrow> cpu c' k')"

text \<open>A predicate the single stores keep is kept by setting all the registers.\<close>

lemma sbind_Inr_iff: "sbind r f = Inr v \<longleftrightarrow> (\<exists>a. r = Inr a \<and> f a = Inr v)"
  by (auto simp: sbind_def split: sum.splits)

definition stores_keep :: "('k, 'v) vm_ops \<Rightarrow> ('k \<Rightarrow> bool) \<Rightarrow> bool" where
  "stores_keep ops P \<longleftrightarrow> (\<forall>k r v k'. op_set_reg ops k r v = Inr k' \<longrightarrow> P k \<longrightarrow> P k') \<and>
     (\<forall>k r d k'. op_set_desc ops k r d = Inr k' \<longrightarrow> P k \<longrightarrow> P k')"

lemma set_registers_keeps: "stores_keep ops P \<Longrightarrow> set_registers ops k rs = Inr k' \<Longrightarrow> P k \<Longrightarrow> P k'"
proof (induction rs arbitrary: k)
  case (Cons x rs)
  obtain k1 where k1: "op_set_reg ops k (fst x) (snd x) = Inr k1" "set_registers ops k1 rs = Inr k'"
    using Cons.prems(2) by (cases x) (auto simp: sbind_Inr_iff)
  then have "P k1" using Cons.prems(1,3) unfolding stores_keep_def by blast
  then show ?case using Cons.IH[OF Cons.prems(1) k1(2)] by blast
qed simp

lemma set_segments_keeps: "stores_keep ops P \<Longrightarrow> set_segments ops k ss = Inr k' \<Longrightarrow> P k \<Longrightarrow> P k'"
proof (induction ss arbitrary: k)
  case (Cons x ss)
  obtain k1 k2 where k: "op_set_desc ops k (fst x) (seg_desc_of (snd x)) = Inr k1"
    "op_set_reg ops k1 (fst x) (ucast (seg_selector (snd x))) = Inr k2" "set_segments ops k2 ss = Inr k'"
    using Cons.prems(2) by (cases x) (auto simp: sbind_Inr_iff set_segment_def)
  then have "P k2" using Cons.prems(1,3) unfolding stores_keep_def by blast
  then show ?case using Cons.IH[OF Cons.prems(1) k(3)] by blast
qed simp

lemma bhyve_sets_keep:
  assumes "stores_keep ops P" and "P k"
  shows "bhyve_set_regs ops k r = Inr k' \<Longrightarrow> P k'" and "bhyve_set_sregs ops k s = Inr k' \<Longrightarrow> P k'"
proof -
  show "bhyve_set_regs ops k r = Inr k' \<Longrightarrow> P k'"
    unfolding bhyve_set_regs_def using set_registers_keeps[OF assms(1) _ assms(2)] by blast
  assume set: "bhyve_set_sregs ops k s = Inr k'"
  obtain k1 k2 k3 ss rs where k: "set_segments ops k ss = Inr k1" "op_set_desc ops k1 RegGdtr (dtable_desc (sr_gdt s)) = Inr k2"
    "op_set_desc ops k2 RegIdtr (dtable_desc (sr_idt s)) = Inr k3" "set_registers ops k3 rs = Inr k'"
    using set by (auto simp: bhyve_set_sregs_def sbind_Inr_iff set_dtable_def simp del: set_registers.simps set_segments.simps)
  have "P k1" using set_segments_keeps[OF assms(1) k(1) assms(2)] .
  then have "P k3" using assms(1) k(2,3) unfolding stores_keep_def by blast
  then show "P k'" by (rule set_registers_keeps[OF assms(1) k(4)])
qed

context bhyve_system
begin

abbreviation same :: "'k \<Rightarrow> 'k \<Rightarrow> bool" where
  "same \<equiv> quiet own cpu (\<lambda>c. bhyve_vcpu (ops c))"

lemma bcall_ok:
  assumes "granted (c k) P"
  obtains v k' where "bcall err c k = (Inr v, k')" and "P k'"
  using granted_call[of c k P err, OF assms] by (auto simp: bcall_def)

lemma map_calls:
  "\<exists>v k'. bcall err (bh_alloc_memseg h vmfd sg) k = (Inr v, k') \<and> same k k'"
  "\<exists>v k'. bcall err (bh_mmap_memseg h vmfd mm) k = (Inr v, k') \<and> same k k'"
  "\<exists>v k'. bcall err (bh_set_run_state h vmfd rs) k = (Inr v, k') \<and> same k k'"
  unfolding bcall_def by (rule granted_call, rule seg, rule granted_call, rule mapping, rule granted_call, rule run_state)

lemma create_ok: "\<exists>vm k'. bhyve_create_vm h fd name k = (Inr vm, k') \<and> own (bv_fd vm) 0 k'"
proof -
  let ?req = "create_vm_req name"
  let ?attempt = "\<lambda>k. case bcall id (bh_create h fd ?req) k of
      (Inr v, k) \<Rightarrow> (Inr v, k)
    | (Inl e, k) \<Rightarrow>
        if bh_exists h e then hbind (bhyve_destroy_vm h fd name) (\<lambda>_. bcall BeRecreate (bh_create h fd ?req)) k
        else (Inl (BeCreate e), k)"
  have "\<exists>v k'. ?attempt k = (Inr v, k') \<and> named name k'"
  proof (cases "granted (bh_create h fd ?req k) (named name)")
    case True
    then obtain v k' where "bcall id (bh_create h fd ?req) k = (Inr v, k')" "named name k'"
      by (rule bcall_ok)
    then show ?thesis by simp
  next
    case False
    then obtain r e k1 where c: "bh_create h fd ?req k = ((r, e), k1)" "sint r < 0" "bh_exists h e"
      and d: "granted (bh_destroy h fd (destroy_vm_req name) k1) (\<lambda>k2. granted (bh_create h fd ?req k2) (named name))"
      using create[of fd name k] by blast
    have f: "bcall id (bh_create h fd ?req) k = (Inl e, k1)"
      using c by (simp add: bcall_def map_err_def ioctl_result_def)
    obtain v2 k2 where d2: "bhyve_destroy_vm h fd name k1 = (Inr v2, k2)" "granted (bh_create h fd ?req k2) (named name)"
      unfolding bhyve_destroy_vm_def using d by (rule bcall_ok)
    obtain v3 k3 where "bcall BeRecreate (bh_create h fd ?req) k2 = (Inr v3, k3)" "named name k3"
      using d2(2) by (rule bcall_ok)
    then show ?thesis using f c(3) d2(1) by (simp add: hbind_def)
  qed
  then obtain v k1 where t: "?attempt k = (Inr v, k1)" "named name k1" by blast
  obtain vmfd k2 where "bh_open_vm h name k1 = (Inr vmfd, k2)" "own vmfd 0 k2" using vm[OF t(2)] by blast
  then show ?thesis
    using t(1) by (auto simp: bhyve_create_vm_def Let_def hbind_def map_err_def hreturn_def)
qed

lemma new_vm: "\<exists>vm k'. bring_up_vm (bhyve_backend h ops) name k = (Inr vm, k') \<and> own (bv_fd vm) 0 k'"
proof -
  obtain fd k1 where o: "bh_open h k = (Inr fd, k1)" using dev by blast
  obtain e k2 where v: "bh_version h fd k1 = ((18, e), k2)" using version by blast
  obtain v3 k3 where "bcall (\<lambda>_. BeUnsupported) (bh_supported h fd) k2 = (Inr v3 :: 'e backend_error + i32, k3)"
    using supported[of fd k2] by (rule bcall_ok)
  moreover have "bcall (BeIoctl (ucast VMM_INTERFACE_VERSION)) (bh_version h fd) k1 = (Inr 18, k2)"
    by (simp add: bcall_def map_err_def v ioctl_result_def)
  ultimately have n: "bhyve_new h k = (Inr fd, k3)"
    by (simp add: bhyve_new_def bhyve_open_def map_err_def hbind_def o VMM_CURRENT_INTERFACE_VERSION_def hreturn_def)
  then show ?thesis
    using create_ok[of fd name k3] by (auto simp: bring_up_vm_def bhyve_backend_def hbind_def hreturn_def)
qed

lemma ram_ok:
  assumes "own (bv_fd vm) 0 k"
  shows "\<exists>vm' k'. be_register_memory_region (bhyve_backend h ops) vm 0 sz hva k = (Inr vm', k') \<and> own (bv_fd vm') 0 k'"
proof -
  obtain v1 k1 where "bcall BeMemseg (bh_alloc_memseg h (bv_fd vm)
      \<lparr>ms_segid = bv_next_segid vm, ms_len = sz, ms_name = replicate VM_MAX_SEG_NAMELEN 0\<rparr>) k = (Inr v1, k1)" "same k k1"
    using map_calls(1) by blast
  moreover obtain v2 k2 where "bcall BeMemmap (bh_mmap_memseg h (bv_fd vm)
      \<lparr>mm_gpa = 0, mm_segid = bv_next_segid vm, mm_segoff = 0, mm_len = sz, mm_prot = 7, mm_flags = 0\<rparr>) k1 = (Inr v2, k2)" "same k1 k2"
    using map_calls(2) by blast
  moreover obtain k3 where "bh_mmap h (bv_fd vm) hva sz 0 k2 = (Inr (), k3)" "same k2 k3" using ram_map by blast
  ultimately show ?thesis
    using assms by (auto simp: bhyve_backend_def bhyve_register_memory_region_def Let_def hbind_def map_err_def quiet_def)
qed

lemma capabilities_ok: "\<exists>k'. check_capabilities h c caps k = (Inr (), k') \<and> same k k'"
proof (induction caps arbitrary: k)
  case Nil
  then show ?case by (simp add: hreturn_def quiet_refl)
next
  case (Cons cap caps)
  obtain v k1 where v: "bh_get_capability h (bc_vm_fd c) \<lparr>vc_cpuid = bc_id c, vc_captype = cap, vc_capval = 0, vc_allcpus = 0\<rparr> k
      = (Inr v, k1)" "same k k1"
    using capability by blast
  then have "get_capability h c cap k = (Inr (vc_capval v), k1)"
    by (simp add: get_capability_def hbind_def map_err_def hreturn_def)
  moreover obtain k2 where "check_capabilities h c caps k1 = (Inr (), k2)" "same k1 k2" using Cons by blast
  ultimately show ?case using quiet_trans[OF v(2)] by (auto simp: hbind_def)
qed

lemma new_vcpu:
  assumes "own (bv_fd vm) n k" and "n < 255"
  shows "\<exists>c k'. add_vcpu (bhyve_backend h ops) vm (of_nat n) k = (Inr c, k') \<and> own (bv_fd vm) (Suc n) k' \<and> cpu c k' \<and>
     fresh_state (bhyve_vcpu (ops c)) k' \<and> (\<forall>c'. cpu c' k \<longrightarrow> cpu c' k' \<and> same_state (bhyve_vcpu (ops c')) k k')"
proof -
  let ?c = "\<lparr>bc_vm_fd = bv_fd vm, bc_id = of_nat n\<rparr>"
  obtain v1 k1 where a: "bcall (BeIoctl (ucast VM_ACTIVATE_CPU)) (bh_activate h (bv_fd vm) (of_nat n)) k = (Inr v1, k1)"
    and g: "granted (bh_reset h (bv_fd vm) \<lparr>vr_vcpuid = of_nat n, vr_kind = VRK_RESET\<rparr> k1) (\<lambda>k'. own (bv_fd vm) (Suc n) k' \<and>
        cpu ?c k' \<and> fresh_state (bhyve_vcpu (ops ?c)) k' \<and> (\<forall>c. cpu c k \<longrightarrow> cpu c k' \<and> same_state (bhyve_vcpu (ops c)) k k'))"
    using add[OF assms] by (rule bcall_ok)
  obtain v2 k2 where b: "bcall (BeIoctl (ucast VM_RESET_CPU)) (bh_reset h (bv_fd vm) \<lparr>vr_vcpuid = of_nat n, vr_kind = VRK_RESET\<rparr>) k1
      = (Inr v2, k2)" "own (bv_fd vm) (Suc n) k2" "cpu ?c k2" "fresh_state (bhyve_vcpu (ops ?c)) k2"
      "\<forall>c. cpu c k \<longrightarrow> cpu c k2 \<and> same_state (bhyve_vcpu (ops c)) k k2"
    using g by (rule bcall_ok) blast
  obtain k3 where c3: "check_capabilities h ?c [HaltExit, MtrapExit, PauseExit, EnableInvpcid, BptExit] k2 = (Inr (), k3)" "same k2 k3"
    using capabilities_ok by blast
  obtain v4 k4 where s: "bcall BeRunState (bh_set_run_state h (bv_fd vm)
       \<lparr>rs_vcpuid = of_nat n, rs_state = (if (of_nat n :: u32) = 0 then VRS_RUN else VRS_INIT), rs_sipi_vector = 0, rs_pad = [0, 0, 0]\<rparr>) k3
      = (Inr v4, k4)" "same k3 k4"
    using map_calls(3) by blast
  have "bhyve_create_vcpu h vm (of_nat n) k = (Inr ?c, k2)"
    by (simp add: bhyve_create_vcpu_def hbind_def a b(1) hreturn_def)
  moreover have "bhyve_vcpu_setup h ?c k2 = (Inr (), k4)"
    using s(1) c3(1) by (simp add: bhyve_vcpu_setup_def hbind_def hreturn_def del: check_capabilities.simps)
  ultimately have "add_vcpu (bhyve_backend h ops) vm (of_nat n) k = (Inr ?c, k4)"
    by (simp add: add_vcpu_def bhyve_backend_def hbind_def hreturn_def)
  moreover have q: "same k2 k4" using quiet_trans[OF c3(2) s(2)] .
  moreover have "own (bv_fd vm) (Suc n) k4" "cpu ?c k4" using q b(2,3) by (auto simp: quiet_def)
  moreover have "fresh_state (bhyve_vcpu (ops ?c)) k4"
    using q b(3,4) by (auto simp: quiet_def fresh_state_def same_state_def)
  moreover have "\<forall>c'. cpu c' k \<longrightarrow> cpu c' k4 \<and> same_state (bhyve_vcpu (ops c')) k k4"
    using q b(5) by (auto simp: quiet_def same_state_def)
  ultimately show ?thesis by blast
qed

lemma store_laws: "stores_keep (ops c) (own vmfd n)" "stores_keep (ops c) (cpu c')"
  unfolding stores_keep_def using store by blast+

lemma sets_keep:
  "v_set_regs (bhyve_vcpu (ops c)) k r = Inr k' \<Longrightarrow> (own vmfd n k \<longrightarrow> own vmfd n k') \<and> (cpu c' k \<longrightarrow> cpu c' k')"
  "v_set_sregs (bhyve_vcpu (ops c)) k s = Inr k' \<Longrightarrow> (own vmfd n k \<longrightarrow> own vmfd n k') \<and> (cpu c' k \<longrightarrow> cpu c' k')"
proof -
  note own = bhyve_sets_keep[OF store_laws(1)[of c vmfd n], of k] and cpu = bhyve_sets_keep[OF store_laws(2)[of c c'], of k]
  show "v_set_regs (bhyve_vcpu (ops c)) k r = Inr k' \<Longrightarrow> (own vmfd n k \<longrightarrow> own vmfd n k') \<and> (cpu c' k \<longrightarrow> cpu c' k')"
    using own(1)[of r k'] cpu(1)[of r k'] by (simp add: bhyve_vcpu_def)
  show "v_set_sregs (bhyve_vcpu (ops c)) k s = Inr k' \<Longrightarrow> (own vmfd n k \<longrightarrow> own vmfd n k') \<and> (cpu c' k \<longrightarrow> cpu c' k')"
    using own(2)[of s k'] cpu(2)[of s k'] by (simp add: bhyve_vcpu_def)
qed

end

sublocale bhyve_system \<subseteq> bhyve: hypervisor "bhyve_backend h ops" bhyve_kept "\<lambda>vm. own (bv_fd vm)" cpu
proof (rule hypervisor.intro)
  show "\<exists>c k'. add_vcpu (bhyve_backend h ops) vm (of_nat n) k = (Inr c, k') \<and> own (bv_fd vm) (Suc n) k' \<and> cpu c k' \<and>
      fresh_state (be_vcpu (bhyve_backend h ops) c) k' \<and>
      (\<forall>c'. cpu c' k \<longrightarrow> cpu c' k' \<and> same_state (be_vcpu (bhyve_backend h ops) c') k k')"
    if "own (bv_fd vm) n k" "n < 255" for vm n k
    using new_vcpu[OF that] by (simp add: bhyve_backend_def)
  show "vcpu_state (be_vcpu (bhyve_backend h ops) c) bhyve_kept" for c
    using bhyve_kernel.bhyve_registers[OF regs] by (simp add: bhyve_backend_def)
  show "(own (bv_fd vm) n k \<longrightarrow> own (bv_fd vm) n k') \<and> (cpu c' k \<longrightarrow> cpu c' k')"
    if "v_set_regs (be_vcpu (bhyve_backend h ops) c) k r = Inr k'" for c k r k' vm n c'
    using sets_keep(1) that by (simp add: bhyve_backend_def)
  show "(own (bv_fd vm) n k \<longrightarrow> own (bv_fd vm) n k') \<and> (cpu c' k \<longrightarrow> cpu c' k')"
    if "v_set_sregs (be_vcpu (bhyve_backend h ops) c) k s = Inr k'" for c k s k' vm n c'
    using sets_keep(2) that by (simp add: bhyve_backend_def)
  show "\<exists>s. be_register_irq (bhyve_backend h ops) vm g = Inr s" "\<exists>s. be_msi_sink (bhyve_backend h ops) vm = Inr s" for vm g
    by (simp_all add: bhyve_backend_def bhyve_register_irq_def bhyve_msi_sink_def)
qed (rule new_vm, rule ram_ok)

section \<open>Two kernels\<close>

text \<open>
  A KVM that keeps the registers of each vCPU by its descriptor and counts the vCPUs of its one VM: the VM
  has descriptor 4 and vCPU \<open>i\<close> descriptor \<open>5 + i\<close>, with the registers of a reset.
\<close>

type_synonym kvm_store = "(i32 \<Rightarrow> kvm_regs \<times> kvm_sregs) \<times> nat"

definition kvm_sim :: "(kvm_store, unit) kvm_host" where
  "kvm_sim =
     \<lparr>kh_open = (\<lambda>k. (Inr 3, k)),
      kh_ioctl = (\<lambda>fd req arg k.
        if req = KVM_GET_API_VERSION then ((12, ()), k)
        else if req = KVM_CREATE_VM then ((4, ()), (fst k, 0))
        else if req = KVM_GET_VCPU_MMAP_SIZE then ((0x3000, ()), k)
        else if req = KVM_CREATE_VCPU then ((5 + ucast arg, ()), ((fst k)(5 + ucast arg := fresh_vcpu), snd k + 1))
        else ((0, ()), k)),
      kh_region = (\<lambda>fd r k. ((0, ()), k)), kh_pit = (\<lambda>fd p k. ((0, ()), k)),
      kh_get_cpuid = (\<lambda>fd c k. (Inr (c\<lparr>cp_nent := 0\<rparr>), k)), kh_set_cpuid = (\<lambda>fd c k. ((0, ()), k)),
      kh_mmap = (\<lambda>fd n k. (Inr 0x7f0000000000, k))\<rparr>"

definition kvm_sim_ops :: "kvm_vcpu_handle \<Rightarrow> (kvm_store, unit) kvm_ops" where
  "kvm_sim_ops c =
     \<lparr>io_get_regs = (\<lambda>k. Inr (fst (fst k (vcpu_fd c)))),
      io_set_regs = (\<lambda>k r. Inr ((fst k)(vcpu_fd c := (r, snd (fst k (vcpu_fd c)))), snd k)),
      io_get_sregs = (\<lambda>k. Inr (snd (fst k (vcpu_fd c)))),
      io_set_sregs = (\<lambda>k s. Inr ((fst k)(vcpu_fd c := (fst (fst k (vcpu_fd c)), s)), snd k))\<rparr>"

lemma kvm_requests:
  "KVM_GET_API_VERSION = 0xAE00" "KVM_CREATE_VM = 0xAE01" "KVM_GET_VCPU_MMAP_SIZE = 0xAE04" "KVM_CREATE_VCPU = 0xAE41"
  "KVM_SET_TSS_ADDR = 0xAE47" "KVM_CREATE_IRQCHIP = 0xAE60"
  by code_simp+

lemma unat_small: "n < 256 \<Longrightarrow> unat (of_nat n :: i32) = n" "n < 256 \<Longrightarrow> (ucast (of_nat n :: u64) :: i32) = of_nat n"
  by (simp_all add: unat_of_nat word_eq_iff_unsigned unsigned_ucast_eq unsigned_of_nat take_bit_nat_eq_self)

lemma descriptor_positive: "n < 256 \<Longrightarrow> 0 \<le> sint (5 + of_nat n :: i32)"
proof -
  assume "n < 256"
  then have "unat (5 + of_nat n :: i32) = 5 + n" by (simp add: unat_word_ariths unat_small)
  then have "uint (5 + of_nat n :: i32) = 5 + int n" by (simp add: uint_nat)
  then show ?thesis using \<open>n < 256\<close> by (simp add: sint_uint signed_take_bit_int_eq_self)
qed

lemma kvm_sim_state:
  "v_get_regs (kvm_vcpu (kvm_sim_ops c)) k = v_get_regs (kvm_vcpu kvm_file) (fst k (vcpu_fd c))"
  "v_get_sregs (kvm_vcpu (kvm_sim_ops c)) k = v_get_sregs (kvm_vcpu kvm_file) (fst k (vcpu_fd c))"
  by (simp_all add: kvm_vcpu_def kvm_sim_ops_def kvm_file_def kvm_get_regs_def kvm_get_sregs_def split_beta)

interpretation kvm_sim: kvm_system kvm_sim kvm_sim_ops "\<lambda>fd n k. fd = 4 \<and> snd k = n" "\<lambda>c k. unat (vcpu_fd c - 5) < snd k"
proof (rule kvm_system.intro)
  fix vmfd :: i32 and n and k :: kvm_store and sz
  assume own: "vmfd = 4 \<and> snd k = n" and n: "n < 255"
  let ?fd = "5 + of_nat n :: i32" and ?k = "((fst k)(5 + of_nat n := fresh_vcpu), Suc n) :: kvm_store"
  have "0 \<le> sint ?fd" using n by (intro descriptor_positive) simp
  moreover have "kh_ioctl kvm_sim vmfd KVM_CREATE_VCPU (of_nat n) k = ((?fd, ()), ?k)"
    using own n by (simp add: kvm_sim_def kvm_requests unat_small)
  moreover have "kh_mmap kvm_sim ?fd sz ?k = (Inr 0x7f0000000000, ?k)" by (simp add: kvm_sim_def)
  moreover have "unat (?fd - 5) < snd ?k" using n by (simp add: unat_small)
  moreover have "fresh_state (kvm_vcpu (kvm_sim_ops c)) ?k" if "vcpu_fd c = ?fd" for c
    using that fresh_vcpu_state by (simp add: kvm_sim_state fresh_state_def)
  moreover have "same_state (kvm_vcpu (kvm_sim_ops c)) k ?k \<and> unat (vcpu_fd c - 5) < snd ?k" if "unat (vcpu_fd c - 5) < snd k" for c
  proof -
    have "unat (vcpu_fd c - 5) \<noteq> n" using that own by simp
    then have "vcpu_fd c \<noteq> ?fd" using n by (auto simp: unat_small)
    then show ?thesis using that own by (simp add: kvm_sim_state same_state_def)
  qed
  ultimately show "\<exists>fd e k1 p k'. kh_ioctl kvm_sim vmfd KVM_CREATE_VCPU (of_nat n) k = ((fd, e), k1) \<and> 0 \<le> sint fd \<and>
      kh_mmap kvm_sim fd sz k1 = (Inr p, k') \<and> p \<noteq> 0 \<and> (vmfd = 4 \<and> snd k' = Suc n) \<and>
      (\<forall>kfd. let c = \<lparr>vcpu_fd = fd, vcpu_run = p, vcpu_mmap_size = sz, vcpu_kvm_fd = kfd\<rparr> in
         unat (vcpu_fd c - 5) < snd k' \<and> fresh_state (kvm_vcpu (kvm_sim_ops c)) k') \<and>
      (\<forall>c. unat (vcpu_fd c - 5) < snd k \<longrightarrow> unat (vcpu_fd c - 5) < snd k' \<and> same_state (kvm_vcpu (kvm_sim_ops c)) k k')"
    using own by (intro exI[of _ ?fd] exI[of _ "()"] exI[of _ ?k] exI[of _ "0x7f0000000000"]) (simp add: Let_def)
next
  fix c show "kvm_kernel (kvm_sim_ops c)" by unfold_locales (auto simp: kvm_sim_ops_def)
next
  fix req arg :: u64 and fd :: i32 and k :: kvm_store
  assume "req \<in> {KVM_GET_VCPU_MMAP_SIZE, KVM_CREATE_IRQCHIP, KVM_SET_TSS_ADDR}"
  then have "snd (kh_ioctl kvm_sim fd req arg k) = k \<and> fst (fst (kh_ioctl kvm_sim fd req arg k)) \<in> {0, 0x3000}"
    by (auto simp: kvm_sim_def kvm_requests)
  then show "granted (kh_ioctl kvm_sim fd req arg k)
      (quiet (\<lambda>fd n k. fd = 4 \<and> snd k = n) (\<lambda>c k. unat (vcpu_fd c - 5) < snd k) (\<lambda>c. kvm_vcpu (kvm_sim_ops c)) k)"
    by (auto simp: granted_def quiet_refl)
qed (simp_all add: kvm_sim_def kvm_requests granted_def quiet_refl kvm_sim_ops_def, auto)

text \<open>
  A bhyve with one VM, which may exist from before, and registers by vCPU id.
\<close>

record bhyve_store =
  bs_regs :: "u32 \<Rightarrow> (vm_reg_name \<Rightarrow> u64) \<times> (vm_reg_name \<Rightarrow> seg_desc)"
  bs_count :: nat
  bs_exists :: bool

definition bhyve_sim :: "(bhyve_store, unit) bhyve_host" where
  "bhyve_sim =
     \<lparr>bh_open = (\<lambda>k. (Inr 3, k)), bh_version = (\<lambda>fd k. ((18, ()), k)), bh_supported = (\<lambda>fd k. ((0, ()), k)),
      bh_create = (\<lambda>fd r k. if bs_exists k then ((-1, ()), k) else ((0, ()), k\<lparr>bs_exists := True\<rparr>)),
      bh_destroy = (\<lambda>fd r k. ((0, ()), k\<lparr>bs_exists := False\<rparr>)),
      bh_open_vm = (\<lambda>name k. (Inr 4, k\<lparr>bs_count := 0\<rparr>)),
      bh_activate = (\<lambda>fd i k. ((0, ()), k\<lparr>bs_count := bs_count k + 1\<rparr>)),
      bh_reset = (\<lambda>fd r k. ((0, ()), k\<lparr>bs_regs := (bs_regs k)(vr_vcpuid r := fresh_bhyve)\<rparr>)),
      bh_alloc_memseg = (\<lambda>fd s k. ((0, ()), k)), bh_mmap_memseg = (\<lambda>fd m k. ((0, ()), k)),
      bh_mmap = (\<lambda>fd a n gpa k. (Inr (), k)), bh_get_capability = (\<lambda>fd c k. (Inr c, k)),
      bh_set_run_state = (\<lambda>fd s k. ((0, ()), k)), bh_gla2gpa = (\<lambda>fd g k. (Inr g, k)), bh_close = (\<lambda>fd k. k),
      bh_exists = (\<lambda>e. True)\<rparr>"

definition bhyve_sim_ops :: "bhyve_vcpu_handle \<Rightarrow> (bhyve_store, unit) vm_ops" where
  "bhyve_sim_ops c =
     \<lparr>op_set_reg = (\<lambda>k r v. Inr (k\<lparr>bs_regs := (bs_regs k)(bc_id c := ((fst (bs_regs k (bc_id c)))(r := v), snd (bs_regs k (bc_id c))))\<rparr>)),
      op_get_reg = (\<lambda>k r. Inr (fst (bs_regs k (bc_id c)) r)),
      op_set_desc = (\<lambda>k r d. Inr (k\<lparr>bs_regs := (bs_regs k)(bc_id c := (fst (bs_regs k (bc_id c)), (snd (bs_regs k (bc_id c)))(r := d)))\<rparr>)),
      op_get_desc = (\<lambda>k r. Inr (snd (bs_regs k (bc_id c)) r))\<rparr>"

lemma bhyve_sim_state:
  "v_get_regs (bhyve_vcpu (bhyve_sim_ops c)) k = v_get_regs (bhyve_vcpu bhyve_file) (bs_regs k (bc_id c))"
  "v_get_sregs (bhyve_vcpu (bhyve_sim_ops c)) k = v_get_sregs (bhyve_vcpu bhyve_file) (bs_regs k (bc_id c))"
  by (simp_all add: bhyve_vcpu_def bhyve_sim_ops_def bhyve_file_def bhyve_get_regs_def bhyve_get_sregs_def get_segment_def
      get_dtable_def split_beta)

interpretation bhyve_sim: bhyve_system bhyve_sim bhyve_sim_ops "\<lambda>name k. bs_exists k" "\<lambda>fd n k. fd = 4 \<and> bs_count k = n"
  "\<lambda>c k. bc_vm_fd c = 4 \<and> unat (bc_id c) < bs_count k"
proof (rule bhyve_system.intro)
  fix vmfd :: i32 and n and k :: bhyve_store
  assume own: "vmfd = 4 \<and> bs_count k = n" and n: "n < 255"
  let ?c = "\<lparr>bc_vm_fd = vmfd, bc_id = of_nat n\<rparr>" and ?k = "k\<lparr>bs_count := Suc n, bs_regs := (bs_regs k)(of_nat n := fresh_bhyve)\<rparr>"
  have "bh_activate bhyve_sim vmfd (of_nat n) k = ((0, ()), k\<lparr>bs_count := Suc n\<rparr>)" using own by (simp add: bhyve_sim_def)
  moreover have "bh_reset bhyve_sim vmfd \<lparr>vr_vcpuid = of_nat n, vr_kind = VRK_RESET\<rparr> (k\<lparr>bs_count := Suc n\<rparr>) = ((0, ()), ?k)"
    by (simp add: bhyve_sim_def)
  moreover have "fresh_state (bhyve_vcpu (bhyve_sim_ops ?c)) ?k"
    using fresh_bhyve_state by (simp add: fresh_state_def bhyve_sim_state)
  moreover have "same_state (bhyve_vcpu (bhyve_sim_ops c)) k ?k" if "unat (bc_id c) < bs_count k" for c
  proof -
    have "bc_id c \<noteq> of_nat n" using that own n by (auto simp: unat_small)
    then show ?thesis by (simp add: same_state_def bhyve_sim_state)
  qed
  ultimately show "granted (bh_activate bhyve_sim vmfd (of_nat n) k) (\<lambda>k1.
      granted (bh_reset bhyve_sim vmfd \<lparr>vr_vcpuid = of_nat n, vr_kind = VRK_RESET\<rparr> k1) (\<lambda>k'. (vmfd = 4 \<and> bs_count k' = Suc n) \<and>
        (bc_vm_fd ?c = 4 \<and> unat (bc_id ?c) < bs_count k') \<and> fresh_state (bhyve_vcpu (bhyve_sim_ops ?c)) k' \<and>
        (\<forall>c. bc_vm_fd c = 4 \<and> unat (bc_id c) < bs_count k \<longrightarrow> (bc_vm_fd c = 4 \<and> unat (bc_id c) < bs_count k') \<and>
           same_state (bhyve_vcpu (bhyve_sim_ops c)) k k')))"
    using own n by (simp add: granted_def unat_small)
next
  fix c show "bhyve_kernel (bhyve_sim_ops c)" by unfold_locales (auto simp: vm_laws_def bhyve_sim_ops_def fun_eq_iff)
qed (auto simp: bhyve_sim_def granted_def quiet_refl bhyve_sim_ops_def)

end
