(* ===== verification/Terminal.thy ===== *)
theory Terminal
  imports Prelude
begin

text \<open>
  Raw mode of the host terminal (\<open>src/terminal.rs\<close>): entering it, restoring the terminal when the guard is
  dropped, and the handlers that restore it when a fatal signal ends the process.

  The host is a record: the attributes of each terminal, the errors the next \<open>tcsetattr\<close> calls will report
  (none for those beyond the list), what \<open>isatty\<close> and \<open>tcgetattr\<close> answer, the signals that have the
  handler, and the process's static variables. The bits and indices of \<open>termios\<close> and the signal numbers
  differ between hosts and are a parameter, \<open>libc\<close>.
\<close>

section \<open>Data\<close>

record termios =
  c_iflag :: u32
  c_oflag :: u32
  c_cflag :: u32
  c_lflag :: u32
  c_cc :: bytes

record libc =
  ICANON :: u32
  ECHO :: u32
  ISIG :: u32
  IEXTEN :: u32
  IXON :: u32
  ICRNL :: u32
  BRKINT :: u32
  INPCK :: u32
  ISTRIP :: u32
  OPOST :: u32
  VMIN :: nat
  VTIME :: nat
  NCCS :: nat
  ENOTTY :: i32
  EINTR :: i32
  FATAL_SIGNALS :: "i32 list"

record tty_host =
  tty_attr :: "i32 \<Rightarrow> termios"
  tty_errors :: "i32 option list"
  tty_is :: "i32 \<Rightarrow> i32 option"
  tty_get_error :: "i32 option"
  tty_handlers :: "i32 set"
  tty_raised :: "i32 list"
  SIGNAL_INSTALL :: bool
  SAVED_TERMIOS :: "termios option"
  SAVED_FD :: i32
  HANDLER_DISARMED :: bool

record raw_mode =
  rm_fd :: i32
  rm_original :: termios
  rm_active :: bool

section \<open>Operations\<close>

definition tcsetattr :: "i32 \<Rightarrow> termios \<Rightarrow> tty_host \<Rightarrow> i32 option \<times> tty_host" where
  "tcsetattr fd t w =
     (case tty_errors w of
        Some e # es \<Rightarrow> (Some e, w\<lparr>tty_errors := es\<rparr>)
      | None # es \<Rightarrow> (None, w\<lparr>tty_errors := es, tty_attr := (tty_attr w)(fd := t)\<rparr>)
      | [] \<Rightarrow> (None, w\<lparr>tty_attr := (tty_attr w)(fd := t)\<rparr>))"

definition raw_termios :: "libc \<Rightarrow> termios \<Rightarrow> termios" where
  "raw_termios l t =
     t\<lparr>c_lflag := c_lflag t AND NOT (ICANON l OR ECHO l OR ISIG l OR IEXTEN l),
       c_iflag := c_iflag t AND NOT (IXON l OR ICRNL l OR BRKINT l OR INPCK l OR ISTRIP l),
       c_oflag := c_oflag t AND NOT (OPOST l),
       c_cc := (c_cc t)[VMIN l := 1, VTIME l := 0]\<rparr>"

text \<open>The handler is installed for one signal after the other; its flags reset the disposition on delivery.\<close>

definition install_one :: "i32 \<Rightarrow> tty_host \<Rightarrow> tty_host" where
  "install_one sig w = w\<lparr>tty_handlers := insert sig (tty_handlers w)\<rparr>"

definition install_signal_handlers :: "libc \<Rightarrow> i32 \<Rightarrow> termios \<Rightarrow> tty_host \<Rightarrow> tty_host" where
  "install_signal_handlers l fd original w =
     (if SIGNAL_INSTALL w then w
      else fold install_one (FATAL_SIGNALS l)
        (w\<lparr>SIGNAL_INSTALL := True, SAVED_TERMIOS := Some original, SAVED_FD := fd\<rparr>))"

definition disarm_signal_handler :: "tty_host \<Rightarrow> tty_host" where
  "disarm_signal_handler w = w\<lparr>HANDLER_DISARMED := True\<rparr>"

text \<open>\<open>tty_is fd\<close> is the error of \<open>isatty\<close> when \<open>fd\<close> is no terminal; \<open>zeroed\<close> is the unread value of an inert guard.\<close>

definition zeroed_termios :: "libc \<Rightarrow> termios" where
  "zeroed_termios l = \<lparr>c_iflag = 0, c_oflag = 0, c_cflag = 0, c_lflag = 0, c_cc = replicate (NCCS l) 0\<rparr>"

definition enter_on :: "libc \<Rightarrow> i32 \<Rightarrow> tty_host \<Rightarrow> (i32 + raw_mode) \<times> tty_host" where
  "enter_on l fd w =
     (case tty_is w fd of
        Some err \<Rightarrow>
          (if err = ENOTTY l then Inr \<lparr>rm_fd = fd, rm_original = zeroed_termios l, rm_active = False\<rparr> else Inl err, w)
      | None \<Rightarrow>
          (case tty_get_error w of
             Some err \<Rightarrow> (Inl err, w)
           | None \<Rightarrow>
               let original = tty_attr w fd in
               (case tcsetattr fd (raw_termios l original) w of
                  (Some err, w) \<Rightarrow> (Inl err, w)
                | (None, w) \<Rightarrow>
                    (Inr \<lparr>rm_fd = fd, rm_original = original, rm_active = True\<rparr>,
                     install_signal_handlers l fd original w))))"

definition raw_enter :: "libc \<Rightarrow> tty_host \<Rightarrow> (i32 + raw_mode) \<times> tty_host" where
  "raw_enter l = enter_on l 0"

text \<open>A failed restore is retried once if it was interrupted; \<open>tcflush\<close> leaves the attributes alone.\<close>

definition restore :: "libc \<Rightarrow> raw_mode \<Rightarrow> tty_host \<Rightarrow> raw_mode \<times> tty_host" where
  "restore l g w =
     (if rm_active g then
        let (ret, w) = tcsetattr (rm_fd g) (rm_original g) w;
            (ret, w) = (if ret = Some (EINTR l) then tcsetattr (rm_fd g) (rm_original g) w else (ret, w))
        in (g\<lparr>rm_active := False\<rparr>, disarm_signal_handler w)
      else (g, w))"

definition raw_drop :: "libc \<Rightarrow> raw_mode \<Rightarrow> tty_host \<Rightarrow> tty_host" where
  "raw_drop l g w = snd (restore l g w)"

text \<open>
  The handler runs with the default disposition already back in place, so the signal it raises ends the
  process.
\<close>

definition signal_handler :: "i32 \<Rightarrow> tty_host \<Rightarrow> tty_host" where
  "signal_handler sig w =
     (let w = w\<lparr>tty_handlers := tty_handlers w - {sig}\<rparr>;
          w = (if HANDLER_DISARMED w then w
               else case SAVED_TERMIOS w of
                   Some t \<Rightarrow> if 0 \<le>s SAVED_FD w then snd (tcsetattr (SAVED_FD w) t w) else w
                 | None \<Rightarrow> w)
      in w\<lparr>tty_raised := sig # tty_raised w\<rparr>)"

section \<open>Lemmas\<close>

lemma fold_install [simp]:
  "tty_handlers (fold install_one sigs w) = tty_handlers w \<union> set sigs" "tty_attr (fold install_one sigs w) = tty_attr w"
  "tty_errors (fold install_one sigs w) = tty_errors w" "SAVED_TERMIOS (fold install_one sigs w) = SAVED_TERMIOS w"
  "SAVED_FD (fold install_one sigs w) = SAVED_FD w" "HANDLER_DISARMED (fold install_one sigs w) = HANDLER_DISARMED w"
  by (induction sigs arbitrary: w) (auto simp: install_one_def)

lemma tcsetattr_ok: "tcsetattr fd t w = (None, w') \<Longrightarrow> tty_attr w' = (tty_attr w)(fd := t)"
  by (auto simp: tcsetattr_def split: list.splits option.splits)

lemma tcsetattr_statics:
  "tcsetattr fd t w = (r, w') \<Longrightarrow> SIGNAL_INSTALL w' = SIGNAL_INSTALL w \<and> HANDLER_DISARMED w' = HANDLER_DISARMED w \<and>
     SAVED_TERMIOS w' = SAVED_TERMIOS w \<and> SAVED_FD w' = SAVED_FD w"
  by (auto simp: tcsetattr_def split: list.splits option.splits)

lemma enter_on_tty:
  assumes "enter_on l fd w = (Inr g, w')" and "tty_is w fd = None"
  shows "\<exists>w1. tcsetattr fd (raw_termios l (tty_attr w fd)) w = (None, w1) \<and>
     g = \<lparr>rm_fd = fd, rm_original = tty_attr w fd, rm_active = True\<rparr> \<and> w' = install_signal_handlers l fd (tty_attr w fd) w1"
  using assms by (auto simp: enter_on_def Let_def split: option.splits prod.splits)

lemma raw_termios_bits:
  "bit (c_lflag (raw_termios l t)) n \<longleftrightarrow>
     bit (c_lflag t) n \<and> \<not> (bit (ICANON l) n \<or> bit (ECHO l) n \<or> bit (ISIG l) n \<or> bit (IEXTEN l) n)"
  "bit (c_oflag (raw_termios l t)) n \<longleftrightarrow> bit (c_oflag t) n \<and> \<not> bit (OPOST l) n"
  "bit (c_iflag (raw_termios l t)) n \<longleftrightarrow> bit (c_iflag t) n \<and>
     \<not> (bit (IXON l) n \<or> bit (ICRNL l) n \<or> bit (BRKINT l) n \<or> bit (INPCK l) n \<or> bit (ISTRIP l) n)"
  by (cases "n < 32"; simp add: raw_termios_def bit_simps; auto dest: bit_imp_le_length)+

lemma raw_termios_rest:
  "c_cflag (raw_termios l t) = c_cflag t" "length (c_cc (raw_termios l t)) = length (c_cc t)"
  "i < length (c_cc t) \<Longrightarrow> c_cc (raw_termios l t) ! i = (if i = VTIME l then 0 else if i = VMIN l then 1 else c_cc t ! i)"
  by (simp_all add: raw_termios_def nth_list_update)

lemma tcsetattr_errors: "tcsetattr fd t w = (r, w') \<Longrightarrow> tty_errors w' = tl (tty_errors w)"
  by (auto simp: tcsetattr_def split: list.splits option.splits)

lemma tcsetattr_failed: "tcsetattr fd t w = (Some e, w') \<Longrightarrow> tty_attr w' = tty_attr w"
  by (auto simp: tcsetattr_def split: list.splits option.splits)

lemma enter_on_error: "enter_on l fd w = (Inl e, w') \<Longrightarrow> tty_attr w' = tty_attr w"
  by (cases "tty_is w fd"; cases "tty_get_error w"; cases "tcsetattr fd (raw_termios l (tty_attr w fd)) w")
    (auto simp: enter_on_def Let_def split: if_splits option.splits dest: tcsetattr_failed)

lemma raw_drop_attr:
  assumes "tty_errors w \<in> {[], [Some (EINTR l)]}"
  shows "tty_attr (raw_drop l g w) = (if rm_active g then (tty_attr w)(rm_fd g := rm_original g) else tty_attr w)"
  using assms by (auto simp: raw_drop_def restore_def tcsetattr_def disarm_signal_handler_def)

section \<open>Properties\<close>

text \<open>
  The attributes of raw mode, field by field: exactly the named flags are cleared, the control
  flags stay, and a read waits for one byte and no longer.
\<close>

definition is_raw_of :: "libc \<Rightarrow> termios \<Rightarrow> termios \<Rightarrow> bool" where
  "is_raw_of l t r \<longleftrightarrow>
     (\<forall>n. bit (c_lflag r) n \<longleftrightarrow> bit (c_lflag t) n \<and>
        \<not> (bit (ICANON l) n \<or> bit (ECHO l) n \<or> bit (ISIG l) n \<or> bit (IEXTEN l) n)) \<and>
     (\<forall>n. bit (c_iflag r) n \<longleftrightarrow> bit (c_iflag t) n \<and>
        \<not> (bit (IXON l) n \<or> bit (ICRNL l) n \<or> bit (BRKINT l) n \<or> bit (INPCK l) n \<or> bit (ISTRIP l) n)) \<and>
     (\<forall>n. bit (c_oflag r) n \<longleftrightarrow> bit (c_oflag t) n \<and> \<not> bit (OPOST l) n) \<and>
     c_cflag r = c_cflag t \<and> length (c_cc r) = length (c_cc t) \<and>
     (\<forall>i < length (c_cc t). c_cc r ! i = (if i = VTIME l then 0 else if i = VMIN l then 1 else c_cc t ! i))"

lemma raw_termios_is_raw: "is_raw_of l t (raw_termios l t)"
  by (simp add: is_raw_of_def raw_termios_bits raw_termios_rest)

text \<open>
  C29. The terminal always comes back. When raw mode is entered on a terminal for the first time, its
  attributes are those of raw mode: of the local flags exactly line editing, echo, signal keys and extended
  input are cleared, of the input flags flow control, CR translation, break, parity and strip, of the output
  flags output processing; the control flags stay, the minimum read is one byte without a timeout and every
  other control character stays. From then on, whatever is done to the attributes in between, dropping the
  guard restores the original attributes even if the first attempt is interrupted, a fatal signal restores
  them before it is raised again, and after the drop a signal leaves the terminal alone.
\<close>

theorem terminal_restored:
  assumes "enter_on l fd w = (Inr g, w1)" and "tty_is w fd = None" and "0 \<le>s fd"
    and "\<not> SIGNAL_INSTALL w" and "\<not> HANDLER_DISARMED w"
    and "w2 = w1\<lparr>tty_attr := attrs, tty_errors := errs\<rparr>" and "errs = [] \<or> errs = [Some (EINTR l)]"
  shows "is_raw_of l (tty_attr w fd) (tty_attr w1 fd) \<and>
     set (FATAL_SIGNALS l) \<subseteq> tty_handlers w1 \<and>
     tty_attr (raw_drop l g w2) fd = tty_attr w fd \<and>
     (errs = [] \<longrightarrow> tty_attr (signal_handler sig w2) fd = tty_attr w fd \<and> hd (tty_raised (signal_handler sig w2)) = sig) \<and>
     tty_attr (signal_handler sig (raw_drop l g w2)) = tty_attr (raw_drop l g w2)"
proof -
  let ?t = "tty_attr w fd"
  obtain w0 where w0: "tcsetattr fd (raw_termios l ?t) w = (None, w0)"
    and g: "g = \<lparr>rm_fd = fd, rm_original = ?t, rm_active = True\<rparr>" and w1: "w1 = install_signal_handlers l fd ?t w0"
    using enter_on_tty[OF assms(1,2)] by blast
  have h: "tty_attr w1 fd = raw_termios l ?t" "set (FATAL_SIGNALS l) \<subseteq> tty_handlers w1" "SAVED_TERMIOS w1 = Some ?t"
    "SAVED_FD w1 = fd" "\<not> HANDLER_DISARMED w1"
    using tcsetattr_ok[OF w0] tcsetattr_statics[OF w0] assms(4,5) by (simp_all add: w1 install_signal_handlers_def)
  have d: "tty_attr (raw_drop l g w2) fd = ?t" "HANDLER_DISARMED (raw_drop l g w2)"
    using assms(7) by (auto simp: raw_drop_def restore_def g assms(6) tcsetattr_def disarm_signal_handler_def)
  have s: "tty_attr (signal_handler sig w2) fd = ?t \<and> hd (tty_raised (signal_handler sig w2)) = sig" if "errs = []"
    using h(3-5) assms(3) that by (simp add: signal_handler_def assms(6) tcsetattr_def)
  show ?thesis using h(1,2) d s raw_termios_is_raw[of l ?t] by (simp add: signal_handler_def)
qed

text \<open>The constants of Linux, and a terminal in its usual mode.\<close>

definition linux_libc :: libc where
  "linux_libc = \<lparr>ICANON = 2, ECHO = 8, ISIG = 1, IEXTEN = 0x8000, IXON = 0x400, ICRNL = 0x100, BRKINT = 2, INPCK = 0x10,
     ISTRIP = 0x20, OPOST = 1, VMIN = 6, VTIME = 5, NCCS = 32, ENOTTY = 25, EINTR = 4, FATAL_SIGNALS = [2, 15, 3, 1, 13, 11, 7, 6]\<rparr>"

definition cooked_host :: tty_host where
  "cooked_host = \<lparr>tty_attr = (\<lambda>_. \<lparr>c_iflag = 0x500, c_oflag = 5, c_cflag = 0xbf, c_lflag = 0x8a3b, c_cc = replicate 32 0\<rparr>),
     tty_errors = [], tty_is = (\<lambda>_. None), tty_get_error = None, tty_handlers = {}, tty_raised = [], SIGNAL_INSTALL = False,
     SAVED_TERMIOS = None, SAVED_FD = -1, HANDLER_DISARMED = False\<rparr>"

theorem terminal_restored_witness:
  "\<exists>g w1. raw_enter linux_libc cooked_host = (Inr g, w1) \<and> c_lflag (tty_attr w1 0) = 0x0a30 \<and>
     tty_attr (raw_drop linux_libc g (w1\<lparr>tty_errors := [Some 4]\<rparr>)) 0 = tty_attr cooked_host 0 \<and>
     tty_attr (signal_handler 15 w1) 0 = tty_attr cooked_host 0"
proof -
  obtain g w1 where e: "enter_on linux_libc 0 cooked_host = (Inr g, w1)" "tty_errors w1 = []" "c_lflag (tty_attr w1 0) = 0x0a30"
    by (simp add: enter_on_def cooked_host_def tcsetattr_def Let_def install_signal_handlers_def)
      (simp add: raw_termios_def linux_libc_def)
  have c: "tty_is cooked_host 0 = None" "0 \<le>s (0 :: i32)" "\<not> SIGNAL_INSTALL cooked_host" "\<not> HANDLER_DISARMED cooked_host"
    "EINTR linux_libc = 4"
    by (simp_all add: cooked_host_def linux_libc_def)
  have s: "w1 = w1\<lparr>tty_attr := tty_attr w1, tty_errors := []\<rparr>" using e(2) by simp
  note t = terminal_restored[OF e(1) c(1-4)]
  have "tty_attr (raw_drop linux_libc g (w1\<lparr>tty_errors := [Some 4]\<rparr>)) 0 = tty_attr cooked_host 0"
    using t[where attrs = "tty_attr w1" and errs = "[Some 4]"] c(5) by simp
  moreover have "tty_attr (signal_handler 15 w1) 0 = tty_attr cooked_host 0"
    using t[OF s, where sig = 15] by simp
  ultimately show ?thesis using e by (auto simp: raw_enter_def)
qed

end
