(* ===== verification/Startup.thy ===== *)
theory Startup
  imports Machine MpTable Exits Runtime Boot Hypervisor Terminal
begin

text \<open>
  \<open>main\<close> (\<open>src/main.rs\<close>, with \<open>dump_state\<close> of \<open>src/vcpu.rs\<close> and the options of \<open>src/config.rs\<close>): from the options to
  a machine ready to run, the joining of the vCPU threads, and the cleanup on every way out.

  The program runs on the host state \<open>'k\<close> of the back end; a panic is \<open>None\<close>, an error the left of a sum, with the
  host state reached. What the environment answers (files, allocation, entropy, CPUID, the process id, the
  kick handler) is a record. The vCPU threads are a parameter from the ready machine to their results;
  \<open>Runtime\<close> and \<open>Exits\<close> say what each of them does. Printing is left out; \<open>Diagnostics\<close> has the texts.
\<close>

section \<open>Options and environment\<close>

record config =
  cfg_kernel :: bytes
  cfg_initramfs :: "bytes option"
  cfg_mem :: u64
  cfg_cpus :: u32
  cfg_cmdline :: "bytes option"
  cfg_disk :: "bytes option"
  cfg_debug :: bool

record 'e environment =
  env_kick :: "i32 \<times> 'e"
  env_pid :: nat
  env_mmap :: "u64 \<Rightarrow> u64 option"
  env_alloc :: "nat \<Rightarrow> bool"
  env_exists :: "bytes \<Rightarrow> bool"
  env_kernel :: "bytes \<Rightarrow> 'e + 'e + 'e kfile"
  env_initrd :: "bytes \<Rightarrow> ('e + bytes) option"
  env_disk :: "bytes \<Rightarrow> 'e + host_file"
  env_disk_len :: "host_file \<Rightarrow> 'e + u64"
  env_entropy :: "((nat \<Rightarrow> bool) \<times> (nat \<Rightarrow> nat \<Rightarrow> u8)) option"
  env_now :: nat
  env_cpuid :: "u32 \<times> u32"
  env_timer_on_pin2 :: bool

datatype ('e, 'x, 'v) main_error =
    BadCpus u32
  | RawModeFailed i32
  | KickHandlerFailed 'e
  | BackendFailed 'x
  | MemTooLarge u64
  | AllocFailed mem_error
  | NoKernel bytes
  | LoadFailed "('e, 'v) boot_error"
  | DumpFailed 'v
  | DevicesFailed "('e + 'x) setup_error"
  | MpFailed mp_error
  | RunFailed io_error_kind
  | VcpuPanicked

definition install_vcpu_kick_handler :: "i32 \<times> 'e \<Rightarrow> 'e + unit" where
  "install_vcpu_kick_handler r = (if fst r \<noteq> 0 then Inl (snd r) else Inr ())"

definition DEFAULT_CMDLINE :: bytes where
  "DEFAULT_CMDLINE = ascii ''console=ttyS0,115200 earlyprintk=serial,ttyS0,115200 noapic reboot=t panic=1 oops=panic nomodule rdinit=/sbin/init''"

text \<open>\<open>str::replace(pat, "")\<close>: the occurrences are found from the left and do not overlap.\<close>

function remove_all :: "bytes \<Rightarrow> bytes \<Rightarrow> bytes" where
  "remove_all pat [] = []"
| "remove_all pat (b # bs) =
     (if pat \<noteq> [] \<and> take (length pat) (b # bs) = pat then remove_all pat (drop (length pat) (b # bs))
      else b # remove_all pat bs)"
  by pat_completeness auto
termination
  by (relation "measure (\<lambda>(pat, bs). length bs)") (auto simp: Suc_le_eq)

definition kernel_cmdline :: "config \<Rightarrow> bool \<Rightarrow> bytes" where
  "kernel_cmdline cfg smp =
     (case cfg_cmdline cfg of
        None \<Rightarrow> if smp then remove_all (ascii '' noapic'') DEFAULT_CMDLINE else DEFAULT_CMDLINE
      | Some cmdline \<Rightarrow> cmdline)"

section \<open>Programs that may panic\<close>

type_synonym ('k, 'x, 'a) pprog = "'k \<Rightarrow> (('x + 'a) \<times> 'k) option"

definition pbind :: "('k, 'x, 'a) pprog \<Rightarrow> ('a \<Rightarrow> ('k, 'x, 'b) pprog) \<Rightarrow> ('k, 'x, 'b) pprog" where
  "pbind p f k = (case p k of None \<Rightarrow> None | Some (Inl e, k) \<Rightarrow> Some (Inl e, k) | Some (Inr a, k) \<Rightarrow> f a k)"

definition lift_host :: "('y \<Rightarrow> 'x) \<Rightarrow> ('k, 'y, 'a) hprog \<Rightarrow> ('k, 'x, 'a) pprog" where
  "lift_host g p k = Some (map_err g p k)"

definition lift_result :: "('y \<Rightarrow> 'x) \<Rightarrow> ('y + 'a) option \<Rightarrow> ('k, 'x, 'a) pprog" where
  "lift_result g r k = map_option (\<lambda>r. (map_sum g id r, k)) r"

section \<open>Startup\<close>

definition dump_state :: "('k, 'v) vcpu_ops \<Rightarrow> 'k \<Rightarrow> 'v + unit" where
  "dump_state v k = sbind (v_get_regs v k) (\<lambda>_. sbind (v_get_sregs v k) (\<lambda>_. Inr ()))"

text \<open>An error while loading leaves the host state as it was before: the VM is given up then.\<close>

definition load_step :: "bool \<Rightarrow> 'e environment \<Rightarrow> config \<Rightarrow> bool \<Rightarrow> ('k, 'v) vcpu_ops \<Rightarrow> guest_memory
    \<Rightarrow> ('k, ('e, 'x, 'v) main_error, guest_memory) pprog" where
  "load_step oc env cfg smp v mem k =
     (if \<not> env_exists env (cfg_kernel cfg) then Some (Inl (NoKernel (cfg_kernel cfg)), k)
      else case load_kernel oc (env_alloc env) mem v k (env_kernel env (cfg_kernel cfg)) (kernel_cmdline cfg smp)
          (Option.bind (cfg_initramfs cfg) (env_initrd env)) of
          None \<Rightarrow> None
        | Some (Inl e) \<Rightarrow> Some (Inl (LoadFailed e), k)
        | Some (Inr (k', mem')) \<Rightarrow>
            (case dump_state v k' of Inl e \<Rightarrow> Some (Inl (DumpFailed e), k') | Inr _ \<Rightarrow> Some (Inr mem', k')))"

text \<open>The devices, on the sinks of the back end.\<close>

definition device_step :: "bool \<Rightarrow> ('k, 'x, 'v, 'h, 'm, 'c) backend \<Rightarrow> 'e environment \<Rightarrow> config \<Rightarrow> 'm \<Rightarrow> guest_memory \<Rightarrow> u64
    \<Rightarrow> ('k, ('e, 'x, 'v) main_error, machine \<times> bus_handle bus \<times> bus_handle bus) pprog" where
  "device_step oc be env cfg vm mem ram_size =
     lift_result DevicesFailed (setup_machine oc (\<lambda>irq. map_sum Inr id (be_register_irq be vm irq)) (map_sum Inr id (be_msi_sink be vm))
       (env_entropy env)
       (map_option (\<lambda>path. map_sum Inl id (blk_new 0 (env_disk env path) (env_disk_len env) (cfg_debug cfg))) (cfg_disk cfg))
       (env_now env) mem ram_size)"

definition mptable_step :: "'e environment \<Rightarrow> u32 \<Rightarrow> bool \<Rightarrow> guest_memory \<Rightarrow> ('k, ('e, 'x, 'v) main_error, guest_memory) pprog" where
  "mptable_step env num_cpus smp mem =
     lift_result MpFailed (Some (if smp then write_mptable (env_timer_on_pin2 env) (env_cpuid env) mem (ucast num_cpus) else Inr mem))"

record 'c ready =
  rd_vcpus :: "'c list"
  rd_machine :: machine
  rd_pio :: "bus_handle bus"
  rd_mmio :: "bus_handle bus"

definition startup :: "bool \<Rightarrow> ('k, 'x, 'v, 'h, 'm, 'c) backend \<Rightarrow> 'e environment \<Rightarrow> config \<Rightarrow> 'm
    \<Rightarrow> ('k, ('e, 'x, 'v) main_error, 'c ready) pprog" where
  "startup oc be env cfg vm =
     (let num_cpus = cfg_cpus cfg; smp = 1 < num_cpus in
      case checked_mul (cfg_mem cfg) 0x100000 of
        None \<Rightarrow> \<lambda>k. Some (Inl (MemTooLarge (cfg_mem cfg)), k)
      | Some ram_size \<Rightarrow>
          pbind (lift_result AllocFailed (allocate oc (env_mmap env) ram_size)) (\<lambda>mem.
          pbind (lift_host BackendFailed (bring_up_bsp be vm ram_size (host_addr mem))) (\<lambda>(vm, vcpu).
          pbind (load_step oc env cfg smp (be_vcpu be vcpu) mem) (\<lambda>mem.
          pbind (device_step oc be env cfg vm mem ram_size) (\<lambda>(m, pio, mmio).
          pbind (lift_host BackendFailed (add_vcpus be vm (map of_nat [1..<unat num_cpus]))) (\<lambda>aps.
          pbind (mptable_step env num_cpus smp (m_mem m)) (\<lambda>mem k.
          Some (Inr \<lparr>rd_vcpus = vcpu # aps, rd_machine = m\<lparr>m_mem := mem\<rparr>, rd_pio = pio, rd_mmio = mmio\<rparr>, k))))))))"

section \<open>The end of a run\<close>

datatype thread_result = Finished "io_error_kind + exit_stats" | Panicked

text \<open>The threads are joined in order: statistics add up, and the first failure is the one reported.\<close>

fun join_threads :: "bool \<Rightarrow> thread_result list \<Rightarrow> exit_stats \<Rightarrow> ('e, 'x, 'v) main_error option
    \<Rightarrow> (exit_stats \<times> ('e, 'x, 'v) main_error option) option" where
  "join_threads oc [] totals err = Some (totals, err)"
| "join_threads oc (Finished (Inr stats) # rs) totals err =
     (case stats_add_assign oc totals stats of None \<Rightarrow> None | Some totals \<Rightarrow> join_threads oc rs totals err)"
| "join_threads oc (Finished (Inl e) # rs) totals err =
     join_threads oc rs totals (case err of None \<Rightarrow> Some (RunFailed e) | Some x \<Rightarrow> Some x)"
| "join_threads oc (Panicked # rs) totals err =
     join_threads oc rs totals (case err of None \<Rightarrow> Some VcpuPanicked | Some x \<Rightarrow> Some x)"

text \<open>The total printed at the end is an addition as well.\<close>

definition report :: "bool \<Rightarrow> thread_result list \<Rightarrow> ('k, ('e, 'x, 'v) main_error, exit_stats) pprog" where
  "report oc rs k = do {
     (totals, err) \<leftarrow> join_threads oc rs stats_new None;
     _ \<leftarrow> stats_total oc totals;
     Some (case err of Some e \<Rightarrow> (Inl e, k) | None \<Rightarrow> (Inr totals, k))
   }"

text \<open>The VM is dropped on every way out once it exists.\<close>

definition with_vm :: "('k, 'x, 'v, 'h, 'm, 'c) backend \<Rightarrow> 'm \<Rightarrow> ('k, 'y, 'a) pprog \<Rightarrow> ('k, 'y, 'a) pprog" where
  "with_vm be vm p k = map_option (\<lambda>(r, k'). (r, be_drop be vm k')) (p k)"

definition vm_name :: "nat \<Rightarrow> bytes" where
  "vm_name pid = ascii ''ferrvm-'' @ decimal pid"

definition main_vm :: "bool \<Rightarrow> ('k, 'x, 'v, 'h, 'm, 'c) backend \<Rightarrow> 'e environment
    \<Rightarrow> ('c ready \<Rightarrow> 'k \<Rightarrow> thread_result list \<times> 'k) \<Rightarrow> config \<Rightarrow> ('k, ('e, 'x, 'v) main_error, exit_stats) pprog" where
  "main_vm oc be env run cfg =
     pbind (lift_result KickHandlerFailed (Some (install_vcpu_kick_handler (env_kick env)))) (\<lambda>_.
     pbind (lift_host BackendFailed (be_new be)) (\<lambda>hv.
     pbind (lift_host BackendFailed (be_create_vm be hv (vm_name (env_pid env)))) (\<lambda>vm.
     with_vm be vm (
       pbind (lift_host BackendFailed (be_setup be vm)) (\<lambda>_.
       pbind (startup oc be env cfg vm) (\<lambda>rd k. case run rd k of (rs, k) \<Rightarrow> report oc rs k))))))"

text \<open>The terminal guard is dropped when \<open>main\<close> returns and when it unwinds from a panic.\<close>

definition vmm_main :: "bool \<Rightarrow> libc \<Rightarrow> ('k, 'x, 'v, 'h, 'm, 'c) backend \<Rightarrow> 'e environment
    \<Rightarrow> ('c ready \<Rightarrow> 'k \<Rightarrow> thread_result list \<times> 'k) \<Rightarrow> config \<Rightarrow> tty_host \<Rightarrow> 'k
    \<Rightarrow> ((('e, 'x, 'v) main_error + exit_stats) \<times> 'k) option \<times> tty_host" where
  "vmm_main oc l be env run cfg w k =
     (let num_cpus = cfg_cpus cfg in
      if num_cpus = 0 \<or> 255 < num_cpus then (Some (Inl (BadCpus num_cpus), k), w)
      else case raw_enter l w of
          (Inl e, w) \<Rightarrow> (Some (Inl (RawModeFailed e), k), w)
        | (Inr raw, w) \<Rightarrow> (main_vm oc be env run cfg k, raw_drop l raw w))"

section \<open>Lemmas\<close>

lemma read_at_cong:
  assumes "gm_size m' = gm_size m" and "\<And>a. unat b \<le> a \<Longrightarrow> a < unat b + n \<Longrightarrow> gm_bytes m' a = gm_bytes m a"
  shows "read_at m' b n = read_at m b n"
  using assms by (auto simp: read_at_def checked_hva_def Let_def)

text \<open>Loading a kernel changes the host only by setting registers.\<close>

definition registers_keep :: "('k, 'v) vcpu_ops \<Rightarrow> ('k \<Rightarrow> bool) \<Rightarrow> bool" where
  "registers_keep v P \<longleftrightarrow> (\<forall>k r k'. v_set_regs v k r = Inr k' \<longrightarrow> P k \<longrightarrow> P k') \<and>
     (\<forall>k s k'. v_set_sregs v k s = Inr k' \<longrightarrow> P k \<longrightarrow> P k')"

lemma setup_keeps:
  assumes "registers_keep v P" and "P k"
  shows "setup_general_registers v k entry = Inr k' \<Longrightarrow> P k'" "setup_protected_mode v k = Inr k' \<Longrightarrow> P k'"
    "setup_long_mode v k mem = Inr (k', mem') \<Longrightarrow> P k'"
  using assms unfolding registers_keep_def setup_general_registers_def setup_protected_mode_def setup_long_mode_def
  by (auto simp: Let_def sbind_def split: sum.splits)

lemma load_kernel_keeps:
  assumes "load_kernel oc alloc mem v k f cmdline initrd = Some (Inr (k', mem'))" and "P k" and "registers_keep v P"
  shows "P k'"
proof -
  obtain entry fmt data m1 where "finish_boot oc v k fmt data cmdline initrd entry m1 = Some (Inr (k', mem'))"
    using assms(1) by (auto simp: load_kernel_def split: sum.splits Option.bind_splits prod.splits)
  then obtain k1 m2 where k1: "setup_general_registers v k entry = (Inr k1 :: ('a, 'b) boot_error + 'c)"
    and k': "(case fmt of BzImage \<Rightarrow> sbind (setup_protected_mode v k1) (\<lambda>k. Inr (k, m2)) | Elf64 \<Rightarrow> setup_long_mode v k1 m2) =
      (Inr (k', mem') :: ('a, 'b) boot_error + _)"
    by (auto simp: finish_boot_def sbind_Inr_iff split: sum.splits Option.bind_splits prod.splits)
  have "P k1" using setup_keeps(1)[OF assms(3,2) k1] .
  then show ?thesis
    using k' setup_keeps(2,3)[OF assms(3), of k1] by (cases fmt) (auto simp: sbind_Inr_iff)
qed

text \<open>The files a kernel boots from, and the processor and memory it starts in.\<close>

definition kernel_fits :: "(nat \<Rightarrow> bool) \<Rightarrow> 'e kfile \<Rightarrow> nat \<Rightarrow> bool" where
  "kernel_fits alloc f ram \<longleftrightarrow>
     (let data = kf_bytes f in
      if is_elf64 data then elf_ok data 0x100000 ram \<and> kf_error f = (\<lambda>_ _. None) \<and> (\<forall>n. n \<le> ram \<longrightarrow> alloc n)
      else is_bzimage data = Some True \<and> (\<exists>sects. get_setup_sects data = Some sects \<and>
         (unat sects + 1) * 512 < length data \<and> 0x100000 + length data \<le> ram + (unat sects + 1) * 512))"

definition kernel_image :: "bytes \<Rightarrow> nat \<Rightarrow> u8" where
  "kernel_image data =
     (if is_elf64 data then elf_image data 0x100000 (\<lambda>_. 0) (elf_phdrs data)
      else case get_setup_sects data of
          Some sects \<Rightarrow> store_bytes (\<lambda>_. 0) 0x100000 (drop ((unat sects + 1) * 512) data)
        | None \<Rightarrow> (\<lambda>_. 0))"

definition at_entry :: "bytes \<Rightarrow> guest_memory \<Rightarrow> regs \<Rightarrow> sregs \<Rightarrow> bool" where
  "at_entry data m r s \<longleftrightarrow>
     (if is_elf64 data then entry_regs (e_entry (elf_ehdr data)) r \<and> long_mode_state m s
      else entry_regs 0x100000 r \<and> flat32_state s)"

abbreviation kernel_format :: "bytes \<Rightarrow> kernel_image_format" where
  "kernel_format data \<equiv> (if is_elf64 data then Elf64 else BzImage)"

lemma load_fits:
  fixes v :: "('k, 'v) vcpu_ops" and initrd :: "('e + bytes) option"
  assumes v: "vcpu_state v kept" and fresh: "fresh_state v k" and fits: "kernel_fits alloc f (unat (gm_size m))"
    and m: "gm_bytes m = (\<lambda>_. 0)" "0x100000 \<le> unat (gm_size m)" "unat (gm_size m) < 2 ^ 63"
    and i: "initrd_ok initrd (unat (gm_size m))" and c: "length cmdline \<le> 2047"
  shows "\<exists>k' m' r s. load_kernel oc alloc m v k (Inr (Inr f)) cmdline initrd = Some (Inr (k', m')) \<and>
     booted_memory (kernel_format (kf_bytes f)) (kf_bytes f) cmdline initrd (kernel_image (kf_bytes f)) (gm_size m) m' \<and>
     v_get_regs v k' = Inr r \<and> v_get_sregs v k' = Inr s \<and>
     (\<forall>m''. (tables_in_place m' \<longrightarrow> tables_in_place m'') \<longrightarrow> at_entry (kf_bytes f) m'' r s)"
proof -
  obtain r0 s0 where s: "v_get_regs v k = Inr r0" "v_get_sregs v k = Inr s0" "sregs_ok s0"
    using fresh by (auto simp: fresh_state_def)
  show ?thesis
  proof (cases "is_elf64 (kf_bytes f)")
    case True
    then have "elf_ok (kf_bytes f) 0x100000 (unat (gm_size m))" "kf_error f = (\<lambda>_ _. None)" "\<forall>n. n \<le> unat (gm_size m) \<longrightarrow> alloc n"
      using fits by (simp_all add: kernel_fits_def)
    from load_elf[OF v s this m(3,2) i c, of oc] show ?thesis
      using True long_mode_tables[OF v] by (auto simp: m(1) kernel_image_def at_entry_def)
  next
    case False
    then obtain sects where b: "is_bzimage (kf_bytes f) = Some True" "get_setup_sects (kf_bytes f) = Some sects"
        "(unat sects + 1) * 512 < length (kf_bytes f)" "0x100000 + length (kf_bytes f) \<le> unat (gm_size m) + (unat sects + 1) * 512"
      using fits by (auto simp: kernel_fits_def Let_def)
    have "detect_kernel_image_format (kf_bytes f) = (Some (Inr BzImage) :: (('e, 'v) boot_error + _) option)"
      using False b(1) by (simp add: detect_kernel_image_format_def)
    from load_bzimage[OF v s this b(2-4) i c, of oc alloc] show ?thesis
      using False b(2) vcpu_state.protected_mode_flat(1)[OF v, of s0] by (auto simp: m(1) kernel_image_def at_entry_def)
  qed
qed

text \<open>The MP tables lie where neither the kernel nor its tables are.\<close>

lemma bios_area_keeps:
  assumes "gm_size m' = gm_size m" and "\<forall>a. a < 0xF0000 \<or> 0x100000 \<le> a \<longrightarrow> gm_bytes m' a = gm_bytes m a"
  shows "tables_in_place m \<Longrightarrow> tables_in_place m'"
    and "booted_memory fmt data cmdline initrd img ram m \<Longrightarrow> length cmdline \<le> 2047 \<Longrightarrow> booted_memory fmt data cmdline initrd img ram m'"
proof -
  have r: "read_at m' b n = read_at m b n" if "unat b + n \<le> 0xF0000" for b n
    using that assms(2) by (intro read_at_cong[OF assms(1)]) auto
  have g: "unat (BOOT_GDT_OFFSET + of_nat (j * 8)) + 8 \<le> 0xF0000" if "j < 3" for j
    using that by (auto simp: BOOT_GDT_OFFSET_def less_Suc_eq numeral_3_eq_3)
  show "tables_in_place m \<Longrightarrow> tables_in_place m'"
    unfolding tables_in_place_def using r[of "0xa000" 8] r[of "0xb000" 8] r[OF g] r[of "0xc000 + of_nat _ * 8" 8]
    by (simp add: unat_pd_addr)
  show "booted_memory fmt data cmdline initrd img ram m \<Longrightarrow> length cmdline \<le> 2047 \<Longrightarrow> booted_memory fmt data cmdline initrd img ram m'"
    unfolding booted_memory_def using assms r[of "0x7000" 4096] r[of "0x20000" "length cmdline + 1"] by simp
qed

lemma write_mptable_size: "write_mptable tp2 cpuid m n = Inr m' \<Longrightarrow> gm_size m' = gm_size m"
  by (auto simp: write_mptable_def split: option.splits sum.splits dest!: write_at_size)

lemma allocate_pages:
  assumes "unat sz = 4096 * q" and "0 < q" and "mmap sz = Some p" and "p \<noteq> 0"
  shows "allocate oc mmap sz = Some (Inr \<lparr>gm_ptr = p, gm_size = sz, gm_bytes = (\<lambda>_. 0)\<rparr>)"
proof -
  have u: "unat (div_ceil sz 4096) = q" by (simp add: div_ceil_page assms(1))
  then have "unat (div_ceil sz 4096) * unat (4096 :: u64) = unat sz" by (simp add: assms(1))
  moreover from this have "div_ceil sz 4096 * 4096 = sz"
    using unat_bound[of sz] by (simp add: word_unat_eq_iff unat_word_ariths)
  ultimately have m: "rs_mul oc (div_ceil sz 4096) 4096 = Some sz"
    using unat_bound[of sz] by (simp add: rs_mul_def checked_mul_def)
  have "sz \<noteq> 0" using assms(1,2) by (metis mult_eq_0_iff not_gr_zero unat_0 zero_neq_numeral)
  then show ?thesis using m assms(3,4) by (simp add: allocate_def page_size_def)
qed

lemma ram_size_bytes:
  assumes "unat (c :: u64) < 0xd00"
  shows "checked_mul c 0x100000 = Some (c * 0x100000)" and "unat (c * 0x100000) = unat c * 0x100000"
  using assms by (simp_all add: checked_mul_def unat_word_ariths)

lemma blk_new_inv:
  assumes "env_disk_len env file = Inr (of_nat (length (f_data file)))" and "length (f_data file) < 2 ^ 64"
  shows "\<exists>b. blk_new i (Inr file) (env_disk_len env) dbg = Inr b \<and> blk_inv b"
  using assms by (simp add: blk_new_def blk_inv_def SECTOR_SIZE_def unat_div_distrib unat_of_nat)

text \<open>Options and an environment a machine can start from, with the kernel file \<open>f\<close>; and a machine ready to run.\<close>

definition options_ok :: "'e environment \<Rightarrow> config \<Rightarrow> 'e kfile \<Rightarrow> bool" where
  "options_ok env cfg f \<longleftrightarrow>
     1 \<le> unat (cfg_cpus cfg) \<and> unat (cfg_cpus cfg) \<le> 255 \<and> 1 \<le> unat (cfg_mem cfg) \<and> unat (cfg_mem cfg) < 0xd00 \<and>
     fst (env_kick env) = 0 \<and> (\<exists>p. env_mmap env (cfg_mem cfg * 0x100000) = Some p \<and> p \<noteq> 0) \<and>
     env_exists env (cfg_kernel cfg) \<and> env_kernel env (cfg_kernel cfg) = Inr (Inr f) \<and>
     kernel_fits (env_alloc env) f (unat (cfg_mem cfg) * 0x100000) \<and>
     initrd_ok (Option.bind (cfg_initramfs cfg) (env_initrd env)) (unat (cfg_mem cfg) * 0x100000) \<and>
     length (kernel_cmdline cfg (1 < cfg_cpus cfg)) \<le> 2047 \<and>
     (\<forall>path. cfg_disk cfg = Some path \<longrightarrow> (\<exists>hf. env_disk env path = Inr hf \<and>
        env_disk_len env hf = Inr (of_nat (length (f_data hf))) \<and> length (f_data hf) < 2 ^ 64)) \<and>
     env_entropy env \<noteq> None"

definition ready_ok :: "('k, 'x, 'v, 'h, 'm, 'c) backend \<Rightarrow> 'e environment \<Rightarrow> config \<Rightarrow> bytes \<Rightarrow> 'c ready \<Rightarrow> 'k \<Rightarrow> bool" where
  "ready_ok be env cfg data rd k \<longleftrightarrow>
     (let m = rd_machine rd; mem = m_mem m; cmdline = kernel_cmdline cfg (1 < cfg_cpus cfg) in
      length (rd_vcpus rd) = unat (cfg_cpus cfg) \<and>
      machine_inv m \<and> served (rd_pio rd) \<and> served (rd_mmio rd) \<and>
      (\<forall>events. (\<forall>e \<in> set events. event_ok e) \<longrightarrow> (\<exists>m'. machine_run False (rd_pio rd) (rd_mmio rd) m events = Some m')) \<and>
      booted_memory (kernel_format data) data cmdline (Option.bind (cfg_initramfs cfg) (env_initrd env)) (kernel_image data)
        (cfg_mem cfg * 0x100000) mem \<and>
      (\<exists>r s. v_get_regs (be_vcpu be (hd (rd_vcpus rd))) k = Inr r \<and> v_get_sregs (be_vcpu be (hd (rd_vcpus rd))) k = Inr s \<and>
         at_entry data mem r s) \<and>
      (1 < unat (cfg_cpus cfg) \<longrightarrow>
         mp_scan mem = Some (mp_entries (env_timer_on_pin2 env) (env_cpuid env) (ucast (cfg_cpus cfg)))))"

lemma mptable_step_ok:
  assumes "0x100000 \<le> unat (gm_size mem)" and "1 \<le> unat (n :: u32)" and "unat n \<le> 255"
  shows "\<exists>m'. mptable_step env n (1 < n) mem k = Some (Inr m', k) \<and> gm_size m' = gm_size mem \<and>
     (\<forall>a. a < 0xF0000 \<or> 0x100000 \<le> a \<longrightarrow> gm_bytes m' a = gm_bytes mem a) \<and>
     (1 < unat n \<longrightarrow> mp_scan m' = Some (mp_entries (env_timer_on_pin2 env) (env_cpuid env) (ucast n)))"
proof (cases "1 < n")
  case True
  have "unat (ucast n :: u8) \<le> 255" using unat_bound[of "ucast n :: u8"] by simp
  then obtain m' where m': "write_mptable (env_timer_on_pin2 env) (env_cpuid env) mem (ucast n) = Inr m'"
    "mp_scan m' = Some (mp_entries (env_timer_on_pin2 env) (env_cpuid env) (ucast n))"
    "\<forall>a. a < 0xF0000 \<or> 0x100000 \<le> a \<longrightarrow> gm_bytes m' a = gm_bytes mem a"
    using write_mptable_scan[of "ucast n" mem "env_timer_on_pin2 env" "env_cpuid env"] assms(1) by auto
  then show ?thesis using True write_mptable_size[OF m'(1)] by (auto simp: mptable_step_def lift_result_def)
next
  case False
  then show ?thesis by (auto simp: mptable_step_def lift_result_def word_less_nat_alt)
qed

context hypervisor
begin

lemma registers_ok: "registers_keep (be_vcpu be c) (up vm n)" "registers_keep (be_vcpu be c) (live c')"
  unfolding registers_keep_def using set_regs set_sregs by blast+

lemma bsp_ok:
  assumes "up vm 0 k"
  shows "\<exists>vm' c k'. bring_up_bsp be vm sz hva k = (Inr (vm', c), k') \<and> up vm' 1 k' \<and> live c k' \<and> fresh_state (be_vcpu be c) k'"
proof -
  obtain vm' k1 where r: "be_register_memory_region be vm 0 sz hva k = (Inr vm', k1)" "up vm' 0 k1" using ram[OF assms] by blast
  obtain c k2 where "add_vcpu be vm' 0 k1 = (Inr c, k2)" "up vm' 1 k2" "live c k2" "fresh_state (be_vcpu be c) k2"
    using vcpu[OF r(2)] by auto
  then show ?thesis using r(1) by (auto simp: bring_up_bsp_def hbind_def hreturn_def)
qed

lemma add_vcpus_ok:
  "up vm n k \<Longrightarrow> n \<le> m \<Longrightarrow> m \<le> 255 \<Longrightarrow>
   \<exists>cs k'. add_vcpus be vm (map of_nat [n..<m]) k = (Inr cs, k') \<and> length cs = m - n \<and> up vm m k' \<and>
     (\<forall>c. live c k \<longrightarrow> live c k' \<and> same_state (be_vcpu be c) k k')"
proof (induction "m - n" arbitrary: n k)
  case 0
  then show ?case by (simp add: hreturn_def same_state_def)
next
  case (Suc d)
  then have n: "n < m" by simp
  obtain c k1 where c: "add_vcpu be vm (of_nat n) k = (Inr c, k1)" "up vm (Suc n) k1"
    "\<forall>c'. live c' k \<longrightarrow> live c' k1 \<and> same_state (be_vcpu be c') k k1"
    using vcpu[OF Suc.prems(1)] n Suc.prems(3) by auto
  obtain cs k2 where "add_vcpus be vm (map of_nat [Suc n..<m]) k1 = (Inr cs, k2)" "length cs = m - Suc n" "up vm m k2"
    "\<forall>c'. live c' k1 \<longrightarrow> live c' k2 \<and> same_state (be_vcpu be c') k1 k2"
    using Suc.hyps(1)[OF _ c(2)] Suc.hyps(2) Suc.prems(3) n by fastforce
  then show ?case
    using c n by (auto simp: upt_conv_Cons hbind_def hreturn_def same_state_def)
qed

text \<open>Every step of the startup succeeds and hands on what the next one needs.\<close>

lemma load_step_ok:
  fixes env :: "'e environment" and mem :: guest_memory
  assumes "live c k" and "up vm n k" and "fresh_state (be_vcpu be c) k"
    and "env_exists env (cfg_kernel cfg)" and "env_kernel env (cfg_kernel cfg) = Inr (Inr f)"
    and "kernel_fits (env_alloc env) f (unat (gm_size mem))"
    and "gm_bytes mem = (\<lambda>_. 0)" and "0x100000 \<le> unat (gm_size mem)" and "unat (gm_size mem) < 2 ^ 63"
    and "initrd_ok (Option.bind (cfg_initramfs cfg) (env_initrd env)) (unat (gm_size mem))"
    and "length (kernel_cmdline cfg smp) \<le> 2047"
  shows "\<exists>m' k' r s. load_step oc env cfg smp (be_vcpu be c) mem k = Some (Inr m', k') \<and> live c k' \<and> up vm n k' \<and>
     booted_memory (kernel_format (kf_bytes f)) (kf_bytes f) (kernel_cmdline cfg smp)
       (Option.bind (cfg_initramfs cfg) (env_initrd env)) (kernel_image (kf_bytes f)) (gm_size mem) m' \<and>
     v_get_regs (be_vcpu be c) k' = Inr r \<and> v_get_sregs (be_vcpu be c) k' = Inr s \<and>
     (\<forall>m''. (tables_in_place m' \<longrightarrow> tables_in_place m'') \<longrightarrow> at_entry (kf_bytes f) m'' r s)"
proof -
  obtain k' m' r s where l: "load_kernel oc (env_alloc env) mem (be_vcpu be c) k (Inr (Inr f)) (kernel_cmdline cfg smp)
      (Option.bind (cfg_initramfs cfg) (env_initrd env)) = Some (Inr (k', m'))"
    and b: "booted_memory (kernel_format (kf_bytes f)) (kf_bytes f) (kernel_cmdline cfg smp)
       (Option.bind (cfg_initramfs cfg) (env_initrd env)) (kernel_image (kf_bytes f)) (gm_size mem) m'"
    and r: "v_get_regs (be_vcpu be c) k' = Inr r" "v_get_sregs (be_vcpu be c) k' = Inr s"
    and e: "\<forall>m''. (tables_in_place m' \<longrightarrow> tables_in_place m'') \<longrightarrow> at_entry (kf_bytes f) m'' r s"
    using load_fits[OF state assms(3,6-11), of oc] by blast
  have "live c k'" "up vm n k'"
    using load_kernel_keeps[OF l assms(1) registers_ok(2)] load_kernel_keeps[OF l assms(2) registers_ok(1)] by blast+
  moreover have "load_step oc env cfg smp (be_vcpu be c) mem k = Some (Inr m', k')"
    using l r by (simp add: load_step_def assms(4,5) dump_state_def)
  ultimately show ?thesis using b r e by blast
qed

lemma device_step_ok:
  assumes "unat ram_size < 0xd0000000" and "env_entropy env = Some src"
    and "\<forall>path. cfg_disk cfg = Some path \<longrightarrow> (\<exists>file. env_disk env path = Inr file \<and>
       env_disk_len env file = Inr (of_nat (length (f_data file))) \<and> length (f_data file) < 2 ^ 64)"
  shows "\<exists>m pio mmio. device_step oc be env cfg vm mem ram_size k = Some (Inr (m, pio, mmio), k) \<and>
     machine_inv m \<and> served pio \<and> served mmio \<and> m_mem m = mem"
proof -
  let ?img = "map_option (\<lambda>path. map_sum Inl id (blk_new 0 (env_disk env path) (env_disk_len env) (cfg_debug cfg))) (cfg_disk cfg)"
  have img: "\<forall>r. ?img = Some r \<longrightarrow> (\<exists>b. r = Inr b \<and> blk_inv b)"
  proof (intro allI impI)
    fix r assume "?img = Some r"
    then obtain path hf where "r = map_sum Inl id (blk_new 0 (Inr hf) (env_disk_len env) (cfg_debug cfg))"
      "env_disk_len env hf = Inr (of_nat (length (f_data hf)))" "length (f_data hf) < 2 ^ 64"
      using assms(3) by fastforce
    then show "\<exists>b. r = Inr b \<and> blk_inv b" using blk_new_inv[of env hf 0 "cfg_debug cfg"] by auto
  qed
  obtain msink where ms: "be_msi_sink be vm = Inr msink" using sinks(2) by blast
  have irq: "\<forall>g\<in>{4, 12, 14}. \<exists>sink. map_sum Inr id (be_register_irq be vm g) = Inr sink"
    using sinks(1) by (metis id_apply map_sum.simps(2))
  from setup_machine_ok[OF assms(1) irq img, of oc msink src "env_now env" mem] show ?thesis
    by (auto simp: device_step_def lift_result_def ms assms(2))
qed

lemma startup_ok:
  fixes env :: "'e environment"
  assumes opt: "options_ok env cfg f" and "up vm 0 k"
  shows "\<exists>rd k'. startup oc be env cfg vm k = Some (Inr rd, k') \<and> ready_ok be env cfg (kf_bytes f) rd k'"
proof -
  let ?ram = "cfg_mem cfg * 0x100000" and ?n = "cfg_cpus cfg" and ?smp = "1 < cfg_cpus cfg"
    and ?ird = "Option.bind (cfg_initramfs cfg) (env_initrd env)"
  note o = opt[unfolded options_ok_def]
  obtain p src where p: "env_mmap env ?ram = Some p" "p \<noteq> 0" "env_entropy env = Some src" using o by auto
  have ram: "checked_mul (cfg_mem cfg) 0x100000 = Some ?ram" "unat ?ram = unat (cfg_mem cfg) * 0x100000"
    using ram_size_bytes o by blast+
  let ?m0 = "\<lparr>gm_ptr = p, gm_size = ?ram, gm_bytes = (\<lambda>_. 0)\<rparr>"
  have "unat ?ram = 4096 * (unat (cfg_mem cfg) * 256)" "0 < unat (cfg_mem cfg) * 256" using ram(2) o by auto
  then have al: "allocate oc (env_mmap env) ?ram = Some (Inr ?m0)" using allocate_pages[of ?ram _ "env_mmap env" p oc] p(1,2) by blast
  obtain vm1 c k1 where b: "bring_up_bsp be vm ?ram p k = (Inr (vm1, c), k1)" "up vm1 1 k1" "live c k1" "fresh_state (be_vcpu be c) k1"
    using bsp_ok[OF assms(2)] by blast
  obtain m1 k2 r s where l: "load_step oc env cfg ?smp (be_vcpu be c) ?m0 k1 =
      (Some (Inr m1, k2) :: ((('e, 'x, 'v) main_error + _) \<times> 'k) option)" "live c k2" "up vm1 1 k2"
    and bm: "booted_memory (kernel_format (kf_bytes f)) (kf_bytes f) (kernel_cmdline cfg ?smp) ?ird (kernel_image (kf_bytes f)) ?ram m1"
    and r: "v_get_regs (be_vcpu be c) k2 = Inr r" "v_get_sregs (be_vcpu be c) k2 = Inr s"
    and e: "\<And>m''. (tables_in_place m1 \<Longrightarrow> tables_in_place m'') \<Longrightarrow> at_entry (kf_bytes f) m'' r s"
    using load_step_ok[OF b(3,2,4), of env cfg f ?m0 ?smp oc] o ram(2) by auto
  obtain m pio mmio where d: "device_step oc be env cfg vm1 m1 ?ram k2 = Some (Inr (m, pio, mmio), k2)"
    "machine_inv m" "served pio" "served mmio" "m_mem m = m1"
    using device_step_ok[of ?ram env src cfg oc vm1 m1 k2] o ram(2) p(3) by auto
  obtain aps k3 where a: "add_vcpus be vm1 (map of_nat [1..<unat ?n]) k2 = (Inr aps, k3)" "length aps = unat ?n - 1"
    "same_state (be_vcpu be c) k2 k3"
    using add_vcpus_ok[OF l(3), of "unat ?n"] l(2) o by auto
  have sz: "gm_size m1 = ?ram" using bm by (simp add: booted_memory_def)
  obtain m2 where t: "\<And>k. mptable_step env ?n ?smp m1 k = (Some (Inr m2, k) :: ((('e, 'x, 'v) main_error + _) \<times> 'k) option)" "gm_size m2 = gm_size m1"
    "\<forall>a. a < 0xF0000 \<or> 0x100000 \<le> a \<longrightarrow> gm_bytes m2 a = gm_bytes m1 a"
    "1 < unat ?n \<longrightarrow> mp_scan m2 = Some (mp_entries (env_timer_on_pin2 env) (env_cpuid env) (ucast ?n))"
    using mptable_step_ok[of m1 ?n env k3] o ram(2) sz by (auto simp: mptable_step_def lift_result_def)
  let ?rd = "\<lparr>rd_vcpus = c # aps, rd_machine = m\<lparr>m_mem := m2\<rparr>, rd_pio = pio, rd_mmio = mmio\<rparr>"
  have "startup oc be env cfg vm k = Some (Inr ?rd, k3)"
    using l(1) d(1) a(1)
    by (simp add: startup_def Let_def ram(1) al lift_result_def pbind_def lift_host_def map_err_def b(1) host_addr_def d(5) t(1))
  moreover have "booted_memory (kernel_format (kf_bytes f)) (kf_bytes f) (kernel_cmdline cfg ?smp) ?ird (kernel_image (kf_bytes f)) ?ram m2"
    using bios_area_keeps(2)[OF t(2,3) bm] o by blast
  moreover have "at_entry (kf_bytes f) m2 r s" using e bios_area_keeps(1)[OF t(2,3)] by blast
  moreover have "\<exists>m'. machine_run False pio mmio (m\<lparr>m_mem := m2\<rparr>) events = Some m'" if "\<forall>e\<in>set events. event_ok e" for events
    using machine_run_returns[OF d(3,4) mem_update_inv[OF d(2)] that] by blast
  ultimately show ?thesis
    using a(2,3) r t(4) o d(3,4) mem_update_inv[OF d(2)] by (intro exI[of _ ?rd] exI[of _ k3]) (auto simp: ready_ok_def Let_def same_state_def)
qed

lemma main_vm_ok:
  assumes opt: "options_ok env cfg f"
  shows "\<exists>vm rd k1. main_vm oc be env run cfg k = with_vm be vm (\<lambda>k. case run rd k of (rs, k) \<Rightarrow> report oc rs k) k1 \<and>
     ready_ok be env cfg (kf_bytes f) rd k1"
proof -
  obtain vm k3 where "bring_up_vm be (vm_name (env_pid env)) k = (Inr vm, k3)" and u: "up vm 0 k3" using vm_up by blast
  then obtain hv k1 k2 where s: "be_new be k = (Inr hv, k1)" "be_create_vm be hv (vm_name (env_pid env)) k1 = (Inr vm, k2)"
    "be_setup be vm k2 = (Inr (), k3)"
    by (auto simp: bring_up_vm_def hbind_Inr_iff hreturn_iff)
  obtain rd k4 where r: "startup oc be env cfg vm k3 = Some (Inr rd, k4)" "ready_ok be env cfg (kf_bytes f) rd k4"
    using startup_ok[OF opt u] by blast
  have "fst (env_kick env) = 0" using opt by (simp add: options_ok_def)
  then have "main_vm oc be env run cfg k = with_vm be vm (\<lambda>k. case run rd k of (rs, k) \<Rightarrow> report oc rs k) k4"
    using s r(1) by (simp add: main_vm_def pbind_def lift_result_def lift_host_def map_err_def install_vcpu_kick_handler_def with_vm_def)
  then show ?thesis using r(2) by blast
qed

end

section \<open>Properties\<close>

text \<open>
  C2. The monitor starts. On every back end that keeps the contract of \<open>hypervisor\<close>, and with options and files a machine
  can start from (1 to 255 vCPUs, 1 MiB to the PCI window of RAM, a bootable kernel that fits, a RAM disk
  that fits, a disk whose size is its length), \<open>main\<close> reaches the run of its vCPU threads in every build. There is then one
  vCPU per configured CPU; the first is at the kernel's entry point in the mode its format asks for; memory
  holds the kernel, the RAM disk, the boot parameters and the command line, and for more than one CPU also
  MP tables that read back as this machine, written without disturbing the rest; and from here no
  sequence of guest accesses, console input and timer ticks makes a device of a release build panic.
\<close>

theorem main_ready:
  assumes "hypervisor be kept up live" and "options_ok env cfg f"
  shows "\<exists>vm rd k1. main_vm oc be env run cfg k = with_vm be vm (\<lambda>k. case run rd k of (rs, k) \<Rightarrow> report oc rs k) k1 \<and>
     ready_ok be env cfg (kf_bytes f) rd k1"
  using hypervisor.main_vm_ok[OF assms] .

text \<open>Two CPUs, 2 MiB and a small bzImage, on the model of KVM.\<close>

definition tiny_config :: config where
  "tiny_config = \<lparr>cfg_kernel = [0x6b], cfg_initramfs = None, cfg_mem = 2, cfg_cpus = 2, cfg_cmdline = Some [0x71], cfg_disk = None,
     cfg_debug = False\<rparr>"

definition tiny_env :: "unit environment" where
  "tiny_env =
     \<lparr>env_kick = (0, ()), env_pid = 42, env_mmap = (\<lambda>_. Some 0x7f0000000000), env_alloc = (\<lambda>n. n < 2 ^ 32), env_exists = (\<lambda>_. True),
      env_kernel = (\<lambda>_. Inr (Inr \<lparr>kf_bytes = tiny_bzimage, kf_error = \<lambda>_ _. None\<rparr>)), env_initrd = (\<lambda>_. None),
      env_disk = (\<lambda>_. Inl ()), env_disk_len = (\<lambda>_. Inl ()), env_entropy = Some (\<lambda>_. True, \<lambda>_ _. 7), env_now = 0,
      env_cpuid = (0x306c3, 0x78bfbff), env_timer_on_pin2 = True\<rparr>"

lemma tiny_bzimage_format: "\<not> is_elf64 tiny_bzimage" "is_bzimage tiny_bzimage = Some True"
proof -
  have "tiny_bzimage ! 0 = 0" by (simp add: tiny_bzimage_def nth_append)
  then show n: "\<not> is_elf64 tiny_bzimage" by (simp add: is_elf64_def)
  show "is_bzimage tiny_bzimage = Some True"
    using tiny_bzimage_facts(3)[where ?'a = unit and ?'b = unit] n
    by (auto simp: detect_kernel_image_format_def bind_eq_Some_conv split: if_splits)
qed

lemma tiny_options_ok: "options_ok tiny_env tiny_config \<lparr>kf_bytes = tiny_bzimage, kf_error = \<lambda>_ _. None\<rparr>"
proof -
  have "kernel_fits (\<lambda>n. n < 2 ^ 32) \<lparr>kf_bytes = tiny_bzimage, kf_error = \<lambda>_ _. None :: unit option\<rparr> 0x200000"
    by (simp add: kernel_fits_def Let_def tiny_bzimage_format tiny_bzimage_facts)
  then show ?thesis by (simp add: options_ok_def tiny_env_def tiny_config_def initrd_ok_def kernel_cmdline_def)
qed

theorem main_ready_witness:
  "\<exists>(rd :: kvm_vcpu_handle ready) k1. main_vm True (kvm_backend kvm_sim kvm_sim_ops) tiny_env (\<lambda>rd k. ([Finished (Inl OtherKind), Panicked], k)) tiny_config
       (\<lambda>_. fresh_vcpu, 0) = Some (Inl (RunFailed OtherKind), k1) \<and>
     length (rd_vcpus rd) = 2 \<and> mp_scan (m_mem (rd_machine rd)) = Some (mp_entries True (0x306c3, 0x78bfbff) 2) \<and>
     gm_bytes (m_mem (rd_machine rd)) 0x100001 = 0xf4"
proof -
  let ?be = "kvm_backend kvm_sim kvm_sim_ops" and ?run = "\<lambda>rd k. ([Finished (Inl OtherKind), Panicked], k)"
  obtain vm rd k1 where m: "main_vm True ?be tiny_env ?run tiny_config (\<lambda>_. fresh_vcpu, 0) =
      with_vm ?be vm (\<lambda>k. case ?run rd k of (rs, k) \<Rightarrow> report True rs k) k1" and r: "ready_ok ?be tiny_env tiny_config tiny_bzimage rd k1"
    using main_ready[OF kvm_sim.kvm.hypervisor_axioms tiny_options_ok, of True ?run "(\<lambda>_. fresh_vcpu, 0)"] by auto
  have "main_vm True ?be tiny_env ?run tiny_config (\<lambda>_. fresh_vcpu, 0) = Some (Inl (RunFailed OtherKind), k1)"
    unfolding m by (simp add: with_vm_def report_def stats_total_def stats_new_def rs_add_def checked_add_def kvm_backend_def)
  moreover have "kernel_image tiny_bzimage 0x100001 = 0xf4"
    unfolding kernel_image_def tiny_bzimage_facts(2) by (simp add: tiny_bzimage_format(1) store_bytes_def tiny_bzimage_facts(1)) (simp add: tiny_bzimage_def nth_append)
  then have "gm_bytes (m_mem (rd_machine rd)) 0x100001 = 0xf4"
    using r by (simp add: ready_ok_def Let_def booted_memory_def initrd_bytes_def tiny_config_def)
  moreover have "length (rd_vcpus rd) = 2 \<and> mp_scan (m_mem (rd_machine rd)) = Some (mp_entries True (0x306c3, 0x78bfbff) 2)"
    using r by (simp add: ready_ok_def Let_def tiny_config_def tiny_env_def)
  ultimately show ?thesis by blast
qed

text \<open>
  C16. The terminal is given back on every way out of \<open>main\<close>: whatever the options, the back end, the environment and the
  vCPU threads do, when \<open>main\<close> returns or panics the attributes of the terminal are those it found, even
  if entering raw mode fails or the restoring call is interrupted once; and with an invalid CPU count
  neither the terminal nor the host has been touched.
\<close>

theorem main_restores_terminal:
  assumes "tty_errors w = [] \<or> (\<exists>e. tty_errors w = [e] \<or> tty_errors w = [e, Some (EINTR l)])"
  shows "tty_attr (snd (vmm_main oc l be env run cfg w k)) = tty_attr w \<and>
     (unat (cfg_cpus cfg) \<notin> {1..255} \<longrightarrow> vmm_main oc l be env run cfg w k = (Some (Inl (BadCpus (cfg_cpus cfg)), k), w))"
proof -
  have ok: "tty_attr (raw_drop l g w') = tty_attr w" if e: "enter_on l 0 w = (Inr g, w')" for g w'
  proof (cases "tty_is w 0")
    case None
    then obtain w1 where w1: "tcsetattr 0 (raw_termios l (tty_attr w 0)) w = (None, w1)"
      "g = \<lparr>rm_fd = 0, rm_original = tty_attr w 0, rm_active = True\<rparr>" "w' = install_signal_handlers l 0 (tty_attr w 0) w1"
      using enter_on_tty[OF e] by blast
    have "tty_errors w' \<in> {[], [Some (EINTR l)]}"
      using tcsetattr_errors[OF w1(1)] assms by (auto simp: w1(3) install_signal_handlers_def)
    then show ?thesis
      using raw_drop_attr[of w' l g] tcsetattr_ok[OF w1(1)] by (simp add: w1(2)) (simp add: w1(3) install_signal_handlers_def)
  qed (use e in \<open>auto simp: enter_on_def raw_drop_def restore_def split: if_splits\<close>)
  have cpus: "cfg_cpus cfg = 0 \<or> 255 < cfg_cpus cfg \<longleftrightarrow> unat (cfg_cpus cfg) \<notin> {1..255}"
    by (auto simp: word_less_nat_alt unat_eq_zero Suc_le_eq)
  obtain x w' where x: "enter_on l 0 w = (x, w')" by fastforce
  then have "tty_attr (snd (vmm_main oc l be env run cfg w k)) = tty_attr w"
    using ok[of _ w'] enter_on_error[of l 0 w _ w'] by (cases x) (simp_all add: vmm_main_def raw_enter_def Let_def)
  then show ?thesis using cpus by (simp add: vmm_main_def Let_def)
qed

theorem main_restores_terminal_witness:
  "tty_attr (snd (vmm_main True linux_libc (kvm_backend kvm_sim kvm_sim_ops) tiny_env (\<lambda>rd k. ([Panicked], k)) tiny_config
     (cooked_host\<lparr>tty_errors := [None, Some 4]\<rparr>) (\<lambda>_. fresh_vcpu, 0))) = tty_attr cooked_host"
proof -
  have "tty_errors (cooked_host\<lparr>tty_errors := [None, Some 4]\<rparr>) = [None, Some (EINTR linux_libc)]" by (simp add: linux_libc_def)
  then show ?thesis using conjunct1[OF main_restores_terminal[where w = "cooked_host\<lparr>tty_errors := [None, Some 4]\<rparr>" and l = linux_libc]] by simp
qed

text \<open>
  What \<open>main\<close> reports in a release build: an error when some vCPU thread failed or panicked, the one of the first
  such thread, and otherwise the statistics.
\<close>

fun failure :: "thread_result \<Rightarrow> ('e, 'x, 'v) main_error option" where
  "failure (Finished (Inl e)) = Some (RunFailed e)"
| "failure (Finished (Inr _)) = None"
| "failure Panicked = Some VcpuPanicked"

lemma join_threads_failure:
  "map_option snd (join_threads False rs t err) =
     Some (case err of Some e \<Rightarrow> Some e | None \<Rightarrow> case List.map_filter failure rs of [] \<Rightarrow> None | e # _ \<Rightarrow> Some e)"
proof (induction rs arbitrary: t err)
  case (Cons r rs)
  show ?case
  proof (cases r)
    case (Finished x)
    then show ?thesis by (cases x) (auto simp: Cons map_filter_simps stats_add_assign_def split: option.split)
  qed (auto simp: Cons map_filter_simps split: option.split)
qed (simp add: map_filter_simps split: option.split)

theorem report_outcome:
  fixes k :: 'k
  shows "\<exists>totals. report False rs k =
     (Some (case List.map_filter failure rs of [] \<Rightarrow> Inr totals | e # _ \<Rightarrow> Inl e, k) :: ((('e, 'x, 'v) main_error + exit_stats) \<times> 'k) option)"
proof -
  obtain totals where "join_threads False rs stats_new None =
      Some (totals, case List.map_filter failure rs of [] \<Rightarrow> None | e # _ \<Rightarrow> Some (e :: ('e, 'x, 'v) main_error))"
    using join_threads_failure[of rs stats_new "None :: ('e, 'x, 'v) main_error option"] by auto
  then show ?thesis by (cases "List.map_filter failure rs :: ('e, 'x, 'v) main_error list") (simp_all add: report_def stats_total_def)
qed

end
