(* ===== verification/Guest.thy ===== *)
theory Guest
  imports Exits MpTable
begin

text \<open>
  The guest program (\<open>guest/src/main.rs\<close>): a freestanding kernel that programs COM1 and prints two lines on it
  by polling. Its two port instructions are parameters of the definitions; the locale \<open>uart_ports\<close> states what the
  program relies on, that they reach the registers of a UART, and the program's lemmas are proved there. The
  contract is then met three times by the monitor: by its port bus, by the KVM exit handler and by the bhyve
  exit handler, so that the program prints its text through the whole path of a port access.
\<close>

section \<open>Constants\<close>

text \<open>The names of the source with the prefix \<open>GUEST\<close>: the UART has constants of the same names.\<close>

definition COM1_BASE :: u16 where "COM1_BASE = 0x3f8"

definition GUEST_REG_THR :: u16 where "GUEST_REG_THR = 0"
definition GUEST_REG_IER :: u16 where "GUEST_REG_IER = 1"
definition GUEST_REG_FCR :: u16 where "GUEST_REG_FCR = 2"
definition GUEST_REG_LCR :: u16 where "GUEST_REG_LCR = 3"
definition GUEST_REG_MCR :: u16 where "GUEST_REG_MCR = 4"
definition GUEST_REG_LSR :: u16 where "GUEST_REG_LSR = 5"

definition GUEST_LSR_THRE :: u8 where "GUEST_LSR_THRE = push_bit 5 1"
definition LCR_8N1 :: u8 where "LCR_8N1 = 0x03"
definition GUEST_LCR_DLAB :: u8 where "GUEST_LCR_DLAB = push_bit 7 1"
definition GUEST_FCR_ENABLE :: u8 where "GUEST_FCR_ENABLE = push_bit 0 1"
definition GUEST_FCR_CLEAR_RX :: u8 where "GUEST_FCR_CLEAR_RX = push_bit 1 1"
definition FCR_CLEAR_TX :: u8 where "FCR_CLEAR_TX = push_bit 2 1"
definition GUEST_MCR_DTR :: u8 where "GUEST_MCR_DTR = push_bit 0 1"
definition GUEST_MCR_RTS :: u8 where "GUEST_MCR_RTS = push_bit 1 1"
definition GUEST_MCR_OUT2 :: u8 where "GUEST_MCR_OUT2 = push_bit 3 1"
definition BAUD_DIVISOR_115200 :: u16 where "BAUD_DIVISOR_115200 = 1"

lemmas guest_reg_defs =
  GUEST_REG_THR_def GUEST_REG_IER_def GUEST_REG_FCR_def GUEST_REG_LCR_def GUEST_REG_MCR_def GUEST_REG_LSR_def

lemmas guest_bit_defs =
  GUEST_LSR_THRE_def LCR_8N1_def GUEST_LCR_DLAB_def GUEST_FCR_ENABLE_def GUEST_FCR_CLEAR_RX_def FCR_CLEAR_TX_def
  GUEST_MCR_DTR_def GUEST_MCR_RTS_def GUEST_MCR_OUT2_def BAUD_DIVISOR_115200_def

section \<open>The program\<close>

text \<open>
  \<open>outb\<close> and \<open>inb\<close> are the instructions; \<open>'s\<close> is the machine they act on, \<open>None\<close> a machine that does not come back.
\<close>

type_synonym 's out_insn = "u16 \<Rightarrow> u8 \<Rightarrow> 's \<Rightarrow> 's option"
type_synonym 's in_insn = "u16 \<Rightarrow> 's \<Rightarrow> ('s \<times> u8) option"

definition guest_serial_init :: "'s out_insn \<Rightarrow> 's \<Rightarrow> 's option" where
  "guest_serial_init outb s = do {
     s \<leftarrow> outb (COM1_BASE + GUEST_REG_IER) 0x00 s;
     s \<leftarrow> outb (COM1_BASE + GUEST_REG_LCR) GUEST_LCR_DLAB s;
     s \<leftarrow> outb (COM1_BASE + GUEST_REG_THR) (ucast (BAUD_DIVISOR_115200 AND 0xff)) s;
     s \<leftarrow> outb (COM1_BASE + GUEST_REG_IER) (ucast (drop_bit 8 BAUD_DIVISOR_115200)) s;
     s \<leftarrow> outb (COM1_BASE + GUEST_REG_LCR) LCR_8N1 s;
     s \<leftarrow> outb (COM1_BASE + GUEST_REG_FCR) (GUEST_FCR_ENABLE OR GUEST_FCR_CLEAR_RX OR FCR_CLEAR_TX) s;
     outb (COM1_BASE + GUEST_REG_MCR) (GUEST_MCR_DTR OR GUEST_MCR_RTS OR GUEST_MCR_OUT2) s
   }"

text \<open>The polling loop of \<open>serial_putb\<close> need not end: \<open>None\<close> is then its result.\<close>

partial_function (option) wait_thre :: "'s in_insn \<Rightarrow> 's \<Rightarrow> 's option" where
  "wait_thre inb s =
     Option.bind (inb (COM1_BASE + GUEST_REG_LSR) s)
       (\<lambda>(s', lsr). if lsr AND GUEST_LSR_THRE = 0 then wait_thre inb s' else Some s')"

definition serial_putb :: "'s out_insn \<Rightarrow> 's in_insn \<Rightarrow> u8 \<Rightarrow> 's \<Rightarrow> 's option" where
  "serial_putb outb inb b s = Option.bind (wait_thre inb s) (outb (COM1_BASE + GUEST_REG_THR) b)"

fun serial_print :: "'s out_insn \<Rightarrow> 's in_insn \<Rightarrow> bytes \<Rightarrow> 's \<Rightarrow> 's option" where
  "serial_print outb inb [] s = Some s"
| "serial_print outb inb (b # bs) s = do {
     s \<leftarrow> (if b = 10 then serial_putb outb inb 13 s else Some s);
     s \<leftarrow> serial_putb outb inb b s;
     serial_print outb inb bs s
   }"

text \<open>
  Formatting writes the pieces of its arguments one after the other with \<open>write_str\<close>, which never fails here.
  A \<open>u32\<close> is displayed in decimal.
\<close>

fun print_fmt :: "'s out_insn \<Rightarrow> 's in_insn \<Rightarrow> bytes list \<Rightarrow> 's \<Rightarrow> 's option" where
  "print_fmt outb inb [] s = Some s"
| "print_fmt outb inb (p # ps) s = Option.bind (serial_print outb inb p s) (print_fmt outb inb ps)"

fun display_nat :: "nat \<Rightarrow> bytes" where
  "display_nat n = (if n < 10 then [] else display_nat (n div 10)) @ [0x30 + of_nat (n mod 10)]"

declare display_nat.simps [simp del]

definition display_u32 :: "u32 \<Rightarrow> bytes" where
  "display_u32 v = display_nat (unat v)"

definition println :: "'s out_insn \<Rightarrow> 's in_insn \<Rightarrow> bytes list \<Rightarrow> 's \<Rightarrow> 's option" where
  "println outb inb args = print_fmt outb inb (args @ [[10]])"

text \<open>The entry point, up to the loop of halts it ends in.\<close>

definition guest_start :: "'s out_insn \<Rightarrow> 's in_insn \<Rightarrow> 's \<Rightarrow> 's option" where
  "guest_start outb inb s = do {
     s \<leftarrow> guest_serial_init outb s;
     let val = 11;
     s \<leftarrow> println outb inb [ascii ''Hello World from the guest!''] s;
     println outb inb [ascii ''val = '', display_u32 val] s
   }"

text \<open>What a terminal receives for a text: a carriage return before every line feed.\<close>

definition crlf :: "bytes \<Rightarrow> bytes" where
  "crlf bs = concat (map (\<lambda>b. if b = 10 then [13, 10] else [b]) bs)"

lemma crlf_append: "crlf (bs @ cs) = crlf bs @ crlf cs"
  by (simp add: crlf_def)

definition guest_text :: bytes where
  "guest_text = ascii ''Hello World from the guest!'' @ [10] @ ascii ''val = 11'' @ [10]"

section \<open>The contract of the port instructions\<close>

text \<open>
  \<open>uart s\<close> is the UART behind the ports from 0x3f8 and \<open>accesses s\<close> the number of port accesses so far, modulo
  \<open>2^64\<close>. The time of an access is up to the machine.
\<close>

locale uart_ports =
  fixes outb :: "'s out_insn" and inb :: "'s in_insn" and uart :: "'s \<Rightarrow> serial" and accesses :: "'s \<Rightarrow> u64"
  assumes outb_uart: "r < 8 \<Longrightarrow> \<exists>s'. outb (COM1_BASE + r) b s = Some s' \<and>
      uart s' = serial_write (uart s) (ucast r) [b] \<and> accesses s' = accesses s + 1"
    and inb_uart: "r < 8 \<Longrightarrow> \<exists>s' b now. inb (COM1_BASE + r) s = Some (s', b) \<and>
      serial_read_reg now (uart s) (ucast r) = (uart s', b) \<and> accesses s' = accesses s + 1"

text \<open>A UART that sends what is written, and one whose interrupts are all masked and whose line is low.\<close>

definition transmitting :: "serial \<Rightarrow> bool" where
  "transmitting u \<longleftrightarrow> \<not> dlab u \<and> mcr u AND MCR_LOOPBACK = 0"

definition masked :: "serial \<Rightarrow> bool" where
  "masked u \<longleftrightarrow> ier u = 0 \<and> \<not> last_irq_level u"

text \<open>One step of the program as seen by the UART: the bytes it sends, and that a masked UART stays silent.\<close>

definition sends :: "serial \<Rightarrow> bytes \<Rightarrow> serial \<Rightarrow> bool" where
  "sends u bs u' \<longleftrightarrow> tx_out u' = tx_out u @ bs \<and> (masked u \<longrightarrow> masked u' \<and> irq_log u' = irq_log u)"

lemma sends_trans: "sends u bs u1 \<Longrightarrow> sends u1 cs u2 \<Longrightarrow> sends u (bs @ cs) u2"
  by (simp add: sends_def)

lemma masked_update_irq: "ier u = 0 \<Longrightarrow> \<not> last_irq_level u \<Longrightarrow> update_irq u = u"
  by (simp add: update_irq_def irq_asserted_def pending_interrupt_def)

lemma read_lsr_polls:
  assumes "serial_read_reg now u 5 = (u', b)"
  shows "b AND GUEST_LSR_THRE \<noteq> 0" "sends u [] u'" "transmitting u' = transmitting u"
proof -
  have u': "u' = update_irq (u\<lparr>overrun := False\<rparr>)"
    and b: "b = LSR_THRE OR LSR_TEMT OR (if rx u \<noteq> [] then LSR_DR else 0) OR (if overrun u then LSR_OE else 0)"
    using assms by (auto simp: serial_read_reg_def serial_reg_defs read_lsr_def)
  have "bit (b AND GUEST_LSR_THRE) 5"
    by (simp add: b GUEST_LSR_THRE_def LSR_THRE_def bit_simps)
  then show "b AND GUEST_LSR_THRE \<noteq> 0" by auto
  show "sends u [] u'" by (auto simp: u' sends_def masked_def masked_update_irq)
  show "transmitting u' = transmitting u" by (simp add: u' transmitting_def dlab_def)
qed

lemma write_thr_sends:
  assumes "transmitting u"
  shows "sends u [b] (serial_write u 0 [b])" "transmitting (serial_write u 0 [b])"
  using assms
  by (auto simp: serial_write_def serial_reg_defs transmitting_def write_thr_def sends_def masked_def masked_update_irq dlab_def)

text \<open>A sequence of register writes, and the seven writes of the initialisation.\<close>

fun out_all :: "'s out_insn \<Rightarrow> (u16 \<times> u8) list \<Rightarrow> 's \<Rightarrow> 's option" where
  "out_all outb [] = Some"
| "out_all outb ((r, b) # ws) = (\<lambda>s. Option.bind (outb (COM1_BASE + r) b s) (out_all outb ws))"

definition write_all :: "(u16 \<times> u8) list \<Rightarrow> serial \<Rightarrow> serial" where
  "write_all ws u = fold (\<lambda>(r, b) u. serial_write u (ucast r) [b]) ws u"

definition init_writes :: "(u16 \<times> u8) list" where
  "init_writes = [(1, 0), (3, 0x80), (0, 1), (1, 0), (3, 3), (2, 7), (4, 0x0b)]"

lemma guest_serial_init_eq: "guest_serial_init outb s = out_all outb init_writes s"
  by (simp add: guest_serial_init_def init_writes_def guest_reg_defs guest_bit_defs)

text \<open>From any state of the UART they leave it transmitting, 8N1 at 115200 baud, with an empty receive FIFO.\<close>

lemma init_writes_spec:
  "transmitting (write_all init_writes u)" "rx (write_all init_writes u) = []" "lcr (write_all init_writes u) = LCR_8N1"
  "dll (write_all init_writes u) = 1" "dlm (write_all init_writes u) = 0" "fcr_enabled (write_all init_writes u)"
  by (simp_all add: write_all_def init_writes_def serial_write_def serial_reg_defs write_fcr_def write_mcr_def Let_def
      transmitting_def dlab_def serial_bit_defs LCR_8N1_def)

lemma write_sends:
  assumes "off \<noteq> 0 \<or> dlab u" and "off = 1 \<longrightarrow> b = 0"
  shows "sends u [] (serial_write u off [b])"
  using assms
  by (auto simp: sends_def masked_def serial_write_def serial_reg_defs write_fcr_def write_mcr_def Let_def masked_update_irq)

lemma init_writes_sends: "sends u [] (write_all init_writes u)"
proof -
  let ?u1 = "serial_write u 1 [0]"
  let ?u2 = "serial_write ?u1 3 [0x80]"
  let ?u3 = "serial_write ?u2 0 [1]"
  have "dlab ?u2" by (simp add: dlab_def serial_write_def serial_reg_defs serial_bit_defs)
  then have "sends u [] ?u3"
    using sends_trans[OF sends_trans[OF write_sends[where off = 1 and u = u and b = 0] write_sends[where off = 3 and u = "?u1" and b = "0x80"]] write_sends[where off = 0 and u = "?u2" and b = 1]] by simp
  moreover have "sends ?u3 [] (write_all init_writes u)"
    unfolding write_all_def init_writes_def
    using sends_trans[OF sends_trans[OF sends_trans[OF write_sends[where off = 1 and u = "?u3" and b = 0] write_sends[where off = 3 and b = 3]]
      write_sends[where off = 2 and b = 7]] write_sends[where off = 4 and b = "0x0b"]] by simp
  ultimately show ?thesis using sends_trans by fastforce
qed

text \<open>The lemmas of the program.\<close>

context uart_ports
begin

lemma out_all_uart:
  assumes "\<forall>(r, b) \<in> set ws. r < 8"
  shows "\<exists>s'. out_all outb ws s = Some s' \<and> uart s' = write_all ws (uart s) \<and> accesses s' = accesses s + of_nat (length ws)"
  using assms
proof (induction ws arbitrary: s)
  case Nil
  then show ?case by (simp add: write_all_def)
next
  case (Cons w ws)
  obtain r b where w: "w = (r, b)" by force
  then obtain s1 where "outb (COM1_BASE + r) b s = Some s1" "uart s1 = serial_write (uart s) (ucast r) [b]"
    "accesses s1 = accesses s + 1"
    using outb_uart[of r b s] Cons.prems by auto
  then show ?case using Cons.IH[of s1] Cons.prems by (auto simp: w write_all_def ac_simps)
qed

lemma wait_thre_returns:
  "\<exists>s'. wait_thre inb s = Some s' \<and> sends (uart s) [] (uart s') \<and> transmitting (uart s') = transmitting (uart s) \<and>
     accesses s' = accesses s + 1"
proof -
  obtain s' b now where i: "inb (COM1_BASE + GUEST_REG_LSR) s = Some (s', b)" "serial_read_reg now (uart s) 5 = (uart s', b)"
    "accesses s' = accesses s + 1"
    using inb_uart[of GUEST_REG_LSR s] by (auto simp: guest_reg_defs)
  then show ?thesis using read_lsr_polls[OF i(2)] by (simp add: wait_thre.simps)
qed

lemma serial_putb_sends:
  assumes "transmitting (uart s)"
  shows "\<exists>s'. serial_putb outb inb b s = Some s' \<and> sends (uart s) [b] (uart s') \<and> transmitting (uart s') \<and>
     accesses s' = accesses s + 2"
proof -
  obtain s1 where s1: "wait_thre inb s = Some s1" "sends (uart s) [] (uart s1)" "transmitting (uart s1)"
    "accesses s1 = accesses s + 1"
    using wait_thre_returns[of s] assms by auto
  obtain s2 where s2: "outb (COM1_BASE + GUEST_REG_THR) b s1 = Some s2" "uart s2 = serial_write (uart s1) 0 [b]"
    "accesses s2 = accesses s1 + 1"
    using outb_uart[of GUEST_REG_THR b s1] by (auto simp: guest_reg_defs)
  show ?thesis
    using s1 s2 write_thr_sends[OF s1(3), of b] sends_trans[OF s1(2)] by (auto simp: serial_putb_def)
qed

lemma serial_print_sends:
  assumes "transmitting (uart s)"
  shows "\<exists>s'. serial_print outb inb bs s = Some s' \<and> sends (uart s) (crlf bs) (uart s') \<and> transmitting (uart s') \<and>
     accesses s' = accesses s + 2 * of_nat (length (crlf bs))"
  using assms
proof (induction bs arbitrary: s)
  case Nil
  then show ?case by (simp add: crlf_def sends_def)
next
  case (Cons b bs)
  let ?cr = "if b = 10 then [13] else [] :: bytes"
  obtain s1 where s1: "(if b = 10 then serial_putb outb inb 13 s else Some s) = Some s1" "sends (uart s) ?cr (uart s1)"
    "transmitting (uart s1)" "accesses s1 = accesses s + 2 * of_nat (length ?cr)"
    using serial_putb_sends[OF Cons.prems, of 13] Cons.prems by (cases "b = 10") (auto simp: sends_def)
  obtain s2 where s2: "serial_putb outb inb b s1 = Some s2" "sends (uart s1) [b] (uart s2)"
    "transmitting (uart s2)" "accesses s2 = accesses s1 + 2"
    using serial_putb_sends[OF s1(3), of b] by auto
  obtain s3 where s3: "serial_print outb inb bs s2 = Some s3" "sends (uart s2) (crlf bs) (uart s3)"
    "transmitting (uart s3)" "accesses s3 = accesses s2 + 2 * of_nat (length (crlf bs))"
    using Cons.IH[OF s2(3)] by auto
  have "crlf (b # bs) = (?cr @ [b]) @ crlf bs" by (simp add: crlf_def)
  moreover have "sends (uart s) ((?cr @ [b]) @ crlf bs) (uart s3)"
    using sends_trans[OF sends_trans[OF s1(2) s2(2)] s3(2)] .
  ultimately show ?case using s1 s2 s3 by (auto simp: algebra_simps)
qed

lemma print_fmt_sends:
  assumes "transmitting (uart s)"
  shows "\<exists>s'. print_fmt outb inb ps s = Some s' \<and> sends (uart s) (crlf (concat ps)) (uart s') \<and> transmitting (uart s') \<and>
     accesses s' = accesses s + 2 * of_nat (length (crlf (concat ps)))"
  using assms
proof (induction ps arbitrary: s)
  case Nil
  then show ?case by (simp add: crlf_def sends_def)
next
  case (Cons p ps)
  obtain s1 where s1: "serial_print outb inb p s = Some s1" "sends (uart s) (crlf p) (uart s1)" "transmitting (uart s1)"
    "accesses s1 = accesses s + 2 * of_nat (length (crlf p))"
    using serial_print_sends[OF Cons.prems, of p] by auto
  have "crlf (concat (p # ps)) = crlf p @ crlf (concat ps)" by (simp add: crlf_def)
  then show ?case using Cons.IH[OF s1(3)] s1 sends_trans[OF s1(2)] by (fastforce simp: algebra_simps)
qed

lemma guest_start_prints:
  "\<exists>s'. guest_start outb inb s = Some s' \<and> sends (uart s) (crlf guest_text) (uart s') \<and> transmitting (uart s') \<and>
     accesses s' = accesses s + 7 + 2 * of_nat (length (crlf guest_text))"
proof -
  obtain s1 where s1: "guest_serial_init outb s = Some s1" "uart s1 = write_all init_writes (uart s)"
    "accesses s1 = accesses s + 7"
    using out_all_uart[of init_writes s] by (auto simp: guest_serial_init_eq init_writes_def)
  have t: "transmitting (uart s1)" "sends (uart s) [] (uart s1)"
    by (simp_all add: s1(2) init_writes_spec init_writes_sends)
  let ?l1 = "[ascii ''Hello World from the guest!''] @ [[10]]" and ?l2 = "[ascii ''val = '', display_u32 11] @ [[10]]"
  obtain s2 where s2: "print_fmt outb inb ?l1 s1 = Some s2" "sends (uart s1) (crlf (concat ?l1)) (uart s2)"
    "transmitting (uart s2)" "accesses s2 = accesses s1 + 2 * of_nat (length (crlf (concat ?l1)))"
    using print_fmt_sends[OF t(1), of ?l1] by blast
  obtain s3 where s3: "print_fmt outb inb ?l2 s2 = Some s3" "sends (uart s2) (crlf (concat ?l2)) (uart s3)"
    "transmitting (uart s3)" "accesses s3 = accesses s2 + 2 * of_nat (length (crlf (concat ?l2)))"
    using print_fmt_sends[OF s2(3), of ?l2] by blast
  have "display_u32 11 = ascii ''11''" by (simp add: display_u32_def display_nat.simps ascii_def)
  then have eq: "concat ?l1 @ concat ?l2 = guest_text" by (simp add: guest_text_def ascii_def)
  have whole: "crlf (concat ?l1) @ crlf (concat ?l2) = crlf guest_text" by (simp only: crlf_append[symmetric] eq)
  have "sends (uart s) (crlf guest_text) (uart s3)"
    using sends_trans[OF sends_trans[OF t(2) s2(2)] s3(2)] by (simp only: append_Nil whole)
  moreover have "accesses s3 = accesses s + 7 + 2 * of_nat (length (crlf guest_text))"
    by (simp only: s3(4) s2(4) s1(3) whole[symmetric] length_append of_nat_add distrib_left add.assoc)
  moreover have "guest_start outb inb s = Some s3"
    by (simp only: guest_start_def println_def Let_def s1(1) s2(1) s3(1) Option.bind.simps)
  ultimately show ?thesis using s3(3) by blast
qed

end

section \<open>The monitor's ports\<close>

text \<open>The port bus of \<open>main\<close>.\<close>

definition com_bus :: "bus_handle bus" where
  "com_bus = [(\<lparr>br_base = 0x2e8, br_len = 8\<rparr>, DevNull), (\<lparr>br_base = 0x2f8, br_len = 8\<rparr>, DevNull),
     (\<lparr>br_base = 0x3e8, br_len = 8\<rparr>, DevNull), (\<lparr>br_base = 0x3f8, br_len = 8\<rparr>, DevSerial),
     (\<lparr>br_base = 0xcf8, br_len = 8\<rparr>, DevPciRoot)]"

lemma com1_port:
  assumes "r < 8"
  shows "ucast (COM1_BASE + r) = (0x3f8 + ucast r :: u64)" and "unat (0x3f8 + ucast r :: u64) = 0x3f8 + unat r"
proof -
  have r: "unat r < 8" using assms by (simp add: word_less_nat_alt)
  then show u: "unat (0x3f8 + ucast r :: u64) = 0x3f8 + unat r"
    by (simp add: unat_word_ariths unsigned_ucast_eq take_bit_nat_eq_self)
  have "unat (COM1_BASE + r) = 0x3f8 + unat r" using r by (simp add: COM1_BASE_def unat_word_ariths)
  then show "ucast (COM1_BASE + r) = (0x3f8 + ucast r :: u64)"
    using r by (simp add: word_unat_eq_iff u unsigned_ucast_eq take_bit_nat_eq_self)
qed

lemma com_bus_wf: "bus_wf com_bus"
  by (simp add: com_bus_def bus_wf_Cons range_ok_def range_end_def saturating_add_def)

lemma com1_lookup:
  assumes "r < 8"
  shows "lookup com_bus (ucast (COM1_BASE + r)) = Some (\<lparr>br_base = 0x3f8, br_len = 8\<rparr>, DevSerial)"
    and "contains_range \<lparr>br_base = 0x3f8, br_len = 8\<rparr> (ucast (COM1_BASE + r)) 1"
proof -
  let ?rng = "\<lparr>br_base = 0x3f8, br_len = 8\<rparr>"
  have h: "holds_access ?rng (ucast (COM1_BASE + r)) 1" "range_ok ?rng"
    using assms by (simp_all add: holds_access_def range_ok_def com1_port word_less_nat_alt)
  show "lookup com_bus (ucast (COM1_BASE + r)) = Some (?rng, DevSerial)"
    by (rule lookup_holds[OF com_bus_wf _ h(1)]) (simp_all add: com_bus_def)
  show "contains_range ?rng (ucast (COM1_BASE + r)) 1"
    using contains_range_holds[OF h(2), where data = "[0 :: u8]" and addr = "ucast (COM1_BASE + r)"] h(1) by simp
qed

lemma com1_offset: "r < 8 \<Longrightarrow> ucast (COM1_BASE + r) - 0x3f8 = (ucast r :: u64)"
  by (simp add: com1_port)

lemma com1_write:
  "r < 8 \<Longrightarrow> bus_write (dev_write oc) com_bus m (ucast (COM1_BASE + r)) [b]
     = Some (m\<lparr>m_serial := serial_write (m_serial m) (ucast r) [b]\<rparr>, True)"
  by (simp add: bus_write_def com1_lookup com1_offset)

lemma com1_read:
  "r < 8 \<Longrightarrow> bus_read (dev_read oc now) com_bus m (ucast (COM1_BASE + r)) [x]
     = (case serial_read_reg now (m_serial m) (ucast r) of (u, b) \<Rightarrow> Some (m\<lparr>m_serial := u\<rparr>, [b], True))"
  by (simp add: bus_read_def com1_lookup com1_offset serial_read_def split: prod.split)

subsection \<open>KVM\<close>

text \<open>
  What the kernel leaves in the shared structure when the guest executes a port instruction: \<open>trap_out\<close> and
  \<open>trap_in\<close> stand for the kernel, \<open>kvm_traps_ok\<close> for its documentation (\<open>KVM_EXIT_IO\<close>: one element of one byte,
  at \<open>data_offset\<close> of the shared page). The guest runs on when the handler lets the vCPU continue; \<open>al\<close> is then
  read from the page.
\<close>

record kvm_traps =
  trap_out :: "u16 \<Rightarrow> u8 \<Rightarrow> kvm_run \<Rightarrow> kvm_run"
  trap_in :: "u16 \<Rightarrow> kvm_run \<Rightarrow> kvm_run"

definition io_at :: "kvm_run \<Rightarrow> nat" where
  "io_at run = unat (io_data_offset (run_io run))"

definition kvm_io_byte :: "u8 \<Rightarrow> u16 \<Rightarrow> kvm_run \<Rightarrow> bool" where
  "kvm_io_byte dir port run \<longleftrightarrow> run_exit_reason run = 2 \<and> io_direction (run_io run) = dir \<and> io_size (run_io run) = 1 \<and>
     io_port (run_io run) = port \<and> io_count (run_io run) = 1 \<and> io_at run < length (run_page run)"

definition kvm_traps_ok :: "kvm_traps \<Rightarrow> bool" where
  "kvm_traps_ok t \<longleftrightarrow>
     (\<forall>port b run. kvm_io_byte KVM_EXIT_IO_OUT port (trap_out t port b run) \<and>
        run_page (trap_out t port b run) ! io_at (trap_out t port b run) = b) \<and>
     (\<forall>port run. kvm_io_byte KVM_EXIT_IO_IN port (trap_in t port run))"

type_synonym kvm_guest = "exit_stats \<times> machine \<times> kvm_run"

definition kvm_outb ::
  "kvm_traps \<Rightarrow> (nat \<Rightarrow> nat) \<Rightarrow> bus_handle bus \<Rightarrow> bus_handle bus \<Rightarrow> kvm_guest out_insn" where
  "kvm_outb t clock pio mmio port b = (\<lambda>(stats, m, run).
     case kvm_handle_exit False clock pio mmio (trap_out t port b run) stats m of
       Some (Inr True, stats', m', run') \<Rightarrow> Some (stats', m', run')
     | _ \<Rightarrow> None)"

definition kvm_inb ::
  "kvm_traps \<Rightarrow> (nat \<Rightarrow> nat) \<Rightarrow> bus_handle bus \<Rightarrow> bus_handle bus \<Rightarrow> kvm_guest in_insn" where
  "kvm_inb t clock pio mmio port = (\<lambda>(stats, m, run).
     case kvm_handle_exit False clock pio mmio (trap_in t port run) stats m of
       Some (Inr True, stats', m', run') \<Rightarrow> Some ((stats', m', run'), run_page run' ! io_at run')
     | _ \<Rightarrow> None)"

lemma kvm_io_byte_exit:
  assumes "kvm_io_byte dir port run"
  shows "kvm_handle_exit False clock pio mmio run stats m =
    map_option (\<lambda>(m', page). (Inr True, stats\<lparr>io_exits := io_exits stats + 1\<rparr>, m', run\<lparr>run_page := page\<rparr>))
      (kvm_io_loop False clock pio (run_io run) [0] m (run_page run))"
proof -
  have "exit_reason_try_from (run_exit_reason run) = Inr ExitIo" "io_exit run = Some (run_io run)"
    using assms by (simp_all add: kvm_io_byte_def exit_reason_try_from_def io_exit_def)
  moreover have "[0..<unat (io_count (run_io run))] = [0]" using assms by (simp add: kvm_io_byte_def)
  ultimately show ?thesis
    by (cases "kvm_io_loop False clock pio (run_io run) [0] m (run_page run)")
      (auto simp: kvm_handle_exit_def kvm_handle_io_exit_def count_io_def)
qed

lemma subslice_single: "i < length xs \<Longrightarrow> subslice i (Suc i) xs = [xs ! i]"
  by (simp add: subslice_def take_Suc hd_drop_conv_nth)

text \<open>On a kernel that traps as documented, the KVM exit handler is a machine's COM1.\<close>

locale kvm_ports =
  fixes t :: kvm_traps and clock :: "nat \<Rightarrow> nat" and mmio :: "bus_handle bus"
  assumes traps: "kvm_traps_ok t"

sublocale kvm_ports \<subseteq> uart_ports "kvm_outb t clock com_bus mmio" "kvm_inb t clock com_bus mmio"
  "\<lambda>(stats, m, run). m_serial m" "\<lambda>(stats, m, run). io_exits stats"
proof (unfold_locales, goal_cases)
  case (1 r b s)
  obtain stats m run where s: "s = (stats, m, run)" by (cases s)
  let ?run = "trap_out t (COM1_BASE + r) b run"
  have k: "kvm_io_byte KVM_EXIT_IO_OUT (COM1_BASE + r) ?run" "run_page ?run ! io_at ?run = b"
    using traps by (simp_all add: kvm_traps_ok_def)
  then have "kvm_io_loop False clock com_bus (run_io ?run) [0] m (run_page ?run)
      = Some (m\<lparr>m_serial := serial_write (m_serial m) (ucast r) [b]\<rparr>, run_page ?run)"
    using com1_write[OF 1, of False m b]
    by (simp add: kvm_io_byte_def io_at_def KVM_EXIT_IO_IN_def KVM_EXIT_IO_OUT_def subslice_single Let_def)
  then show ?case by (simp add: s kvm_outb_def kvm_io_byte_exit[OF k(1)])
next
  case (2 r s)
  obtain stats m run where s: "s = (stats, m, run)" by (cases s)
  let ?run = "trap_in t (COM1_BASE + r) run"
  have k: "kvm_io_byte KVM_EXIT_IO_IN (COM1_BASE + r) ?run" using traps by (simp add: kvm_traps_ok_def)
  obtain u b where u: "serial_read_reg (clock 0) (m_serial m) (ucast r) = (u, b)" by force
  have "kvm_io_loop False clock com_bus (run_io ?run) [0] m (run_page ?run)
      = Some (m\<lparr>m_serial := u\<rparr>, patch_at (io_at ?run) [b] (run_page ?run))"
    using k com1_read[OF 2, of False "clock 0" m] u
    by (simp add: kvm_io_byte_def io_at_def subslice_single Let_def)
  moreover have "patch_at (io_at ?run) [b] (run_page ?run) ! io_at ?run = b"
    using k by (simp add: kvm_io_byte_def patch_at_def nth_append)
  ultimately show ?case using u by (auto simp: s kvm_inb_def kvm_io_byte_exit[OF k] io_at_def)
qed

context kvm_ports
begin

lemmas kvm_guest_prints = guest_start_prints

end

subsection \<open>bhyve\<close>

text \<open>The same on bhyve: a one-byte access through \<open>eax\<close>, whose low byte is \<open>al\<close>.\<close>

record bhyve_traps =
  btrap_out :: "u16 \<Rightarrow> u8 \<Rightarrow> vm_exit"
  btrap_in :: "u16 \<Rightarrow> vm_exit"

definition bhyve_io_byte :: "u16 \<Rightarrow> vm_exit \<Rightarrow> bool" where
  "bhyve_io_byte port e \<longleftrightarrow> vm_exitcode e = CodeInout \<and> inout_port (vm_inout_u e) = port \<and> inout_bytes (vm_inout_u e) = 1"

definition bhyve_traps_ok :: "bhyve_traps \<Rightarrow> bool" where
  "bhyve_traps_ok t \<longleftrightarrow>
     (\<forall>port b. bhyve_io_byte port (btrap_out t port b) \<and> inout_flags (vm_inout_u (btrap_out t port b)) AND INOUT_IN = 0 \<and>
        ucast (inout_eax (vm_inout_u (btrap_out t port b))) = b) \<and>
     (\<forall>port. bhyve_io_byte port (btrap_in t port) \<and> inout_flags (vm_inout_u (btrap_in t port)) AND INOUT_IN \<noteq> 0)"

type_synonym bhyve_guest = "exit_stats \<times> machine"

definition bhyve_outb ::
  "bhyve_traps \<Rightarrow> (nat \<Rightarrow> nat) \<Rightarrow> bus_handle bus \<Rightarrow> bus_handle bus \<Rightarrow> bhyve_guest out_insn" where
  "bhyve_outb t clock pio mmio port b = (\<lambda>(stats, m).
     case bhyve_handle_exit False clock pio mmio (btrap_out t port b) stats m of
       Some ((True, _, EntryInout _), stats', m') \<Rightarrow> Some (stats', m')
     | _ \<Rightarrow> None)"

definition bhyve_inb ::
  "bhyve_traps \<Rightarrow> (nat \<Rightarrow> nat) \<Rightarrow> bus_handle bus \<Rightarrow> bus_handle bus \<Rightarrow> bhyve_guest in_insn" where
  "bhyve_inb t clock pio mmio port = (\<lambda>(stats, m).
     case bhyve_handle_exit False clock pio mmio (btrap_in t port) stats m of
       Some ((True, _, EntryInout reply), stats', m') \<Rightarrow> Some ((stats', m'), ucast (inout_eax reply))
     | _ \<Rightarrow> None)"

locale bhyve_ports =
  fixes t :: bhyve_traps and clock :: "nat \<Rightarrow> nat" and mmio :: "bus_handle bus"
  assumes traps: "bhyve_traps_ok t"

sublocale bhyve_ports \<subseteq> uart_ports "bhyve_outb t clock com_bus mmio" "bhyve_inb t clock com_bus mmio"
  "\<lambda>(stats, m). m_serial m" "\<lambda>(stats, m). io_exits stats"
proof (unfold_locales, goal_cases)
  case (1 r b s)
  obtain stats m where s: "s = (stats, m)" by (cases s)
  let ?e = "btrap_out t (COM1_BASE + r) b"
  have k: "bhyve_io_byte (COM1_BASE + r) ?e" "inout_flags (vm_inout_u ?e) AND INOUT_IN = 0" "ucast (inout_eax (vm_inout_u ?e)) = b"
    using traps by (simp_all add: bhyve_traps_ok_def)
  then have "take 1 (u32_to_le (inout_eax (vm_inout_u ?e))) = [b]" by (simp add: eval_nat_numeral to_le_Suc)
  then show ?case
    using k com1_write[OF 1, of False m b]
    by (simp add: s bhyve_outb_def bhyve_handle_exit_def bhyve_handle_io_exit_def bhyve_io_byte_def count_io_def Let_def)
next
  case (2 r s)
  obtain stats m where s: "s = (stats, m)" by (cases s)
  let ?e = "btrap_in t (COM1_BASE + r)"
  have k: "bhyve_io_byte (COM1_BASE + r) ?e" "inout_flags (vm_inout_u ?e) AND INOUT_IN \<noteq> 0"
    using traps by (simp_all add: bhyve_traps_ok_def)
  obtain u b where u: "serial_read_reg (clock 0) (m_serial m) (ucast r) = (u, b)" by force
  obtain x xs where x: "u32_to_le (inout_eax (vm_inout_u ?e)) = x # xs" by (simp add: eval_nat_numeral to_le_Suc)
  have "ucast (from_le (b # xs) :: u32) = b" 
    by (rule bit_word_eqI) (auto simp: bit_simps)
  then show ?case
    using k com1_read[OF 2, of False "clock 0" m x] u x
    by (auto simp: s bhyve_inb_def bhyve_handle_exit_def bhyve_handle_io_exit_def bhyve_io_byte_def count_io_def Let_def patch_at_def)
qed

context bhyve_ports
begin

lemmas bhyve_guest_prints = guest_start_prints

end

section \<open>Interpretations\<close>

text \<open>
  The port bus itself, each access of the guest reaching it directly; and the handlers, on kernels that trap with
  the data at the page's second 4 KiB, and in \<open>eax\<close>.
\<close>

definition bus_outb :: "bus_handle bus \<Rightarrow> (machine \<times> u64) out_insn" where
  "bus_outb pio port b = (\<lambda>(m, n). map_option (\<lambda>(m', _). (m', n + 1)) (bus_write (dev_write False) pio m (ucast port) [b]))"

definition bus_inb :: "bus_handle bus \<Rightarrow> (machine \<times> u64) in_insn" where
  "bus_inb pio port = (\<lambda>(m, n).
     map_option (\<lambda>(m', d, _). ((m', n + 1), hd d)) (bus_read (dev_read False 0) pio m (ucast port) [0]))"

interpretation bus_port: uart_ports "bus_outb com_bus" "bus_inb com_bus" "\<lambda>(m, n). m_serial m" "\<lambda>(m, n). n"
proof (unfold_locales, goal_cases)
  case (1 r b s)
  then show ?case by (cases s) (simp add: bus_outb_def com1_write)
next
  case (2 r s)
  then show ?case
    by (cases s) (auto simp: bus_inb_def com1_read split: prod.splits)
qed

definition kvm_sim_traps :: kvm_traps where
  "kvm_sim_traps =
     \<lparr>trap_out = (\<lambda>port b run. run\<lparr>run_exit_reason := 2, run_page := replicate 0x1000 0 @ [b],
        run_io := \<lparr>io_direction = 1, io_size = 1, io_port = port, io_count = 1, io_data_offset = 0x1000\<rparr>\<rparr>),
      trap_in = (\<lambda>port run. run\<lparr>run_exit_reason := 2, run_page := replicate 0x1001 0,
        run_io := \<lparr>io_direction = 0, io_size = 1, io_port = port, io_count = 1, io_data_offset = 0x1000\<rparr>\<rparr>)\<rparr>"

lemma kvm_sim_traps_ok: "kvm_traps_ok kvm_sim_traps"
  by (simp add: kvm_traps_ok_def kvm_sim_traps_def kvm_io_byte_def io_at_def KVM_EXIT_IO_IN_def KVM_EXIT_IO_OUT_def nth_append)

interpretation kvm_port: kvm_ports kvm_sim_traps "\<lambda>_. 0" "[]"
  by unfold_locales (rule kvm_sim_traps_ok)

definition bhyve_sim_traps :: bhyve_traps where
  "bhyve_sim_traps =
     (let e = (\<lambda>fl port b. \<lparr>vm_exitcode = CodeInout,
        vm_inout_u = \<lparr>inout_eax = ucast b, inout_port = port, inout_bytes = 1, inout_flags = fl, inout_addrsize = 0, inout_segment = 0\<rparr>,
        vm_mmio_u = \<lparr>vmm_bytes = 0, vmm_read = 0, vmm_gpa = 0, vmm_data = 0\<rparr>\<rparr>)
      in \<lparr>btrap_out = e 0, btrap_in = (\<lambda>port. e 1 port (0 :: u8))\<rparr>)"

lemma bhyve_sim_traps_ok: "bhyve_traps_ok bhyve_sim_traps"
  by (simp add: bhyve_traps_ok_def bhyve_sim_traps_def bhyve_io_byte_def INOUT_IN_def)

interpretation bhyve_port: bhyve_ports bhyve_sim_traps "\<lambda>_. 0" "[]"
  by unfold_locales (rule bhyve_sim_traps_ok)

section \<open>The program on the monitor\<close>

lemma attach_virtio_serial:
  "attach_virtio oc register_irq msink what dev gsi slot m = Some (Inr m') \<Longrightarrow> m_serial m' = m_serial m"
  by (cases "register_irq gsi") (auto simp: attach_virtio_def bind_eq_Some_conv Let_def)

text \<open>The UART and the port bus of a machine that \<open>main\<close> sets up.\<close>

lemma setup_machine_com1:
  assumes "setup_machine oc register_irq msi entropy img now mem ram_size = Some (Inr (m, pio, mmio))"
  shows "pio = com_bus" "tx_out (m_serial m) = []" "irq_log (m_serial m) = []" "masked (m_serial m)"
proof -
  have p: "pio0 = [(\<lparr>br_base = 0xcf8, br_len = 8\<rparr>, DevPciRoot)]" if "register_pci ram_size = Inr (pio0, mmio0)" for pio0 mmio0
    using that register_fresh[of "0xcf8" 8 DevPciRoot] by (auto simp: register_pci_def range_ok_def split: if_splits sum.splits)
  obtain br pio0 mmio0 msink where h: "host_bridge = Some br" "register_pci ram_size = (Inr (pio0, mmio0) :: 'a setup_error + _)" "msi = Inr msink"
    using assms host_bridge_wf
    by (cases "register_pci ram_size :: 'a setup_error + _"; cases msi) (auto simp: setup_machine_def bind_eq_Some_conv)
  obtain rng r1 r2 where r1: "attach_virtio oc register_irq msink ''Virtio RNG IRQ'' (RngDev rng) 12 1
        \<lparr>m_mem = mem, m_root = pci_add_device 0 0 HostBridge pci_root_bus_new, m_bridge = br, m_fns = [],
          m_window = mmio_window_new ram_size, m_serial = serial_new now NullIrqSink\<rparr> = Some r1"
    and r2: "(case r1 of Inl e \<Rightarrow> Some (Inl e)
        | Inr m1 \<Rightarrow> (case img of None \<Rightarrow> Some (Inr m1) | Some (Inl e) \<Rightarrow> Some (Inl (HostFailed ''disk image'' e))
           | Some (Inr blk) \<Rightarrow> attach_virtio oc register_irq msink ''Virtio BLK IRQ'' (BlkDev blk) 14 2 m1)) = Some r2"
    and r3: "(case r2 of Inl e \<Rightarrow> Inl e | Inr m2 \<Rightarrow> (case register_com pio0 of Inl e \<Rightarrow> Inl e
        | Inr pio' \<Rightarrow> (case register_irq GSI_COM1 of Inl e \<Rightarrow> Inl (HostFailed ''COM1 serial device'' e)
           | Inr sink \<Rightarrow> Inr (m2\<lparr>m_serial := replace_irq_sink (m_serial m2) sink\<rparr>, pio', mmio0)))) = Inr (m, pio, mmio)"
    using assms by (auto simp: setup_machine_def h bind_eq_Some_conv Let_def)
  obtain m2 where m2: "r2 = Inr m2" using r3 by (cases r2) auto
  obtain m1 where m1: "r1 = Inr m1" using r2 m2 by (cases r1) auto
  have "m_serial m2 = m_serial m1" 
    using r2 attach_virtio_serial by (fastforce simp: m1 m2 split: option.split_asm sum.split_asm)
  then have "m_serial m2 = serial_new now NullIrqSink" using attach_virtio_serial[OF r1[unfolded m1]] by simp
  then have "\<exists>sink. m_serial m = replace_irq_sink (serial_new now NullIrqSink) sink \<and> pio = com_bus"
    using r3 by (cases "register_irq GSI_COM1") (auto simp: m2 p[OF h(2)] pio_bus_eq com_bus_def)
  then show "pio = com_bus" "tx_out (m_serial m) = []" "irq_log (m_serial m) = []" "masked (m_serial m)"
    by (auto simp: replace_irq_sink_def serial_new_def masked_update_irq masked_def)
qed

lemma crlf_guest_text:
  "crlf guest_text = ascii ''Hello World from the guest!'' @ [13, 10] @ ascii ''val = 11'' @ [13, 10]"
  by (simp add: crlf_def guest_text_def ascii_def)

section \<open>Properties\<close>

text \<open>
  C18. On the machine that \<open>main\<close> sets up, with a kernel that reports port accesses as documented, the guest program
  gets through its initialisation and its polling loops on KVM and on bhyve alike: the host receives exactly its two
  lines, with a carriage return before each line feed, no interrupt is raised, and the exits counted are the 7 writes of
  the initialisation and two for each of the 39 bytes.
\<close>

theorem guest_prints:
  assumes "setup_machine oc register_irq msi entropy img now mem ram_size = Some (Inr (m, pio, mmio))"
    and "kvm_traps_ok t" and "bhyve_traps_ok t'"
  shows "(\<exists>stats' m' run'. guest_start (kvm_outb t clock pio mmio) (kvm_inb t clock pio mmio) (stats, m, run)
        = Some (stats', m', run') \<and>
      tx_out (m_serial m') = ascii ''Hello World from the guest!'' @ [13, 10] @ ascii ''val = 11'' @ [13, 10] \<and>
      irq_log (m_serial m') = [] \<and> io_exits stats' = io_exits stats + 85) \<and>
    (\<exists>stats' m'. guest_start (bhyve_outb t' clock pio mmio) (bhyve_inb t' clock pio mmio) (stats, m) = Some (stats', m') \<and>
      tx_out (m_serial m') = ascii ''Hello World from the guest!'' @ [13, 10] @ ascii ''val = 11'' @ [13, 10] \<and>
      irq_log (m_serial m') = [] \<and> io_exits stats' = io_exits stats + 85)"
proof -
  note u = setup_machine_com1[OF assms(1)]
  have n: "length (crlf guest_text) = 39" by (simp add: crlf_guest_text ascii_def)
  have s: "tx_out u' = ascii ''Hello World from the guest!'' @ [13, 10] @ ascii ''val = 11'' @ [13, 10] \<and> irq_log u' = []"
    if "sends (m_serial m) (crlf guest_text) u'" for u'
    using that u by (simp add: sends_def crlf_guest_text)
  have p: "kvm_ports t" "bhyve_ports t'" using assms(2,3) by (simp_all add: kvm_ports_def bhyve_ports_def)
  show ?thesis
    using kvm_ports.kvm_guest_prints[OF p(1), of clock mmio "(stats, m, run)"]
      bhyve_ports.bhyve_guest_prints[OF p(2), of clock mmio "(stats, m)"]
    by (auto simp: u(1) n dest!: s)
qed

theorem guest_prints_witness:
  "\<exists>m pio mmio stats' m' run' stats'' m''.
     setup_machine False (\<lambda>g. Inr (KvmIrqSink 3 g) :: unit + irq_sink) (Inr (KvmMsiSink 3))
       (Some (\<lambda>_. True, \<lambda>_ _. 7)) None 0 \<lparr>gm_ptr = 1, gm_size = 0x1000000, gm_bytes = (\<lambda>_. 0)\<rparr> 0x1000000
       = Some (Inr (m, pio, mmio)) \<and>
     guest_start (kvm_outb kvm_sim_traps (\<lambda>_. 0) pio mmio) (kvm_inb kvm_sim_traps (\<lambda>_. 0) pio mmio)
       (stats_new, m, \<lparr>run_exit_reason = 0, run_io = \<lparr>io_direction = 0, io_size = 0, io_port = 0, io_count = 0, io_data_offset = 0\<rparr>,
          run_mmio = \<lparr>mmio_phys_addr = 0, mmio_data = [], mmio_len = 0, mmio_is_write = 0\<rparr>, run_page = []\<rparr>) = Some (stats', m', run') \<and>
     take 5 (tx_out (m_serial m')) = ascii ''Hello'' \<and> io_exits stats' = 85 \<and>
     guest_start (bhyve_outb bhyve_sim_traps (\<lambda>_. 0) pio mmio) (bhyve_inb bhyve_sim_traps (\<lambda>_. 0) pio mmio)
       (stats_new, m) = Some (stats'', m'') \<and> tx_out (m_serial m'') = tx_out (m_serial m')"
proof -
  obtain m pio mmio where s: "setup_machine False (\<lambda>g. Inr (KvmIrqSink 3 g) :: unit + irq_sink) (Inr (KvmMsiSink 3))
       (Some (\<lambda>_. True, \<lambda>_ _. 7)) None 0 \<lparr>gm_ptr = 1, gm_size = 0x1000000, gm_bytes = (\<lambda>_. 0)\<rparr> 0x1000000
       = Some (Inr (m, pio, mmio))"
    using setup_machine_ok[where ram_size = "0x1000000" and register_irq = "\<lambda>g. Inr (KvmIrqSink 3 g) :: unit + irq_sink"
        and img = None and oc = False and msink = "KvmMsiSink 3" and src = "(\<lambda>_. True, \<lambda>_ _. 7)" and now = 0
        and mem = "\<lparr>gm_ptr = 1, gm_size = 0x1000000, gm_bytes = (\<lambda>_. 0)\<rparr>"] by auto
  have h: "take 5 (ascii ''Hello World from the guest!'' @ bs) = ascii ''Hello''" for bs by (simp add: ascii_def)
  have z: "io_exits stats_new + 85 = 85" by (simp add: stats_new_def)
  show ?thesis
    using guest_prints[OF s kvm_sim_traps_ok bhyve_sim_traps_ok, of "\<lambda>_. 0" stats_new
        "\<lparr>run_exit_reason = 0, run_io = \<lparr>io_direction = 0, io_size = 0, io_port = 0, io_count = 0, io_data_offset = 0\<rparr>,
          run_mmio = \<lparr>mmio_phys_addr = 0, mmio_data = [], mmio_len = 0, mmio_is_write = 0\<rparr>, run_page = []\<rparr>"] s h z
    by metis
qed

end
