(* ===== verification/Registers.thy ===== *)
theory Registers
  imports Hypervisor Exits
begin

text \<open>
  The register and run ioctls of a vCPU (\<open>src/kvm/core.rs\<close>, \<open>src/bhyve/core.rs\<close>, the structures of their \<open>api.rs\<close>) at the
  level of the system call: a request number and a buffer with the bytes of a \<open>repr(C)\<close> structure. The operations that
  the other theories take as those of a vCPU are built on them here, and on a kernel that stores and loads these
  buffers they keep the contracts \<open>kvm_kernel\<close> and \<open>bhyve_kernel\<close>: the layouts lose nothing and no register is mistaken for
  another.
\<close>

section \<open>System calls\<close>

text \<open>
  \<open>raw fd request buffer\<close> is \<open>libc::ioctl\<close> with a pointer: a C \<open>int\<close>, the error number it leaves, and the buffer after
  the call. A failed call is an \<open>Err\<close>; the callers only wrap its message.
\<close>

type_synonym ('q, 'k, 'e) raw_ioctl = "i32 \<Rightarrow> 'q \<Rightarrow> bytes \<Rightarrow> 'k \<Rightarrow> (i32 \<times> 'e) \<times> bytes \<times> 'k"

definition ioctl_with_ref :: "('q, 'k, 'e) raw_ioctl \<Rightarrow> i32 \<Rightarrow> 'q \<Rightarrow> bytes \<Rightarrow> 'k \<Rightarrow> ('e + i32) \<times> 'k" where
  "ioctl_with_ref raw fd req arg k = (case raw fd req arg k of (r, _, k') \<Rightarrow> (ioctl_result r, k'))"

definition ioctl_with_mut_ref :: "('q, 'k, 'e) raw_ioctl \<Rightarrow> i32 \<Rightarrow> 'q \<Rightarrow> bytes \<Rightarrow> 'k \<Rightarrow> ('e + i32) \<times> bytes \<times> 'k" where
  "ioctl_with_mut_ref raw fd req arg k = (case raw fd req arg k of (r, arg', k') \<Rightarrow> (ioctl_result r, arg', k'))"

definition ioctl_with_val ::
  "(i32 \<Rightarrow> 'q \<Rightarrow> u64 \<Rightarrow> 'k \<Rightarrow> (i32 \<times> 'e) \<times> 'k) \<Rightarrow> i32 \<Rightarrow> 'q \<Rightarrow> u64 \<Rightarrow> 'k \<Rightarrow> ('e + i32) \<times> 'k" where
  "ioctl_with_val raw fd req arg k = (case raw fd req arg k of (r, k') \<Rightarrow> (ioctl_result r, k'))"

section \<open>KVM\<close>

text \<open>The sizes in the request numbers are those of the structures.\<close>

definition KVM_RUN :: u64 where "KVM_RUN = io_req KVMIO 0x80"
definition KVM_GET_REGS :: u64 where "KVM_GET_REGS = ior_req 144 KVMIO 0x81"
definition KVM_SET_REGS :: u64 where "KVM_SET_REGS = iow_req 144 KVMIO 0x82"
definition KVM_GET_SREGS :: u64 where "KVM_GET_SREGS = ior_req 312 KVMIO 0x83"
definition KVM_SET_SREGS :: u64 where "KVM_SET_SREGS = iow_req 312 KVMIO 0x84"

lemma kvm_vcpu_requests:
  "KVM_RUN = 0xAE80" "KVM_GET_REGS = 0x8090AE81" "KVM_SET_REGS = 0x4090AE82" "KVM_GET_SREGS = 0x8138AE83"
  "KVM_SET_SREGS = 0x4138AE84"
  by code_simp+

text \<open>The structures as memory: every field little-endian at its offset, with no padding between fields.\<close>

definition kvm_regs_words :: "kvm_regs \<Rightarrow> u64 list" where
  "kvm_regs_words r = [k_rax r, k_rbx r, k_rcx r, k_rdx r, k_rsi r, k_rdi r, k_rsp r, k_rbp r, k_r8 r, k_r9 r, k_r10 r,
     k_r11 r, k_r12 r, k_r13 r, k_r14 r, k_r15 r, k_rip r, k_rflags r]"

definition kvm_regs_bytes :: "kvm_regs \<Rightarrow> bytes" where
  "kvm_regs_bytes r = concat (map u64_to_le (kvm_regs_words r))"

definition word_at :: "bytes \<Rightarrow> nat \<Rightarrow> u64" where
  "word_at bs i = from_le (subslice (8 * i) (8 * i + 8) bs)"

definition parse_kvm_regs :: "bytes \<Rightarrow> kvm_regs" where
  "parse_kvm_regs bs =
     \<lparr>k_rax = word_at bs 0, k_rbx = word_at bs 1, k_rcx = word_at bs 2, k_rdx = word_at bs 3, k_rsi = word_at bs 4,
      k_rdi = word_at bs 5, k_rsp = word_at bs 6, k_rbp = word_at bs 7, k_r8 = word_at bs 8, k_r9 = word_at bs 9,
      k_r10 = word_at bs 10, k_r11 = word_at bs 11, k_r12 = word_at bs 12, k_r13 = word_at bs 13, k_r14 = word_at bs 14,
      k_r15 = word_at bs 15, k_rip = word_at bs 16, k_rflags = word_at bs 17\<rparr>"

definition kvm_segment_bytes :: "kvm_segment \<Rightarrow> bytes" where
  "kvm_segment_bytes s = u64_to_le (ks_base s) @ u32_to_le (ks_limit s) @ u16_to_le (ks_selector s) @
     [ks_type s, ks_present s, ks_dpl s, ks_db s, ks_s s, ks_l s, ks_g s, ks_avl s, ks_unusable s, ks_padding s]"

definition parse_kvm_segment :: "bytes \<Rightarrow> kvm_segment" where
  "parse_kvm_segment bs =
     \<lparr>ks_base = from_le (subslice 0 8 bs), ks_limit = from_le (subslice 8 12 bs), ks_selector = from_le (subslice 12 14 bs),
      ks_type = bs ! 14, ks_present = bs ! 15, ks_dpl = bs ! 16, ks_db = bs ! 17, ks_s = bs ! 18, ks_l = bs ! 19,
      ks_g = bs ! 20, ks_avl = bs ! 21, ks_unusable = bs ! 22, ks_padding = bs ! 23\<rparr>"

definition kvm_dtable_bytes :: "kvm_dtable \<Rightarrow> bytes" where
  "kvm_dtable_bytes d = u64_to_le (kd_base d) @ u16_to_le (kd_limit d) @ concat (map u16_to_le (kd_padding d))"

definition parse_kvm_dtable :: "bytes \<Rightarrow> kvm_dtable" where
  "parse_kvm_dtable bs =
     \<lparr>kd_base = from_le (subslice 0 8 bs), kd_limit = from_le (subslice 8 10 bs),
      kd_padding = [from_le (subslice 10 12 bs), from_le (subslice 12 14 bs), from_le (subslice 14 16 bs)]\<rparr>"

definition kvm_sregs_bytes :: "kvm_sregs \<Rightarrow> bytes" where
  "kvm_sregs_bytes s =
     concat (map kvm_segment_bytes [k_cs s, k_ds s, k_es s, k_fs s, k_gs s, k_ss s, k_tr s, k_ldt s]) @
     concat (map kvm_dtable_bytes [k_gdt s, k_idt s]) @
     concat (map u64_to_le ([k_cr0 s, k_cr2 s, k_cr3 s, k_cr4 s, k_cr8 s, k_efer s, k_apic_base s] @ k_interrupt_bitmap s))"

text \<open>\<open>chunk n bs i\<close>: element \<open>i\<close> of an array of \<open>n\<close>-byte elements.\<close>

definition chunk :: "nat \<Rightarrow> bytes \<Rightarrow> nat \<Rightarrow> bytes" where
  "chunk n bs i = subslice (n * i) (n * i + n) bs"

definition parse_kvm_sregs :: "bytes \<Rightarrow> kvm_sregs" where
  "parse_kvm_sregs bs =
     (let seg = (\<lambda>i. parse_kvm_segment (chunk 24 (subslice 0 192 bs) i));
          dt = (\<lambda>i. parse_kvm_dtable (chunk 16 (subslice 192 224 bs) i));
          w = word_at (subslice 224 312 bs)
      in \<lparr>k_cs = seg 0, k_ds = seg 1, k_es = seg 2, k_fs = seg 3, k_gs = seg 4, k_ss = seg 5, k_tr = seg 6, k_ldt = seg 7,
          k_gdt = dt 0, k_idt = dt 1, k_cr0 = w 0, k_cr2 = w 1, k_cr3 = w 2, k_cr4 = w 3, k_cr8 = w 4, k_efer = w 5,
          k_apic_base = w 6, k_interrupt_bitmap = [w 7, w 8, w 9, w 10]\<rparr>)"

text \<open>
  The four ioctls; a structure to be filled starts zeroed. A \<open>get\<close> leaves the kernel's state as it is, so the model
  goes on with the state before it.
\<close>

definition kvm_fd_get_regs :: "(u64, 'k, 'e) raw_ioctl \<Rightarrow> i32 \<Rightarrow> 'k \<Rightarrow> 'e + kvm_regs" where
  "kvm_fd_get_regs raw fd k =
     (case ioctl_with_mut_ref raw fd KVM_GET_REGS (replicate 144 0) k of
        (Inr _, arg, _) \<Rightarrow> Inr (parse_kvm_regs arg)
      | (Inl e, _, _) \<Rightarrow> Inl e)"

definition kvm_fd_set_regs :: "(u64, 'k, 'e) raw_ioctl \<Rightarrow> i32 \<Rightarrow> 'k \<Rightarrow> kvm_regs \<Rightarrow> 'e + 'k" where
  "kvm_fd_set_regs raw fd k r =
     (case ioctl_with_ref raw fd KVM_SET_REGS (kvm_regs_bytes r) k of
        (Inr _, k') \<Rightarrow> Inr k'
      | (Inl e, _) \<Rightarrow> Inl e)"

definition kvm_fd_get_sregs :: "(u64, 'k, 'e) raw_ioctl \<Rightarrow> i32 \<Rightarrow> 'k \<Rightarrow> 'e + kvm_sregs" where
  "kvm_fd_get_sregs raw fd k =
     (case ioctl_with_mut_ref raw fd KVM_GET_SREGS (replicate 312 0) k of
        (Inr _, arg, _) \<Rightarrow> Inr (parse_kvm_sregs arg)
      | (Inl e, _, _) \<Rightarrow> Inl e)"

definition kvm_fd_set_sregs :: "(u64, 'k, 'e) raw_ioctl \<Rightarrow> i32 \<Rightarrow> 'k \<Rightarrow> kvm_sregs \<Rightarrow> 'e + 'k" where
  "kvm_fd_set_sregs raw fd k s =
     (case ioctl_with_ref raw fd KVM_SET_SREGS (kvm_sregs_bytes s) k of
        (Inr _, k') \<Rightarrow> Inr k'
      | (Inl e, _) \<Rightarrow> Inl e)"

definition kvm_fd_ops :: "(u64, 'k, 'e) raw_ioctl \<Rightarrow> i32 \<Rightarrow> ('k, 'e) kvm_ops" where
  "kvm_fd_ops raw fd = \<lparr>io_get_regs = kvm_fd_get_regs raw fd, io_set_regs = kvm_fd_set_regs raw fd,
     io_get_sregs = kvm_fd_get_sregs raw fd, io_set_sregs = kvm_fd_set_sregs raw fd\<rparr>"

text \<open>Entering the guest: the exit is read from the shared page, which \<open>page\<close> is.\<close>

definition kvm_fd_run ::
  "(i32 \<Rightarrow> u64 \<Rightarrow> u64 \<Rightarrow> 'k \<Rightarrow> (i32 \<times> 'e) \<times> 'k) \<Rightarrow> ('k \<Rightarrow> kvm_run) \<Rightarrow> i32 \<Rightarrow> 'k \<Rightarrow> ('e + kvm_run) \<times> 'k" where
  "kvm_fd_run raw page fd k =
     (case ioctl_with_val raw fd KVM_RUN 0 k of
        (Inr _, k') \<Rightarrow> (Inr (page k'), k')
      | (Inl e, k') \<Rightarrow> (Inl e, k'))"

section \<open>Layouts\<close>

lemma concat_chunk:
  assumes "\<forall>x \<in> set xs. length (f x) = n" and "i < length xs"
  shows "subslice (n * i) (n * i + n) (concat (map f xs)) = f (xs ! i)"
  using assms
proof (induction xs arbitrary: i)
  case (Cons x xs)
  then show ?case by (cases i) (auto simp: subslice_def)
qed simp

lemma word_at_words: "i < length ws \<Longrightarrow> word_at (concat (map u64_to_le ws)) i = ws ! i"
  using concat_chunk[of ws u64_to_le 8 i] by (simp add: word_at_def)

lemma length_concat_chunks: "\<forall>x \<in> set xs. length (f x) = n \<Longrightarrow> length (concat (map f xs)) = n * length xs"
  by (induction xs) auto

lemma parse_chunk:
  assumes "\<forall>x \<in> set xs. length (f x) = n \<and> p (f x) = x" and "i < length xs"
  shows "p (chunk n (concat (map f xs)) i) = xs ! i"
  using concat_chunk[of xs f n i] assms by (simp add: chunk_def)

lemma kvm_regs_parse: "parse_kvm_regs (kvm_regs_bytes r) = r" "length (kvm_regs_bytes r) = 144"
proof -
  have "word_at (kvm_regs_bytes r) i = kvm_regs_words r ! i" if "i < 18" for i
    unfolding kvm_regs_bytes_def by (rule word_at_words) (use that in \<open>simp add: kvm_regs_words_def\<close>)
  then show "parse_kvm_regs (kvm_regs_bytes r) = r" by (simp add: parse_kvm_regs_def kvm_regs_words_def)
  show "length (kvm_regs_bytes r) = 144"
    unfolding kvm_regs_bytes_def by (subst length_concat_chunks[where n = 8]) (simp_all add: kvm_regs_words_def)
qed

lemma kvm_segment_parse: "parse_kvm_segment (kvm_segment_bytes s) = s" "length (kvm_segment_bytes s) = 24"
  by (simp_all add: parse_kvm_segment_def kvm_segment_bytes_def subslice_def nth_append)

lemma kvm_dtable_parse:
  assumes "length (kd_padding d) = 3"
  shows "parse_kvm_dtable (kvm_dtable_bytes d) = d" "length (kvm_dtable_bytes d) = 16"
proof -
  obtain a b c where "kd_padding d = [a, b, c]" using assms by (auto simp: eval_nat_numeral length_Suc_conv)
  then show "parse_kvm_dtable (kvm_dtable_bytes d) = d" "length (kvm_dtable_bytes d) = 16"
    by (simp_all add: parse_kvm_dtable_def kvm_dtable_bytes_def subslice_def)
qed

lemma kvm_sregs_parse:
  assumes "kvm_sregs_ok s"
  shows "parse_kvm_sregs (kvm_sregs_bytes s) = s" "length (kvm_sregs_bytes s) = 312"
proof -
  let ?segs = "[k_cs s, k_ds s, k_es s, k_fs s, k_gs s, k_ss s, k_tr s, k_ldt s]"
  let ?dts = "[k_gdt s, k_idt s]"
  let ?ws = "[k_cr0 s, k_cr2 s, k_cr3 s, k_cr4 s, k_cr8 s, k_efer s, k_apic_base s] @ k_interrupt_bitmap s"
  let ?a = "concat (map kvm_segment_bytes ?segs)" and ?b = "concat (map kvm_dtable_bytes ?dts)" and ?c = "concat (map u64_to_le ?ws)"
  have d: "\<forall>x \<in> set ?dts. length (kvm_dtable_bytes x) = 16" and bm: "length (k_interrupt_bitmap s) = 4"
    using assms by (auto simp: kvm_sregs_ok_def kvm_dtable_parse)
  have len: "length ?a = 192" "length ?b = 32" "length ?c = 88"
    using length_concat_chunks[OF d] length_concat_chunks[of ?segs kvm_segment_bytes 24] length_concat_chunks[of ?ws u64_to_le 8] bm
    by (simp_all add: kvm_segment_parse)
  have e: "kvm_sregs_bytes s = ?a @ ?b @ ?c" by (simp only: kvm_sregs_bytes_def)
  show "length (kvm_sregs_bytes s) = 312" unfolding e length_append len by simp
  have parts: "subslice 0 192 (?a @ ?b @ ?c) = ?a" "subslice 192 224 (?a @ ?b @ ?c) = ?b" "subslice 224 312 (?a @ ?b @ ?c) = ?c"
    unfolding subslice_def using len by (simp_all only: take_append drop_append) simp_all
  have segs: "parse_kvm_segment (chunk 24 ?a i) = ?segs ! i" if "i < 8" for i
    by (rule parse_chunk) (use that in \<open>simp_all add: kvm_segment_parse\<close>)
  have dts: "parse_kvm_dtable (chunk 16 ?b i) = ?dts ! i" if "i < 2" for i
    by (rule parse_chunk) (use that assms in \<open>simp_all add: kvm_dtable_parse kvm_sregs_ok_def\<close>)
  have ws: "word_at ?c i = ?ws ! i" if "i < 11" for i
    using word_at_words[of i ?ws] that bm by simp
  obtain a b c d where "k_interrupt_bitmap s = [a, b, c, d]" using bm by (auto simp: eval_nat_numeral length_Suc_conv)
  moreover have "parse_kvm_sregs (A @ B @ C) = s"
    if "A = ?a" "B = ?b" "C = ?c" "k_interrupt_bitmap s = [a, b, c, d]" for A B C
  proof -
    have "parse_kvm_segment (chunk 24 A i) = ?segs ! i" if "i < 8" for i using segs[OF that] \<open>A = ?a\<close> by (simp only:)
    moreover have "parse_kvm_dtable (chunk 16 B i) = ?dts ! i" if "i < 2" for i using dts[OF that] \<open>B = ?b\<close> by (simp only:)
    moreover have "word_at C i = ?ws ! i" if "i < 11" for i using ws[OF that] \<open>C = ?c\<close> by (simp only:)
    moreover have "subslice 0 192 (A @ B @ C) = A" "subslice 192 224 (A @ B @ C) = B" "subslice 224 312 (A @ B @ C) = C"
      using parts that(1-3) by (simp_all only:)
    ultimately show ?thesis using that(4) by (simp add: parse_kvm_sregs_def Let_def)
  qed
  ultimately show "parse_kvm_sregs (kvm_sregs_bytes s) = s" unfolding e by blast
qed

section \<open>bhyve\<close>

definition VM_RUN :: u32 where "VM_RUN = VMM_CPU_IOC_BASE OR 0x01"
definition VM_SET_REGISTER :: u32 where "VM_SET_REGISTER = VMM_CPU_IOC_BASE OR 0x02"
definition VM_GET_REGISTER :: u32 where "VM_GET_REGISTER = VMM_CPU_IOC_BASE OR 0x03"
definition VM_SET_SEGMENT_DESCRIPTOR :: u32 where "VM_SET_SEGMENT_DESCRIPTOR = VMM_CPU_IOC_BASE OR 0x04"
definition VM_GET_SEGMENT_DESCRIPTOR :: u32 where "VM_GET_SEGMENT_DESCRIPTOR = VMM_CPU_IOC_BASE OR 0x05"

lemma vm_requests:
  "VM_RUN = 0x767001" "VM_SET_REGISTER = 0x767002" "VM_GET_REGISTER = 0x767003" "VM_SET_SEGMENT_DESCRIPTOR = 0x767004"
  "VM_GET_SEGMENT_DESCRIPTOR = 0x767005"
  by code_simp+

text \<open>\<open>reg as i32\<close>.\<close>

primrec reg_num :: "vm_reg_name \<Rightarrow> i32" where
  "reg_num RegRax = 0"
| "reg_num RegRbx = 1"
| "reg_num RegRcx = 2"
| "reg_num RegRdx = 3"
| "reg_num RegRsi = 4"
| "reg_num RegRdi = 5"
| "reg_num RegRbp = 6"
| "reg_num RegR8 = 7"
| "reg_num RegR9 = 8"
| "reg_num RegR10 = 9"
| "reg_num RegR11 = 10"
| "reg_num RegR12 = 11"
| "reg_num RegR13 = 12"
| "reg_num RegR14 = 13"
| "reg_num RegR15 = 14"
| "reg_num RegCr0 = 15"
| "reg_num RegCr3 = 16"
| "reg_num RegCr4 = 17"
| "reg_num RegDr7 = 18"
| "reg_num RegRsp = 19"
| "reg_num RegRip = 20"
| "reg_num RegRflags = 21"
| "reg_num RegEs = 22"
| "reg_num RegCs = 23"
| "reg_num RegSs = 24"
| "reg_num RegDs = 25"
| "reg_num RegFs = 26"
| "reg_num RegGs = 27"
| "reg_num RegLdtr = 28"
| "reg_num RegTr = 29"
| "reg_num RegIdtr = 30"
| "reg_num RegGdtr = 31"
| "reg_num RegEfer = 32"
| "reg_num RegCr2 = 33"
| "reg_num RegPdpte0 = 34"
| "reg_num RegPdpte1 = 35"
| "reg_num RegPdpte2 = 36"
| "reg_num RegPdpte3 = 37"
| "reg_num RegIntrShadow = 38"
| "reg_num RegDr0 = 39"
| "reg_num RegDr1 = 40"
| "reg_num RegDr2 = 41"
| "reg_num RegDr3 = 42"
| "reg_num RegDr6 = 43"
| "reg_num RegEntryInstLength = 44"
| "reg_num RegXcr0 = 45"
| "reg_num RegLast = 46"

record vm_register =
  vr_cpuid :: i32
  vr_regnum :: i32
  vr_regval :: u64

record vm_seg_desc =
  vd_cpuid :: i32
  vd_regnum :: i32
  vd_desc :: seg_desc

definition vm_register_bytes :: "vm_register \<Rightarrow> bytes" where
  "vm_register_bytes r = to_le 4 (vr_cpuid r) @ to_le 4 (vr_regnum r) @ u64_to_le (vr_regval r)"

definition parse_vm_register :: "bytes \<Rightarrow> vm_register" where
  "parse_vm_register bs = \<lparr>vr_cpuid = from_le (subslice 0 4 bs), vr_regnum = from_le (subslice 4 8 bs),
     vr_regval = from_le (subslice 8 16 bs)\<rparr>"

definition vm_seg_desc_bytes :: "vm_seg_desc \<Rightarrow> bytes" where
  "vm_seg_desc_bytes d = to_le 4 (vd_cpuid d) @ to_le 4 (vd_regnum d) @ u64_to_le (sd_base (vd_desc d)) @
     u32_to_le (sd_limit (vd_desc d)) @ u32_to_le (sd_access (vd_desc d))"

definition parse_vm_seg_desc :: "bytes \<Rightarrow> vm_seg_desc" where
  "parse_vm_seg_desc bs = \<lparr>vd_cpuid = from_le (subslice 0 4 bs), vd_regnum = from_le (subslice 4 8 bs),
     vd_desc = \<lparr>sd_base = from_le (subslice 8 16 bs), sd_limit = from_le (subslice 16 20 bs),
       sd_access = from_le (subslice 20 24 bs)\<rparr>\<rparr>"

definition vm_set_register :: "(u32, 'k, 'e) raw_ioctl \<Rightarrow> i32 \<Rightarrow> u32 \<Rightarrow> 'k \<Rightarrow> vm_reg_name \<Rightarrow> u64 \<Rightarrow> 'e + 'k" where
  "vm_set_register raw fd cpu k reg v =
     (case ioctl_with_ref raw fd VM_SET_REGISTER
         (vm_register_bytes \<lparr>vr_cpuid = ucast cpu, vr_regnum = reg_num reg, vr_regval = v\<rparr>) k of
        (Inl e, _) \<Rightarrow> Inl e
      | (Inr _, k') \<Rightarrow> Inr k')"

definition vm_get_register :: "(u32, 'k, 'e) raw_ioctl \<Rightarrow> i32 \<Rightarrow> u32 \<Rightarrow> 'k \<Rightarrow> vm_reg_name \<Rightarrow> 'e + u64" where
  "vm_get_register raw fd cpu k reg =
     (case ioctl_with_mut_ref raw fd VM_GET_REGISTER
         (vm_register_bytes \<lparr>vr_cpuid = ucast cpu, vr_regnum = reg_num reg, vr_regval = 0\<rparr>) k of
        (Inl e, _, _) \<Rightarrow> Inl e
      | (Inr _, arg, _) \<Rightarrow> Inr (vr_regval (parse_vm_register arg)))"

text \<open>The descriptor halves of \<open>set_segment\<close>, \<open>get_segment\<close>, \<open>set_dtable\<close> and \<open>get_dtable\<close>.\<close>

definition vm_set_desc :: "(u32, 'k, 'e) raw_ioctl \<Rightarrow> i32 \<Rightarrow> u32 \<Rightarrow> 'k \<Rightarrow> vm_reg_name \<Rightarrow> seg_desc \<Rightarrow> 'e + 'k" where
  "vm_set_desc raw fd cpu k reg d =
     (case ioctl_with_ref raw fd VM_SET_SEGMENT_DESCRIPTOR
         (vm_seg_desc_bytes \<lparr>vd_cpuid = ucast cpu, vd_regnum = reg_num reg, vd_desc = d\<rparr>) k of
        (Inl e, _) \<Rightarrow> Inl e
      | (Inr _, k') \<Rightarrow> Inr k')"

definition vm_get_desc :: "(u32, 'k, 'e) raw_ioctl \<Rightarrow> i32 \<Rightarrow> u32 \<Rightarrow> 'k \<Rightarrow> vm_reg_name \<Rightarrow> 'e + seg_desc" where
  "vm_get_desc raw fd cpu k reg =
     (case ioctl_with_mut_ref raw fd VM_GET_SEGMENT_DESCRIPTOR
         (vm_seg_desc_bytes \<lparr>vd_cpuid = ucast cpu, vd_regnum = reg_num reg,
            vd_desc = \<lparr>sd_base = 0, sd_limit = 0, sd_access = 0\<rparr>\<rparr>) k of
        (Inl e, _, _) \<Rightarrow> Inl e
      | (Inr _, arg, _) \<Rightarrow> Inr (vd_desc (parse_vm_seg_desc arg)))"

definition vm_fd_ops :: "(u32, 'k, 'e) raw_ioctl \<Rightarrow> i32 \<Rightarrow> u32 \<Rightarrow> ('k, 'e) vm_ops" where
  "vm_fd_ops raw fd cpu = \<lparr>op_set_reg = vm_set_register raw fd cpu, op_get_reg = vm_get_register raw fd cpu,
     op_set_desc = vm_set_desc raw fd cpu, op_get_desc = vm_get_desc raw fd cpu\<rparr>"

text \<open>
  Entering the guest on bhyve hands back the command and the data of the previous exit. The kernel fills the exit
  structure the entry points to.
\<close>

record vm_entry =
  ve_cpuid :: i32
  ve_cmd :: u32
  ve_u :: vm_entry_union

definition vm_fd_run ::
  "(i32 \<Rightarrow> u32 \<Rightarrow> vm_entry \<Rightarrow> 'k \<Rightarrow> (i32 \<times> 'e) \<times> vm_exit \<times> 'k) \<Rightarrow> i32 \<Rightarrow> u32 \<Rightarrow> u32 \<Rightarrow> vm_entry_union \<Rightarrow> 'k \<Rightarrow>
   ('e + vm_exit) \<times> 'k" where
  "vm_fd_run raw fd cpu next_cmd next_entry_u k =
     (case raw fd VM_RUN \<lparr>ve_cpuid = ucast cpu, ve_cmd = next_cmd, ve_u = next_entry_u\<rparr> k of
        (r, vm_exit, k') \<Rightarrow> (case ioctl_result r of Inr _ \<Rightarrow> (Inr vm_exit, k') | Inl e \<Rightarrow> (Inl e, k')))"

lemma reg_num_inject: "reg_num r = reg_num r' \<longleftrightarrow> r = r'"
proof -
  let ?names = "[RegRax, RegRbx, RegRcx, RegRdx, RegRsi, RegRdi, RegRbp, RegR8, RegR9, RegR10, RegR11, RegR12, RegR13, RegR14,
    RegR15, RegCr0, RegCr3, RegCr4, RegDr7, RegRsp, RegRip, RegRflags, RegEs, RegCs, RegSs, RegDs, RegFs, RegGs, RegLdtr, RegTr,
    RegIdtr, RegGdtr, RegEfer, RegCr2, RegPdpte0, RegPdpte1, RegPdpte2, RegPdpte3, RegIntrShadow, RegDr0, RegDr1, RegDr2, RegDr3,
    RegDr6, RegEntryInstLength, RegXcr0, RegLast]"
  have "?names ! unat (reg_num r) = r" for r by (cases r) simp_all
  then show ?thesis by metis
qed

lemma vm_register_parse: "parse_vm_register (vm_register_bytes r) = r" "length (vm_register_bytes r) = 16"
  by (simp_all add: parse_vm_register_def vm_register_bytes_def subslice_def)

lemma vm_seg_desc_parse: "parse_vm_seg_desc (vm_seg_desc_bytes d) = d" "length (vm_seg_desc_bytes d) = 24"
  by (simp_all add: parse_vm_seg_desc_def vm_seg_desc_bytes_def subslice_def)

section \<open>The kernels' side\<close>

text \<open>
  KVM as documented, on the descriptor of a vCPU: the register file is a buffer per structure; setting one stores it,
  getting one fills the caller's buffer, and the two structures are independent.
\<close>

locale kvm_abi =
  fixes raw :: "(u64, 'k, 'e) raw_ioctl" and fd :: i32 and gpr :: "'k \<Rightarrow> bytes" and spr :: "'k \<Rightarrow> bytes"
  assumes get_gpr: "length b = 144 \<Longrightarrow> \<exists>r e k'. raw fd KVM_GET_REGS b k = ((r, e), gpr k, k') \<and> 0 \<le> sint r"
    and get_spr: "length b = 312 \<Longrightarrow> \<exists>r e k'. raw fd KVM_GET_SREGS b k = ((r, e), spr k, k') \<and> 0 \<le> sint r"
    and set_gpr: "length b = 144 \<Longrightarrow>
      \<exists>r e b' k'. raw fd KVM_SET_REGS b k = ((r, e), b', k') \<and> 0 \<le> sint r \<and> gpr k' = b \<and> spr k' = spr k"
    and set_spr: "length b = 312 \<Longrightarrow>
      \<exists>r e b' k'. raw fd KVM_SET_SREGS b k = ((r, e), b', k') \<and> 0 \<le> sint r \<and> spr k' = b \<and> gpr k' = gpr k"
begin

lemma fd_get: "kvm_fd_get_regs raw fd k = Inr (parse_kvm_regs (gpr k))" "kvm_fd_get_sregs raw fd k = Inr (parse_kvm_sregs (spr k))"
proof -
  obtain r e k' where "raw fd KVM_GET_REGS (replicate 144 0) k = ((r, e), gpr k, k')" "0 \<le> sint r"
    using get_gpr[of "replicate 144 0" k] by auto
  then show "kvm_fd_get_regs raw fd k = Inr (parse_kvm_regs (gpr k))"
    by (simp add: kvm_fd_get_regs_def ioctl_with_mut_ref_def ioctl_result_def)
  obtain r e k' where "raw fd KVM_GET_SREGS (replicate 312 0) k = ((r, e), spr k, k')" "0 \<le> sint r"
    using get_spr[of "replicate 312 0" k] by auto
  then show "kvm_fd_get_sregs raw fd k = Inr (parse_kvm_sregs (spr k))"
    by (simp add: kvm_fd_get_sregs_def ioctl_with_mut_ref_def ioctl_result_def)
qed

lemma fd_set_regs: "\<exists>k'. kvm_fd_set_regs raw fd k r = Inr k' \<and> gpr k' = kvm_regs_bytes r \<and> spr k' = spr k"
  using set_gpr[OF kvm_regs_parse(2), of r k] by (auto simp: kvm_fd_set_regs_def ioctl_with_ref_def ioctl_result_def)

lemma fd_set_sregs:
  "kvm_sregs_ok s \<Longrightarrow> \<exists>k'. kvm_fd_set_sregs raw fd k s = Inr k' \<and> spr k' = kvm_sregs_bytes s \<and> gpr k' = gpr k"
  using set_spr[OF kvm_sregs_parse(2), of s k] by (auto simp: kvm_fd_set_sregs_def ioctl_with_ref_def ioctl_result_def)

end

sublocale kvm_abi \<subseteq> kvm_kernel "kvm_fd_ops raw fd"
proof
  fix k r show "\<exists>k'. io_set_regs (kvm_fd_ops raw fd) k r = Inr k' \<and> io_get_regs (kvm_fd_ops raw fd) k' = Inr r \<and>
      io_get_sregs (kvm_fd_ops raw fd) k' = io_get_sregs (kvm_fd_ops raw fd) k"
    using fd_set_regs[of k r] by (auto simp: kvm_fd_ops_def fd_get kvm_regs_parse)
next
  fix k s assume "kvm_sregs_ok s"
  then show "\<exists>k'. io_set_sregs (kvm_fd_ops raw fd) k s = Inr k' \<and> io_get_sregs (kvm_fd_ops raw fd) k' = Inr s \<and>
      io_get_regs (kvm_fd_ops raw fd) k' = io_get_regs (kvm_fd_ops raw fd) k"
    using fd_set_sregs[of s k] by (auto simp: kvm_fd_ops_def fd_get kvm_sregs_parse)
qed

text \<open>
  bhyve as documented, on the descriptor of a VM and one of its vCPUs: registers and descriptors are addressed by the
  vCPU and the register number in the structure; only the segment and table registers have a descriptor.
\<close>

locale bhyve_abi =
  fixes raw :: "(u32, 'k, 'e) raw_ioctl" and fd :: i32 and id :: u32 and einval :: 'e
    and regv :: "'k \<Rightarrow> i32 \<Rightarrow> i32 \<Rightarrow> u64" and descv :: "'k \<Rightarrow> i32 \<Rightarrow> i32 \<Rightarrow> seg_desc"
  assumes set_reg: "length b = 16 \<Longrightarrow> x = parse_vm_register b \<Longrightarrow> vr_cpuid x = ucast id \<Longrightarrow>
      \<exists>r e b' k'. raw fd VM_SET_REGISTER b k = ((r, e), b', k') \<and> 0 \<le> sint r \<and> descv k' = descv k \<and>
        regv k' = (regv k)(vr_cpuid x := (regv k (vr_cpuid x))(vr_regnum x := vr_regval x))"
    and get_reg: "length b = 16 \<Longrightarrow> x = parse_vm_register b \<Longrightarrow> vr_cpuid x = ucast id \<Longrightarrow>
      \<exists>r e k'. raw fd VM_GET_REGISTER b k =
        ((r, e), vm_register_bytes (x\<lparr>vr_regval := regv k (vr_cpuid x) (vr_regnum x)\<rparr>), k') \<and> 0 \<le> sint r"
    and set_desc: "length b = 24 \<Longrightarrow> y = parse_vm_seg_desc b \<Longrightarrow> vd_cpuid y = ucast id \<Longrightarrow>
      \<exists>r e b' k'. raw fd VM_SET_SEGMENT_DESCRIPTOR b k = ((r, e), b', k') \<and> regv k' = regv k \<and>
        (if vd_regnum y \<in> reg_num ` Collect has_desc
         then 0 \<le> sint r \<and> descv k' = (descv k)(vd_cpuid y := (descv k (vd_cpuid y))(vd_regnum y := vd_desc y))
         else sint r < 0 \<and> descv k' = descv k)"
    and get_desc: "length b = 24 \<Longrightarrow> y = parse_vm_seg_desc b \<Longrightarrow> vd_cpuid y = ucast id \<Longrightarrow>
      \<exists>r e k'. raw fd VM_GET_SEGMENT_DESCRIPTOR b k =
        ((r, e), vm_seg_desc_bytes (y\<lparr>vd_desc := descv k (vd_cpuid y) (vd_regnum y)\<rparr>), k') \<and>
        (if vd_regnum y \<in> reg_num ` Collect has_desc then 0 \<le> sint r else sint r < 0 \<and> e = einval)"
begin

lemma fd_set_register:
  "\<exists>k'. vm_set_register raw fd id k n v = Inr k' \<and> descv k' = descv k \<and>
     regv k' = (regv k)(ucast id := (regv k (ucast id))(reg_num n := v))"
  using set_reg[OF vm_register_parse(2), where k = k and x = "\<lparr>vr_cpuid = ucast id, vr_regnum = reg_num n, vr_regval = v\<rparr>"]
  by (auto simp: vm_set_register_def ioctl_with_ref_def ioctl_result_def vm_register_parse)

lemma fd_get_register: "vm_get_register raw fd id k n = Inr (regv k (ucast id) (reg_num n))"
  using get_reg[OF vm_register_parse(2), where k = k and x = "\<lparr>vr_cpuid = ucast id, vr_regnum = reg_num n, vr_regval = 0\<rparr>"]
  by (auto simp: vm_get_register_def ioctl_with_mut_ref_def ioctl_result_def vm_register_parse)

lemma has_desc_num: "reg_num n \<in> reg_num ` Collect has_desc \<longleftrightarrow> has_desc n"
  by (auto simp: reg_num_inject)

lemma fd_set_desc:
  "has_desc n \<Longrightarrow> \<exists>k'. vm_set_desc raw fd id k n d = Inr k' \<and> regv k' = regv k \<and>
     descv k' = (descv k)(ucast id := (descv k (ucast id))(reg_num n := d))"
  "vm_set_desc raw fd id k n d = Inr k' \<Longrightarrow> has_desc n"
  using set_desc[OF vm_seg_desc_parse(2), where k = k and y = "\<lparr>vd_cpuid = ucast id, vd_regnum = reg_num n, vd_desc = d\<rparr>"]
  by (auto simp: vm_set_desc_def ioctl_with_ref_def ioctl_result_def vm_seg_desc_parse has_desc_num split: if_splits)

lemma fd_get_desc:
  "vm_get_desc raw fd id k n = (if has_desc n then Inr (descv k (ucast id) (reg_num n)) else Inl einval)"
  using get_desc[OF vm_seg_desc_parse(2), where k = k and
      y = "\<lparr>vd_cpuid = ucast id, vd_regnum = reg_num n, vd_desc = \<lparr>sd_base = 0, sd_limit = 0, sd_access = 0\<rparr>\<rparr>"]
  by (auto simp: vm_get_desc_def ioctl_with_mut_ref_def ioctl_result_def vm_seg_desc_parse has_desc_num split: if_splits)

end

sublocale bhyve_abi \<subseteq> bhyve_kernel "vm_fd_ops raw fd id"
proof
  have "\<exists>k'. vm_set_register raw fd id k n v = Inr k' \<and>
      vm_get_register raw fd id k' = (vm_get_register raw fd id k)(n := Inr v) \<and> vm_get_desc raw fd id k' = vm_get_desc raw fd id k"
    for k n v
    using fd_set_register[of k n v] by (fastforce simp: fd_get_register fd_get_desc reg_num_inject fun_eq_iff)
  moreover have "\<exists>k'. vm_set_desc raw fd id k n d = Inr k' \<and>
      vm_get_desc raw fd id k' = (vm_get_desc raw fd id k)(n := Inr d) \<and> vm_get_register raw fd id k' = vm_get_register raw fd id k"
    if "has_desc n" for k n d
    using fd_set_desc(1)[OF that, of k d] that by (fastforce simp: fd_get_register fd_get_desc reg_num_inject fun_eq_iff)
  ultimately show "vm_laws (vm_fd_ops raw fd id)" by (simp add: vm_laws_def vm_fd_ops_def)
qed

section \<open>Setting the whole state\<close>

context kvm_abi
begin

lemma kvm_fd_state:
  assumes "sregs_ok s"
  shows "\<exists>k1 k2. v_set_regs (kvm_vcpu (kvm_fd_ops raw fd)) k r = Inr k1 \<and> v_set_sregs (kvm_vcpu (kvm_fd_ops raw fd)) k1 s = Inr k2 \<and>
     v_get_regs (kvm_vcpu (kvm_fd_ops raw fd)) k2 = Inr r \<and> v_get_sregs (kvm_vcpu (kvm_fd_ops raw fd)) k2 = Inr s \<and>
     gpr k2 = kvm_regs_bytes (kvm_regs_of r) \<and> spr k2 = kvm_sregs_bytes (kvm_sregs_of s)"
proof -
  obtain k1 where k1: "kvm_fd_set_regs raw fd k (kvm_regs_of r) = Inr k1" "gpr k1 = kvm_regs_bytes (kvm_regs_of r)"
    using fd_set_regs by blast
  obtain k2 where k2: "kvm_fd_set_sregs raw fd k1 (kvm_sregs_of s) = Inr k2" "spr k2 = kvm_sregs_bytes (kvm_sregs_of s)" "gpr k2 = gpr k1"
    using fd_set_sregs[OF kvm_sregs_of_ok[OF assms]] by blast
  show ?thesis
    using k1 k2 kvm_sregs_of_ok[OF assms]
    by (simp add: kvm_vcpu_def kvm_set_regs_def kvm_set_sregs_def kvm_get_regs_def kvm_get_sregs_def kvm_fd_ops_def fd_get
        kvm_regs_parse kvm_sregs_parse kvm_regs_back kvm_sregs_back)
qed

end

context bhyve_abi
begin

lemma fd_keeps_others: "stores_keep (vm_fd_ops raw fd id) (\<lambda>k. \<forall>c. c \<noteq> ucast id \<longrightarrow> regv k c = R c \<and> descv k c = D c)"
proof -
  have "regv k' c = R c \<and> descv k' c = D c"
    if "vm_set_register raw fd id k n v = Inr k'" "\<forall>c. c \<noteq> ucast id \<longrightarrow> regv k c = R c \<and> descv k c = D c" "c \<noteq> ucast id" for k n v k' c
    using fd_set_register[of k n v] that by auto
  moreover have "regv k' c = R c \<and> descv k' c = D c"
    if "vm_set_desc raw fd id k n d = Inr k'" "\<forall>c. c \<noteq> ucast id \<longrightarrow> regv k c = R c \<and> descv k c = D c" "c \<noteq> ucast id" for k n d k' c
    using fd_set_desc(1)[OF fd_set_desc(2)[OF that(1)], of k d] that by auto
  ultimately show ?thesis unfolding stores_keep_def vm_fd_ops_def by simp
qed

lemma bhyve_fd_state:
  assumes "sregs_ok s"
  shows "\<exists>k1 k2. v_set_regs (bhyve_vcpu (vm_fd_ops raw fd id)) k r = Inr k1 \<and> v_set_sregs (bhyve_vcpu (vm_fd_ops raw fd id)) k1 s = Inr k2 \<and>
     v_get_regs (bhyve_vcpu (vm_fd_ops raw fd id)) k2 = Inr r \<and> v_get_sregs (bhyve_vcpu (vm_fd_ops raw fd id)) k2 = Inr (bhyve_kept s) \<and>
     (\<forall>c. c \<noteq> ucast id \<longrightarrow> regv k2 c = regv k c \<and> descv k2 c = descv k c)"
proof -
  let ?ops = "vm_fd_ops raw fd id"
  let ?same = "\<lambda>k'. \<forall>c. c \<noteq> ucast id \<longrightarrow> regv k' c = regv k c \<and> descv k' c = descv k c"
  obtain k1 where k1: "bhyve_set_regs ?ops k r = Inr k1" "bhyve_get_regs ?ops k1 = Inr r" using bhyve_regs_back[OF laws] by blast
  obtain k2 where k2: "bhyve_set_sregs ?ops k1 s = Inr k2" "bhyve_get_sregs ?ops k2 = Inr (bhyve_kept s)"
    "bhyve_get_regs ?ops k2 = bhyve_get_regs ?ops k1"
    using bhyve_sregs_back[OF laws assms] by blast
  have "?same k1" by (rule bhyve_sets_keep(1)[OF fd_keeps_others _ k1(1)]) simp
  then have "?same k2" by (rule bhyve_sets_keep(2)[OF fd_keeps_others _ k2(1)])
  then show ?thesis using k1 k2 by (simp add: bhyve_vcpu_def)
qed

end

text \<open>Both kernels as stores of what they are given.\<close>

definition kvm_buffers :: "(u64, bytes \<times> bytes, unit) raw_ioctl" where
  "kvm_buffers fd req b k =
     (if req = KVM_GET_REGS then ((0, ()), fst k, k)
      else if req = KVM_GET_SREGS then ((0, ()), snd k, k)
      else if req = KVM_SET_REGS then ((0, ()), b, (b, snd k))
      else ((0, ()), b, (fst k, b)))"

interpretation kvm_buffers: kvm_abi kvm_buffers 5 fst snd
  by unfold_locales (simp_all add: kvm_buffers_def kvm_vcpu_requests)

definition bhyve_table :: "(u32, (i32 \<Rightarrow> i32 \<Rightarrow> u64) \<times> (i32 \<Rightarrow> i32 \<Rightarrow> seg_desc), unit) raw_ioctl" where
  "bhyve_table fd req b k =
     (let x = parse_vm_register b; y = parse_vm_seg_desc b;
          desc = (if vd_regnum y \<in> reg_num ` {RegCs, RegDs, RegEs, RegFs, RegGs, RegSs, RegTr, RegLdtr, RegGdtr, RegIdtr} then 0 else - 1) in
      if req = VM_SET_REGISTER then ((0, ()), b, ((fst k)(vr_cpuid x := (fst k (vr_cpuid x))(vr_regnum x := vr_regval x)), snd k))
      else if req = VM_GET_REGISTER then ((0, ()), vm_register_bytes (x\<lparr>vr_regval := fst k (vr_cpuid x) (vr_regnum x)\<rparr>), k)
      else if req = VM_SET_SEGMENT_DESCRIPTOR
      then ((desc, ()), b, if desc = 0 then (fst k, (snd k)(vd_cpuid y := (snd k (vd_cpuid y))(vd_regnum y := vd_desc y))) else k)
      else ((desc, ()), vm_seg_desc_bytes (y\<lparr>vd_desc := snd k (vd_cpuid y) (vd_regnum y)\<rparr>), k))"

interpretation bhyve_table: bhyve_abi bhyve_table 4 0 "()" fst snd
proof -
  have d: "Collect has_desc = {RegCs, RegDs, RegEs, RegFs, RegGs, RegSs, RegTr, RegLdtr, RegGdtr, RegIdtr}"
    by (auto simp: has_desc_def)
  show "bhyve_abi bhyve_table 4 0 () fst snd"
    by unfold_locales (simp_all add: bhyve_table_def vm_requests Let_def d del: image_insert)
qed

section \<open>Properties\<close>

text \<open>
  C23. The processor state set on a vCPU is the state read back, down to the system calls. On a KVM that stores and
  fills the buffers it is given, setting the general and the special registers leaves exactly the bytes of the two
  structures in the kernel, and reading gives both back. On bhyve, whose calls move one register or descriptor
  at a time by number, the general registers come back unchanged and so does every segment, table, control register
  and EFER; CR8, the APIC base, the interrupt bitmap and the table padding, for which bhyve has no register, read as
  zero; and no register of another vCPU is touched.
\<close>

theorem register_ioctls:
  assumes "kvm_abi kraw kfd gpr spr" and "bhyve_abi braw bfd cid einval regv descv" and "sregs_ok s"
  shows "(\<exists>k1 k2. v_set_regs (kvm_vcpu (kvm_fd_ops kraw kfd)) k r = Inr k1 \<and> v_set_sregs (kvm_vcpu (kvm_fd_ops kraw kfd)) k1 s = Inr k2 \<and>
       v_get_regs (kvm_vcpu (kvm_fd_ops kraw kfd)) k2 = Inr r \<and> v_get_sregs (kvm_vcpu (kvm_fd_ops kraw kfd)) k2 = Inr s \<and>
       gpr k2 = kvm_regs_bytes (kvm_regs_of r) \<and> spr k2 = kvm_sregs_bytes (kvm_sregs_of s)) \<and>
     (\<exists>j1 j2. v_set_regs (bhyve_vcpu (vm_fd_ops braw bfd cid)) j r = Inr j1 \<and>
       v_set_sregs (bhyve_vcpu (vm_fd_ops braw bfd cid)) j1 s = Inr j2 \<and>
       v_get_regs (bhyve_vcpu (vm_fd_ops braw bfd cid)) j2 = Inr r \<and>
       v_get_sregs (bhyve_vcpu (vm_fd_ops braw bfd cid)) j2 = Inr (bhyve_kept s) \<and>
       (\<forall>c. c \<noteq> ucast cid \<longrightarrow> regv j2 c = regv j c \<and> descv j2 c = descv j c))"
  using kvm_abi.kvm_fd_state[OF assms(1,3)] bhyve_abi.bhyve_fd_state[OF assms(2,3)] by blast

theorem register_ioctls_witness:
  "\<exists>k1 k2 j1 j2.
     v_set_regs (kvm_vcpu (kvm_fd_ops kvm_buffers 5)) ([], []) fresh_regs = Inr k1 \<and>
     v_set_sregs (kvm_vcpu (kvm_fd_ops kvm_buffers 5)) k1 fresh_sregs = Inr k2 \<and>
     v_get_regs (kvm_vcpu (kvm_fd_ops kvm_buffers 5)) k2 = Inr fresh_regs \<and>
     v_set_regs (bhyve_vcpu (vm_fd_ops bhyve_table 4 0)) (\<lambda>c n. 9, \<lambda>c n. \<lparr>sd_base = 0, sd_limit = 0, sd_access = 0\<rparr>) fresh_regs = Inr j1 \<and>
     v_set_sregs (bhyve_vcpu (vm_fd_ops bhyve_table 4 0)) j1 fresh_sregs = Inr j2 \<and> fst j2 1 15 = 9"
  using register_ioctls[OF kvm_buffers.kvm_abi_axioms bhyve_table.bhyve_abi_axioms fresh_vcpu_state(3), of "([], [])" fresh_regs
      "(\<lambda>c n. 9, \<lambda>c n. \<lparr>sd_base = 0, sd_limit = 0, sd_access = 0\<rparr>)"]
  by force

end
