(* ===== verification/Threads.thy ===== *)
theory Threads
  imports Startup Guest
begin

text \<open>
  The threads of a running VM on KVM, release build: the vCPU threads \<open>main\<close> spawns (\<open>src/src/main.rs\<close>, \<open>src/src/vcpu.rs\<close>),
  the stdin reader (\<open>src/src/input.rs\<close>) and \<open>main\<close> itself, which joins the vCPU threads in order. A step is what one
  thread does between two accesses to what the threads share: the flag and the list of \<open>Shutdown\<close>, each behind an atomic
  or a lock, and the devices, whose locks are held for one access. The signals of one request are sent while the list is
  locked and count as one step. Memory accesses of the guests are steps of their own.

  It shows that every interleaving keeps the machine's invariant, panics in no thread and reports every exit; that
  shutdown completes unless a signal handler runs between a vCPU's test of the flag and its run ioctl; and two
  interleavings in which the signals go wrong.
\<close>

section \<open>State\<close>

text \<open>
  Where a vCPU thread is in the closure \<open>main\<close> spawns and in \<open>run_vcpu\<close>: before it registers for kicks, at the
  test of the flag, past the test but not yet in the run ioctl, in it, in the loop over a port access (with
  the elements left), past the loop but before the flag is stored, before the signals are sent, returned.
\<close>

datatype vcpu_phase =
    Starting
  | Checking
  | Entering
  | InGuest
  | PortIo kvm_run "nat list"
  | Finishing "io_error_kind + unit"
  | Kicking "io_error_kind + unit"
  | Stopped "io_error_kind + exit_stats"

text \<open>\<open>vt_kicked\<close>: a \<open>SIGUSR1\<close> is pending on the thread.\<close>

record vcpu_thread =
  vt_phase :: vcpu_phase
  vt_stats :: exit_stats
  vt_kicked :: bool

datatype reader_phase = RdChecking | RdPolling | RdStoring | RdKicking | RdDone

text \<open>
  \<open>sys_joined\<close>: how many threads \<open>main\<close> has joined, in order; \<open>sys_exits\<close>: how many exits were handed to a handler;
  \<open>sys_kills\<close>: the threads \<open>pthread_kill\<close> was called on so far, in order.
\<close>

record system =
  sys_machine :: machine
  sys_shutdown :: shutdown
  sys_vcpus :: "vcpu_thread list"
  sys_reader :: reader_phase
  sys_escape :: escape_state
  sys_joined :: nat
  sys_exits :: nat
  sys_kills :: "nat list"

datatype outcome = Disabled | Panics | Next system

definition sys_init :: "nat \<Rightarrow> machine \<Rightarrow> system" where
  "sys_init n m =
     \<lparr>sys_machine = m, sys_shutdown = shutdown_new,
      sys_vcpus = replicate n \<lparr>vt_phase = Starting, vt_stats = stats_new, vt_kicked = False\<rparr>,
      sys_reader = RdChecking, sys_escape = escape_new, sys_joined = 0, sys_exits = 0, sys_kills = []\<rparr>"

section \<open>Actions\<close>

definition set_vcpu :: "nat \<Rightarrow> vcpu_thread \<Rightarrow> system \<Rightarrow> system" where
  "set_vcpu i t s = s\<lparr>sys_vcpus := (sys_vcpus s)[i := t]\<rparr>"

text \<open>The two halves of \<open>Shutdown::request\<close>: the store of the flag, and the signals.\<close>

definition store_flag :: "system \<Rightarrow> system" where
  "store_flag s = s\<lparr>sys_shutdown := fst (sd_request (sys_shutdown s))\<rparr>"

definition send_kicks :: "system \<Rightarrow> system" where
  "send_kicks s = s\<lparr>sys_vcpus := map2 (\<lambda>i t. if i \<in> set (snd (sd_request (sys_shutdown s))) then t\<lparr>vt_kicked := True\<rparr> else t)
     [0..<length (sys_vcpus s)] (sys_vcpus s), sys_kills := sys_kills s @ snd (sd_request (sys_shutdown s))\<rparr>"

text \<open>
  The next action of a vCPU thread; \<open>clock\<close> is as in the exit handlers. One element of a port access is one
  action, since the device's lock is taken for each.
\<close>

definition vcpu_action :: "bus_handle bus \<Rightarrow> (nat \<Rightarrow> nat) \<Rightarrow> nat \<Rightarrow> system \<Rightarrow> outcome" where
  "vcpu_action pio clock i s =
     (let t = sys_vcpus s ! i; at = (\<lambda>p. set_vcpu i (t\<lparr>vt_phase := p\<rparr>)) in
      case vt_phase t of
        Starting \<Rightarrow> Next (at Checking (s\<lparr>sys_shutdown := add_kick_target i (sys_shutdown s)\<rparr>))
      | Checking \<Rightarrow> Next (at (if sd_requested (sys_shutdown s) then Finishing (Inr ()) else Entering) s)
      | Entering \<Rightarrow> Next (at InGuest s)
      | InGuest \<Rightarrow> Disabled
      | PortIo run [] \<Rightarrow> Next (at Checking s)
      | PortIo run (j # js) \<Rightarrow>
          (case kvm_io_loop False clock pio (run_io run) [j] (sys_machine s) (run_page run) of
             None \<Rightarrow> Panics
           | Some (m, page) \<Rightarrow> Next (at (PortIo (run\<lparr>run_page := page\<rparr>) js) (s\<lparr>sys_machine := m\<rparr>)))
      | Finishing r \<Rightarrow> Next (at (Kicking r) (store_flag s))
      | Kicking r \<Rightarrow> Next (send_kicks (at (Stopped (map_sum id (\<lambda>_. vt_stats t) r)) s))
      | Stopped _ \<Rightarrow> Disabled)"

text \<open>
  The run ioctl returns \<open>res\<close>. An interrupted one has run the signal handler. The work of an exit other than
  a port access is at most one access.
\<close>

definition vcpu_return :: "bus_handle bus \<Rightarrow> bus_handle bus \<Rightarrow> (nat \<Rightarrow> nat) \<Rightarrow> nat \<Rightarrow> io_error_kind + kvm_run \<Rightarrow> system \<Rightarrow> outcome" where
  "vcpu_return pio mmio clock i res s =
     (let t = sys_vcpus s ! i in
      if vt_phase t \<noteq> InGuest then Disabled
      else case res of
          Inl e \<Rightarrow>
            if e = Interrupted \<or> e = WouldBlock
            then Next (set_vcpu i (t\<lparr>vt_phase := Checking, vt_kicked := (vt_kicked t \<and> e \<noteq> Interrupted)\<rparr>) s)
            else Next (set_vcpu i (t\<lparr>vt_phase := Finishing (Inl e)\<rparr>) s)
        | Inr run \<Rightarrow>
            (let s = s\<lparr>sys_exits := Suc (sys_exits s)\<rparr> in
             if run_exit_reason run = exit_code ExitIo
             then (case count_io False (vt_stats t) of
                 None \<Rightarrow> Panics
               | Some st \<Rightarrow> Next (set_vcpu i (t\<lparr>vt_phase := PortIo run [0..<unat (io_count (run_io run))], vt_stats := st\<rparr>) s))
             else (case kvm_handle_exit False clock pio mmio run (vt_stats t) (sys_machine s) of
                 None \<Rightarrow> Panics
               | Some (r, st, m, _) \<Rightarrow>
                   Next (set_vcpu i (t\<lparr>vt_stats := st, vt_phase :=
                      (case r of Inl _ \<Rightarrow> Finishing (Inl OtherKind)
                       | Inr should_continue \<Rightarrow> if should_continue then Checking else Finishing (Inr ()))\<rparr>)
                     (s\<lparr>sys_machine := m\<rparr>)))))"

text \<open>Outside the ioctl the handler of the signal does nothing.\<close>

definition run_handler :: "nat \<Rightarrow> system \<Rightarrow> outcome" where
  "run_handler i s =
     (let t = sys_vcpus s ! i in
      case vt_phase t of
        InGuest \<Rightarrow> Disabled
      | Stopped _ \<Rightarrow> Disabled
      | _ \<Rightarrow> if vt_kicked t then Next (set_vcpu i (t\<lparr>vt_kicked := False\<rparr>) s) else Disabled)"

text \<open>
  The next action of the reader. The flag is read on its own; the rest of the iteration is that of
  \<open>reader_step\<close> with the flag it read.
\<close>

definition reader_action :: "nat \<Rightarrow> poll_outcome \<Rightarrow> system \<Rightarrow> outcome" where
  "reader_action now ev s =
     (case sys_reader s of
        RdChecking \<Rightarrow> Next (s\<lparr>sys_reader := if sd_requested (sys_shutdown s) then RdDone else RdPolling\<rparr>)
      | RdPolling \<Rightarrow>
          (case reader_step now ev \<lparr>rd_escape = sys_escape s, rd_serial = m_serial (sys_machine s),
               rd_shutdown = (sys_shutdown s)\<lparr>sd_flag := False\<rparr>, rd_helps = 0\<rparr> of
             None \<Rightarrow> Panics
           | Some (r, returned) \<Rightarrow>
               Next (s\<lparr>sys_escape := rd_escape r, sys_machine := (sys_machine s)\<lparr>m_serial := rd_serial r\<rparr>,
                  sys_reader := if returned then RdStoring else RdChecking\<rparr>))
      | RdStoring \<Rightarrow> Next (store_flag (s\<lparr>sys_reader := RdKicking\<rparr>))
      | RdKicking \<Rightarrow> Next (send_kicks (s\<lparr>sys_reader := RdDone\<rparr>))
      | RdDone \<Rightarrow> Disabled)"

text \<open>\<open>main\<close> waits for the threads in order; the id of a joined thread is no longer valid.\<close>

definition join_next :: "system \<Rightarrow> outcome" where
  "join_next s =
     (if sys_joined s < length (sys_vcpus s) then
        (case vt_phase (sys_vcpus s ! sys_joined s) of
           Stopped _ \<Rightarrow> Next (s\<lparr>sys_joined := Suc (sys_joined s)\<rparr>)
         | _ \<Rightarrow> Disabled)
      else Disabled)"

section \<open>Runs\<close>

datatype sys_label =
    Vcpu nat "nat \<Rightarrow> nat"
  | RunReturns nat "nat \<Rightarrow> nat" "io_error_kind + kvm_run"
  | Handler nat
  | Reader nat poll_outcome
  | Join
  | GuestWrites nat "nat \<Rightarrow> u8"

fun sys_exec :: "bus_handle bus \<Rightarrow> bus_handle bus \<Rightarrow> sys_label \<Rightarrow> system \<Rightarrow> outcome" where
  "sys_exec pio mmio (Vcpu i clock) s = (if i < length (sys_vcpus s) then vcpu_action pio clock i s else Disabled)"
| "sys_exec pio mmio (RunReturns i clock res) s =
     (if i < length (sys_vcpus s) then vcpu_return pio mmio clock i res s else Disabled)"
| "sys_exec pio mmio (Handler i) s = (if i < length (sys_vcpus s) then run_handler i s else Disabled)"
| "sys_exec pio mmio (Reader now ev) s = reader_action now ev s"
| "sys_exec pio mmio Join s = join_next s"
| "sys_exec pio mmio (GuestWrites i f) s =
     (if i < length (sys_vcpus s) \<and> vt_phase (sys_vcpus s ! i) = InGuest
      then Next (s\<lparr>sys_machine := (sys_machine s)\<lparr>m_mem := (m_mem (sys_machine s))\<lparr>gm_bytes := f\<rparr>\<rparr>\<rparr>) else Disabled)"

text \<open>What the kernel promises: exits with their data in place, and no more bytes than the buffer holds.\<close>

fun label_ok :: "sys_label \<Rightarrow> bool" where
  "label_ok (RunReturns i clock (Inr run)) = kvm_run_ok run"
| "label_ok (Reader now (ReadBytes bs)) = (length bs \<le> 64)"
| "label_ok _ = True"

inductive sys_reach :: "bus_handle bus \<Rightarrow> bus_handle bus \<Rightarrow> (sys_label \<Rightarrow> system \<Rightarrow> bool) \<Rightarrow> system \<Rightarrow> system \<Rightarrow> bool"
  for pio mmio allowed s0 where
  start: "sys_reach pio mmio allowed s0 s0"
| step: "sys_reach pio mmio allowed s0 s \<Longrightarrow> label_ok l \<Longrightarrow> allowed l s \<Longrightarrow> sys_exec pio mmio l s = Next s' \<Longrightarrow>
    sys_reach pio mmio allowed s0 s'"

text \<open>Run a list of labels, for concrete executions.\<close>

fun sys_run :: "bus_handle bus \<Rightarrow> bus_handle bus \<Rightarrow> sys_label list \<Rightarrow> system \<Rightarrow> system option" where
  "sys_run pio mmio [] s = Some s"
| "sys_run pio mmio (l # ls) s =
     (case sys_exec pio mmio l s of Next s' \<Rightarrow> sys_run pio mmio ls s' | _ \<Rightarrow> None)"

section \<open>The invariant\<close>

definition exit_total :: "exit_stats \<Rightarrow> u64" where
  "exit_total st = io_exits st + mmio_exits st + hlt_exits st + shutdown_exits st + other_exits st"

fun phase_ok :: "vcpu_phase \<Rightarrow> exit_stats \<Rightarrow> bool" where
  "phase_ok (PortIo run js) st =
     (unat (io_size (run_io run)) \<le> 8 \<and>
      (\<forall>j \<in> set js. unat (io_data_offset (run_io run)) + j * unat (io_size (run_io run)) + unat (io_size (run_io run))
         \<le> length (run_page run)))"
| "phase_ok (Stopped (Inr st')) st = (st' = st)"
| "phase_ok _ st = True"

fun requests :: "vcpu_phase \<Rightarrow> bool" where
  "requests (Kicking r) = True"
| "requests (Stopped r) = True"
| "requests _ = False"

definition sys_inv :: "system \<Rightarrow> bool" where
  "sys_inv s \<longleftrightarrow> machine_inv (sys_machine s) \<and>
     (\<forall>t \<in> set (sys_vcpus s). phase_ok (vt_phase t) (vt_stats t)) \<and>
     (\<Sum>t\<leftarrow>sys_vcpus s. exit_total (vt_stats t)) = of_nat (sys_exits s) \<and>
     (\<forall>t \<in> set (sys_vcpus s). requests (vt_phase t) \<longrightarrow> sd_flag (sys_shutdown s)) \<and>
     (sys_reader s = RdKicking \<longrightarrow> sd_flag (sys_shutdown s)) \<and>
     (\<forall>i < length (sys_vcpus s). vt_phase (sys_vcpus s ! i) = Starting \<or> i \<in> set (sd_kick_threads (sys_shutdown s))) \<and>
     sys_joined s \<le> length (sys_vcpus s)"

section \<open>Lemmas\<close>

lemma exit_total_simps [simp]:
  "exit_total (st\<lparr>io_exits := io_exits st + 1\<rparr>) = exit_total st + 1" "exit_total stats_new = 0"
  by (simp_all add: exit_total_def stats_new_def)

lemma stats_total_eq: "stats_total False st = Some (exit_total st)"
  by (simp add: stats_total_release exit_total_def)

lemma sum_list_list_update:
  "i < length xs \<Longrightarrow> sum_list (xs[i := y]) = sum_list xs - xs ! i + (y :: 'a :: ab_group_add)"
  by (induction xs arbitrary: i) (auto simp: algebra_simps split: nat.split)

lemma send_kicks_simps [simp]:
  "length (sys_vcpus (send_kicks s)) = length (sys_vcpus s)" "sys_machine (send_kicks s) = sys_machine s"
  "sys_shutdown (send_kicks s) = sys_shutdown s" "sys_reader (send_kicks s) = sys_reader s"
  "sys_joined (send_kicks s) = sys_joined s" "sys_exits (send_kicks s) = sys_exits s"
  by (simp_all add: send_kicks_def)

lemma send_kicks_nth:
  "i < length (sys_vcpus s) \<Longrightarrow> sys_vcpus (send_kicks s) ! i =
     (sys_vcpus s ! i)\<lparr>vt_kicked := (vt_kicked (sys_vcpus s ! i) \<or> i \<in> set (sd_kick_threads (sys_shutdown s)))\<rparr>"
  by (simp add: send_kicks_def sd_request_def Let_def)

lemma send_kicks_map:
  assumes "\<And>t k. f (t\<lparr>vt_kicked := k\<rparr>) = f t"
  shows "map f (sys_vcpus (send_kicks s)) = map f (sys_vcpus s)"
  by (rule nth_equalityI) (simp_all add: send_kicks_nth assms)

lemma sys_inv_kicks: "sys_inv (send_kicks s) \<longleftrightarrow> sys_inv s"
proof -
  have "(\<Sum>t\<leftarrow>sys_vcpus (send_kicks s). exit_total (vt_stats t)) = (\<Sum>t\<leftarrow>sys_vcpus s. exit_total (vt_stats t))"
    by (subst send_kicks_map) simp_all
  moreover have r: "(\<exists>t \<in> set ts. requests (vt_phase t)) \<longleftrightarrow> True \<in> set (map (\<lambda>t. requests (vt_phase t)) ts)" for ts
    by force
  have "(\<exists>t \<in> set (sys_vcpus (send_kicks s)). requests (vt_phase t)) \<longleftrightarrow> (\<exists>t \<in> set (sys_vcpus s). requests (vt_phase t))"
    unfolding r by (subst send_kicks_map) simp_all
  ultimately show ?thesis by (simp add: sys_inv_def all_set_conv_all_nth send_kicks_nth)
qed

lemma sys_inv_vcpu:
  assumes inv: "sys_inv s" and i: "i < length (sys_vcpus s)" and m: "machine_inv m" and p: "phase_ok (vt_phase t) (vt_stats t)"
    and tot: "exit_total (vt_stats t) = exit_total (vt_stats (sys_vcpus s ! i)) + of_nat n"
    and req: "requests (vt_phase t) \<Longrightarrow> sd_flag sd" and flag: "sd_flag (sys_shutdown s) \<Longrightarrow> sd_flag sd"
    and reg: "vt_phase t \<noteq> Starting \<Longrightarrow> i \<in> set (sd_kick_threads sd)"
    and kicks: "set (sd_kick_threads (sys_shutdown s)) \<subseteq> set (sd_kick_threads sd)"
  shows "sys_inv (set_vcpu i t (s\<lparr>sys_machine := m, sys_shutdown := sd, sys_exits := sys_exits s + n\<rparr>))"
proof -
  have sum: "(\<Sum>t\<leftarrow>(sys_vcpus s)[i := t]. exit_total (vt_stats t)) = of_nat (sys_exits s + n)"
    using inv i tot by (simp add: map_update sum_list_list_update sys_inv_def)
  have in_upd: "x = t \<or> x \<in> set (sys_vcpus s)" if "x \<in> set ((sys_vcpus s)[i := t])" for x
    using set_update_subset_insert[of "sys_vcpus s" i t] that by blast
  have phases: "\<forall>x \<in> set ((sys_vcpus s)[i := t]). phase_ok (vt_phase x) (vt_stats x)"
    using in_upd inv p by (auto simp: sys_inv_def)
  have flags: "\<forall>x \<in> set ((sys_vcpus s)[i := t]). requests (vt_phase x) \<longrightarrow> sd_flag sd" "sys_reader s = RdKicking \<longrightarrow> sd_flag sd"
    using in_upd inv req flag by (auto simp: sys_inv_def)
  have regs: "\<forall>j < length (sys_vcpus s). vt_phase ((sys_vcpus s)[i := t] ! j) = Starting \<or> j \<in> set (sd_kick_threads sd)"
    using inv reg kicks i by (auto simp: sys_inv_def nth_list_update)
  show ?thesis using inv m sum phases flags regs by (simp add: sys_inv_def set_vcpu_def)
qed

lemma sys_inv_move:
  assumes "sys_inv s" and "i < length (sys_vcpus s)" and "vt_phase (sys_vcpus s ! i) \<noteq> Starting" and "machine_inv m"
    and "phase_ok (vt_phase t) (vt_stats t)" and "exit_total (vt_stats t) = exit_total (vt_stats (sys_vcpus s ! i)) + of_nat n"
    and "requests (vt_phase t) \<Longrightarrow> sd_flag (sys_shutdown s)"
  shows "sys_inv (set_vcpu i t (s\<lparr>sys_machine := m, sys_exits := sys_exits s + n\<rparr>))"
  using sys_inv_vcpu[OF assms(1,2,4,5,6), of "sys_shutdown s"] assms(1,2,3,7) by (auto simp: sys_inv_def)

lemma sys_inv_phase:
  assumes "sys_inv s" and "i < length (sys_vcpus s)" and "vt_phase (sys_vcpus s ! i) \<noteq> Starting"
    and "phase_ok (vt_phase t) (vt_stats t)" and "vt_stats t = vt_stats (sys_vcpus s ! i)"
    and "requests (vt_phase t) \<Longrightarrow> sd_flag (sys_shutdown s)"
  shows "sys_inv (set_vcpu i t s)"
  using sys_inv_move[OF assms(1-3) _ assms(4), of "sys_machine s" 0] assms(1,5,6) by (auto simp: sys_inv_def)

lemma sys_inv_store: "sys_inv s \<Longrightarrow> sys_inv (store_flag s)"
  by (simp add: sys_inv_def store_flag_def sd_request_def Let_def)

lemma sys_inv_init: "machine_inv m \<Longrightarrow> sys_inv (sys_init n m)"
  by (simp add: sys_inv_def sys_init_def shutdown_new_def sum_list_replicate)

lemma reader_step_serial:
  assumes "reader_step now ev r = Some (r', q)" and "serial_inv (rd_serial r)"
  shows "serial_inv (rd_serial r')"
  using assms
  by (auto simp: reader_step_def rd_request_def bind_eq_Some_conv Let_def inject_rx_inv tick_cti_inv
      split: poll_outcome.splits if_splits)

lemma batch_loop_returns: "length bs + length fwd \<le> 64 \<Longrightarrow> \<exists>x. batch_loop es bs fwd h = Some x"
  by (induction bs arbitrary: es fwd h) (auto split: escape_action.split prod.split)

lemma reader_step_returns:
  assumes "\<And>bs. ev = ReadBytes bs \<Longrightarrow> length bs \<le> 64"
  shows "\<exists>r' q. reader_step now ev r = Some (r', q)"
proof (cases ev)
  case (ReadBytes bs)
  then obtain es fwd h quit where "batch_loop (rd_escape r) bs [] False = Some (es, fwd, h, quit)"
    using batch_loop_returns[of bs "[]"] assms by fastforce
  then show ?thesis using ReadBytes by (simp add: reader_step_def Let_def ex_bool_eq)
qed (simp_all add: reader_step_def ex_bool_eq)

lemma system_commute: "s\<lparr>sys_exits := n, sys_machine := m\<rparr> = s\<lparr>sys_machine := m, sys_exits := n\<rparr>"
  by simp

lemma kvm_io_loop_Cons:
  "kvm_io_loop oc clock bus io (j # js) m page =
     Option.bind (kvm_io_loop oc clock bus io [j] m page) (\<lambda>(m, page). kvm_io_loop oc clock bus io js m page)"
  by (simp add: Let_def split_def Option.bind_assoc)

declare kvm_io_loop.simps(2) [simp del]

text \<open>When no other thread acts in between, the elements of a port access are the loop of the exit handler.\<close>

lemma port_io_alone:
  assumes "i < length (sys_vcpus s)" and "vt_phase (sys_vcpus s ! i) = PortIo run js"
    and "kvm_io_loop False clock pio (run_io run) js (sys_machine s) (run_page run) = Some (m, page)"
  shows "sys_run pio mmio (replicate (Suc (length js)) (Vcpu i clock)) s =
     Some (set_vcpu i ((sys_vcpus s ! i)\<lparr>vt_phase := Checking\<rparr>) (s\<lparr>sys_machine := m\<rparr>))"
  using assms
proof (induction js arbitrary: s run)
  case Nil
  then have [simp]: "m = sys_machine s" by simp
  show ?case using Nil(1,2) by (simp add: vcpu_action_def Let_def)
next
  case (Cons j js)
  obtain m1 page1 where l: "kvm_io_loop False clock pio (run_io run) [j] (sys_machine s) (run_page run) = Some (m1, page1)"
    "kvm_io_loop False clock pio (run_io run) js m1 page1 = Some (m, page)"
    using Cons.prems(3) by (subst (asm) kvm_io_loop_Cons) (auto simp: bind_eq_Some_conv)
  let ?s = "set_vcpu i ((sys_vcpus s ! i)\<lparr>vt_phase := PortIo (run\<lparr>run_page := page1\<rparr>) js\<rparr>) (s\<lparr>sys_machine := m1\<rparr>)"
  have "sys_run pio mmio (replicate (Suc (length js)) (Vcpu i clock)) ?s =
     Some (set_vcpu i ((sys_vcpus ?s ! i)\<lparr>vt_phase := Checking\<rparr>) (?s\<lparr>sys_machine := m\<rparr>))"
    using Cons.prems(1) l(2) by (intro Cons.IH[of _ "run\<lparr>run_page := page1\<rparr>"]) (simp_all add: set_vcpu_def)
  then show ?case using Cons.prems(1,2) l(1) by (simp add: vcpu_action_def Let_def set_vcpu_def)
qed

section \<open>Every interleaving\<close>

locale vcpu_threads =
  fixes pio mmio :: "bus_handle bus"
  assumes buses: "served pio" "served mmio"
begin

lemma io_element:
  assumes "phase_ok (PortIo run (j # js)) st" and "machine_inv m"
  shows "\<exists>m' page. kvm_io_loop False clock pio (run_io run) [j] m (run_page run) = Some (m', page) \<and> machine_inv m' \<and>
     length page = length (run_page run)"
proof -
  let ?io = "run_io run"
  have ok: "unat (io_size ?io) \<le> 8" "unat (io_data_offset ?io) + Suc j * unat (io_size ?io) \<le> length (run_page run)"
    using assms(1) by (simp_all add: ac_simps)
  let ?es = "port_accesses clock ?io (run_page run) [j..<Suc j]"
  obtain m' rs where r: "machine_replies False pio mmio m ?es = Some (m', rs)" "machine_inv m'" "map length rs = reply_sizes ?es"
    using machine_replies_returns[OF buses assms(2) port_accesses_ok[OF ok(1)]] by blast
  define page where "page = (if io_direction ?io = 0 then take (unat (io_data_offset ?io) + j * unat (io_size ?io)) (run_page run) @
      concat rs @ drop (unat (io_data_offset ?io) + Suc j * unat (io_size ?io)) (run_page run) else run_page run)"
  have "kvm_io_loop False clock pio ?io [j..<Suc j] m (run_page run) = Some (m', page)"
    using kvm_io_loop_runs[OF buses(1) ok(1) assms(2) _ ok(2), of j mmio clock] r(1) by (auto simp: page_def)
  moreover have "length (concat rs) = unat (io_size ?io)" if "io_direction ?io = 0"
    using r(3) ok(2) that by (auto simp: port_accesses_def io_chunk_def)
  then have "length page = length (run_page run)" using ok(2) by (auto simp: page_def)
  ultimately show ?thesis using r(2) by auto
qed

lemma vcpu_action_inv:
  assumes "sys_inv s" and "i < length (sys_vcpus s)"
  shows "vcpu_action pio clock i s \<noteq> Panics \<and> (\<forall>s'. vcpu_action pio clock i s = Next s' \<longrightarrow> sys_inv s')"
proof -
  let ?t = "sys_vcpus s ! i"
  have t: "?t \<in> set (sys_vcpus s)" using assms(2) by simp
  note [simp] = vcpu_action_def Let_def
  show ?thesis
  proof (cases "vt_phase ?t")
    case Starting
    then show ?thesis
      using sys_inv_vcpu[OF assms, where n = 0 and t = "?t\<lparr>vt_phase := Checking\<rparr>" and m = "sys_machine s"
          and sd = "add_kick_target i (sys_shutdown s)"] assms(1)
      by (auto simp: add_kick_target_def sys_inv_def)
  next
    case (PortIo run js)
    show ?thesis
    proof (cases js)
      case Nil
      then show ?thesis using PortIo sys_inv_phase[OF assms, of "?t\<lparr>vt_phase := Checking\<rparr>"] by simp
    next
      case (Cons j js')
      have ok: "phase_ok (PortIo run (j # js')) (vt_stats ?t)" using assms(1) t PortIo Cons by (auto simp: sys_inv_def)
      obtain m page where l: "kvm_io_loop False clock pio (run_io run) [j] (sys_machine s) (run_page run) = Some (m, page)"
        "machine_inv m" "length page = length (run_page run)"
        using io_element[OF ok, of "sys_machine s" clock] assms(1) unfolding sys_inv_def by blast
      have "sys_inv (set_vcpu i (?t\<lparr>vt_phase := PortIo (run\<lparr>run_page := page\<rparr>) js'\<rparr>) (s\<lparr>sys_machine := m, sys_exits := sys_exits s + 0\<rparr>))"
        by (rule sys_inv_move[OF assms _ l(2)]) (use ok l(3) PortIo in simp_all)
      then show ?thesis using PortIo Cons l(1) by simp
    qed
  next
    case (Finishing r)
    have "sys_inv (set_vcpu i (?t\<lparr>vt_phase := Kicking r\<rparr>) (store_flag s))"
      by (rule sys_inv_phase[OF sys_inv_store[OF assms(1)]])
        (use assms(2) Finishing in \<open>simp_all add: store_flag_def sd_request_def Let_def\<close>)
    then show ?thesis using Finishing by simp
  next
    case (Kicking r)
    have "sys_inv (set_vcpu i (?t\<lparr>vt_phase := Stopped (map_sum id (\<lambda>_. vt_stats ?t) r)\<rparr>) s)"
      using assms(1) t Kicking by (intro sys_inv_phase[OF assms]) (cases r; auto simp: sys_inv_def)+
    then show ?thesis using Kicking by (simp add: sys_inv_kicks)
  qed (auto intro!: sys_inv_phase[OF assms])
qed

lemma vcpu_return_inv:
  assumes "sys_inv s" and "i < length (sys_vcpus s)" and "label_ok (RunReturns i clock res)"
  shows "vcpu_return pio mmio clock i res s \<noteq> Panics \<and> (\<forall>s'. vcpu_return pio mmio clock i res s = Next s' \<longrightarrow> sys_inv s')"
proof (cases "vt_phase (sys_vcpus s ! i) = InGuest")
  case False
  then show ?thesis by (simp add: vcpu_return_def)
next
  case True
  let ?t = "sys_vcpus s ! i"
  note [simp] = vcpu_return_def Let_def True
  have mi: "machine_inv (sys_machine s)" using assms(1) by (simp add: sys_inv_def)
  have ns: "vt_phase ?t \<noteq> Starting" using True by simp
  show ?thesis
  proof (cases res)
    case (Inl e)
    then show ?thesis by (auto intro!: sys_inv_phase[OF assms(1,2) ns])
  next
    case (Inr run)
    have ok: "kvm_run_ok run" using assms(3) Inr by simp
    show ?thesis
    proof (cases "run_exit_reason run = 2")
      case io: True
      have "phase_ok (PortIo run [0..<unat (io_count (run_io run))]) st" for st
        using ok io io_chunk_in_page by (auto simp: kvm_run_ok_def)
      then show ?thesis
        using Inr io sys_inv_move[OF assms(1,2) ns mi, where n = 1 and t = "?t\<lparr>vt_phase := PortIo run [0..<unat (io_count (run_io run))],
            vt_stats := (vt_stats ?t)\<lparr>io_exits := io_exits (vt_stats ?t) + 1\<rparr>\<rparr>"]
        by (simp add: count_io_def)
    next
      case other: False
      obtain st m run' where h: "kvm_handle_exit False clock pio mmio run (vt_stats ?t) (sys_machine s)
          = Some (Inr (run_exit_reason run \<notin> {8, 9, 17}), st, m, run')"
        "stats_total False st = map_option ((+) 1) (stats_total False (vt_stats ?t))" "machine_inv m"
        using kvm_exit_runs[OF buses mi ok, of clock "vt_stats ?t"] kvm_counted_total by blast
      have "exit_total st = exit_total (vt_stats ?t) + of_nat 1" using h(2) by (simp add: stats_total_eq)
      then have "sys_inv (set_vcpu i (?t\<lparr>vt_stats := st, vt_phase := p\<rparr>) (s\<lparr>sys_machine := m, sys_exits := sys_exits s + 1\<rparr>))"
        if "phase_ok p st" "\<not> requests p" for p
        using that by (intro sys_inv_move[OF assms(1,2) ns h(3)]) simp_all
      then have "sys_inv (set_vcpu i (?t\<lparr>vt_stats := st, vt_phase := p\<rparr>) (s\<lparr>sys_exits := Suc (sys_exits s), sys_machine := m\<rparr>))"
        if "phase_ok p st" "\<not> requests p" for p
        using that by (subst system_commute) simp
      then show ?thesis using Inr other h(1) by simp
    qed
  qed
qed

lemma run_handler_inv:
  assumes "sys_inv s" and "i < length (sys_vcpus s)"
  shows "run_handler i s \<noteq> Panics \<and> (\<forall>s'. run_handler i s = Next s' \<longrightarrow> sys_inv s')"
proof -
  have p: "phase_ok (vt_phase (sys_vcpus s ! i)) (vt_stats (sys_vcpus s ! i))"
    "requests (vt_phase (sys_vcpus s ! i)) \<Longrightarrow> sd_flag (sys_shutdown s)"
    "vt_phase (sys_vcpus s ! i) = Starting \<or> i \<in> set (sd_kick_threads (sys_shutdown s))"
    using assms unfolding sys_inv_def by (blast dest: nth_mem)+
  have "sys_inv (set_vcpu i ((sys_vcpus s ! i)\<lparr>vt_kicked := False\<rparr>)
      (s\<lparr>sys_machine := sys_machine s, sys_shutdown := sys_shutdown s, sys_exits := sys_exits s + 0\<rparr>))"
    by (rule sys_inv_vcpu[OF assms]) (use p assms(1) in \<open>auto simp: sys_inv_def\<close>)
  then show ?thesis by (auto simp: run_handler_def Let_def split: vcpu_phase.split)
qed

lemma reader_action_inv:
  assumes "sys_inv s" and "label_ok (Reader now ev)"
  shows "reader_action now ev s \<noteq> Panics \<and> (\<forall>s'. reader_action now ev s = Next s' \<longrightarrow> sys_inv s')"
proof (cases "sys_reader s")
  case RdPolling
  let ?r = "\<lparr>rd_escape = sys_escape s, rd_serial = m_serial (sys_machine s), rd_shutdown = (sys_shutdown s)\<lparr>sd_flag := False\<rparr>, rd_helps = 0\<rparr>"
  have "length bs \<le> 64" if "ev = ReadBytes bs" for bs using assms(2) that by simp
  then obtain r q where r: "reader_step now ev ?r = Some (r, q)" using reader_step_returns[of ev now ?r] by blast
  have "machine_inv ((sys_machine s)\<lparr>m_serial := rd_serial r\<rparr>)"
    using assms(1) reader_step_serial[OF r] by (intro serial_update_inv) (simp_all add: sys_inv_def machine_inv_def)
  then show ?thesis using RdPolling r assms(1) by (simp add: reader_action_def sys_inv_def)
next
  case RdStoring
  then show ?thesis using assms(1) by (simp add: reader_action_def sys_inv_def store_flag_def sd_request_def Let_def)
next
  case RdKicking
  then show ?thesis using assms(1) by (simp add: reader_action_def sys_inv_kicks) (simp add: sys_inv_def)
qed (use assms(1) in \<open>simp_all add: reader_action_def sys_inv_def\<close>)

lemma sys_exec_inv:
  assumes "sys_inv s" and "label_ok l"
  shows "sys_exec pio mmio l s \<noteq> Panics \<and> (\<forall>s'. sys_exec pio mmio l s = Next s' \<longrightarrow> sys_inv s')"
proof (cases l)
  case (Vcpu i clock)
  then show ?thesis using vcpu_action_inv[OF assms(1), of i clock] by simp
next
  case (RunReturns i clock res)
  then show ?thesis using vcpu_return_inv[OF assms(1), of i clock res] assms(2) by simp
next
  case (Handler i)
  then show ?thesis using run_handler_inv[OF assms(1), of i] by simp
next
  case (Reader now ev)
  then show ?thesis using reader_action_inv[OF assms(1), of now ev] assms(2) by simp
next
  case Join
  then show ?thesis using assms(1) by (auto simp: join_next_def sys_inv_def split: vcpu_phase.splits)
next
  case (GuestWrites i f)
  then show ?thesis using assms(1) by (simp add: sys_inv_def mem_update_inv)
qed

lemma sys_reach_inv:
  assumes "sys_reach pio mmio allowed (sys_init n m) s" and "machine_inv m"
  shows "sys_inv s"
  using assms(1) by induction (use sys_inv_init[OF assms(2)] sys_exec_inv in auto)

end

section \<open>Shutdown\<close>

text \<open>
  Once the flag is set no vCPU enters the guest again, so every step but the guest's own stores brings the
  system closer to its end: first the phases, then the elements left of port accesses, then the pending signals.
\<close>

fun phase_rank :: "vcpu_phase \<Rightarrow> nat" where
  "phase_rank (Stopped _) = 0"
| "phase_rank (Kicking _) = 1"
| "phase_rank (Finishing _) = 2"
| "phase_rank Checking = 3"
| "phase_rank (PortIo _ _) = 4"
| "phase_rank InGuest = 5"
| "phase_rank Entering = 6"
| "phase_rank Starting = 7"

fun phase_left :: "vcpu_phase \<Rightarrow> nat" where
  "phase_left (PortIo run js) = length js"
| "phase_left _ = 0"

fun reader_rank :: "reader_phase \<Rightarrow> nat" where
  "reader_rank RdDone = 0"
| "reader_rank RdKicking = 1"
| "reader_rank RdStoring = 2"
| "reader_rank RdChecking = 3"
| "reader_rank RdPolling = 4"

definition sys_rank :: "system \<Rightarrow> nat" where
  "sys_rank s = (\<Sum>t\<leftarrow>sys_vcpus s. phase_rank (vt_phase t)) + reader_rank (sys_reader s) + (length (sys_vcpus s) - sys_joined s)"

definition sys_left :: "system \<Rightarrow> nat" where
  "sys_left s = (\<Sum>t\<leftarrow>sys_vcpus s. phase_left (vt_phase t))"

definition sys_pending :: "system \<Rightarrow> nat" where
  "sys_pending s = (\<Sum>t\<leftarrow>sys_vcpus s. if vt_kicked t then 1 else 0)"

lemma sum_list_nth_update:
  fixes f :: "'a \<Rightarrow> nat"
  assumes "i < length xs"
  shows "f y < f (xs ! i) \<Longrightarrow> (\<Sum>x\<leftarrow>xs[i := y]. f x) < (\<Sum>x\<leftarrow>xs. f x)"
    and "f y = f (xs ! i) \<Longrightarrow> (\<Sum>x\<leftarrow>xs[i := y]. f x) = (\<Sum>x\<leftarrow>xs. f x)"
proof -
  have "f (xs ! i) \<le> (\<Sum>x\<leftarrow>xs. f x)" using elem_le_sum_list[of i "map f xs"] assms by simp
  moreover have "(\<Sum>x\<leftarrow>xs[i := y]. f x) = (\<Sum>x\<leftarrow>xs. f x) + f y - f (xs ! i)"
    using sum_list_update[of i "map f xs" "f y"] assms by (simp add: map_update)
  ultimately show "f y < f (xs ! i) \<Longrightarrow> (\<Sum>x\<leftarrow>xs[i := y]. f x) < (\<Sum>x\<leftarrow>xs. f x)"
    "f y = f (xs ! i) \<Longrightarrow> (\<Sum>x\<leftarrow>xs[i := y]. f x) = (\<Sum>x\<leftarrow>xs. f x)" by simp_all
qed

lemma sys_rank_kicks [simp]: "sys_rank (send_kicks s) = sys_rank s"
  unfolding sys_rank_def by (subst send_kicks_map) simp_all

lemma sys_rank_vcpu:
  "i < length (sys_vcpus s) \<Longrightarrow> phase_rank (vt_phase t) < phase_rank (vt_phase (sys_vcpus s ! i)) \<Longrightarrow>
     sys_rank (set_vcpu i t s) < sys_rank s"
  using sum_list_nth_update(1)[of i "sys_vcpus s" "\<lambda>t. phase_rank (vt_phase t)" t] by (simp add: sys_rank_def set_vcpu_def)

lemma sys_rank_same [simp]:
  "sys_rank (s\<lparr>sys_machine := m\<rparr>) = sys_rank s" "sys_rank (s\<lparr>sys_shutdown := sd\<rparr>) = sys_rank s"
  "sys_rank (s\<lparr>sys_exits := n\<rparr>) = sys_rank s" "sys_rank (s\<lparr>sys_escape := es\<rparr>) = sys_rank s" "sys_rank (store_flag s) = sys_rank s"
  by (simp_all add: sys_rank_def store_flag_def)

definition settles :: "(system \<times> system) set" where
  "settles = measures [sys_rank, sys_left, sys_pending]"

lemma settles_rank: "sys_rank s' < sys_rank s \<Longrightarrow> (s', s) \<in> settles"
  by (simp add: settles_def)

lemma settles_vcpu:
  assumes i: "i < length (sys_vcpus s)"
  shows "phase_rank (vt_phase t) < phase_rank (vt_phase (sys_vcpus s ! i)) \<Longrightarrow> sys_rank s0 = sys_rank s \<Longrightarrow> sys_vcpus s0 = sys_vcpus s \<Longrightarrow>
      (set_vcpu i t s0, s) \<in> settles"
    and "phase_rank (vt_phase t) = phase_rank (vt_phase (sys_vcpus s ! i)) \<Longrightarrow> phase_left (vt_phase t) < phase_left (vt_phase (sys_vcpus s ! i)) \<Longrightarrow>
      (set_vcpu i t (s\<lparr>sys_machine := m\<rparr>), s) \<in> settles"
    and "vt_phase t = vt_phase (sys_vcpus s ! i) \<Longrightarrow> \<not> vt_kicked t \<Longrightarrow> vt_kicked (sys_vcpus s ! i) \<Longrightarrow> (set_vcpu i t s, s) \<in> settles"
proof -
  assume "phase_rank (vt_phase t) < phase_rank (vt_phase (sys_vcpus s ! i))" "sys_rank s0 = sys_rank s" "sys_vcpus s0 = sys_vcpus s"
  then show "(set_vcpu i t s0, s) \<in> settles" using sys_rank_vcpu[of i s0 t] i by (intro settles_rank) simp
next
  assume "phase_rank (vt_phase t) = phase_rank (vt_phase (sys_vcpus s ! i))" "phase_left (vt_phase t) < phase_left (vt_phase (sys_vcpus s ! i))"
  then show "(set_vcpu i t (s\<lparr>sys_machine := m\<rparr>), s) \<in> settles"
    using sum_list_nth_update(2)[OF i, of "\<lambda>t. phase_rank (vt_phase t)" t] sum_list_nth_update(1)[OF i, of "\<lambda>t. phase_left (vt_phase t)" t]
    by (simp add: settles_def sys_rank_def sys_left_def set_vcpu_def)
next
  assume "vt_phase t = vt_phase (sys_vcpus s ! i)" "\<not> vt_kicked t" "vt_kicked (sys_vcpus s ! i)"
  then show "(set_vcpu i t s, s) \<in> settles"
    using sum_list_nth_update(2)[OF i, of "\<lambda>t. phase_rank (vt_phase t)" t] sum_list_nth_update(2)[OF i, of "\<lambda>t. phase_left (vt_phase t)" t]
      sum_list_nth_update(1)[OF i, of "\<lambda>t. if vt_kicked t then 1 else 0" t]
    by (simp add: settles_def sys_rank_def sys_left_def sys_pending_def set_vcpu_def)
qed

lemma set_vcpu_simps [simp]:
  "sys_shutdown (set_vcpu i t s) = sys_shutdown s" "sys_machine (set_vcpu i t s) = sys_machine s"
  "sys_reader (set_vcpu i t s) = sys_reader s" "sys_joined (set_vcpu i t s) = sys_joined s"
  "length (sys_vcpus (set_vcpu i t s)) = length (sys_vcpus s)" "sys_exits (set_vcpu i t s) = sys_exits s"
  by (simp_all add: set_vcpu_def)

lemma store_flag_simps [simp]:
  "sd_flag (sys_shutdown (store_flag s))" "sys_vcpus (store_flag s) = sys_vcpus s" "sys_reader (store_flag s) = sys_reader s"
  "sys_joined (store_flag s) = sys_joined s" "sd_kick_threads (sys_shutdown (store_flag s)) = sd_kick_threads (sys_shutdown s)"
  by (simp_all add: store_flag_def sd_request_def Let_def)

lemma flag_kept:
  assumes "sys_exec pio mmio l s = Next s'" and "sd_flag (sys_shutdown s)"
  shows "sd_flag (sys_shutdown s')"
  using assms
  by (cases l)
    (auto simp: vcpu_action_def vcpu_return_def run_handler_def reader_action_def join_next_def Let_def add_kick_target_def
      split: if_splits vcpu_phase.splits list.splits option.splits sum.splits reader_phase.splits)

lemma vcpu_action_settles:
  assumes "vcpu_action pio clock i s = Next s'" and "i < length (sys_vcpus s)" and "sd_flag (sys_shutdown s)"
  shows "(s', s) \<in> settles"
proof (cases "vt_phase (sys_vcpus s ! i)")
  case (PortIo run js)
  then show ?thesis using assms(1)
    by (auto simp: vcpu_action_def Let_def split: list.splits option.splits intro: settles_vcpu[OF assms(2)])
next
  case (Kicking r)
  have "sys_rank (set_vcpu i ((sys_vcpus s ! i)\<lparr>vt_phase := Stopped (map_sum id (\<lambda>_. vt_stats (sys_vcpus s ! i)) r)\<rparr>) s) < sys_rank s"
    using Kicking by (intro sys_rank_vcpu[OF assms(2)]) simp
  then show ?thesis using assms(1) Kicking by (auto simp: vcpu_action_def Let_def intro!: settles_rank)
qed (use assms in \<open>auto simp: vcpu_action_def Let_def sd_requested_def intro!: settles_vcpu(1)[OF assms(2)]\<close>)

lemma vcpu_return_settles:
  assumes "vcpu_return pio mmio clock i res s = Next s'" and "i < length (sys_vcpus s)"
  shows "(s', s) \<in> settles"
  using assms(1)
  by (auto simp: vcpu_return_def Let_def split: if_splits sum.splits option.splits intro!: settles_vcpu(1)[OF assms(2)])

lemma reader_action_settles:
  assumes "reader_action now ev s = Next s'" and "sd_flag (sys_shutdown s)"
  shows "(s', s) \<in> settles"
proof (cases "sys_reader s")
  case RdKicking
  then show ?thesis using assms(1) by (auto simp: reader_action_def intro!: settles_rank) (simp add: sys_rank_def)
qed (use assms in \<open>auto simp: reader_action_def sd_requested_def sys_rank_def store_flag_def split: option.splits intro!: settles_rank\<close>)

lemma sys_exec_settles:
  assumes "sys_exec pio mmio l s = Next s'" and "sd_flag (sys_shutdown s)" and "\<And>i f. l \<noteq> GuestWrites i f"
  shows "(s', s) \<in> settles"
proof (cases l)
  case (Handler i)
  then show ?thesis using assms(1)
    by (auto simp: run_handler_def Let_def split: if_splits vcpu_phase.splits intro!: settles_vcpu(3))
next
  case Join
  then show ?thesis using assms(1)
    by (auto simp: join_next_def sys_rank_def split: if_splits vcpu_phase.splits intro!: settles_rank)
qed (use assms vcpu_action_settles vcpu_return_settles reader_action_settles in \<open>auto split: if_splits\<close>)

text \<open>
  \<open>prompt\<close>: the handler of the signal does not run between the test of the flag and the run ioctl.
  \<open>kick_inv\<close>: then a thread on its way into the guest or in it has a signal pending once the flag is set, or some
  thread is about to send it.
\<close>

fun prompt :: "sys_label \<Rightarrow> system \<Rightarrow> bool" where
  "prompt (Handler i) s = (vt_phase (sys_vcpus s ! i) \<noteq> Entering)"
| "prompt _ s = True"

fun kicker :: "vcpu_phase \<Rightarrow> bool" where
  "kicker (Kicking r) = True"
| "kicker _ = False"

definition kick_inv :: "system \<Rightarrow> bool" where
  "kick_inv s \<longleftrightarrow> (sd_flag (sys_shutdown s) \<longrightarrow>
     (\<forall>t \<in> set (sys_vcpus s). vt_phase t = Entering \<or> vt_phase t = InGuest \<longrightarrow> vt_kicked t) \<or>
     (\<exists>t \<in> set (sys_vcpus s). kicker (vt_phase t)) \<or> sys_reader s = RdKicking)"

text \<open>The steps that the system takes by itself: those of its threads, and the return of an ioctl that a signal interrupts.\<close>

fun driven :: "sys_label \<Rightarrow> system \<Rightarrow> bool" where
  "driven (RunReturns i clock res) s = (res = Inl Interrupted \<and> vt_kicked (sys_vcpus s ! i))"
| "driven (Handler i) s = False"
| "driven (GuestWrites i f) s = False"
| "driven _ s = True"

definition finished :: "system \<Rightarrow> bool" where
  "finished s \<longleftrightarrow> (\<forall>t \<in> set (sys_vcpus s). \<exists>r. vt_phase t = Stopped r) \<and> sys_reader s = RdDone \<and> sys_joined s = length (sys_vcpus s)"

lemma kick_inv_kicks:
  assumes "sys_inv s"
  shows "kick_inv (send_kicks s)"
proof -
  have "i \<in> set (sd_kick_threads (sys_shutdown s))"
    if "i < length (sys_vcpus s)" "vt_phase (sys_vcpus s ! i) = Entering \<or> vt_phase (sys_vcpus s ! i) = InGuest" for i
    using assms that by (auto simp: sys_inv_def)
  then show ?thesis by (simp add: kick_inv_def all_set_conv_all_nth send_kicks_nth)
qed

lemma kick_inv_vcpu:
  assumes "kick_inv s" and "i < length (sys_vcpus s)" and "sys_vcpus s0 = sys_vcpus s" "sys_reader s0 = sys_reader s"
    and "sd_flag (sys_shutdown s0) \<Longrightarrow> sd_flag (sys_shutdown s)" and "\<not> kicker (vt_phase (sys_vcpus s ! i)) \<or> kicker (vt_phase t)"
    and "vt_phase t = Entering \<or> vt_phase t = InGuest \<Longrightarrow>
      \<not> sd_flag (sys_shutdown s) \<or> (vt_phase (sys_vcpus s ! i) = Entering \<or> vt_phase (sys_vcpus s ! i) = InGuest) \<and> (vt_kicked (sys_vcpus s ! i) \<longrightarrow> vt_kicked t)"
  shows "kick_inv (set_vcpu i t s0)"
proof (cases "sd_flag (sys_shutdown s0)")
  case True
  let ?ts = "(sys_vcpus s)[i := t]"
  have upd: "x = t \<or> x \<in> set (sys_vcpus s)" if "x \<in> set ?ts" for x
    using set_update_subset_insert[of "sys_vcpus s" i t] that by blast
  have "\<exists>t \<in> set ?ts. kicker (vt_phase t)" if ex: "\<exists>t \<in> set (sys_vcpus s). kicker (vt_phase t)"
  proof -
    obtain k where k: "k < length (sys_vcpus s)" "kicker (vt_phase (sys_vcpus s ! k))" using ex by (auto simp: in_set_conv_nth)
    then have "kicker (vt_phase (?ts ! k))" using assms(2,6) by (cases "k = i") auto
    moreover have "?ts ! k \<in> set ?ts" using k(1) by (intro nth_mem) simp
    ultimately show ?thesis ..
  qed
  moreover have "vt_kicked x" if "\<forall>t \<in> set (sys_vcpus s). vt_phase t = Entering \<or> vt_phase t = InGuest \<longrightarrow> vt_kicked t"
    "x \<in> set ?ts" "vt_phase x = Entering \<or> vt_phase x = InGuest" for x
  proof (cases "x = t")
    case t: True
    then show ?thesis using assms(7) that(1,3) assms(5)[OF True] nth_mem[OF assms(2)] by auto
  next
    case False
    then show ?thesis using upd[OF that(2)] that(1,3) by blast
  qed
  ultimately show ?thesis using assms(1,3-5) True unfolding kick_inv_def set_vcpu_def by auto
qed (simp add: kick_inv_def)

lemma kick_inv_same:
  assumes "kick_inv s" and "sys_vcpus s' = sys_vcpus s" "sys_shutdown s' = sys_shutdown s"
    and "sys_reader s \<noteq> RdKicking \<or> sys_reader s' = RdKicking"
  shows "kick_inv s'"
  using assms by (auto simp: kick_inv_def)

lemma vcpu_action_kick:
  assumes "kick_inv s" and "sys_inv s" and "sys_inv s'" and "i < length (sys_vcpus s)" and "vcpu_action pio clock i s = Next s'"
  shows "kick_inv s'"
proof (cases "vt_phase (sys_vcpus s ! i)")
  case (PortIo run js)
  then show ?thesis using assms(5)
    by (auto simp: vcpu_action_def Let_def split: list.splits option.splits intro!: kick_inv_vcpu[OF assms(1,4)])
next
  case (Finishing r)
  let ?t = "(sys_vcpus s ! i)\<lparr>vt_phase := Kicking r\<rparr>"
  have "?t \<in> set (sys_vcpus (set_vcpu i ?t (store_flag s)))" using assms(4) by (simp add: set_vcpu_def set_update_memI)
  then have "kick_inv (set_vcpu i ?t (store_flag s))" unfolding kick_inv_def by (intro impI disjI2 disjI1 bexI) simp_all
  then show ?thesis using assms(5) Finishing by (simp add: vcpu_action_def Let_def)
next
  case (Kicking r)
  then obtain s1 where "s' = send_kicks s1" "sys_inv s1"
    using assms(3,5) by (auto simp: vcpu_action_def Let_def sys_inv_kicks)
  then show ?thesis using kick_inv_kicks by simp
qed (use assms(5) in \<open>auto simp: vcpu_action_def Let_def sd_requested_def add_kick_target_def intro!: kick_inv_vcpu[OF assms(1,4)]\<close>)

lemma vcpu_return_kick:
  assumes "kick_inv s" and "i < length (sys_vcpus s)" and "vcpu_return pio mmio clock i res s = Next s'"
  shows "kick_inv s'"
  using assms(3)
  by (auto simp: vcpu_return_def Let_def split: if_splits sum.splits option.splits intro!: kick_inv_vcpu[OF assms(1,2)])

lemma reader_action_kick:
  assumes "kick_inv s" and "sys_inv s'" and "reader_action now ev s = Next s'"
  shows "kick_inv s'"
proof (cases "sys_reader s")
  case RdKicking
  then obtain s1 where "s' = send_kicks s1" "sys_inv s1" using assms(2,3) by (auto simp: reader_action_def sys_inv_kicks)
  then show ?thesis using kick_inv_kicks by simp
next
  case RdStoring
  then show ?thesis using assms(3) by (auto simp: reader_action_def kick_inv_def store_flag_def)
qed (use assms(3) in \<open>auto simp: reader_action_def split: option.splits intro!: kick_inv_same[OF assms(1)]\<close>)

lemma sys_exec_kick:
  assumes "kick_inv s" and "sys_inv s" and "sys_inv s'" and "prompt l s" and "sys_exec pio mmio l s = Next s'"
  shows "kick_inv s'"
proof (cases l)
  case (Handler i)
  then show ?thesis using assms(4,5)
    by (auto simp: run_handler_def Let_def split: if_splits vcpu_phase.splits intro!: kick_inv_vcpu[OF assms(1)])
next
  case Join
  then show ?thesis using assms(5)
    by (auto simp: join_next_def split: if_splits vcpu_phase.splits intro!: kick_inv_same[OF assms(1)])
next
  case (GuestWrites i f)
  then show ?thesis using assms(5) by (auto split: if_splits intro!: kick_inv_same[OF assms(1)])
next
  case (Vcpu i clock)
  then show ?thesis using assms(5) vcpu_action_kick[OF assms(1-3)] by (simp split: if_splits)
next
  case (RunReturns i clock res)
  then show ?thesis using assms(5) vcpu_return_kick[OF assms(1)] by (simp split: if_splits)
next
  case (Reader now ev)
  then show ?thesis using assms(5) reader_action_kick[OF assms(1,3)] by simp
qed

lemma kick_inv_init: "kick_inv (sys_init n m)"
  by (simp add: kick_inv_def sys_init_def shutdown_new_def)

text \<open>Nothing left to do means the end of the run.\<close>

lemma vcpu_action_enabled:
  "vcpu_action pio clock i s \<noteq> Disabled \<longleftrightarrow>
     vt_phase (sys_vcpus s ! i) \<noteq> InGuest \<and> (\<nexists>r. vt_phase (sys_vcpus s ! i) = Stopped r)"
  by (auto simp: vcpu_action_def Let_def split: vcpu_phase.split list.split option.split)

lemma reader_action_enabled: "reader_action now ev s \<noteq> Disabled \<longleftrightarrow> sys_reader s \<noteq> RdDone"
  by (auto simp: reader_action_def split: reader_phase.split option.split)

lemma driven_enabled:
  assumes "kick_inv s" and "sys_inv s" and "sd_flag (sys_shutdown s)" and "\<not> finished s"
  shows "\<exists>l. driven l s \<and> label_ok l \<and> sys_exec pio mmio l s \<noteq> Disabled"
proof (rule ccontr)
  assume "\<not> ?thesis"
  then have none: "sys_exec pio mmio l s = Disabled" if "driven l s" "label_ok l" for l using that by blast
  have reader: "sys_reader s = RdDone"
    using none[of "Reader 0 PollTimeout"] reader_action_enabled[of 0 PollTimeout s] by simp
  have phase: "vt_phase t = InGuest \<or> (\<exists>r. vt_phase t = Stopped r)" if t: "t \<in> set (sys_vcpus s)" for t
  proof -
    obtain i where i: "i < length (sys_vcpus s)" "t = sys_vcpus s ! i" using t by (auto simp: in_set_conv_nth)
    then have "vcpu_action pio (\<lambda>_. 0) i s = Disabled" using none[of "Vcpu i (\<lambda>_. 0)"] by simp
    then show ?thesis using vcpu_action_enabled[of pio "\<lambda>_. 0" i s] i(2) by blast
  qed
  then have "\<not> kicker (vt_phase t)" if "t \<in> set (sys_vcpus s)" for t using that by fastforce
  then have kicked: "vt_kicked t" if "t \<in> set (sys_vcpus s)" "vt_phase t = InGuest" for t
    using assms(1,3) reader that by (auto simp: kick_inv_def)
  have "vt_phase t \<noteq> InGuest" if t: "t \<in> set (sys_vcpus s)" for t
  proof
    assume g: "vt_phase t = InGuest"
    obtain i where i: "i < length (sys_vcpus s)" "sys_vcpus s ! i = t" using t by (auto simp: in_set_conv_nth)
    then show False using none[of "RunReturns i (\<lambda>_. 0) (Inl Interrupted)"] kicked[OF t g] g by (simp add: vcpu_return_def Let_def)
  qed
  then have stopped: "\<exists>r. vt_phase t = Stopped r" if "t \<in> set (sys_vcpus s)" for t using phase that by blast
  have "sys_joined s = length (sys_vcpus s)"
  proof (rule ccontr)
    assume "sys_joined s \<noteq> length (sys_vcpus s)"
    then have "sys_joined s < length (sys_vcpus s)" using assms(2) by (simp add: sys_inv_def)
    then show False using none[of Join] stopped[of "sys_vcpus s ! sys_joined s"] by (auto simp: join_next_def)
  qed
  then show False using assms(4) stopped reader by (simp add: finished_def)
qed

section \<open>The joins\<close>

text \<open>What \<open>main\<close> has from its threads when it has joined them all.\<close>

fun thread_result_of :: "vcpu_phase \<Rightarrow> thread_result option" where
  "thread_result_of (Stopped r) = Some (Finished r)"
| "thread_result_of _ = None"

definition sys_results :: "system \<Rightarrow> thread_result list option" where
  "sys_results s = (if sys_joined s = length (sys_vcpus s) then those (map (\<lambda>t. thread_result_of (vt_phase t)) (sys_vcpus s)) else None)"

lemma thread_result_ofD: "thread_result_of p = Some r \<Longrightarrow> \<exists>x. r = Finished x"
  by (cases p) auto

lemma join_threads_err: "join_threads False rs t (Some e) = Some (t', e') \<Longrightarrow> e' = Some e"
  using join_threads_failure[of rs t "Some e"] by simp

lemma join_threads_total:
  assumes "join_threads False rs t None = Some (t', None :: ('e, 'x, 'v) main_error option)"
  shows "\<exists>sts. rs = map (\<lambda>st. Finished (Inr st)) sts \<and> exit_total t' = exit_total t + (\<Sum>st\<leftarrow>sts. exit_total st)"
  using assms
proof (induction rs arbitrary: t)
  case (Cons r rs)
  show ?case
  proof (cases "\<exists>st. r = Finished (Inr st)")
    case True
    then obtain st where r: "r = Finished (Inr st)" by blast
    obtain t1 where t1: "stats_add_assign False t st = Some t1" "exit_total t1 = exit_total t + exit_total st"
      by (simp add: stats_add_assign_def exit_total_def)
    then have "join_threads False rs t1 None = Some (t', None :: ('e, 'x, 'v) main_error option)" using Cons.prems r by simp
    then obtain sts where "rs = map (\<lambda>st. Finished (Inr st)) sts" "exit_total t' = exit_total t1 + (\<Sum>st\<leftarrow>sts. exit_total st)"
      using Cons.IH by blast
    then show ?thesis using r t1 by (intro exI[of _ "st # sts"]) simp
  next
    case False
    then show ?thesis using Cons.prems by (cases r rule: failure.cases) (auto dest: join_threads_err)
  qed
qed (simp add: exI[of _ "[]"])

lemma those_results:
  assumes "those (map (\<lambda>t. thread_result_of (vt_phase t)) ts) = Some (map (\<lambda>st. Finished (Inr st)) sts)"
    and "\<forall>t \<in> set ts. phase_ok (vt_phase t) (vt_stats t)"
  shows "sts = map vt_stats ts"
  using assms
proof (induction ts arbitrary: sts)
  case (Cons t ts)
  then obtain st sts' where "sts = st # sts'" "vt_phase t = Stopped (Inr st)"
    "those (map (\<lambda>t. thread_result_of (vt_phase t)) ts) = Some (map (\<lambda>st. Finished (Inr st)) sts')"
    by (cases "vt_phase t"; cases sts) (auto split: option.splits)
  then show ?case using Cons by simp
qed simp

lemma report_counts:
  assumes "sys_inv s" and "sys_results s = Some rs" and "report False rs k = Some (Inr totals, k)"
  shows "stats_total False totals = Some (of_nat (sys_exits s))"
proof -
  have "join_threads False rs stats_new None = Some (totals, None :: ('a, 'b, 'c) main_error option)"
    using assms(3) by (auto simp: report_def bind_eq_Some_conv split: option.splits prod.splits)
  then obtain sts where sts: "rs = map (\<lambda>st. Finished (Inr st)) sts" "exit_total totals = (\<Sum>st\<leftarrow>sts. exit_total st)"
    using join_threads_total by fastforce
  have "sts = map vt_stats (sys_vcpus s)"
    using assms(1,2) sts(1) by (intro those_results) (auto simp: sys_results_def sys_inv_def split: if_splits)
  then show ?thesis using assms(1) sts(2) by (simp add: stats_total_eq sys_inv_def o_def)
qed

text \<open>\<open>main\<close> reports the counts, or the error of a thread.\<close>

lemma report_returns:
  fixes k :: 'k
  assumes "sys_inv s" and "sys_results s = Some rs"
  shows "\<exists>r. report False rs k = (Some (r, k) :: ((('e, 'x, 'v) main_error + exit_stats) \<times> 'k) option) \<and>
     (case r of Inr totals \<Rightarrow> stats_total False totals = Some (of_nat (sys_exits s)) | Inl e \<Rightarrow> \<exists>x. e = RunFailed x)"
proof -
  obtain totals err where j: "join_threads False rs stats_new None = Some (totals, err :: ('e, 'x, 'v) main_error option)"
    using join_threads_failure[of rs stats_new "None :: ('e, 'x, 'v) main_error option"] by auto
  have e: "err = (case List.map_filter failure rs of [] \<Rightarrow> None | e # _ \<Rightarrow> Some e)"
    using join_threads_failure[of rs stats_new "None :: ('e, 'x, 'v) main_error option"] j by simp
  have finished: "\<exists>x. r = Finished x" if "those (map (\<lambda>t. thread_result_of (vt_phase t)) ts) = Some rs" "r \<in> set rs" for r rs ts
    using that by (induction ts arbitrary: rs) (auto split: option.splits dest: thread_result_ofD)
  have "\<exists>x. e = RunFailed x" if "(e :: ('e, 'x, 'v) main_error) \<in> set (List.map_filter failure rs)" for e
    using that assms(2) finished[of "sys_vcpus s" rs]
    by (auto simp: sys_results_def map_filter_def split: if_splits sum.splits elim!: failure.elims)
  then have run: "\<exists>x. e = RunFailed x" if "err = Some e" for e
    using that e by (cases "List.map_filter failure rs :: ('e, 'x, 'v) main_error list") auto
  have rep: "report False rs k = (Some (case err of Some e \<Rightarrow> Inl e | None \<Rightarrow> Inr totals, k) :: ((('e, 'x, 'v) main_error + exit_stats) \<times> 'k) option)"
    using j by (simp add: report_def stats_total_release split: option.split)
  then show ?thesis using run report_counts[OF assms, where ?'a = 'e and ?'b = 'x and ?'c = 'v and k = k and totals = totals]
    by (cases err) auto
qed

section \<open>Properties\<close>

context vcpu_threads
begin

lemma sys_reach_kick:
  assumes "sys_reach pio mmio prompt (sys_init n m) s" and "machine_inv m"
  shows "sys_inv s \<and> kick_inv s"
  using assms(1) by induction (use sys_inv_init[OF assms(2)] kick_inv_init sys_exec_inv sys_exec_kick in blast)+

lemma progress:
  assumes "sys_reach pio mmio prompt (sys_init n m) s" and "machine_inv m" and "sd_flag (sys_shutdown s)" and "\<not> finished s"
  shows "\<exists>l s'. driven l s \<and> label_ok l \<and> prompt l s \<and> sys_exec pio mmio l s = Next s'"
proof -
  have inv: "sys_inv s" "kick_inv s" using sys_reach_kick[OF assms(1,2)] by blast+
  obtain l where l: "driven l s" "label_ok l" "sys_exec pio mmio l s \<noteq> Disabled" using driven_enabled[OF inv(2,1) assms(3,4)] by blast
  then obtain s' where "sys_exec pio mmio l s = Next s'" using sys_exec_inv[OF inv(1) l(2)] by (cases "sys_exec pio mmio l s") auto
  moreover have "prompt l s" using l(1) by (cases l) simp_all
  ultimately show ?thesis using l by blast
qed

text \<open>So some run of driven steps ends with everything stopped and joined.\<close>

lemma completes:
  assumes "sys_reach pio mmio prompt (sys_init n m) s" and "machine_inv m" and "sd_flag (sys_shutdown s)"
  shows "\<exists>ls s'. sys_run pio mmio ls s = Some s' \<and> finished s' \<and> sys_inv s'"
  using assms
proof (induction s rule: wf_induct[of settles])
  case 1
  show ?case by (simp add: settles_def)
next
  case (2 s)
  show ?case
  proof (cases "finished s")
    case True
    then have "sys_run pio mmio [] s = Some s \<and> finished s \<and> sys_inv s" using sys_reach_kick[OF 2(2,3)] by simp
    then show ?thesis by blast
  next
    case False
    obtain l s' where l: "driven l s" "label_ok l" "prompt l s" "sys_exec pio mmio l s = Next s'" using progress[OF 2(2-4) False] by blast
    have "l \<noteq> GuestWrites i f" for i f using l(1) by auto
    then have "(s', s) \<in> settles" using sys_exec_settles[OF l(4) 2(4)] by blast
    moreover have "sys_reach pio mmio prompt (sys_init n m) s'" using sys_reach.step[OF 2(2) l(2-4)] .
    ultimately obtain ls s2 where "sys_run pio mmio ls s' = Some s2" "finished s2" "sys_inv s2"
      using 2(1,3) flag_kept[OF l(4) 2(4)] by blast
    then have "sys_run pio mmio (l # ls) s = Some s2 \<and> finished s2 \<and> sys_inv s2" using l(4) by simp
    then show ?thesis by blast
  qed
qed

end

text \<open>A thread that returned stays returned, so the threads that are joined all have, and all are on the list of targets.\<close>

lemma stopped_stays:
  assumes "sys_exec pio mmio l s = Next s'" and "j < length (sys_vcpus s)" and "vt_phase (sys_vcpus s ! j) = Stopped r"
  shows "vt_phase (sys_vcpus s' ! j) = Stopped r"
proof -
  have u: "vt_phase (sys_vcpus (set_vcpu i t s1) ! j) = Stopped r"
    if "vt_phase (sys_vcpus s ! i) \<noteq> Stopped r" "sys_vcpus s1 = sys_vcpus s" for i t s1
    using that assms(3) by (cases "i = j") (auto simp: set_vcpu_def)
  show ?thesis
  proof (cases l)
    case (Vcpu i clock)
    then show ?thesis using assms
      by (auto simp: vcpu_action_def Let_def send_kicks_nth split: if_splits vcpu_phase.splits list.splits option.splits intro!: u)
  next
    case (RunReturns i clock res)
    then show ?thesis using assms
      by (auto simp: vcpu_return_def Let_def split: if_splits sum.splits option.splits intro!: u)
  next
    case (Handler i)
    then show ?thesis using assms by (auto simp: run_handler_def Let_def split: if_splits vcpu_phase.splits intro!: u)
  next
    case (Reader now ev)
    then show ?thesis using assms
      by (auto simp: reader_action_def send_kicks_nth split: reader_phase.splits option.splits)
  qed (use assms in \<open>auto simp: join_next_def split: if_splits vcpu_phase.splits\<close>)
qed

lemma sys_exec_length: "sys_exec pio mmio l s = Next s' \<Longrightarrow> length (sys_vcpus s') = length (sys_vcpus s)"
  by (cases l)
    (auto simp: vcpu_action_def vcpu_return_def run_handler_def reader_action_def join_next_def Let_def
      split: if_splits vcpu_phase.splits list.splits option.splits sum.splits reader_phase.splits)

lemma sys_exec_joined:
  assumes "sys_exec pio mmio l s = Next s'" and "j < sys_joined s'" and "\<not> j < sys_joined s"
  shows "\<exists>r. j < length (sys_vcpus s) \<and> vt_phase (sys_vcpus s ! j) = Stopped r"
proof (cases l)
  case Join
  then show ?thesis using assms by (auto simp: join_next_def less_Suc_eq split: if_splits vcpu_phase.splits)
qed (use assms in \<open>auto simp: vcpu_action_def vcpu_return_def run_handler_def reader_action_def Let_def
      split: if_splits vcpu_phase.splits list.splits option.splits sum.splits reader_phase.splits\<close>)

lemma joined_stopped:
  assumes "sys_reach pio mmio allowed (sys_init n m) s" and "j < sys_joined s"
  shows "\<exists>r. j < length (sys_vcpus s) \<and> length (sys_vcpus s) = n \<and> vt_phase (sys_vcpus s ! j) = Stopped r"
proof -
  have "length (sys_vcpus s) = n \<and> (\<forall>j < sys_joined s. \<exists>r. j < length (sys_vcpus s) \<and> vt_phase (sys_vcpus s ! j) = Stopped r)"
    using assms(1)
  proof induction
    case (step s l s')
    then show ?case using sys_exec_length[OF step(4)] stopped_stays[OF step(4)] sys_exec_joined[OF step(4)] by metis
  qed (simp add: sys_init_def)
  then show ?thesis using assms(2) by blast
qed

lemma send_kicks_kills: "sys_kills (send_kicks s) = sys_kills s @ sd_kick_threads (sys_shutdown s)"
  by (simp add: send_kicks_def sd_request_def Let_def)

interpretation main_buses: vcpu_threads com_bus "[(\<lparr>br_base = 0x1000000, br_len = 0xcf000000\<rparr>, DevWindow)]"
  by unfold_locales (simp_all add: served_def com_bus_wf bus_wf_Cons range_ok_def range_end_def saturating_add_def com_bus_def within_spans_def dev_span_def)

text \<open>
  C4. Whatever the order in which the vCPU threads, the reader and \<open>main\<close> act, and whatever the guests store in memory
  meanwhile: no thread panics, the machine keeps its invariant, a vCPU thread returns only after shutdown is
  requested, so that no other thread goes on without it, and when all have returned without error the statistics
  \<open>main\<close> reports count every exit of every vCPU, modulo \<open>2^64\<close>.
\<close>

theorem threads_safe:
  assumes buses: "served pio" "served mmio" and m: "machine_inv m"
    and reach: "sys_reach pio mmio (\<lambda>_ _. True) (sys_init n m) s"
  shows "machine_inv (sys_machine s) \<and>
     (\<forall>l. label_ok l \<longrightarrow> sys_exec pio mmio l s \<noteq> Panics) \<and>
     (\<forall>t \<in> set (sys_vcpus s). (\<exists>r. vt_phase t = Stopped r) \<longrightarrow> sd_requested (sys_shutdown s)) \<and>
     (\<forall>rs totals (k :: 'k). sys_results s = Some rs \<and>
        report False rs k = (Some (Inr totals, k) :: ((('e, 'x, 'v) main_error + exit_stats) \<times> 'k) option) \<longrightarrow>
        stats_total False totals = Some (of_nat (sys_exits s)))"
proof -
  have th: "vcpu_threads pio mmio" using buses by unfold_locales
  have inv: "sys_inv s" by (rule vcpu_threads.sys_reach_inv[OF th reach m])
  then have "machine_inv (sys_machine s)" "\<forall>t \<in> set (sys_vcpus s). requests (vt_phase t) \<longrightarrow> sd_flag (sys_shutdown s)"
    by (simp_all add: sys_inv_def)
  then show ?thesis using vcpu_threads.sys_exec_inv[OF th inv] report_counts[OF inv] by (fastforce simp: sd_requested_def)
qed

text \<open>
  C5. Shutdown completes. Say no signal handler runs between a thread's test of the flag and its run ioctl. Once the flag is
  set, it stays set, every step but the guests' stores lowers a well-founded measure, and as long as not all vCPU
  threads have returned, been joined, and the reader has ended, one of the threads can act, or a signal is pending
  that interrupts a vCPU's ioctl. So there is a run to the end from there.
\<close>

theorem shutdown_completes:
  assumes buses: "served pio" "served mmio" and m: "machine_inv m"
    and reach: "sys_reach pio mmio prompt (sys_init n m) s" and flag: "sd_requested (sys_shutdown s)"
  shows "wf settles \<and>
     (\<forall>l s'. sys_exec pio mmio l s = Next s' \<longrightarrow> sd_requested (sys_shutdown s') \<and> ((s', s) \<in> settles \<or> (\<exists>i f. l = GuestWrites i f) \<and> s' = s\<lparr>sys_machine := sys_machine s'\<rparr>)) \<and>
     (finished s \<or> (\<exists>l s'. driven l s \<and> label_ok l \<and> sys_exec pio mmio l s = Next s')) \<and>
     (\<exists>ls s'. sys_run pio mmio ls s = Some s' \<and> finished s')"
proof -
  have th: "vcpu_threads pio mmio" using buses by unfold_locales
  have f: "sd_flag (sys_shutdown s)" using flag by (simp add: sd_requested_def)
  have "sd_requested (sys_shutdown s') \<and> ((s', s) \<in> settles \<or> (\<exists>i f. l = GuestWrites i f) \<and> s' = s\<lparr>sys_machine := sys_machine s'\<rparr>)"
    if e: "sys_exec pio mmio l s = Next s'" for l s'
  proof (cases "\<exists>i f. l = GuestWrites i f")
    case True
    then show ?thesis using e flag_kept[OF e f] by (auto simp: sd_requested_def split: if_splits)
  next
    case False
    then show ?thesis using flag_kept[OF e f] sys_exec_settles[OF e f] by (auto simp: sd_requested_def)
  qed
  moreover have "wf settles" by (simp add: settles_def)
  ultimately show ?thesis using vcpu_threads.progress[OF th reach m f] vcpu_threads.completes[OF th reach m f] by blast
qed

lemma sys_run_reach:
  assumes "sys_run pio mmio ls s = Some s'" and "sys_reach pio mmio allowed s0 s" and "\<forall>l \<in> set ls. label_ok l \<and> (\<forall>s. allowed l s)"
  shows "sys_reach pio mmio allowed s0 s'"
  using assms
proof (induction ls arbitrary: s)
  case (Cons l ls)
  then obtain s1 where "sys_exec pio mmio l s = Next s1" "sys_run pio mmio ls s1 = Some s'" by (auto split: outcome.splits)
  moreover have "sys_reach pio mmio allowed s0 s1" using sys_reach.step[OF Cons.prems(2)] Cons.prems(3) calculation(1) by auto
  ultimately show ?case using Cons by simp
qed simp

lemmas act_defs = vcpu_action_def vcpu_return_def run_handler_def reader_action_def join_next_def set_vcpu_def store_flag_def
  send_kicks_def sys_init_def shutdown_new_def add_kick_target_def sd_requested_def sd_request_def Let_def

text \<open>A run page of a shutdown exit, and a console that reads the quit sequence.\<close>

definition shutdown_run :: kvm_run where
  "shutdown_run = \<lparr>run_exit_reason = exit_code ExitShutdown,
     run_io = \<lparr>io_direction = 0, io_size = 0, io_port = 0, io_count = 0, io_data_offset = 0\<rparr>,
     run_mmio = \<lparr>mmio_phys_addr = 0, mmio_data = [], mmio_len = 0, mmio_is_write = 0\<rparr>, run_page = []\<rparr>"

definition enter_guest :: "nat \<Rightarrow> sys_label list" where
  "enter_guest i = [Vcpu i (\<lambda>_. 0), Vcpu i (\<lambda>_. 0), Vcpu i (\<lambda>_. 0)]"

definition console_quits :: "sys_label list" where
  "console_quits = (let l = Reader 0 (ReadBytes [CTRL_A, 0x78]) in [l, l, l, l])"

lemma shutdown_run_exit [simp]:
  "run_exit_reason shutdown_run = 8" "kvm_run_ok shutdown_run"
  "kvm_handle_exit False clock pio mmio shutdown_run st m = Some (Inr False, st\<lparr>shutdown_exits := shutdown_exits st + 1\<rparr>, m, shutdown_run)"
  by (simp_all add: shutdown_run_def kvm_run_ok_def kvm_handle_exit_def exit_reason_try_from_def count_shutdown_def)

lemma stop_run:
  "sys_run pio mmio (enter_guest 0 @ [RunReturns 0 (\<lambda>_. 0) (Inr shutdown_run), Vcpu 0 (\<lambda>_. 0), Vcpu 0 (\<lambda>_. 0), Join]) (sys_init 1 m) =
     Some \<lparr>sys_machine = m, sys_shutdown = \<lparr>sd_flag = True, sd_kick_threads = [0]\<rparr>,
       sys_vcpus = [\<lparr>vt_phase = Stopped (Inr (stats_new\<lparr>shutdown_exits := 1\<rparr>)), vt_stats = stats_new\<lparr>shutdown_exits := 1\<rparr>, vt_kicked = True\<rparr>],
       sys_reader = RdChecking, sys_escape = escape_new, sys_joined = 1, sys_exits = 1, sys_kills = [0]\<rparr>"
  by (simp add: enter_guest_def act_defs stats_new_def)

lemma quit_run:
  "sys_run pio mmio (enter_guest 0 @ console_quits) (sys_init 1 m) =
     Some \<lparr>sys_machine = m, sys_shutdown = \<lparr>sd_flag = True, sd_kick_threads = [0]\<rparr>,
       sys_vcpus = [\<lparr>vt_phase = InGuest, vt_stats = stats_new, vt_kicked = True\<rparr>],
       sys_reader = RdDone, sys_escape = escape_new, sys_joined = 0, sys_exits = 0, sys_kills = [0]\<rparr>"
  by (simp add: enter_guest_def console_quits_def act_defs reader_step_def rd_request_def feed_def escape_new_def CTRL_A_def)

lemma a_machine:
  "\<exists>m pio mmio. setup_machine False (\<lambda>g. Inr (KvmIrqSink 3 g) :: unit + irq_sink) (Inr (KvmMsiSink 3))
       (Some (\<lambda>_. True, \<lambda>_ _. 7)) None 0 \<lparr>gm_ptr = 1, gm_size = 0x1000000, gm_bytes = (\<lambda>_. 0)\<rparr> 0x1000000 = Some (Inr (m, pio, mmio)) \<and>
     machine_inv m \<and> served pio \<and> served mmio"
  using setup_machine_ok[where ram_size = "0x1000000" and register_irq = "\<lambda>g. Inr (KvmIrqSink 3 g) :: unit + irq_sink" and img = None
      and oc = False and msink = "KvmMsiSink 3" and src = "(\<lambda>_. True, \<lambda>_ _. 7)" and now = 0
      and mem = "\<lparr>gm_ptr = 1, gm_size = 0x1000000, gm_bytes = (\<lambda>_. 0)\<rparr>"] by auto

theorem threads_safe_witness:
  "\<exists>m pio mmio s rs totals. setup_machine False (\<lambda>g. Inr (KvmIrqSink 3 g) :: unit + irq_sink) (Inr (KvmMsiSink 3))
       (Some (\<lambda>_. True, \<lambda>_ _. 7)) None 0 \<lparr>gm_ptr = 1, gm_size = 0x1000000, gm_bytes = (\<lambda>_. 0)\<rparr> 0x1000000 = Some (Inr (m, pio, mmio)) \<and>
     sys_run pio mmio (enter_guest 0 @ [RunReturns 0 (\<lambda>_. 0) (Inr shutdown_run), Vcpu 0 (\<lambda>_. 0), Vcpu 0 (\<lambda>_. 0), Join]) (sys_init 1 m) = Some s \<and>
     machine_inv (sys_machine s) \<and> sys_results s = Some rs \<and>
     report False rs () = (Some (Inr totals, ()) :: (((unit, unit, unit) main_error + exit_stats) \<times> unit) option) \<and>
     stats_total False totals = Some 1"
proof -
  obtain m pio mmio where m: "setup_machine False (\<lambda>g. Inr (KvmIrqSink 3 g) :: unit + irq_sink) (Inr (KvmMsiSink 3))
       (Some (\<lambda>_. True, \<lambda>_ _. 7)) None 0 \<lparr>gm_ptr = 1, gm_size = 0x1000000, gm_bytes = (\<lambda>_. 0)\<rparr> 0x1000000 = Some (Inr (m, pio, mmio))"
    "machine_inv m" "served pio" "served mmio"
    using a_machine by blast
  let ?ls = "enter_guest 0 @ [RunReturns 0 (\<lambda>_. 0) (Inr shutdown_run), Vcpu 0 (\<lambda>_. 0), Vcpu 0 (\<lambda>_. 0), Join]"
  let ?st = "stats_new\<lparr>shutdown_exits := 1\<rparr>"
  obtain s where s: "sys_run pio mmio ?ls (sys_init 1 m) = Some s" "sys_results s = Some [Finished (Inr ?st)]" "sys_exits s = 1"
    using stop_run[of pio mmio m] by (auto simp: sys_results_def)
  have "sys_reach pio mmio (\<lambda>_ _. True) (sys_init 1 m) s"
    by (rule sys_run_reach[OF s(1) sys_reach.start]) (simp add: enter_guest_def)
  note safe = threads_safe[OF m(3,4,2) this, where 'k = unit and 'e = unit and 'x = unit and 'v = unit]
  have "report False [Finished (Inr ?st)] () = (Some (Inr ?st, ()) :: (((unit, unit, unit) main_error + exit_stats) \<times> unit) option)"
    by (simp add: report_def stats_add_assign_def stats_total_def stats_new_def)
  then show ?thesis using m(1) s safe by fastforce
qed

theorem shutdown_completes_witness:
  "\<exists>m pio mmio s ls s'. setup_machine False (\<lambda>g. Inr (KvmIrqSink 3 g) :: unit + irq_sink) (Inr (KvmMsiSink 3))
       (Some (\<lambda>_. True, \<lambda>_ _. 7)) None 0 \<lparr>gm_ptr = 1, gm_size = 0x1000000, gm_bytes = (\<lambda>_. 0)\<rparr> 0x1000000 = Some (Inr (m, pio, mmio)) \<and>
     sys_run pio mmio (enter_guest 0 @ console_quits) (sys_init 1 m) = Some s \<and> vt_phase (sys_vcpus s ! 0) = InGuest \<and>
     sys_run pio mmio ls s = Some s' \<and> finished s'"
proof -
  obtain m pio mmio where m: "setup_machine False (\<lambda>g. Inr (KvmIrqSink 3 g) :: unit + irq_sink) (Inr (KvmMsiSink 3))
       (Some (\<lambda>_. True, \<lambda>_ _. 7)) None 0 \<lparr>gm_ptr = 1, gm_size = 0x1000000, gm_bytes = (\<lambda>_. 0)\<rparr> 0x1000000 = Some (Inr (m, pio, mmio))"
    "machine_inv m" "served pio" "served mmio"
    using a_machine by blast
  obtain s where s: "sys_run pio mmio (enter_guest 0 @ console_quits) (sys_init 1 m) = Some s" "vt_phase (sys_vcpus s ! 0) = InGuest"
    "sd_requested (sys_shutdown s)"
    using quit_run[of pio mmio m] by (auto simp: sd_requested_def)
  have "sys_reach pio mmio prompt (sys_init 1 m) s"
    by (rule sys_run_reach[OF s(1) sys_reach.start]) (auto simp: enter_guest_def console_quits_def Let_def)
  then show ?thesis using m(1) s(1,2) shutdown_completes[OF m(3,4,2) _ s(3)] by blast
qed


text \<open>
  C39. A kick can be stale. Whenever a thread reaches the signals of a shutdown request, a vCPU thread or the reader, after
  \<open>main\<close> has joined a vCPU thread, the step it takes calls \<open>pthread_kill\<close> on the joined thread's id as well, which is
  no longer valid: targets are never taken off the list.
\<close>

theorem stale_kick:
  assumes "served pio" "served mmio" "machine_inv m" and "sys_reach pio mmio (\<lambda>_ _. True) (sys_init n m) s"
    and "l = Vcpu i clock \<and> i < n \<and> vt_phase (sys_vcpus s ! i) = Kicking r \<or> l = Reader now ev \<and> sys_reader s = RdKicking"
    and "j < sys_joined s"
  shows "\<exists>s' targets. sys_exec pio mmio l s = Next s' \<and> sys_kills s' = sys_kills s @ targets \<and> j \<in> set targets \<and>
     j < sys_joined s' \<and> (\<exists>x. vt_phase (sys_vcpus s' ! j) = Stopped x)"
proof -
  have th: "vcpu_threads pio mmio" using assms(1,2) by unfold_locales
  obtain x where x: "j < length (sys_vcpus s)" "length (sys_vcpus s) = n" "vt_phase (sys_vcpus s ! j) = Stopped x"
    using joined_stopped[OF assms(4,6)] by blast
  have inv: "sys_inv s" by (rule vcpu_threads.sys_reach_inv[OF th assms(4,3)])
  then have "\<forall>i < length (sys_vcpus s). vt_phase (sys_vcpus s ! i) = Starting \<or> i \<in> set (sd_kick_threads (sys_shutdown s))"
    by (simp add: sys_inv_def)
  then have j: "j \<in> set (sd_kick_threads (sys_shutdown s))" using x(1,3) by auto
  obtain s' where s': "sys_exec pio mmio l s = Next s'" "sys_kills s' = sys_kills s @ sd_kick_threads (sys_shutdown s)"
      "sys_joined s' = sys_joined s"
    using assms(5) x(2) by (auto simp: vcpu_action_def reader_action_def Let_def send_kicks_kills set_vcpu_def)
  then show ?thesis using j stopped_stays[OF s'(1) x(1,3)] assms(6) by auto
qed

theorem stale_kick_witness:
  "\<exists>m pio mmio s s'. setup_machine False (\<lambda>g. Inr (KvmIrqSink 3 g) :: unit + irq_sink) (Inr (KvmMsiSink 3))
       (Some (\<lambda>_. True, \<lambda>_ _. 7)) None 0 \<lparr>gm_ptr = 1, gm_size = 0x1000000, gm_bytes = (\<lambda>_. 0)\<rparr> 0x1000000 = Some (Inr (m, pio, mmio)) \<and>
     sys_run pio mmio (enter_guest 0 @ enter_guest 1 @
         [RunReturns 0 (\<lambda>_. 0) (Inr shutdown_run), Vcpu 0 (\<lambda>_. 0), Vcpu 0 (\<lambda>_. 0), Join,
          RunReturns 1 (\<lambda>_. 0) (Inl Interrupted), Vcpu 1 (\<lambda>_. 0), Vcpu 1 (\<lambda>_. 0)]) (sys_init 2 m) = Some s \<and>
     sys_kills s = [0, 1] \<and> sys_exec pio mmio (Vcpu 1 (\<lambda>_. 0)) s = Next s' \<and> 0 \<in> set (drop 2 (sys_kills s')) \<and> 0 < sys_joined s'"
proof -
  obtain m pio mmio where m: "setup_machine False (\<lambda>g. Inr (KvmIrqSink 3 g) :: unit + irq_sink) (Inr (KvmMsiSink 3))
       (Some (\<lambda>_. True, \<lambda>_ _. 7)) None 0 \<lparr>gm_ptr = 1, gm_size = 0x1000000, gm_bytes = (\<lambda>_. 0)\<rparr> 0x1000000 = Some (Inr (m, pio, mmio))"
    "machine_inv m" "served pio" "served mmio"
    using a_machine by blast
  let ?ls = "enter_guest 0 @ enter_guest 1 @ [RunReturns 0 (\<lambda>_. 0) (Inr shutdown_run), Vcpu 0 (\<lambda>_. 0), Vcpu 0 (\<lambda>_. 0), Join,
          RunReturns 1 (\<lambda>_. 0) (Inl Interrupted), Vcpu 1 (\<lambda>_. 0), Vcpu 1 (\<lambda>_. 0)]"
  have "sys_init 2 m = sys_init (Suc (Suc 0)) m" by (simp add: numeral_2_eq_2)
  then obtain s where s: "sys_run pio mmio ?ls (sys_init 2 m) = Some s" "sys_kills s = [0, 1]" "sys_joined s = 1"
      "vt_phase (sys_vcpus s ! 1) = Kicking (Inr ())"
    by (simp add: enter_guest_def act_defs)
  have r: "sys_reach pio mmio (\<lambda>_ _. True) (sys_init 2 m) s"
    by (rule sys_run_reach[OF s(1) sys_reach.start]) (auto simp: enter_guest_def)
  obtain s' targets where "sys_exec pio mmio (Vcpu 1 (\<lambda>_. 0)) s = Next s'" "sys_kills s' = [0, 1] @ targets" "0 \<in> set targets"
      "0 < sys_joined s'"
    using stale_kick[OF m(3,4,2) r, of "Vcpu 1 (\<lambda>_. 0)" 1 "\<lambda>_. 0" "Inr ()" 0 PollTimeout 0] s(2-4) by auto
  then show ?thesis using m(1) s(1,2) by (intro exI[of _ m] exI[of _ pio] exI[of _ mmio] exI[of _ s] exI[of _ s']) simp
qed

end
