(* ===== verification/Diagnostics.thy ===== *)
theory Diagnostics
  imports Startup
begin

text \<open>
  What the program prints: the formatting it uses, the register dump of \<open>src/src/vcpu.rs\<close>, the messages of the exit handlers
  (\<open>src/src/kvm/exithandler.rs\<close>, \<open>src/src/bhyve/exithandler.rs\<close>) with the names of the exits, the report at the end of \<open>main\<close> and the
  console's list of commands. A text is a string; the disassembler is a parameter.

  A reader of the texts (\<open>numbers\<close>) finds in the dump the values of the registers, in order, and in the report the
  counts; \<open>read_hex\<close> and \<open>read_dec\<close> invert the two formats.
\<close>

section \<open>Formats\<close>

text \<open>The digits of \<open>{}\<close>, \<open>{:x}\<close> and \<open>{:X}\<close>, and the zero padding of \<open>{:04X}\<close>.\<close>

definition digit :: "bool \<Rightarrow> nat \<Rightarrow> char" where
  "digit upper d = char_of (if d < 10 then 48 + d else if upper then 55 + d else 87 + d)"

fun in_base :: "bool \<Rightarrow> nat \<Rightarrow> nat \<Rightarrow> string" where
  "in_base upper b n = (if n < b \<or> b < 2 then [digit upper n] else in_base upper b (n div b) @ [digit upper (n mod b)])"

declare in_base.simps [simp del]

definition pad0 :: "nat \<Rightarrow> string \<Rightarrow> string" where
  "pad0 w s = replicate (w - length s) CHR ''0'' @ s"

definition dec :: "nat \<Rightarrow> string" where
  "dec n = in_base False 10 n"

definition dec_int :: "int \<Rightarrow> string" where
  "dec_int i = (if i < 0 then ''-'' @ dec (nat (- i)) else dec (nat i))"

definition hex :: "bool \<Rightarrow> nat \<Rightarrow> nat \<Rightarrow> string" where
  "hex upper w n = ''0x'' @ pad0 w (in_base upper 16 n)"

abbreviation X16 :: "u64 \<Rightarrow> string" where
  "X16 v \<equiv> hex True 16 (unat v)"

definition printcrln :: "string \<Rightarrow> string" where
  "printcrln s = s @ [CHR 0x0D, CHR 0x0A]"

section \<open>The register dump\<close>

definition dump_segment :: "string \<Rightarrow> segment \<Rightarrow> string" where
  "dump_segment name seg = printcrln (name @ '': sel='' @ hex True 4 (unat (seg_selector seg)) @ '' base='' @ X16 (seg_base seg)
     @ '' limit='' @ hex True 8 (unat (seg_limit seg)) @ '' type='' @ dec (unat (seg_type seg)) @ '' p='' @ dec (unat (seg_present seg))
     @ '' dpl='' @ dec (unat (seg_dpl seg)) @ '' db='' @ dec (unat (seg_db seg)) @ '' s='' @ dec (unat (seg_s seg))
     @ '' l='' @ dec (unat (seg_l seg)) @ '' g='' @ dec (unat (seg_g seg)) @ '' unusable='' @ dec (unat (seg_unusable seg)))"

definition dump_regs :: "regs \<Rightarrow> string" where
  "dump_regs r =
     printcrln ''[debug] General Purpose Registers:''
     @ printcrln (''[debug]   RAX='' @ X16 (rax r) @ ''  RBX='' @ X16 (rbx r))
     @ printcrln (''[debug]   RCX='' @ X16 (rcx r) @ ''  RDX='' @ X16 (rdx r))
     @ printcrln (''[debug]   RSI='' @ X16 (rsi r) @ ''  RDI='' @ X16 (rdi r))
     @ printcrln (''[debug]   RSP='' @ X16 (rsp r) @ ''  RBP='' @ X16 (rbp r))
     @ printcrln (''[debug]   R8 ='' @ X16 (r8 r) @ ''  R9 ='' @ X16 (r9 r))
     @ printcrln (''[debug]   R10='' @ X16 (r10 r) @ ''  R11='' @ X16 (r11 r))
     @ printcrln (''[debug]   R12='' @ X16 (r12 r) @ ''  R13='' @ X16 (r13 r))
     @ printcrln (''[debug]   R14='' @ X16 (r14 r) @ ''  R15='' @ X16 (r15 r))
     @ printcrln (''[debug]   RIP='' @ X16 (rip r))
     @ printcrln (''[debug]   RFLAGS='' @ X16 (rflags r))"

definition dump_control :: "sregs \<Rightarrow> string" where
  "dump_control s =
     printcrln ''[debug] Control Registers:''
     @ printcrln (''[debug]   CR0='' @ X16 (sr_cr0 s))
     @ printcrln (''[debug]   CR2='' @ X16 (sr_cr2 s))
     @ printcrln (''[debug]   CR3='' @ X16 (sr_cr3 s))
     @ printcrln (''[debug]   CR4='' @ X16 (sr_cr4 s))
     @ printcrln (''[debug]   CR8='' @ X16 (sr_cr8 s))
     @ printcrln (''[debug]   EFER='' @ X16 (sr_efer s))"

definition dump_segments :: "sregs \<Rightarrow> string" where
  "dump_segments s =
     printcrln ''[debug] Segment Registers:''
     @ dump_segment ''[debug]   CS '' (sr_cs s)
     @ dump_segment ''[debug]   DS '' (sr_ds s)
     @ dump_segment ''[debug]   ES '' (sr_es s)
     @ dump_segment ''[debug]   FS '' (sr_fs s)
     @ dump_segment ''[debug]   GS '' (sr_gs s)
     @ dump_segment ''[debug]   SS '' (sr_ss s)
     @ dump_segment ''[debug]   TR '' (sr_tr s)
     @ dump_segment ''[debug]   LDT'' (sr_ldt s)"

definition dump_tables :: "sregs \<Rightarrow> string" where
  "dump_tables s =
     printcrln ''[debug] Descriptor Tables:''
     @ printcrln (''[debug]   GDT: base='' @ X16 (dt_base (sr_gdt s)) @ '' limit='' @ hex True 4 (unat (dt_limit (sr_gdt s))))
     @ printcrln (''[debug]   IDT: base='' @ X16 (dt_base (sr_idt s)) @ '' limit='' @ hex True 4 (unat (dt_limit (sr_idt s))))
     @ printcrln (''[debug] APIC Base: '' @ X16 (sr_apic_base s))"

definition dump_text :: "regs \<Rightarrow> sregs \<Rightarrow> string" where
  "dump_text r s =
     printcrln (CHR 0x0A # ''[debug] ========== vCPU State Dump =========='')
     @ dump_regs r @ dump_control s @ dump_segments s @ dump_tables s
     @ printcrln (''[debug] ========================================'' @ [CHR 0x0A])"

text \<open>Nothing is printed unless both sets of registers can be read.\<close>

definition dump_print :: "('k, 'v) vcpu_ops \<Rightarrow> 'k \<Rightarrow> 'v + string" where
  "dump_print v k = sbind (v_get_regs v k) (\<lambda>r. sbind (v_get_sregs v k) (\<lambda>s. Inr (dump_text r s)))"

section \<open>Messages of the KVM exit handler\<close>

primrec display :: "vm_exit_reason \<Rightarrow> string" where
  "display ExitUnknown = ''Unknown''"
| "display ExitException = ''Exception''"
| "display ExitIo = ''IO''"
| "display ExitHypercall = ''Hypercall''"
| "display ExitDebug = ''Debug''"
| "display ExitHlt = ''Hlt''"
| "display ExitMmIo = ''MMIO''"
| "display ExitIrqWindowOpen = ''IRQ Window Open''"
| "display ExitShutdown = ''Shutdown''"
| "display ExitFailEntry = ''Fail Entry''"
| "display ExitIntr = ''Interrupt''"
| "display ExitSetTpr = ''Set TPR''"
| "display ExitTprAccess = ''TPR Access''"
| "display ExitS390Sieic = ''S390 Sieic''"
| "display ExitS390Reset = ''S390 Reset''"
| "display ExitDcr = ''DCR''"
| "display ExitNmi = ''NMI''"
| "display ExitInternalError = ''Internal Error''"
| "display ExitOsi = ''OSI''"
| "display ExitPaprHcall = ''PAPR Hypercall''"
| "display ExitS390Ucontrol = ''S390 Ucontrol''"
| "display ExitWatchdog = ''Watchdog''"
| "display ExitS390Tsch = ''S390 Tsch''"
| "display ExitEpr = ''EPR''"
| "display ExitSystemEvent = ''System Event''"
| "display ExitS390Stsi = ''S390 Stsi''"
| "display ExitIoapicEoi = ''IOAPIC EOI''"
| "display ExitHyperv = ''Hyper-V''"
| "display ExitArmNisv = ''ARM NISV''"
| "display ExitX86Rdmsr = ''x86 RDMSR''"
| "display ExitX86Wrmsr = ''x86 WRMSR''"
| "display ExitDirtyRingFull = ''Dirty Ring Full''"
| "display ExitApResetHold = ''AP Reset Hold''"
| "display ExitX86BusLock = ''x86 Bus Lock''"
| "display ExitXen = ''Xen''"
| "display ExitRiscvSbi = ''RISC-V SBI''"
| "display ExitRiscvCsr = ''RISC-V CSR''"
| "display ExitNotify = ''Notify''"
| "display ExitLoongarchIocsr = ''LoongArch IOCSR''"
| "display ExitMemoryFault = ''Memory Fault''"
| "display ExitTdx = ''TDX''"
| "display ExitArmSea = ''ARM SEA''"

definition vmx_instruction_error_str :: "u32 \<Rightarrow> string" where
  "vmx_instruction_error_str error =
     (if error = 0 then ''No error (unexpected)''
      else if error = 1 then ''VMCALL executed in VMX root operation''
      else if error = 2 then ''VMCLEAR with invalid physical address''
      else if error = 3 then ''VMCLEAR with VMXON pointer''
      else if error = 4 then ''VMLAUNCH with non-clear VMCS''
      else if error = 5 then ''VMRESUME with non-launched VMCS''
      else if error = 6 then ''VMRESUME after VMXOFF''
      else if error = 7 then ''VM entry with invalid control field(s)''
      else if error = 8 then ''VM entry with invalid host-state field(s)''
      else if error = 9 then ''VMPTRLD with invalid physical address''
      else if error = 10 then ''VMPTRLD with VMXON pointer''
      else if error = 11 then ''VMPTRLD with incorrect VMCS revision identifier''
      else if error = 12 then ''VMREAD/VMWRITE from/to unsupported VMCS component''
      else if error = 13 then ''VMWRITE to read-only VMCS component''
      else if error = 15 then ''VMXON executed in VMX root operation''
      else if error = 16 then ''VM entry with invalid executive-VMCS pointer''
      else if error = 17 then ''VM entry with non-launched executive VMCS''
      else if error = 18 then ''VM entry with executive-VMCS pointer not VMXON pointer''
      else if error = 19 then ''VMCALL with non-clear VMCS''
      else if error = 20 then ''VMCALL with invalid VM-exit control fields''
      else if error = 22 then ''VMCALL with incorrect MSEG revision identifier''
      else if error = 23 then ''VMXOFF under dual-monitor treatment of SMIs and SMM''
      else if error = 24 then ''VMCALL with invalid SMM-monitor features''
      else if error = 25 then ''VM entry with invalid VM-execution control fields in executive VMCS''
      else if error = 26 then ''VM entry with events blocked by MOV SS''
      else if error = 28 then ''Invalid operand to INVEPT/INVVPID''
      else ''Unknown VMX error'')"

record kvm_exit_fail_entry =
  hardware_entry_failure_reason :: u64
  fail_cpu :: u32

text \<open>\<open>dumped\<close> is what \<open>dump_state\<close> prints, or the text of its error.\<close>

definition handle_fail_entry :: "kvm_exit_fail_entry \<Rightarrow> string + string \<Rightarrow> string" where
  "handle_fail_entry fe dumped =
     (let hardware_error = hardware_entry_failure_reason fe;
          vmx_error = ucast (hardware_error AND 0xFFFFFFFF) :: u32 in
      printcrln ''[fail_entry] ============================================''
      @ printcrln ''[fail_entry] vCPU failed to enter guest mode!''
      @ printcrln (''[fail_entry] CPU: '' @ dec (unat (fail_cpu fe)))
      @ printcrln (''[fail_entry] Hardware error code: '' @ X16 hardware_error)
      @ printcrln (''[fail_entry] VMX instruction error: '' @ dec (unat vmx_error))
      @ printcrln (''[fail_entry] Error: '' @ vmx_instruction_error_str vmx_error)
      @ printcrln ''[fail_entry] ============================================''
      @ (case dumped of Inr t \<Rightarrow> t | Inl e \<Rightarrow> printcrln (''[fail_entry] Failed to dump vCPU state: '' @ e)))"

definition kvm_exit_message :: "kvm_run \<Rightarrow> kvm_exit_fail_entry \<Rightarrow> string + string \<Rightarrow> string" where
  "kvm_exit_message run fe dumped =
     (case exit_reason_try_from (run_exit_reason run) of
        Inl code \<Rightarrow> printcrln (''[exit] Unknown exit code: '' @ dec (unat code))
      | Inr reason \<Rightarrow>
          (case reason of
             ExitIo \<Rightarrow> []
           | ExitMmIo \<Rightarrow> []
           | ExitHlt \<Rightarrow> []
           | ExitShutdown \<Rightarrow> printcrln ''[exit] Guest shutdown detected''
           | ExitFailEntry \<Rightarrow> handle_fail_entry fe dumped
           | ExitInternalError \<Rightarrow> printcrln ''[exit] KVM internal error''
           | _ \<Rightarrow> printcrln (''[exit] Unhandled exit: '' @ display reason @ '' (code: '' @ dec (unat (run_exit_reason run)) @ '')'')))"

section \<open>Messages of the bhyve exit handler\<close>

primrec code_number :: "vm_exit_code \<Rightarrow> nat" where
  "code_number CodeInout = 0"
| "code_number CodeVmx = 1"
| "code_number CodeBogus = 2"
| "code_number CodeRdmsr = 3"
| "code_number CodeWrmsr = 4"
| "code_number CodeHlt = 5"
| "code_number CodeMtrap = 6"
| "code_number CodePause = 7"
| "code_number CodePaging = 8"
| "code_number CodeInstEmul = 9"
| "code_number CodeRunState = 10"
| "code_number CodeMmioEmul = 11"
| "code_number CodeDeprecated = 12"
| "code_number CodeIoapicEoi = 13"
| "code_number CodeSuspended = 14"
| "code_number CodeMmio = 15"
| "code_number CodeTaskSwitch = 16"
| "code_number CodeMonitor = 17"
| "code_number CodeMwait = 18"
| "code_number CodeSvm = 19"
| "code_number CodeDeprecated2 = 20"
| "code_number CodeDebug = 21"
| "code_number CodeVminsn = 22"
| "code_number CodeBpt = 23"
| "code_number CodeHt = 24"
| "code_number CodeMax = 25"

text \<open>The derived \<open>Debug\<close>.\<close>

primrec code_name :: "vm_exit_code \<Rightarrow> string" where
  "code_name CodeInout = ''Inout''"
| "code_name CodeVmx = ''Vmx''"
| "code_name CodeBogus = ''Bogus''"
| "code_name CodeRdmsr = ''Rdmsr''"
| "code_name CodeWrmsr = ''Wrmsr''"
| "code_name CodeHlt = ''Hlt''"
| "code_name CodeMtrap = ''Mtrap''"
| "code_name CodePause = ''Pause''"
| "code_name CodePaging = ''Paging''"
| "code_name CodeInstEmul = ''InstEmul''"
| "code_name CodeRunState = ''RunState''"
| "code_name CodeMmioEmul = ''MmioEmul''"
| "code_name CodeDeprecated = ''Deprecated''"
| "code_name CodeIoapicEoi = ''IoapicEoi''"
| "code_name CodeSuspended = ''Suspended''"
| "code_name CodeMmio = ''Mmio''"
| "code_name CodeTaskSwitch = ''TaskSwitch''"
| "code_name CodeMonitor = ''Monitor''"
| "code_name CodeMwait = ''Mwait''"
| "code_name CodeSvm = ''Svm''"
| "code_name CodeDeprecated2 = ''Deprecated2''"
| "code_name CodeDebug = ''Debug''"
| "code_name CodeVminsn = ''Vminsn''"
| "code_name CodeBpt = ''Bpt''"
| "code_name CodeHt = ''Ht''"
| "code_name CodeMax = ''Max''"

text \<open>The fields of \<open>VmExit\<close> that are only printed.\<close>

record vm_exit_info =
  vi_inst_length :: i32
  vi_rip :: u64
  vi_suspended_how :: i32
  vi_suspended_source :: i32
  vi_vmx_status :: i32
  vi_vmx_reason :: u32
  vi_vmx_qualification :: u64
  vi_msr_code :: u32

definition wrmsr_val :: "regs \<Rightarrow> u64" where
  "wrmsr_val r = push_bit 32 (rdx r AND 0xFFFFFFFF) OR (rax r AND 0xFFFFFFFF)"

definition bitness :: "sregs \<Rightarrow> nat" where
  "bitness s =
     (if sr_efer s AND 0x400 \<noteq> 0 then (if seg_l (sr_cs s) \<noteq> 0 then 64 else 32)
      else if sr_cr0 s AND 1 \<noteq> 0 then 32
      else 16)"

definition instr_bytes :: "i32 \<Rightarrow> bytes \<Rightarrow> bytes" where
  "instr_bytes inst_length instr =
     (let len = if 0 < sint inst_length then nat (sint inst_length) else 15 in take (min len (length instr)) instr)"

fun join :: "string \<Rightarrow> string list \<Rightarrow> string" where
  "join sep [] = []"
| "join sep [x] = x"
| "join sep (x # y # xs) = x @ sep @ join sep (y # xs)"

definition instr_hex :: "bytes \<Rightarrow> string" where
  "instr_hex bs = join '' '' (map (\<lambda>b. pad0 2 (in_base False 16 (unat b))) bs)"

text \<open>
  \<open>decode\<close> is the disassembler: from the bitness, the bytes and the address to the text of the first instruction, if there is
  one. The registers and the instruction may fail to be read; of the errors only that of the instruction is printed.
\<close>

definition bogus_message :: "(nat \<Rightarrow> bytes \<Rightarrow> u64 \<Rightarrow> string option) \<Rightarrow> bool \<Rightarrow> 'v + regs \<Rightarrow> 'v + sregs \<Rightarrow> string + bytes \<Rightarrow> vm_exit_info \<Rightarrow> string" where
  "bogus_message decode debug gr gs instr vi =
     (if \<not> debug then []
      else case gr of
          Inl _ \<Rightarrow> printcrln ''[exit] Failed to get registers for BOGUS exit''
        | Inr r \<Rightarrow>
      (case gs of
          Inl _ \<Rightarrow> printcrln ''[exit] Failed to get special registers for BOGUS exit''
        | Inr s \<Rightarrow>
            printcrln (''BOGUS exit at RIP='' @ hex False 0 (unat (rip r)) @ '' CR0='' @ hex False 0 (unat (sr_cr0 s))
              @ '' CR4='' @ hex False 0 (unat (sr_cr4 s)) @ '' vm_exit.inst_length: '' @ dec_int (sint (vi_inst_length vi))
              @ '' vm_exit.rip='' @ hex False 0 (unat (vi_rip vi)))
            @ (case instr of
                 Inl e \<Rightarrow> printcrln (''[exit] Failed to read instruction: '' @ e)
               | Inr d \<Rightarrow>
                   let bs = instr_bytes (vi_inst_length vi) d in
                   (case decode (bitness s) bs (rip r) of
                      Some output \<Rightarrow> printcrln (''[exit] Instruction: '' @ output)
                    | None \<Rightarrow> printcrln (''[exit] Instruction bytes: '' @ instr_hex bs)))))"

definition regs_default :: regs where
  "regs_default = \<lparr>rax = 0, rbx = 0, rcx = 0, rdx = 0, rsi = 0, rdi = 0, rsp = 0, rbp = 0, r8 = 0, r9 = 0, r10 = 0, r11 = 0,
     r12 = 0, r13 = 0, r14 = 0, r15 = 0, rip = 0, rflags = 0\<rparr>"

definition bhyve_exit_message :: "(nat \<Rightarrow> bytes \<Rightarrow> u64 \<Rightarrow> string option) \<Rightarrow> bool \<Rightarrow> 'v + regs \<Rightarrow> 'v + sregs \<Rightarrow> string + bytes
    \<Rightarrow> vm_exit_code \<Rightarrow> vm_exit_info \<Rightarrow> string" where
  "bhyve_exit_message decode debug gr gs instr code vi =
     (case code of
        CodeInout \<Rightarrow> []
      | CodeMmio \<Rightarrow> []
      | CodeHlt \<Rightarrow> []
      | CodeSuspended \<Rightarrow>
          printcrln (''[exit] Guest suspended (how: '' @ dec_int (sint (vi_suspended_how vi)) @ '', source: ''
            @ dec_int (sint (vi_suspended_source vi)) @ '')'')
      | CodeVmx \<Rightarrow>
          printcrln (''[exit] VMX exit: status '' @ dec_int (sint (vi_vmx_status vi)) @ '', reason '' @ dec (unat (vi_vmx_reason vi))
            @ '', qualification '' @ hex True 0 (unat (vi_vmx_qualification vi)) @ '', RIP '' @ hex True 0 (unat (vi_rip vi)))
      | CodeRdmsr \<Rightarrow>
          printcrln (''[exit] RDMSR exit: msr '' @ hex True 0 (unat (vi_msr_code vi)) @ '' at RIP '' @ hex True 0 (unat (vi_rip vi)))
      | CodeWrmsr \<Rightarrow>
          printcrln (''[exit] WRMSR exit: msr '' @ hex True 0 (unat (vi_msr_code vi)) @ '' val ''
            @ hex True 0 (unat (wrmsr_val (case gr of Inl _ \<Rightarrow> regs_default | Inr r \<Rightarrow> r)))
            @ '' at RIP '' @ hex True 0 (unat (vi_rip vi)))
      | CodeBogus \<Rightarrow> bogus_message decode debug gr gs instr vi
      | _ \<Rightarrow>
          printcrln (''[exit] Unhandled exit: '' @ code_name code @ '' (code: '' @ dec (code_number code) @ '') at RIP ''
            @ hex True 0 (unat (vi_rip vi)) @ '' (inst_len: '' @ dec_int (sint (vi_inst_length vi)) @ '')''))"

section \<open>The report of \<open>main\<close> and the console's commands\<close>

text \<open>The total is an addition that panics on overflow in a build with overflow checks.\<close>

definition report_text :: "bool \<Rightarrow> u32 \<Rightarrow> exit_stats \<Rightarrow> string option" where
  "report_text oc num_cpus totals = do {
     total \<leftarrow> stats_total oc totals;
     Some (printcrln (CHR 0x0A # ''[vm] VM execution completed'')
       @ printcrln (''[vm] Aggregate exit statistics across '' @ dec (unat num_cpus) @ '' vCPU(s):'')
       @ printcrln (''  Total exits:    '' @ dec (unat total))
       @ printcrln (''  I/O exits:      '' @ dec (unat (io_exits totals)))
       @ printcrln (''  MMIO exits:     '' @ dec (unat (mmio_exits totals)))
       @ printcrln (''  HLT exits:      '' @ dec (unat (hlt_exits totals)))
       @ printcrln (''  Shutdown exits: '' @ dec (unat (shutdown_exits totals)))
       @ printcrln (''  Other exits:    '' @ dec (unat (other_exits totals))))
   }"

definition HELP_TEXT :: string where
  "HELP_TEXT = printcrln [] @ printcrln ''ferrvm console:''
     @ printcrln ''  Ctrl-A x      quit ferrvm''
     @ printcrln ''  Ctrl-A Ctrl-A send literal Ctrl-A to guest''
     @ printcrln ''  Ctrl-A ?      this help''
     @ printcrln []"

section \<open>Reading the texts\<close>

text \<open>A word is a run of letters and digits; \<open>numbers\<close> are the words that are a number, decimal or with \<open>0x\<close>.\<close>

definition digit_of :: "char \<Rightarrow> nat option" where
  "digit_of c = (let n = of_char c :: nat in
     if 48 \<le> n \<and> n < 58 then Some (n - 48)
     else if 65 \<le> n \<and> n < 71 then Some (n - 55)
     else if 97 \<le> n \<and> n < 103 then Some (n - 87)
     else None)"

fun read_base :: "nat \<Rightarrow> nat \<Rightarrow> string \<Rightarrow> nat option" where
  "read_base b acc [] = Some acc"
| "read_base b acc (c # cs) =
     (case digit_of c of None \<Rightarrow> None | Some d \<Rightarrow> if d < b then read_base b (acc * b + d) cs else None)"

definition alnum :: "char \<Rightarrow> bool" where
  "alnum c = (let n = of_char c :: nat in 48 \<le> n \<and> n < 58 \<or> 65 \<le> n \<and> n < 91 \<or> 97 \<le> n \<and> n < 123)"

definition number :: "string \<Rightarrow> nat list" where
  "number w = (case (if take 2 w = ''0x'' then read_base 16 0 (drop 2 w) else if w = [] then None else read_base 10 0 w) of
     None \<Rightarrow> [] | Some n \<Rightarrow> [n])"

fun scan :: "string \<Rightarrow> string \<Rightarrow> nat list" where
  "scan w [] = number (rev w)"
| "scan w (c # cs) = (if alnum c then scan (c # w) cs else number (rev w) @ scan [] cs)"

definition numbers :: "string \<Rightarrow> nat list" where
  "numbers t = scan [] t"

section \<open>Lemmas\<close>

lemma digit_of_digit: "d < 16 \<Longrightarrow> digit_of (digit upper d) = Some d"
  by (auto simp: digit_of_def digit_def Let_def of_char_of)

lemma alnum_digit: "d < 16 \<Longrightarrow> alnum (digit upper d)"
  by (auto simp: alnum_def digit_def Let_def of_char_of)

lemma read_base_append: "read_base b acc (xs @ ys) = Option.bind (read_base b acc xs) (\<lambda>a. read_base b a ys)"
  by (induction xs arbitrary: acc) (auto split: option.split)

lemma read_base_zeros: "0 < b \<Longrightarrow> read_base b 0 (replicate k CHR ''0'' @ s) = read_base b 0 s"
  by (induction k) (simp_all add: digit_of_def)

lemma read_in_base: "2 \<le> b \<Longrightarrow> b \<le> 16 \<Longrightarrow> read_base b 0 (in_base upper b n) = Some n"
proof (induction n rule: less_induct)
  case (less n)
  show ?case
  proof (cases "n < b")
    case True
    then show ?thesis using less.prems by (simp add: in_base.simps[of upper b n] digit_of_digit)
  next
    case False
    have "n div b < n" using False less.prems by (intro div_less_dividend) auto
    moreover have "n mod b < b" "n mod b < 16" using less.prems by (simp_all add: order.strict_trans2[OF mod_less_divisor])
    ultimately show ?thesis using less False by (simp add: in_base.simps[of upper b n] read_base_append digit_of_digit)
  qed
qed

lemma in_base_alnum: "2 \<le> b \<Longrightarrow> b \<le> 16 \<Longrightarrow> list_all alnum (in_base upper b n) \<and> in_base upper b n \<noteq> []"
proof (induction n rule: less_induct)
  case (less n)
  show ?case
  proof (cases "n < b")
    case True
    then show ?thesis using less.prems by (simp add: in_base.simps[of upper b n] alnum_digit)
  next
    case False
    have "n div b < n" using False less.prems by (intro div_less_dividend) auto
    moreover have "n mod b < 16" using less.prems by (simp add: order.strict_trans2[OF mod_less_divisor])
    ultimately show ?thesis using less False by (simp add: in_base.simps[of upper b n] alnum_digit)
  qed
qed

lemma scan_word: "list_all alnum xs \<Longrightarrow> scan w (xs @ ys) = scan (rev xs @ w) ys"
  by (induction xs arbitrary: w) simp_all

lemma scan_sep: "\<not> alnum c \<Longrightarrow> scan w (xs @ c # ys) = scan w xs @ scan [] ys"
  by (induction xs arbitrary: w) simp_all

lemma digit_of_x: "read_base 10 0 (CHR ''0'' # CHR ''x'' # cs) = None"
  by (simp add: digit_of_def)

lemma number_hex: "number (hex upper w n) = [n]"
  by (simp add: number_def hex_def pad0_def read_base_zeros read_in_base)

lemma number_dec: "number (dec n) = [n]"
proof -
  have r: "read_base 10 0 (dec n) = Some n" unfolding dec_def by (rule read_in_base) simp_all
  have "take 2 (dec n) \<noteq> ''0x''"
  proof
    assume "take 2 (dec n) = ''0x''"
    then have "dec n = ''0x'' @ drop 2 (dec n)" by (metis append_take_drop_id)
    then have "read_base 10 0 (dec n) = None" by (metis append_Cons append_Nil digit_of_x)
    then show False using r by simp
  qed
  then show ?thesis using r in_base_alnum[of 10 False n] by (simp add: number_def dec_def)
qed

lemma hex_alnum: "list_all alnum (hex upper w n)"
proof -
  have "list_all alnum (replicate k CHR ''0'')" for k by (induction k) (simp_all add: alnum_def)
  then show ?thesis using in_base_alnum[of 16 upper n] by (simp add: hex_def pad0_def) (simp add: alnum_def)
qed

lemma dec_alnum: "list_all alnum (dec n)"
  using in_base_alnum[of 10 False n] by (simp add: dec_def)

lemma scan_hex [simp]: "\<not> alnum c \<Longrightarrow> scan [] (hex upper w n @ c # ys) = n # scan [] ys" "scan [] (hex upper w n) = [n]"
  using scan_word[OF hex_alnum, of "[]" upper w n "c # ys"] scan_word[OF hex_alnum, of "[]" upper w n "[]"] by (simp_all add: number_hex)

lemma scan_dec [simp]: "\<not> alnum c \<Longrightarrow> scan [] (dec n @ c # ys) = n # scan [] ys" "scan [] (dec n) = [n]"
  using scan_word[OF dec_alnum, of "[]" n "c # ys"] scan_word[OF dec_alnum, of "[]" n "[]"] by (simp_all add: number_dec)

lemma scan_line: "scan [] (printcrln x @ ys) = numbers x @ scan [] ys" "scan [] (printcrln x) = numbers x"
  using scan_sep[of "CHR 0x0D" "[]" x "CHR 0x0A # ys"] scan_sep[of "CHR 0x0D" "[]" x "[CHR 0x0A]"]
  by (simp_all add: printcrln_def numbers_def number_def alnum_def)

definition segment_values :: "segment \<Rightarrow> nat list" where
  "segment_values g = [unat (seg_selector g), unat (seg_base g), unat (seg_limit g), unat (seg_type g), unat (seg_present g),
     unat (seg_dpl g), unat (seg_db g), unat (seg_s g), unat (seg_l g), unat (seg_g g), unat (seg_unusable g)]"

lemmas scan_defs = numbers_def alnum_def number_def digit_of_def

lemma scan_segment:
  "scan [] name = [] \<Longrightarrow> scan [] (dump_segment name seg @ ys) = segment_values seg @ scan [] ys"
  unfolding dump_segment_def scan_line numbers_def
  by (simp add: scan_sep scan_defs segment_values_def)

definition register_values :: "regs \<Rightarrow> sregs \<Rightarrow> nat list" where
  "register_values r s =
     map unat [rax r, rbx r, rcx r, rdx r, rsi r, rdi r, rsp r, rbp r, r8 r, r9 r, r10 r, r11 r, r12 r, r13 r, r14 r, r15 r, rip r, rflags r]
     @ map unat [sr_cr0 s, sr_cr2 s, sr_cr3 s, sr_cr4 s, sr_cr8 s, sr_efer s]
     @ concat (map segment_values [sr_cs s, sr_ds s, sr_es s, sr_fs s, sr_gs s, sr_ss s, sr_tr s, sr_ldt s])
     @ [unat (dt_base (sr_gdt s)), unat (dt_limit (sr_gdt s)), unat (dt_base (sr_idt s)), unat (dt_limit (sr_idt s)), unat (sr_apic_base s)]"

lemma scan_regs: "scan [] (dump_regs r @ ys) =
    map unat [rax r, rbx r, rcx r, rdx r, rsi r, rdi r, rsp r, rbp r, r8 r, r9 r, r10 r, r11 r, r12 r, r13 r, r14 r, r15 r, rip r, rflags r] @ scan [] ys"
  unfolding dump_regs_def append_assoc scan_line by (simp add: scan_defs)

lemma scan_control: "scan [] (dump_control s @ ys) =
    map unat [sr_cr0 s, sr_cr2 s, sr_cr3 s, sr_cr4 s, sr_cr8 s, sr_efer s] @ scan [] ys"
  unfolding dump_control_def append_assoc scan_line by (simp add: scan_defs)

lemma scan_names: "scan [] ''[debug]   CS '' = []" "scan [] ''[debug]   DS '' = []" "scan [] ''[debug]   ES '' = []"
    "scan [] ''[debug]   FS '' = []" "scan [] ''[debug]   GS '' = []" "scan [] ''[debug]   SS '' = []"
    "scan [] ''[debug]   TR '' = []" "scan [] ''[debug]   LDT'' = []"
  by (simp_all add: scan_defs)

lemma scan_segments: "scan [] (dump_segments s @ ys) =
    concat (map segment_values [sr_cs s, sr_ds s, sr_es s, sr_fs s, sr_gs s, sr_ss s, sr_tr s, sr_ldt s]) @ scan [] ys"
  unfolding dump_segments_def append_assoc scan_line scan_names[THEN scan_segment] by (simp add: scan_defs)

lemma scan_tables: "scan [] (dump_tables s @ ys) =
    [unat (dt_base (sr_gdt s)), unat (dt_limit (sr_gdt s)), unat (dt_base (sr_idt s)), unat (dt_limit (sr_idt s)), unat (sr_apic_base s)] @ scan [] ys"
  unfolding dump_tables_def append_assoc scan_line by (simp add: scan_defs)

lemma numbers_dump: "numbers (dump_text r s) = register_values r s"
proof -
  have "numbers (CHR 0x0A # ''[debug] ========== vCPU State Dump =========='') = []"
    "numbers (''[debug] ========================================'' @ [CHR 0x0A]) = []"
    by (simp_all add: scan_defs)
  then show ?thesis
    unfolding numbers_def[of "dump_text r s"]
    unfolding dump_text_def append_assoc scan_line scan_regs scan_control scan_segments scan_tables
    by (simp add: register_values_def)
qed

text \<open>The report of the run is readable in the same way.\<close>

lemma report_readable:
  "map_option numbers (report_text oc n st) =
     map_option (\<lambda>total. unat n # map unat [total, io_exits st, mmio_exits st, hlt_exits st, shutdown_exits st, other_exits st]) (stats_total oc st)"
proof (cases "stats_total oc st")
  case (Some total)
  have "numbers (the (report_text oc n st)) = unat n # map unat [total, io_exits st, mmio_exits st, hlt_exits st, shutdown_exits st, other_exits st]"
    unfolding numbers_def[of "the (report_text oc n st)"]
    unfolding report_text_def Some Option.bind.simps option.sel append_assoc scan_line by (simp add: scan_defs)
  then show ?thesis using Some by (simp add: report_text_def)
qed (simp add: report_text_def)

text \<open>
  The KVM exit handler is silent on exactly the exits that belong to normal operation, and the number in its message
  for an exit it does not know or does not handle is the code of the exit.
\<close>

lemma printcrln_Nil [simp]: "printcrln x \<noteq> []"
  by (simp add: printcrln_def)

lemma kvm_message_silent: "kvm_exit_message run fe dumped = [] \<longleftrightarrow> run_exit_reason run \<in> {2, 5, 6}"
proof (cases "exit_reason_try_from (run_exit_reason run)")
  case (Inl e)
  have "exit_code ExitIo \<noteq> run_exit_reason run" "exit_code ExitHlt \<noteq> run_exit_reason run" "exit_code ExitMmIo \<noteq> run_exit_reason run"
    using exit_code_of_Inl[OF Inl] by blast+
  then show ?thesis using Inl by (auto simp: kvm_exit_message_def)
next
  case (Inr r)
  have "run_exit_reason run = exit_code r" using exit_code_of[OF Inr] by simp
  then show ?thesis using Inr by (cases r) (simp_all add: kvm_exit_message_def handle_fail_entry_def Let_def)
qed

lemma numbers_append: "\<not> alnum c \<Longrightarrow> numbers (x @ c # y) = numbers x @ numbers y"
  by (simp add: numbers_def scan_sep)

lemma numbers_display: "numbers (display r) = []"
  by (cases r) (simp_all add: scan_defs)

lemma kvm_message_code:
  assumes "run_exit_reason run \<notin> {2, 5, 6, 8, 9, 17}"
  shows "numbers (kvm_exit_message run fe dumped) = [unat (run_exit_reason run)]"
proof (cases "exit_reason_try_from (run_exit_reason run)")
  case (Inl e)
  have "e = run_exit_reason run" using Inl by (simp add: exit_reason_try_from_def split: if_split_asm)
  moreover have "numbers (''[exit] Unknown exit code: '' @ dec n) = [n]" for n by (simp add: scan_defs)
  ultimately show ?thesis using Inl scan_line(2) by (simp add: kvm_exit_message_def numbers_def)
next
  case (Inr r)
  have c: "run_exit_reason run = exit_code r" using exit_code_of[OF Inr] by simp
  have lit: "''[exit] Unhandled exit: '' @ x = ''[exit] Unhandled exit:'' @ CHR '' '' # x" for x by simp
  have "numbers (''[exit] Unhandled exit: '' @ display r @ '' (code: '' @ dec n @ '')'') = numbers ''[exit] Unhandled exit:'' @ numbers (display r) @ [n]" for n
    unfolding lit by (subst numbers_append) (simp_all add: numbers_append alnum_def, simp_all add: scan_defs)
  moreover have "numbers ''[exit] Unhandled exit:'' = []" by (simp add: scan_defs)
  moreover have "kvm_exit_message run fe dumped = printcrln (''[exit] Unhandled exit: '' @ display r @ '' (code: '' @ dec (unat (run_exit_reason run)) @ '')'')"
    using assms Inr c by (cases r) (simp_all add: kvm_exit_message_def)
  ultimately show ?thesis using scan_line(2) numbers_display[of r] by (simp only: numbers_def append_Nil)
qed

text \<open>The value of a \<open>WRMSR\<close> is \<open>edx:eax\<close>.\<close>

lemma wrmsr_val_halves: "take_bit 32 (wrmsr_val r) = take_bit 32 (rax r)" "drop_bit 32 (wrmsr_val r) = take_bit 32 (rdx r)"
proof -
  have m: "x AND 0xFFFFFFFF = take_bit 32 x" for x :: u64 by (simp add: take_bit_eq_mask mask_eq_exp_minus_1 and.commute)
  show "take_bit 32 (wrmsr_val r) = take_bit 32 (rax r)" "drop_bit 32 (wrmsr_val r) = take_bit 32 (rdx r)"
    unfolding wrmsr_val_def m
    by (rule bit_word_eqI, auto simp: bit_take_bit_iff bit_drop_bit_eq bit_or_iff bit_push_bit_iff)+
qed

section \<open>Properties\<close>

text \<open>
  C25. The register dump is complete and readable: when it can read the registers it prints a text whose numbers, in
  order, are the general, control, segment and table registers; when it cannot, it fails with the error of the
  first read that failed and prints nothing. It fails exactly when the start of a run does.
\<close>

theorem dump_readable:
  "map_sum id numbers (dump_print v k) = sbind (v_get_regs v k) (\<lambda>r. sbind (v_get_sregs v k) (\<lambda>s. Inr (register_values r s))) \<and>
   map_sum id (\<lambda>_. ()) (dump_print v k) = dump_state v k"
  by (cases "v_get_regs v k"; cases "v_get_sregs v k") (simp_all add: dump_print_def dump_state_def numbers_dump)

end
