(* ===== verification/Layout.thy ===== *)
theory Layout
  imports Startup Registers
begin

text \<open>
  The structures the program shares with the two kernels (\<open>src/src/kvm/api.rs\<close>, \<open>src/src/bhyve/api.rs\<close>), laid out by the rules of
  \<open>repr(C)\<close>: each field at the next offset its alignment allows, the size a multiple of the largest alignment, all
  variants of a union at offset 0. Enumerations and \<open>c_int\<close> take four bytes, pointers and \<open>size_t\<close> eight.

  It shows that fields are aligned, ordered, disjoint and inside the structure; that the bytes of the register structures
  (theory Registers) have every register in the field of its name, and as many bytes as the structure and the request number
  say; where the fields of the KVM run page and of a bhyve exit are; and that no two bhyve requests have the same number.
\<close>

section \<open>\<open>repr(C)\<close>\<close>

text \<open>A field is its name, offset and size.\<close>

record layout =
  lay_size :: nat
  lay_align :: nat
  lay_fields :: "(string \<times> nat \<times> nat) list"

definition round_up :: "nat \<Rightarrow> nat \<Rightarrow> nat" where
  "round_up a n = (n + a - 1) div a * a"

definition c_int :: "nat \<Rightarrow> layout" where
  "c_int n = \<lparr>lay_size = n, lay_align = n, lay_fields = []\<rparr>"

definition c_array :: "nat \<Rightarrow> layout \<Rightarrow> layout" where
  "c_array k l = \<lparr>lay_size = k * lay_size l, lay_align = lay_align l, lay_fields = []\<rparr>"

fun place :: "nat \<Rightarrow> (string \<times> layout) list \<Rightarrow> (string \<times> nat \<times> nat) list \<times> nat" where
  "place off [] = ([], off)"
| "place off ((n, l) # fs) =
     (let at = round_up (lay_align l) off; (rest, fin) = place (at + lay_size l) fs in ((n, at, lay_size l) # rest, fin))"

definition max_align :: "(string \<times> layout) list \<Rightarrow> nat" where
  "max_align fs = foldr max (map (lay_align \<circ> snd) fs) 1"

definition c_struct :: "(string \<times> layout) list \<Rightarrow> layout" where
  "c_struct fs = (case place 0 fs of (fds, fin) \<Rightarrow>
     \<lparr>lay_size = round_up (max_align fs) fin, lay_align = max_align fs, lay_fields = fds\<rparr>)"

definition c_union :: "(string \<times> layout) list \<Rightarrow> layout" where
  "c_union fs = \<lparr>lay_size = round_up (max_align fs) (foldr max (map (lay_size \<circ> snd) fs) 0), lay_align = max_align fs,
     lay_fields = map (\<lambda>(n, l). (n, 0, lay_size l)) fs\<rparr>"

section \<open>KVM\<close>

definition KvmIrqLevel_layout :: layout where
  "KvmIrqLevel_layout = c_struct [(''irq'', c_int 4),
     (''level'', c_int 4)]"

definition KvmMsi_layout :: layout where
  "KvmMsi_layout = c_struct [(''address_lo'', c_int 4),
     (''address_hi'', c_int 4),
     (''data'', c_int 4),
     (''flags'', c_int 4),
     (''devid'', c_int 4),
     (''pad'', c_array 12 (c_int 1))]"

definition KvmSegment_layout :: layout where
  "KvmSegment_layout = c_struct [(''base'', c_int 8),
     (''limit'', c_int 4),
     (''selector'', c_int 2),
     (''type_'', c_int 1),
     (''present'', c_int 1),
     (''dpl'', c_int 1),
     (''db'', c_int 1),
     (''s'', c_int 1),
     (''l'', c_int 1),
     (''g'', c_int 1),
     (''avl'', c_int 1),
     (''unusable'', c_int 1),
     (''padding'', c_int 1)]"

definition KvmDtable_layout :: layout where
  "KvmDtable_layout = c_struct [(''base'', c_int 8),
     (''limit'', c_int 2),
     (''padding'', c_array 3 (c_int 2))]"

definition KvmSregs_layout :: layout where
  "KvmSregs_layout = c_struct [(''cs'', KvmSegment_layout),
     (''ds'', KvmSegment_layout),
     (''es'', KvmSegment_layout),
     (''fs'', KvmSegment_layout),
     (''gs'', KvmSegment_layout),
     (''ss'', KvmSegment_layout),
     (''tr'', KvmSegment_layout),
     (''ldt'', KvmSegment_layout),
     (''gdt'', KvmDtable_layout),
     (''idt'', KvmDtable_layout),
     (''cr0'', c_int 8),
     (''cr2'', c_int 8),
     (''cr3'', c_int 8),
     (''cr4'', c_int 8),
     (''cr8'', c_int 8),
     (''efer'', c_int 8),
     (''apic_base'', c_int 8),
     (''interrupt_bitmap'', c_array 4 (c_int 8))]"

definition KvmRegs_layout :: layout where
  "KvmRegs_layout = c_struct [(''rax'', c_int 8),
     (''rbx'', c_int 8),
     (''rcx'', c_int 8),
     (''rdx'', c_int 8),
     (''rsi'', c_int 8),
     (''rdi'', c_int 8),
     (''rsp'', c_int 8),
     (''rbp'', c_int 8),
     (''r8'', c_int 8),
     (''r9'', c_int 8),
     (''r10'', c_int 8),
     (''r11'', c_int 8),
     (''r12'', c_int 8),
     (''r13'', c_int 8),
     (''r14'', c_int 8),
     (''r15'', c_int 8),
     (''rip'', c_int 8),
     (''rflags'', c_int 8)]"

definition KvmUserspaceMemoryRegion_layout :: layout where
  "KvmUserspaceMemoryRegion_layout = c_struct [(''slot'', c_int 4),
     (''flags'', c_int 4),
     (''guest_phys_addr'', c_int 8),
     (''memory_size'', c_int 8),
     (''userspace_addr'', c_int 8)]"

definition KvmPitConfig_layout :: layout where
  "KvmPitConfig_layout = c_struct [(''flags'', c_int 4),
     (''pad'', c_array 15 (c_int 4))]"

definition KvmExitUnknown_layout :: layout where
  "KvmExitUnknown_layout = c_struct [(''hardware_exit_reason'', c_int 8)]"

definition KvmExitFailEntry_layout :: layout where
  "KvmExitFailEntry_layout = c_struct [(''hardware_entry_failure_reason'', c_int 8),
     (''cpu'', c_int 4)]"

definition KvmExitException_layout :: layout where
  "KvmExitException_layout = c_struct [(''exception'', c_int 4),
     (''error_code'', c_int 4)]"

definition KvmExitIo_layout :: layout where
  "KvmExitIo_layout = c_struct [(''direction'', c_int 1),
     (''size'', c_int 1),
     (''port'', c_int 2),
     (''count'', c_int 4),
     (''data_offset'', c_int 8)]"

definition KvmDebugExitArch_layout :: layout where
  "KvmDebugExitArch_layout = c_struct [(''exception'', c_int 4),
     (''pad'', c_int 4),
     (''pc'', c_int 8),
     (''dr6'', c_int 8),
     (''dr7'', c_int 8)]"

definition KvmExitDebug_layout :: layout where
  "KvmExitDebug_layout = c_struct [(''arch'', KvmDebugExitArch_layout)]"

definition KvmExitMmio_layout :: layout where
  "KvmExitMmio_layout = c_struct [(''phys_addr'', c_int 8),
     (''data'', c_array 8 (c_int 1)),
     (''len'', c_int 4),
     (''is_write'', c_int 1)]"

definition KvmRunExit_layout :: layout where
  "KvmRunExit_layout = c_union [(''hw'', KvmExitUnknown_layout),
     (''fail_entry'', KvmExitFailEntry_layout),
     (''ex'', KvmExitException_layout),
     (''io'', KvmExitIo_layout),
     (''debug'', KvmExitDebug_layout),
     (''mmio'', KvmExitMmio_layout),
     (''padding'', c_array 256 (c_int 1))]"

definition KvmRun_layout :: layout where
  "KvmRun_layout = c_struct [(''request_interrupt_window'', c_int 1),
     (''immediate_exit'', c_int 1),
     (''padding1'', c_array 6 (c_int 1)),
     (''exit_reason'', c_int 4),
     (''ready_for_interrupt_injection'', c_int 1),
     (''if_flag'', c_int 1),
     (''flags'', c_int 2),
     (''cr8'', c_int 8),
     (''apic_base'', c_int 8),
     (''exit'', KvmRunExit_layout)]"

definition KvmCpuidEntry2_layout :: layout where
  "KvmCpuidEntry2_layout = c_struct [(''function'', c_int 4),
     (''index'', c_int 4),
     (''flags'', c_int 4),
     (''eax'', c_int 4),
     (''ebx'', c_int 4),
     (''ecx'', c_int 4),
     (''edx'', c_int 4),
     (''padding'', c_array 3 (c_int 4))]"

definition KvmCpuid2_layout :: layout where
  "KvmCpuid2_layout = c_struct [(''nent'', c_int 4),
     (''padding'', c_int 4),
     (''entries'', c_array 256 (KvmCpuidEntry2_layout))]"

definition KvmCpuid2Empty_layout :: layout where
  "KvmCpuid2Empty_layout = c_struct [(''nent'', c_int 4),
     (''padding'', c_int 4)]"

text \<open>The requests that carry the size of their argument.\<close>

definition KVM_GET_SUPPORTED_CPUID :: u64 where
  "KVM_GET_SUPPORTED_CPUID = iowr_req (of_nat (lay_size KvmCpuid2Empty_layout)) KVMIO 0x05"

definition KVM_SET_USER_MEMORY_REGION :: u64 where
  "KVM_SET_USER_MEMORY_REGION = iow_req (of_nat (lay_size KvmUserspaceMemoryRegion_layout)) KVMIO 0x46"

definition KVM_CREATE_PIT2 :: u64 where
  "KVM_CREATE_PIT2 = iow_req (of_nat (lay_size KvmPitConfig_layout)) KVMIO 0x77"

definition KVM_SET_CPUID2 :: u64 where
  "KVM_SET_CPUID2 = iow_req (of_nat (lay_size KvmCpuid2Empty_layout)) KVMIO 0x90"

section \<open>bhyve\<close>

definition VmMemmap_layout :: layout where
  "VmMemmap_layout = c_struct [(''gpa'', c_int 8),
     (''segid'', c_int 4),
     (''segoff'', c_int 8),
     (''len'', c_int 8),
     (''prot'', c_int 4),
     (''flags'', c_int 4)]"

definition VmMemseg_layout :: layout where
  "VmMemseg_layout = c_struct [(''segid'', c_int 4),
     (''len'', c_int 8),
     (''name'', c_array VM_MAX_SEG_NAMELEN (c_int 1))]"

definition VmCreateReq_layout :: layout where
  "VmCreateReq_layout = c_struct [(''name'', c_array VM_MAX_NAMELEN (c_int 1)),
     (''flags'', c_int 8)]"

definition VmDestroyReq_layout :: layout where
  "VmDestroyReq_layout = c_struct [(''name'', c_array VM_MAX_NAMELEN (c_int 1))]"

definition VmRegister_layout :: layout where
  "VmRegister_layout = c_struct [(''cpuid'', c_int 4),
     (''regnum'', c_int 4),
     (''regval'', c_int 8)]"

definition SegDesc_layout :: layout where
  "SegDesc_layout = c_struct [(''base'', c_int 8),
     (''limit'', c_int 4),
     (''access'', c_int 4)]"

definition VmSegDesc_layout :: layout where
  "VmSegDesc_layout = c_struct [(''cpuid'', c_int 4),
     (''regnum'', c_int 4),
     (''desc'', SegDesc_layout)]"

definition VmActivateCpu_layout :: layout where
  "VmActivateCpu_layout = c_struct [(''vcpuid'', c_int 4)]"

definition VmIsaIrq_layout :: layout where
  "VmIsaIrq_layout = c_struct [(''atpic_irq'', c_int 4),
     (''ioapic_irq'', c_int 4)]"

definition VmLapicMsi_layout :: layout where
  "VmLapicMsi_layout = c_struct [(''msg'', c_int 8),
     (''addr'', c_int 8)]"

definition VmVcpuReset_layout :: layout where
  "VmVcpuReset_layout = c_struct [(''vcpuid'', c_int 4),
     (''kind'', c_int 4)]"

definition VmRunState_layout :: layout where
  "VmRunState_layout = c_struct [(''vcpuid'', c_int 4),
     (''state'', c_int 4),
     (''sipi_vector'', c_int 1),
     (''_pad'', c_array 3 (c_int 1))]"

definition VmInout_layout :: layout where
  "VmInout_layout = c_struct [(''eax'', c_int 4),
     (''port'', c_int 2),
     (''bytes'', c_int 1),
     (''flags'', c_int 1),
     (''addrsize'', c_int 1),
     (''segment'', c_int 1)]"

definition VmMmio_layout :: layout where
  "VmMmio_layout = c_struct [(''bytes'', c_int 1),
     (''read'', c_int 1),
     (''_pad'', c_array 3 (c_int 2)),
     (''gpa'', c_int 8),
     (''data'', c_int 8)]"

definition VmGuestPaging_layout :: layout where
  "VmGuestPaging_layout = c_struct [(''cr3'', c_int 8),
     (''cpl'', c_int 4),
     (''cpu_mode'', c_int 4),
     (''paging_mode'', c_int 4)]"

definition VmGla2Gpa_layout :: layout where
  "VmGla2Gpa_layout = c_struct [(''vcpuid'', c_int 4),
     (''prot'', c_int 4),
     (''gla'', c_int 8),
     (''paging'', VmGuestPaging_layout),
     (''fault'', c_int 4),
     (''gpa'', c_int 8)]"

definition VmTaskSwitch_layout :: layout where
  "VmTaskSwitch_layout = c_struct [(''tsssel'', c_int 2),
     (''ext'', c_int 4),
     (''errcode'', c_int 4),
     (''errcode_valid'', c_int 4),
     (''reason'', c_int 4),
     (''paging'', VmGuestPaging_layout)]"

definition VmExitPaging_layout :: layout where
  "VmExitPaging_layout = c_struct [(''gpa'', c_int 8),
     (''fault_type'', c_int 4)]"

definition VmExitMmioEmul_layout :: layout where
  "VmExitMmioEmul_layout = c_struct [(''gpa'', c_int 8),
     (''gla'', c_int 8),
     (''cs_base'', c_int 8),
     (''cs_d'', c_int 4)]"

definition VmExitInstEmul_layout :: layout where
  "VmExitInstEmul_layout = c_struct [(''inst'', c_array 15 (c_int 1)),
     (''num_valid'', c_int 1)]"

definition VmExitVmx_layout :: layout where
  "VmExitVmx_layout = c_struct [(''status'', c_int 4),
     (''exit_reason'', c_int 4),
     (''exit_qualification'', c_int 8),
     (''inst_type'', c_int 4),
     (''inst_error'', c_int 4)]"

definition VmExitSvm_layout :: layout where
  "VmExitSvm_layout = c_struct [(''exitcode'', c_int 8),
     (''exitinfo1'', c_int 8),
     (''exitinfo2'', c_int 8)]"

definition VmExitBpt_layout :: layout where
  "VmExitBpt_layout = c_struct [(''inst_length'', c_int 4)]"

definition VmExitMsr_layout :: layout where
  "VmExitMsr_layout = c_struct [(''code'', c_int 4),
     (''wval'', c_int 8)]"

definition VmExitHlt_layout :: layout where
  "VmExitHlt_layout = c_struct [(''rflags'', c_int 8)]"

definition VmExitIoapicEoi_layout :: layout where
  "VmExitIoapicEoi_layout = c_struct [(''vector'', c_int 4)]"

definition VmExitSuspended_layout :: layout where
  "VmExitSuspended_layout = c_struct [(''how'', c_int 4),
     (''source'', c_int 4),
     (''when'', c_int 8)]"

definition VmExitUnion_layout :: layout where
  "VmExitUnion_layout = c_union [(''inout'', VmInout_layout),
     (''mmio'', VmMmio_layout),
     (''paging'', VmExitPaging_layout),
     (''mmio_emul'', VmExitMmioEmul_layout),
     (''inst_emul'', VmExitInstEmul_layout),
     (''vmx'', VmExitVmx_layout),
     (''svm'', VmExitSvm_layout),
     (''bpt'', VmExitBpt_layout),
     (''msr'', VmExitMsr_layout),
     (''hlt'', VmExitHlt_layout),
     (''ioapic_eoi'', VmExitIoapicEoi_layout),
     (''suspended'', VmExitSuspended_layout),
     (''task_switch'', VmTaskSwitch_layout)]"

definition VmExit_layout :: layout where
  "VmExit_layout = c_struct [(''exitcode'', c_int 4),
     (''inst_length'', c_int 4),
     (''rip'', c_int 8),
     (''u'', VmExitUnion_layout)]"

definition VmEntryUnion_layout :: layout where
  "VmEntryUnion_layout = c_union [(''inout'', VmInout_layout),
     (''mmio'', VmMmio_layout)]"

definition VmEntry_layout :: layout where
  "VmEntry_layout = c_struct [(''cpuid'', c_int 4),
     (''cmd'', c_int 4),
     (''exit_data'', c_int 8),
     (''u'', VmEntryUnion_layout)]"

definition VmRegisterSet_layout :: layout where
  "VmRegisterSet_layout = c_struct [(''cpuid'', c_int 4),
     (''count'', c_int 4),
     (''regnums'', c_int 8),
     (''regvals'', c_int 8)]"

definition VmCapability_layout :: layout where
  "VmCapability_layout = c_struct [(''cpuid'', c_int 4),
     (''captype'', c_int 4),
     (''capval'', c_int 4),
     (''allcpus'', c_int 4)]"

text \<open>All request numbers of the interface, in the order of the source.\<close>

definition VMM_LOCK_IOC_BASE :: u32 where "VMM_LOCK_IOC_BASE = push_bit 16 0x76 OR push_bit 8 0x6c"

definition vmm_requests :: "(string \<times> u32) list" where
  "vmm_requests =
    [(''VMM_CREATE_VM'', VMMCTL_IOC_BASE OR 0x01),
     (''VMM_DESTROY_VM'', VMMCTL_IOC_BASE OR 0x02),
     (''VMM_VM_SUPPORTED'', VMMCTL_IOC_BASE OR 0x03),
     (''VMM_INTERFACE_VERSION'', VMMCTL_IOC_BASE OR 0x04),
     (''VMM_CHECK_IOMMU'', VMMCTL_IOC_BASE OR 0x05),
     (''VMM_RESV_QUERY'', VMMCTL_IOC_BASE OR 0x10),
     (''VMM_RESV_SET_TARGET'', VMMCTL_IOC_BASE OR 0x11),
     (''VM_RUN'', VMM_CPU_IOC_BASE OR 0x01),
     (''VM_SET_REGISTER'', VMM_CPU_IOC_BASE OR 0x02),
     (''VM_GET_REGISTER'', VMM_CPU_IOC_BASE OR 0x03),
     (''VM_SET_SEGMENT_DESCRIPTOR'', VMM_CPU_IOC_BASE OR 0x04),
     (''VM_GET_SEGMENT_DESCRIPTOR'', VMM_CPU_IOC_BASE OR 0x05),
     (''VM_SET_REGISTER_SET'', VMM_CPU_IOC_BASE OR 0x06),
     (''VM_GET_REGISTER_SET'', VMM_CPU_IOC_BASE OR 0x07),
     (''VM_INJECT_EXCEPTION'', VMM_CPU_IOC_BASE OR 0x08),
     (''VM_SET_CAPABILITY'', VMM_CPU_IOC_BASE OR 0x09),
     (''VM_GET_CAPABILITY'', VMM_CPU_IOC_BASE OR 0x0a),
     (''VM_PPTDEV_MSI'', VMM_CPU_IOC_BASE OR 0x0b),
     (''VM_PPTDEV_MSIX'', VMM_CPU_IOC_BASE OR 0x0c),
     (''VM_SET_X2APIC_STATE'', VMM_CPU_IOC_BASE OR 0x0d),
     (''VM_GLA2GPA'', VMM_CPU_IOC_BASE OR 0x0e),
     (''VM_GLA2GPA_NOFAULT'', VMM_CPU_IOC_BASE OR 0x0f),
     (''VM_ACTIVATE_CPU'', VMM_CPU_IOC_BASE OR 0x10),
     (''VM_SET_INTINFO'', VMM_CPU_IOC_BASE OR 0x11),
     (''VM_GET_INTINFO'', VMM_CPU_IOC_BASE OR 0x12),
     (''VM_RESTART_INSTRUCTION'', VMM_CPU_IOC_BASE OR 0x13),
     (''VM_SET_KERNEMU_DEV'', VMM_CPU_IOC_BASE OR 0x14),
     (''VM_GET_KERNEMU_DEV'', VMM_CPU_IOC_BASE OR 0x15),
     (''VM_RESET_CPU'', VMM_CPU_IOC_BASE OR 0x16),
     (''VM_GET_RUN_STATE'', VMM_CPU_IOC_BASE OR 0x17),
     (''VM_SET_RUN_STATE'', VMM_CPU_IOC_BASE OR 0x18),
     (''VM_GET_FPU'', VMM_CPU_IOC_BASE OR 0x19),
     (''VM_SET_FPU'', VMM_CPU_IOC_BASE OR 0x1a),
     (''VM_GET_CPUID'', VMM_CPU_IOC_BASE OR 0x1b),
     (''VM_SET_CPUID'', VMM_CPU_IOC_BASE OR 0x1c),
     (''VM_LEGACY_CPUID'', VMM_CPU_IOC_BASE OR 0x1d),
     (''VM_REINIT'', VMM_LOCK_IOC_BASE OR 0x01),
     (''VM_BIND_PPTDEV'', VMM_LOCK_IOC_BASE OR 0x02),
     (''VM_UNBIND_PPTDEV'', VMM_LOCK_IOC_BASE OR 0x03),
     (''VM_MAP_PPTDEV_MMIO'', VMM_LOCK_IOC_BASE OR 0x04),
     (''VM_ALLOC_MEMSEG'', VMM_LOCK_IOC_BASE OR 0x05),
     (''VM_MMAP_MEMSEG'', VMM_LOCK_IOC_BASE OR 0x06),
     (''VM_PMTMR_LOCATE'', VMM_LOCK_IOC_BASE OR 0x07),
     (''VM_MUNMAP_MEMSEG'', VMM_LOCK_IOC_BASE OR 0x08),
     (''VM_UNMAP_PPTDEV_MMIO'', VMM_LOCK_IOC_BASE OR 0x09),
     (''VM_PAUSE'', VMM_LOCK_IOC_BASE OR 0x0a),
     (''VM_RESUME'', VMM_LOCK_IOC_BASE OR 0x0b),
     (''VM_WRLOCK_CYCLE'', VMM_LOCK_IOC_BASE OR 0xff),
     (''VM_GET_GPA_PMAP'', VMM_IOC_BASE OR 0x01),
     (''VM_GET_MEMSEG'', VMM_IOC_BASE OR 0x02),
     (''VM_MMAP_GETNEXT'', VMM_IOC_BASE OR 0x03),
     (''VM_LAPIC_IRQ'', VMM_IOC_BASE OR 0x04),
     (''VM_LAPIC_LOCAL_IRQ'', VMM_IOC_BASE OR 0x05),
     (''VM_LAPIC_MSI'', VMM_IOC_BASE OR 0x06),
     (''VM_IOAPIC_ASSERT_IRQ'', VMM_IOC_BASE OR 0x07),
     (''VM_IOAPIC_DEASSERT_IRQ'', VMM_IOC_BASE OR 0x08),
     (''VM_IOAPIC_PULSE_IRQ'', VMM_IOC_BASE OR 0x09),
     (''VM_ISA_ASSERT_IRQ'', VMM_IOC_BASE OR 0x0a),
     (''VM_ISA_DEASSERT_IRQ'', VMM_IOC_BASE OR 0x0b),
     (''VM_ISA_PULSE_IRQ'', VMM_IOC_BASE OR 0x0c),
     (''VM_ISA_SET_IRQ_TRIGGER'', VMM_IOC_BASE OR 0x0d),
     (''VM_RTC_WRITE'', VMM_IOC_BASE OR 0x0e),
     (''VM_RTC_READ'', VMM_IOC_BASE OR 0x0f),
     (''VM_RTC_SETTIME'', VMM_IOC_BASE OR 0x10),
     (''VM_RTC_GETTIME'', VMM_IOC_BASE OR 0x11),
     (''VM_SUSPEND'', VMM_IOC_BASE OR 0x12),
     (''VM_IOAPIC_PINCOUNT'', VMM_IOC_BASE OR 0x13),
     (''VM_GET_PPTDEV_LIMITS'', VMM_IOC_BASE OR 0x14),
     (''VM_GET_HPET_CAPABILITIES'', VMM_IOC_BASE OR 0x15),
     (''VM_STATS_IOC'', VMM_IOC_BASE OR 0x16),
     (''VM_STAT_DESC'', VMM_IOC_BASE OR 0x17),
     (''VM_INJECT_NMI'', VMM_IOC_BASE OR 0x18),
     (''VM_GET_X2APIC_STATE'', VMM_IOC_BASE OR 0x19),
     (''VM_SET_TOPOLOGY'', VMM_IOC_BASE OR 0x1a),
     (''VM_GET_TOPOLOGY'', VMM_IOC_BASE OR 0x1b),
     (''VM_GET_CPUS'', VMM_IOC_BASE OR 0x1c),
     (''VM_SUSPEND_CPU'', VMM_IOC_BASE OR 0x1d),
     (''VM_RESUME_CPU'', VMM_IOC_BASE OR 0x1e),
     (''VM_PPTDEV_DISABLE_MSIX'', VMM_IOC_BASE OR 0x1f),
     (''VM_TRACK_DIRTY_PAGES'', VMM_IOC_BASE OR 0x20),
     (''VM_DESC_FPU_AREA'', VMM_IOC_BASE OR 0x21),
     (''VM_DATA_READ'', VMM_IOC_BASE OR 0x22),
     (''VM_DATA_WRITE'', VMM_IOC_BASE OR 0x23),
     (''VM_SET_AUTODESTRUCT'', VMM_IOC_BASE OR 0x24),
     (''VM_DESTROY_SELF'', VMM_IOC_BASE OR 0x25),
     (''VM_DESTROY_PENDING'', VMM_IOC_BASE OR 0x26),
     (''VM_VCPU_BARRIER'', VMM_IOC_BASE OR 0x27),
     (''VM_NPT_OPERATION'', VMM_IOC_BASE OR 0x28),
     (''VM_DEVMEM_GETOFFSET'', VMM_IOC_BASE OR 0xff)]"

section \<open>Lemmas\<close>

lemma round_up_props:
  assumes "0 < a"
  shows "n \<le> round_up a n" "a dvd round_up a n"
proof -
  have "n + a - 1 = (n + a - 1) div a * a + (n + a - 1) mod a" by simp
  moreover have "(n + a - 1) mod a \<le> a - 1" using assms mod_less_divisor[OF assms, of "n + a - 1"] by linarith
  ultimately show "n \<le> round_up a n" unfolding round_up_def using assms by linarith
qed (simp add: round_up_def)

text \<open>The fields from \<open>off\<close> on, in order, without overlap, the last one ending at \<open>fin\<close> or before.\<close>

fun packed :: "nat \<Rightarrow> (string \<times> nat \<times> nat) list \<Rightarrow> nat \<Rightarrow> bool" where
  "packed off [] fin = (off \<le> fin)"
| "packed off ((n, at, sz) # fs) fin = (off \<le> at \<and> packed (at + sz) fs fin)"

lemma packed_mono: "packed off fs fin \<Longrightarrow> fin \<le> fin' \<Longrightarrow> packed off fs fin'"
  by (induction fs arbitrary: off) auto

lemma packed_le: "packed off fs fin \<Longrightarrow> off \<le> fin"
  by (induction off fs fin rule: packed.induct) auto

lemma packed_inside: "packed off fs fin \<Longrightarrow> (n, at, sz) \<in> set fs \<Longrightarrow> off \<le> at \<and> at + sz \<le> fin"
  by (induction off fs fin rule: packed.induct) (auto dest: packed_le)

lemma packed_disjoint:
  "packed off fs fin \<Longrightarrow> i < j \<Longrightarrow> j < length fs \<Longrightarrow> fst (snd (fs ! i)) + snd (snd (fs ! i)) \<le> fst (snd (fs ! j))"
proof (induction off fs fin arbitrary: i j rule: packed.induct)
  case (2 off n at sz fs fin)
  show ?case
  proof (cases i)
    case 0
    have "fs ! (j - 1) \<in> set fs" using 2(3,4) by simp
    then have "at + sz \<le> fst (snd (fs ! (j - 1)))" using 2(2) packed_inside[of "at + sz" fs fin] by (metis packed.simps(2) prod.collapse)
    then show ?thesis using 0 2(3) by (simp add: nth_Cons')
  next
    case (Suc k)
    then show ?thesis using 2(1)[of k "j - 1"] 2(2-4) by (auto simp: nth_Cons')
  qed
qed simp

lemma place_packed:
  "\<forall>l \<in> snd ` set fs. 0 < lay_align l \<Longrightarrow> place off fs = (r, fin) \<Longrightarrow>
     packed off r fin \<and> list_all2 (\<lambda>f d. fst f = fst d \<and> lay_align (snd d) dvd fst (snd f) \<and> snd (snd f) = lay_size (snd d)) r fs"
proof (induction fs arbitrary: off r)
  case (Cons f fs)
  obtain n l where f: "f = (n, l)" by (cases f)
  show ?case using Cons round_up_props[of "lay_align l" off] by (auto simp: f Let_def split: prod.splits)
qed simp

lemma max_align_pos: "0 < max_align fs"
  by (induction fs) (auto simp: max_align_def)

text \<open>
  The structures are laid out soundly: the fields have the names and sizes given, in order, each at a multiple of its
  alignment, after the end of the one before and inside the structure, whose size is a multiple of its alignment.
\<close>

lemma struct_layout_sound:
  assumes "\<forall>l \<in> snd ` set fs. 0 < lay_align l"
  shows "packed 0 (lay_fields (c_struct fs)) (lay_size (c_struct fs)) \<and> lay_align (c_struct fs) dvd lay_size (c_struct fs) \<and>
     list_all2 (\<lambda>f d. fst f = fst d \<and> lay_align (snd d) dvd fst (snd f) \<and> snd (snd f) = lay_size (snd d)) (lay_fields (c_struct fs)) fs \<and>
     (\<forall>i j. i < j \<and> j < length fs \<longrightarrow>
        fst (snd (lay_fields (c_struct fs) ! i)) + snd (snd (lay_fields (c_struct fs) ! i)) \<le> fst (snd (lay_fields (c_struct fs) ! j)))"
proof -
  obtain r fin where p: "place 0 fs = (r, fin)" by fastforce
  note pk = place_packed[OF assms p]
  have pk': "packed 0 r (round_up (max_align fs) fin)" using pk packed_mono round_up_props(1)[OF max_align_pos] by blast
  have len: "length r = length fs" using pk list_all2_lengthD by blast
  show ?thesis using pk p pk' packed_disjoint[OF pk'] round_up_props(2)[OF max_align_pos] len by (simp add: c_struct_def)
qed

lemmas layout_defs = c_struct_def c_union_def c_array_def c_int_def max_align_def round_up_def Let_def

lemma register_layouts:
  "lay_size KvmRegs_layout = 144" "lay_size KvmSegment_layout = 24" "lay_align KvmSegment_layout = 8"
  "lay_size KvmDtable_layout = 16" "lay_align KvmDtable_layout = 8"
  by (simp_all add: KvmRegs_layout_def KvmSegment_layout_def KvmDtable_layout_def layout_defs)

lemma sregs_layout: "lay_size KvmSregs_layout = 312"
  by (simp add: KvmSregs_layout_def layout_defs register_layouts)

lemma bhyve_register_layouts: "lay_size VmRegister_layout = 16" "lay_size VmSegDesc_layout = 24"
  by (simp_all add: VmRegister_layout_def VmSegDesc_layout_def SegDesc_layout_def layout_defs)

lemma exit_layouts:
  "lay_fields KvmExitIo_layout = [(''direction'', 0, 1), (''size'', 1, 1), (''port'', 2, 2), (''count'', 4, 4), (''data_offset'', 8, 8)]"
  "lay_fields KvmExitMmio_layout = [(''phys_addr'', 0, 8), (''data'', 8, 8), (''len'', 16, 4), (''is_write'', 20, 1)]"
  "lay_fields KvmExitFailEntry_layout = [(''hardware_entry_failure_reason'', 0, 8), (''cpu'', 8, 4)]"
  by (simp_all add: KvmExitIo_layout_def KvmExitMmio_layout_def KvmExitFailEntry_layout_def layout_defs)

lemma run_exit_layout: "lay_size KvmRunExit_layout = 256" "lay_align KvmRunExit_layout = 8"
  "list_all (\<lambda>(n, at, sz). at = 0 \<and> sz \<le> 256) (lay_fields KvmRunExit_layout)"
  by (simp_all add: KvmRunExit_layout_def KvmExitUnknown_layout_def KvmExitFailEntry_layout_def KvmExitException_layout_def
      KvmExitIo_layout_def KvmExitDebug_layout_def KvmDebugExitArch_layout_def KvmExitMmio_layout_def layout_defs)

lemma run_layout: "lay_fields KvmRun_layout =
    [(''request_interrupt_window'', 0, 1), (''immediate_exit'', 1, 1), (''padding1'', 2, 6), (''exit_reason'', 8, 4),
     (''ready_for_interrupt_injection'', 12, 1), (''if_flag'', 13, 1), (''flags'', 14, 2), (''cr8'', 16, 8), (''apic_base'', 24, 8),
     (''exit'', 32, 256)]"
  by (simp add: KvmRun_layout_def layout_defs run_exit_layout)

lemma argument_layouts:
  "lay_size KvmIrqLevel_layout = 8" "lay_size KvmMsi_layout = 32" "lay_size KvmUserspaceMemoryRegion_layout = 32"
  "lay_size KvmPitConfig_layout = 64" "lay_size KvmCpuid2Empty_layout = 8" "lay_size KvmCpuid2_layout = 8 + 256 * 40"
  by (simp_all add: KvmIrqLevel_layout_def KvmMsi_layout_def KvmUserspaceMemoryRegion_layout_def KvmPitConfig_layout_def
      KvmCpuid2Empty_layout_def KvmCpuid2_layout_def KvmCpuidEntry2_layout_def layout_defs)

lemma bhyve_union_layout: "lay_size VmExitUnion_layout = 48" "lay_align VmExitUnion_layout = 8"
  "list_all (\<lambda>(n, at, sz). at = 0 \<and> sz \<le> 48) (lay_fields VmExitUnion_layout)"
  by (simp_all add: VmExitUnion_layout_def VmInout_layout_def VmMmio_layout_def VmExitPaging_layout_def VmExitMmioEmul_layout_def
      VmExitInstEmul_layout_def VmExitVmx_layout_def VmExitSvm_layout_def VmExitBpt_layout_def VmExitMsr_layout_def VmExitHlt_layout_def
      VmExitIoapicEoi_layout_def VmExitSuspended_layout_def VmTaskSwitch_layout_def VmGuestPaging_layout_def layout_defs)

lemma bhyve_exit_layout:
  "lay_fields VmExit_layout = [(''exitcode'', 0, 4), (''inst_length'', 4, 4), (''rip'', 8, 8), (''u'', 16, 48)]"
  "lay_fields VmEntry_layout = [(''cpuid'', 0, 4), (''cmd'', 4, 4), (''exit_data'', 8, 8), (''u'', 16, 24)]"
  by (simp_all add: VmExit_layout_def VmEntry_layout_def VmEntryUnion_layout_def VmInout_layout_def VmMmio_layout_def layout_defs bhyve_union_layout)

lemmas base_defs = VMMCTL_IOC_BASE_def VMM_IOC_BASE_def VMM_LOCK_IOC_BASE_def VMM_CPU_IOC_BASE_def

lemma ascending_distinct: "successively (\<lambda>x y. f x < f y) xs \<Longrightarrow> distinct xs" for f :: "'a \<Rightarrow> nat"
  using successively_conv_sorted_wrt[of "(<)" "map f xs"] by (simp add: successively_map distinct_map strict_sorted_iff)

text \<open>The numbers ascend when the vCPU group, of 29 requests, comes last.\<close>

lemma vmm_requests_distinct: "distinct (map snd vmm_requests)"
proof -
  let ?a = "map snd (take 7 vmm_requests)" and ?b = "map snd (take 29 (drop 7 vmm_requests))" and ?c = "map snd (drop 36 vmm_requests)"
  have "successively (\<lambda>x y. unat x < unat y) (?a @ ?c @ ?b)"
    by (simp add: vmm_requests_def base_defs)
  then have "distinct (?a @ ?c @ ?b)" by (rule ascending_distinct)
  then have "distinct (?a @ ?b @ ?c)" unfolding distinct_append set_append by blast
  moreover have "vmm_requests = take 7 vmm_requests @ take 29 (drop 7 vmm_requests) @ drop 36 vmm_requests"
    by (simp add: vmm_requests_def)
  ultimately show ?thesis by (simp only: map_append[symmetric])
qed

section \<open>The bytes of the registers\<close>

text \<open>The fields of a structure, by name, in the bytes of a value of it.\<close>

definition named_fields :: "layout \<Rightarrow> bytes \<Rightarrow> (string \<times> bytes) list" where
  "named_fields l bs = map (\<lambda>(n, at, sz). (n, take sz (drop at bs))) (lay_fields l)"

lemma register_fields:
  "lay_fields KvmRegs_layout =
    [(''rax'', 0, 8), (''rbx'', 8, 8), (''rcx'', 16, 8), (''rdx'', 24, 8), (''rsi'', 32, 8), (''rdi'', 40, 8),
     (''rsp'', 48, 8), (''rbp'', 56, 8), (''r8'', 64, 8), (''r9'', 72, 8), (''r10'', 80, 8), (''r11'', 88, 8),
     (''r12'', 96, 8), (''r13'', 104, 8), (''r14'', 112, 8), (''r15'', 120, 8), (''rip'', 128, 8),
     (''rflags'', 136, 8)]"
  "lay_fields KvmSegment_layout =
    [(''base'', 0, 8), (''limit'', 8, 4), (''selector'', 12, 2), (''type_'', 14, 1), (''present'', 15, 1),
     (''dpl'', 16, 1), (''db'', 17, 1), (''s'', 18, 1), (''l'', 19, 1), (''g'', 20, 1), (''avl'', 21, 1),
     (''unusable'', 22, 1), (''padding'', 23, 1)]"
  "lay_fields KvmDtable_layout = [(''base'', 0, 8), (''limit'', 8, 2), (''padding'', 10, 6)]"
  by (simp_all add: KvmRegs_layout_def KvmSegment_layout_def KvmDtable_layout_def layout_defs)

lemma sregs_fields:
  "lay_fields KvmSregs_layout =
    [(''cs'', 0, 24), (''ds'', 24, 24), (''es'', 48, 24), (''fs'', 72, 24), (''gs'', 96, 24), (''ss'', 120, 24),
     (''tr'', 144, 24), (''ldt'', 168, 24), (''gdt'', 192, 16), (''idt'', 208, 16), (''cr0'', 224, 8),
     (''cr2'', 232, 8), (''cr3'', 240, 8), (''cr4'', 248, 8), (''cr8'', 256, 8), (''efer'', 264, 8),
     (''apic_base'', 272, 8), (''interrupt_bitmap'', 280, 32)]"
  by (simp add: KvmSregs_layout_def layout_defs register_layouts)

text \<open>A structure without holes cut up is the list of its parts.\<close>

fun cuts :: "nat \<Rightarrow> (string \<times> nat \<times> nat) list \<Rightarrow> (string \<times> bytes) list \<Rightarrow> bool" where
  "cuts off [] [] = True"
| "cuts off ((n, at, sz) # fs) ((m, bs) # xs) = (n = m \<and> at = off \<and> sz = length bs \<and> cuts (off + sz) fs xs)"
| "cuts off _ _ = False"

lemma cuts_concat:
  "cuts off fs xs \<Longrightarrow> length pre = off \<Longrightarrow> map (\<lambda>(n, at, sz). (n, take sz (drop at (pre @ concat (map snd xs))))) fs = xs"
proof (induction off fs xs arbitrary: pre rule: cuts.induct)
  case (2 off n at sz fs m bs xs)
  have "map (\<lambda>(n, at, sz). (n, take sz (drop at ((pre @ bs) @ concat (map snd xs))))) fs = xs"
    using 2 by (intro 2(1)) auto
  then show ?case using 2(2,3) by (simp del: drop_append take_append) simp
qed simp_all

lemma named_fields_concat: "cuts 0 (lay_fields l) xs \<Longrightarrow> bs = concat (map snd xs) \<Longrightarrow> named_fields l bs = xs"
  using cuts_concat[of 0 "lay_fields l" xs "[]"] by (simp add: named_fields_def)

lemma concat_le_lengths:
  "length (concat (map u64_to_le ws)) = 8 * length ws" "length (concat (map u16_to_le hs)) = 2 * length hs"
proof -
  show "length (concat (map u64_to_le ws)) = 8 * length ws" by (induction ws) simp_all
  show "length (concat (map u16_to_le hs)) = 2 * length hs" by (induction hs) simp_all
qed

lemma kvm_regs_laid_out:
  "named_fields KvmRegs_layout (kvm_regs_bytes r) =
     [(''rax'', u64_to_le (k_rax r)), (''rbx'', u64_to_le (k_rbx r)), (''rcx'', u64_to_le (k_rcx r)), (''rdx'', u64_to_le (k_rdx r)),
      (''rsi'', u64_to_le (k_rsi r)), (''rdi'', u64_to_le (k_rdi r)), (''rsp'', u64_to_le (k_rsp r)), (''rbp'', u64_to_le (k_rbp r)),
      (''r8'', u64_to_le (k_r8 r)), (''r9'', u64_to_le (k_r9 r)), (''r10'', u64_to_le (k_r10 r)), (''r11'', u64_to_le (k_r11 r)),
      (''r12'', u64_to_le (k_r12 r)), (''r13'', u64_to_le (k_r13 r)), (''r14'', u64_to_le (k_r14 r)), (''r15'', u64_to_le (k_r15 r)),
      (''rip'', u64_to_le (k_rip r)), (''rflags'', u64_to_le (k_rflags r))]"
  by (rule named_fields_concat) (simp_all add: register_fields kvm_regs_bytes_def kvm_regs_words_def)

lemma kvm_segment_laid_out:
  "named_fields KvmSegment_layout (kvm_segment_bytes g) =
     [(''base'', u64_to_le (ks_base g)), (''limit'', u32_to_le (ks_limit g)), (''selector'', u16_to_le (ks_selector g)),
      (''type_'', [ks_type g]), (''present'', [ks_present g]), (''dpl'', [ks_dpl g]), (''db'', [ks_db g]), (''s'', [ks_s g]),
      (''l'', [ks_l g]), (''g'', [ks_g g]), (''avl'', [ks_avl g]), (''unusable'', [ks_unusable g]), (''padding'', [ks_padding g])]"
  by (rule named_fields_concat) (simp_all add: register_fields kvm_segment_bytes_def)

lemma kvm_dtable_laid_out:
  "length (kd_padding d) = 3 \<Longrightarrow> named_fields KvmDtable_layout (kvm_dtable_bytes d) =
     [(''base'', u64_to_le (kd_base d)), (''limit'', u16_to_le (kd_limit d)), (''padding'', concat (map u16_to_le (kd_padding d)))]"
  by (rule named_fields_concat) (simp_all add: register_fields kvm_dtable_bytes_def concat_le_lengths)

lemma register_byte_lengths:
  "length (kvm_regs_bytes r) = 144" "length (kvm_segment_bytes g) = 24"
  "length (kd_padding d) = 3 \<Longrightarrow> length (kvm_dtable_bytes d) = 16" "kvm_sregs_ok s \<Longrightarrow> length (kvm_sregs_bytes s) = 312"
proof -
  show g: "length (kvm_segment_bytes g) = 24" for g by (simp add: kvm_segment_bytes_def)
  show d: "length (kvm_dtable_bytes d) = 16" if "length (kd_padding d) = 3" for d
    using that by (simp add: kvm_dtable_bytes_def concat_le_lengths)
  show "length (kvm_sregs_bytes s) = 312" if "kvm_sregs_ok s"
    using that by (simp add: kvm_sregs_bytes_def kvm_sregs_ok_def g d concat_le_lengths)
qed (simp add: kvm_regs_bytes_def kvm_regs_words_def)

lemma kvm_sregs_laid_out:
  assumes "kvm_sregs_ok s"
  shows "named_fields KvmSregs_layout (kvm_sregs_bytes s) =
     [(''cs'', kvm_segment_bytes (k_cs s)), (''ds'', kvm_segment_bytes (k_ds s)), (''es'', kvm_segment_bytes (k_es s)),
      (''fs'', kvm_segment_bytes (k_fs s)), (''gs'', kvm_segment_bytes (k_gs s)), (''ss'', kvm_segment_bytes (k_ss s)),
      (''tr'', kvm_segment_bytes (k_tr s)), (''ldt'', kvm_segment_bytes (k_ldt s)), (''gdt'', kvm_dtable_bytes (k_gdt s)),
      (''idt'', kvm_dtable_bytes (k_idt s)), (''cr0'', u64_to_le (k_cr0 s)), (''cr2'', u64_to_le (k_cr2 s)),
      (''cr3'', u64_to_le (k_cr3 s)), (''cr4'', u64_to_le (k_cr4 s)), (''cr8'', u64_to_le (k_cr8 s)), (''efer'', u64_to_le (k_efer s)),
      (''apic_base'', u64_to_le (k_apic_base s)), (''interrupt_bitmap'', concat (map u64_to_le (k_interrupt_bitmap s)))]"
proof -
  have p: "length (kd_padding (k_gdt s)) = 3" "length (kd_padding (k_idt s)) = 3" "length (k_interrupt_bitmap s) = 4"
    using assms by (simp_all add: kvm_sregs_ok_def)
  show ?thesis
    using p by (intro named_fields_concat) (simp_all add: sregs_fields kvm_sregs_bytes_def register_byte_lengths concat_le_lengths)
qed

lemma bhyve_register_laid_out:
  "named_fields VmRegister_layout (vm_register_bytes x) =
     [(''cpuid'', to_le 4 (vr_cpuid x)), (''regnum'', to_le 4 (vr_regnum x)), (''regval'', u64_to_le (vr_regval x))]"
  "named_fields VmSegDesc_layout (vm_seg_desc_bytes y) =
     [(''cpuid'', to_le 4 (vd_cpuid y)), (''regnum'', to_le 4 (vd_regnum y)), (''desc'', drop 8 (vm_seg_desc_bytes y))]"
  "named_fields SegDesc_layout (drop 8 (vm_seg_desc_bytes y)) =
     [(''base'', u64_to_le (sd_base (vd_desc y))), (''limit'', u32_to_le (sd_limit (vd_desc y))), (''access'', u32_to_le (sd_access (vd_desc y)))]"
  by (simp_all add: named_fields_def VmRegister_layout_def VmSegDesc_layout_def SegDesc_layout_def layout_defs vm_register_bytes_def
      vm_seg_desc_bytes_def)

text \<open>
  The layouts of what else is shared: in the KVM run page the exit reason is at byte 8 and the
  data of an exit at byte 32, where every variant starts and fits; the fields of port, MMIO and failed-entry exits are
  where KVM puts them; the size in a KVM request number is that of the structure passed; a bhyve exit has its
  variants at byte 16; and no two bhyve requests share a number.
\<close>

lemma shared_layouts:
  "lay_fields KvmRun_layout =
    [(''request_interrupt_window'', 0, 1), (''immediate_exit'', 1, 1), (''padding1'', 2, 6), (''exit_reason'', 8, 4),
     (''ready_for_interrupt_injection'', 12, 1), (''if_flag'', 13, 1), (''flags'', 14, 2), (''cr8'', 16, 8), (''apic_base'', 24, 8),
     (''exit'', 32, 256)] \<and>
   list_all (\<lambda>(n, at, sz). at = 0 \<and> sz \<le> 256) (lay_fields KvmRunExit_layout) \<and>
   lay_fields KvmExitIo_layout = [(''direction'', 0, 1), (''size'', 1, 1), (''port'', 2, 2), (''count'', 4, 4), (''data_offset'', 8, 8)] \<and>
   lay_fields KvmExitMmio_layout = [(''phys_addr'', 0, 8), (''data'', 8, 8), (''len'', 16, 4), (''is_write'', 20, 1)] \<and>
   lay_fields KvmExitFailEntry_layout = [(''hardware_entry_failure_reason'', 0, 8), (''cpu'', 8, 4)] \<and>
   KVM_GET_REGS = ior_req (of_nat (lay_size KvmRegs_layout)) KVMIO 0x81 \<and>
   KVM_SET_REGS = iow_req (of_nat (lay_size KvmRegs_layout)) KVMIO 0x82 \<and>
   KVM_GET_SREGS = ior_req (of_nat (lay_size KvmSregs_layout)) KVMIO 0x83 \<and>
   KVM_SET_SREGS = iow_req (of_nat (lay_size KvmSregs_layout)) KVMIO 0x84 \<and>
   KVM_IRQ_LINE = iow_req (of_nat (lay_size KvmIrqLevel_layout)) KVMIO 0x61 \<and>
   KVM_SIGNAL_MSI = iow_req (of_nat (lay_size KvmMsi_layout)) KVMIO 0xa5 \<and>
   length (kvm_regs_bytes r) = lay_size KvmRegs_layout \<and> length (kvm_segment_bytes g) = lay_size KvmSegment_layout \<and>
   lay_fields VmExit_layout = [(''exitcode'', 0, 4), (''inst_length'', 4, 4), (''rip'', 8, 8), (''u'', 16, 48)] \<and>
   list_all (\<lambda>(n, at, sz). at = 0 \<and> sz \<le> 48) (lay_fields VmExitUnion_layout) \<and>
   lay_fields VmEntry_layout = [(''cpuid'', 0, 4), (''cmd'', 4, 4), (''exit_data'', 8, 8), (''u'', 16, 24)] \<and>
   distinct (map snd vmm_requests)"
  using run_layout run_exit_layout(3) exit_layouts bhyve_exit_layout bhyve_union_layout(3) vmm_requests_distinct
    kvm_regs_parse(2)[of r] kvm_segment_parse(2)[of g]
  by (simp add: register_layouts sregs_layout argument_layouts KVM_GET_REGS_def KVM_SET_REGS_def KVM_GET_SREGS_def KVM_SET_SREGS_def
      KVM_IRQ_LINE_def KVM_SIGNAL_MSI_def)

text \<open>The requests the program makes are those of the table.\<close>

lemma vmm_requests_agree:
  "map_of vmm_requests ''VM_RUN'' = Some VM_RUN" "map_of vmm_requests ''VM_LAPIC_MSI'' = Some VM_LAPIC_MSI"
  "map_of vmm_requests ''VM_SET_REGISTER'' = Some VM_SET_REGISTER" "map_of vmm_requests ''VM_GET_REGISTER'' = Some VM_GET_REGISTER"
  "map_of vmm_requests ''VM_ISA_ASSERT_IRQ'' = Some VM_ISA_ASSERT_IRQ" "map_of vmm_requests ''VM_ISA_DEASSERT_IRQ'' = Some VM_ISA_DEASSERT_IRQ"
  "map_of vmm_requests ''VM_ACTIVATE_CPU'' = Some VM_ACTIVATE_CPU" "map_of vmm_requests ''VM_RESET_CPU'' = Some VM_RESET_CPU"
  by (simp_all add: vmm_requests_def VM_RUN_def VM_LAPIC_MSI_def VM_SET_REGISTER_def VM_GET_REGISTER_def VM_ISA_ASSERT_IRQ_def
      VM_ISA_DEASSERT_IRQ_def VM_ACTIVATE_CPU_def VM_RESET_CPU_def)

section \<open>Properties\<close>

text \<open>
  C24. The registers cross the kernels' interfaces field by field. For every set of general and special registers, the bytes
  the program passes to KVM, cut up by the \<open>repr(C)\<close> layout of the structure, are under every field's name the little-endian
  bytes of that register, none left out and none in another's place, down to the fields of a segment and of a
  descriptor table; so are those of a register and of a segment descriptor for bhyve. The bytes are as many as the structure
  has, and the request numbers carry that size.
\<close>

theorem register_bytes_laid_out:
  assumes "length (kd_padding d) = 3" and "kvm_sregs_ok s"
  shows "named_fields KvmRegs_layout (kvm_regs_bytes r) =
         [(''rax'', u64_to_le (k_rax r)), (''rbx'', u64_to_le (k_rbx r)), (''rcx'', u64_to_le (k_rcx r)), (''rdx'', u64_to_le (k_rdx r)),
          (''rsi'', u64_to_le (k_rsi r)), (''rdi'', u64_to_le (k_rdi r)), (''rsp'', u64_to_le (k_rsp r)), (''rbp'', u64_to_le (k_rbp r)),
          (''r8'', u64_to_le (k_r8 r)), (''r9'', u64_to_le (k_r9 r)), (''r10'', u64_to_le (k_r10 r)), (''r11'', u64_to_le (k_r11 r)),
          (''r12'', u64_to_le (k_r12 r)), (''r13'', u64_to_le (k_r13 r)), (''r14'', u64_to_le (k_r14 r)), (''r15'', u64_to_le (k_r15 r)),
          (''rip'', u64_to_le (k_rip r)), (''rflags'', u64_to_le (k_rflags r))] \<and>
     named_fields KvmSegment_layout (kvm_segment_bytes g) =
         [(''base'', u64_to_le (ks_base g)), (''limit'', u32_to_le (ks_limit g)), (''selector'', u16_to_le (ks_selector g)),
          (''type_'', [ks_type g]), (''present'', [ks_present g]), (''dpl'', [ks_dpl g]), (''db'', [ks_db g]), (''s'', [ks_s g]),
          (''l'', [ks_l g]), (''g'', [ks_g g]), (''avl'', [ks_avl g]), (''unusable'', [ks_unusable g]), (''padding'', [ks_padding g])] \<and>
     named_fields KvmDtable_layout (kvm_dtable_bytes d) =
         [(''base'', u64_to_le (kd_base d)), (''limit'', u16_to_le (kd_limit d)), (''padding'', concat (map u16_to_le (kd_padding d)))] \<and>
     named_fields KvmSregs_layout (kvm_sregs_bytes s) =
         [(''cs'', kvm_segment_bytes (k_cs s)), (''ds'', kvm_segment_bytes (k_ds s)), (''es'', kvm_segment_bytes (k_es s)),
          (''fs'', kvm_segment_bytes (k_fs s)), (''gs'', kvm_segment_bytes (k_gs s)), (''ss'', kvm_segment_bytes (k_ss s)),
          (''tr'', kvm_segment_bytes (k_tr s)), (''ldt'', kvm_segment_bytes (k_ldt s)), (''gdt'', kvm_dtable_bytes (k_gdt s)),
          (''idt'', kvm_dtable_bytes (k_idt s)), (''cr0'', u64_to_le (k_cr0 s)), (''cr2'', u64_to_le (k_cr2 s)),
          (''cr3'', u64_to_le (k_cr3 s)), (''cr4'', u64_to_le (k_cr4 s)), (''cr8'', u64_to_le (k_cr8 s)), (''efer'', u64_to_le (k_efer s)),
          (''apic_base'', u64_to_le (k_apic_base s)), (''interrupt_bitmap'', concat (map u64_to_le (k_interrupt_bitmap s)))] \<and>
     named_fields VmRegister_layout (vm_register_bytes x) =
         [(''cpuid'', to_le 4 (vr_cpuid x)), (''regnum'', to_le 4 (vr_regnum x)), (''regval'', u64_to_le (vr_regval x))] \<and>
     named_fields VmSegDesc_layout (vm_seg_desc_bytes y) =
         [(''cpuid'', to_le 4 (vd_cpuid y)), (''regnum'', to_le 4 (vd_regnum y)), (''desc'', drop 8 (vm_seg_desc_bytes y))] \<and>
     named_fields SegDesc_layout (drop 8 (vm_seg_desc_bytes y)) =
         [(''base'', u64_to_le (sd_base (vd_desc y))), (''limit'', u32_to_le (sd_limit (vd_desc y))), (''access'', u32_to_le (sd_access (vd_desc y)))] \<and>
     length (kvm_regs_bytes r) = lay_size KvmRegs_layout \<and> length (kvm_segment_bytes g) = lay_size KvmSegment_layout \<and>
     length (kvm_dtable_bytes d) = lay_size KvmDtable_layout \<and> length (kvm_sregs_bytes s) = lay_size KvmSregs_layout \<and>
     length (vm_register_bytes x) = lay_size VmRegister_layout \<and> length (vm_seg_desc_bytes y) = lay_size VmSegDesc_layout \<and>
     KVM_GET_REGS = ior_req (of_nat (length (kvm_regs_bytes r))) KVMIO 0x81 \<and>
     KVM_SET_REGS = iow_req (of_nat (length (kvm_regs_bytes r))) KVMIO 0x82 \<and>
     KVM_GET_SREGS = ior_req (of_nat (length (kvm_sregs_bytes s))) KVMIO 0x83 \<and>
     KVM_SET_SREGS = iow_req (of_nat (length (kvm_sregs_bytes s))) KVMIO 0x84"
  by (intro conjI kvm_regs_laid_out kvm_segment_laid_out kvm_dtable_laid_out[OF assms(1)] kvm_sregs_laid_out[OF assms(2)]
      bhyve_register_laid_out)
    (use assms in \<open>simp_all add: register_byte_lengths register_layouts sregs_layout vm_register_bytes_def vm_seg_desc_bytes_def
      bhyve_register_layouts KVM_GET_REGS_def KVM_SET_REGS_def KVM_GET_SREGS_def KVM_SET_SREGS_def\<close>)

theorem register_bytes_laid_out_witness:
  "named_fields KvmDtable_layout (kvm_dtable_bytes \<lparr>kd_base = 0x500, kd_limit = 23, kd_padding = [0, 0, 0]\<rparr>) =
     [(''base'', u64_to_le 0x500), (''limit'', u16_to_le 23), (''padding'', concat (map u16_to_le [0, 0, 0]))] \<and>
   map_of (named_fields KvmSregs_layout (kvm_sregs_bytes (kvm_sregs_of fresh_sregs))) ''cr0'' =
     Some (u64_to_le (k_cr0 (kvm_sregs_of fresh_sregs)))"
  using register_bytes_laid_out[of "\<lparr>kd_base = 0x500, kd_limit = 23, kd_padding = [0, 0, 0]\<rparr>" "kvm_sregs_of fresh_sregs",
      OF _ kvm_sregs_of_ok[OF fresh_vcpu_state(3)]] by simp

end
