(* ===== verification/Spec2Isabelle.thy ===== *)
theory Spec2Isabelle
  imports Startup Guest Registers Threads Diagnostics Layout
begin

text \<open>
  \<^bold>\<open>ferrvm\<close>, a virtual machine monitor in Rust for KVM (Linux) and bhyve (illumos).

  \<^bold>\<open>The program.\<close> \<open>main\<close> allocates guest RAM, loads a kernel, builds two buses (port I/O and MMIO)
  with their devices, and starts one thread per vCPU. A vCPU runs in the kernel until it exits;
  the exit handler turns the exit into accesses on the buses; a bus finds the device whose range
  holds the access and calls it. Devices are a 16550 UART, a PCI root with configuration space, and
  virtio functions (entropy and block) behind one MMIO window. Devices interrupt the guest through a
  level-triggered line or through MSI messages. A reader thread feeds console input to the UART and
  asks for shutdown.

  \<^bold>\<open>The theories\<close>, with the source files under \<open>src/src\<close> they model:
  \<^item> \<open>Prelude\<close>: machine integers, Rust's checked, saturating and (by build) panicking arithmetic,
    slices and little-endian layout.
  \<^item> \<open>Memory\<close> (\<open>memory.rs\<close>): guest RAM; locale \<open>guest_ram\<close>.
  \<^item> \<open>Bus\<close> (\<open>bus.rs\<close>): ranges, registration, lookup and dispatch; locale \<open>bus_device\<close>.
  \<^item> \<open>Sinks\<close> (\<open>kvm/irq.rs\<close>, \<open>bhyve/irq.rs\<close>, \<open>kvm/ioctl.rs\<close>): interrupt lines and messages down to the ioctls.
  \<^item> \<open>Serial\<close> (\<open>serial.rs\<close>): the UART.
  \<^item> \<open>Pci\<close> (\<open>pci.rs\<close>): configuration space and the root bus; locale \<open>pci_device\<close>.
  \<^item> \<open>Virtqueue\<close> (\<open>virtio/mod.rs\<close>): descriptor chains and the ring loop; locales \<open>chain_frame\<close>, \<open>chain_handler\<close>.
  \<^item> \<open>Rng\<close>, \<open>Blk\<close> (\<open>virtio/rng.rs\<close>, \<open>virtio/blk.rs\<close>): the two backends, interpreting the chain locales.
  \<^item> \<open>VirtioPci\<close>, \<open>VirtioPciProps\<close>, \<open>VirtioPciRegs\<close> (\<open>virtio/pci.rs\<close>): the transport, its invariant, its registers.
  \<^item> \<open>Machine\<close> (\<open>main.rs\<close>): the device store, the buses \<open>main\<close> builds, and runs of the whole machine.
  \<^item> \<open>MpTable\<close> (\<open>mptable.rs\<close>): the MP tables and the guest's reader of them.
  \<^item> \<open>Exits\<close> (\<open>kvm/exithandler.rs\<close>, \<open>bhyve/exithandler.rs\<close>, \<open>stats.rs\<close>): exit handling on both hosts.
  \<^item> \<open>Runtime\<close> (\<open>vcpu.rs\<close>, \<open>input.rs\<close>, \<open>terminal.rs\<close>): the vCPU loop, shutdown, and the console.
  \<^item> \<open>CpuState\<close> (\<open>traits.rs\<close>, \<open>kvm/core.rs\<close>, \<open>bhyve/core.rs\<close>): the registers of a vCPU on both hosts; locales
    \<open>vcpu_state\<close>, \<open>kvm_kernel\<close>, \<open>bhyve_kernel\<close>, the first a sublocale of each of the others. \<open>Registers\<close> (with
    \<open>bhyve/ioctl.rs\<close>): the system calls under them, as request numbers and bytes; locales \<open>kvm_abi\<close> and \<open>bhyve_abi\<close> of the
    two kernels give \<open>kvm_kernel\<close> and \<open>bhyve_kernel\<close>.
  \<^item> \<open>BootParams\<close> (\<open>bootparams.rs\<close>): the layout of the zero page.
  \<^item> \<open>Elf\<close> (\<open>elf.rs\<close>, the loader of \<open>boot.rs\<close>): ELF headers and the image they describe.
  \<^item> \<open>Boot\<close> (\<open>boot.rs\<close>): loading a kernel and the state it starts in, proved once for every \<open>vcpu_state\<close>.
  \<^item> \<open>Backend\<close> (\<open>kvm/core.rs\<close>, \<open>bhyve/core.rs\<close>, their \<open>api.rs\<close>, the traits of \<open>traits.rs\<close>): VMs and vCPUs on both hosts,
    down to the ioctls; \<open>Hypervisor\<close>: the contract \<open>main\<close> relies on as the locale \<open>hypervisor\<close>, with sublocales from
    \<open>kvm_system\<close> and \<open>bhyve_system\<close>, the two kernels that grant their calls.
  \<^item> \<open>Terminal\<close> (\<open>terminal.rs\<close>): raw mode and the handlers that restore the terminal.
  \<^item> \<open>Startup\<close> (\<open>main.rs\<close>, \<open>config.rs\<close>): \<open>main\<close> from its options to a machine ready to run, and its end, over any \<open>hypervisor\<close>.
  \<^item> \<open>Guest\<close> (\<open>guest/src/main.rs\<close>, beside \<open>src/src\<close>): the test program that runs in the guest, over the locale \<open>uart_ports\<close> of its
    port instructions, which the port bus and, as sublocales from \<open>kvm_ports\<close> and \<open>bhyve_ports\<close>, both exit handlers meet.

  \<^item> \<open>Threads\<close> (\<open>main.rs\<close>, \<open>vcpu.rs\<close>, \<open>input.rs\<close>): the vCPU threads, the reader and \<open>main\<close>'s joins as interleaved steps over the machine;
    locale \<open>vcpu_threads\<close> for the buses they run on.
  \<^item> \<open>Diagnostics\<close> (\<open>lib.rs\<close>, \<open>vcpu.rs\<close>, both \<open>exithandler.rs\<close>): the texts the program prints about registers, exits and statistics.
  \<^item> \<open>Layout\<close> (both \<open>api.rs\<close>): the structures shared with the kernels, as offsets and sizes, and the request numbers.
  \<^item> This theory: \<open>main\<close> as a whole, its vCPU threads run on the machine it sets up.

  \<^bold>\<open>How the code is rendered.\<close> Structs are records, enums datatypes, integers words of their width.
  A Rust panic (an index out of range, an arithmetic overflow in a build with overflow checks) is \<open>None\<close>;
  a \<open>Result\<close> is a sum with the error on the left. The parameter \<open>oc\<close> is true for builds with overflow
  checks and false for release builds, where arithmetic wraps. A device's calls on its sinks are recorded
  in the device, newest first. The clock, the host's files and devices, the hypervisor's ioctls and CPUID
  are parameters. Locks are not modelled: each device operation runs under its mutex, so runs are
  sequences of operations; \<open>Threads\<close> interleaves those of all threads. There a thread is a phase, one step takes it
  from one access to shared state to the next, and a pending signal is a bit of the thread.

  \<^bold>\<open>Loops and bounds.\<close> All loops but two are total functions: the chain walk ends by the cap on its
  length, the ring loop by the 16-bit distance of its indices, the others by their lists. The vCPU loop
  may run for ever and is a partial function; its property is that it returns once shutdown is read. The
  guest program's wait for the transmitter is one too; on this UART it always returns.

  \<^bold>\<open>What is shown.\<close> Memory safety of guest-supplied addresses; the bus as an abstract address map; the
  UART's line, FIFO and timeout; chains of descriptors bounded and faithful; the block device confined to
  its image; MSI-X interrupts neither lost nor duplicated; configuration and BAR programming; MP tables
  that read back as the machine; every exit handled, and composed into the statement that no guest can
  crash the devices of a release build, whatever the interleaving of its vCPUs; a startup that composes all of this for both hosts, and gives the
  terminal back on every way out; the console's escape language; shutdown of the vCPU loop and, with a measure on the
  system that every step lowers, of all threads; a guest program whose
  text reaches the host through either host's exits; processor state that survives the system calls
  and can be read off the register dump; structures that lie in memory as the kernels expect; the kernel's image, boot parameters and processor state at its entry point, read the way the processor and the
  boot protocol read them.

  \<^bold>\<open>What it found.\<close> Beside errors in single functions, two races in the shutdown: a signal handled between the test of the
  flag and the run ioctl is lost, and a thread that stops late signals threads that were joined.

  \<^bold>\<open>Not modelled.\<close> Command-line parsing (a third-party package); the progress messages of startup; the closing of
  descriptors and unmapping of memory; weak memory orders and the threads of bhyve, where a signal is an error; the C sources
  under \<open>contrib\<close>.
\<close>

section \<open>From options to report\<close>

text \<open>Two vCPUs: the first one's guest shuts down, the second one is interrupted, and both are joined.\<close>

definition two_stop :: "sys_label list" where
  "two_stop = enter_guest 0 @ enter_guest 1 @
     [RunReturns 0 (\<lambda>_. 0) (Inr shutdown_run), Vcpu 0 (\<lambda>_. 0), Vcpu 0 (\<lambda>_. 0), Join,
      RunReturns 1 (\<lambda>_. 0) (Inl Interrupted), Vcpu 1 (\<lambda>_. 0), Vcpu 1 (\<lambda>_. 0), Vcpu 1 (\<lambda>_. 0), Join]"

definition two_results :: "thread_result list" where
  "two_results = [Finished (Inr (stats_new\<lparr>shutdown_exits := 1\<rparr>)), Finished (Inr stats_new)]"

lemma two_stop_run:
  "\<exists>s. sys_run pio mmio two_stop (sys_init 2 m) = Some s \<and> sys_results s = Some two_results"
proof -
  have "sys_init 2 m = sys_init (Suc (Suc 0)) m" by (simp add: numeral_2_eq_2)
  then show ?thesis by (simp add: two_stop_def two_results_def enter_guest_def act_defs sys_results_def stats_new_def)
qed

text \<open>
  C3. The whole of \<open>main\<close>, in a release build: on every back end that keeps its contract and with options a machine can start
  from, when the vCPU threads (those of KVM) run on the machine \<open>main\<close> sets up, in any interleaving in which they all return, \<open>main\<close>
  does not panic; it reports either the failure of a vCPU or statistics that count every exit of every vCPU,
  and the machine has kept its invariant.
\<close>

theorem main_runs:
  fixes be :: "('k, 'x, 'v, 'h, 'm, 'c) backend" and env :: "'e environment"
  assumes be: "hypervisor be kept up live" and opt: "options_ok env cfg f"
    and threads: "\<And>rd k. ready_ok be env cfg (kf_bytes f) rd k \<Longrightarrow>
      \<exists>s. sys_reach (rd_pio rd) (rd_mmio rd) (\<lambda>_ _. True) (sys_init (unat (cfg_cpus cfg)) (rd_machine rd)) s \<and>
        sys_results s = Some (fst (run rd k))"
  shows "\<exists>rd k1 s r k'. ready_ok be env cfg (kf_bytes f) rd k1 \<and>
     sys_reach (rd_pio rd) (rd_mmio rd) (\<lambda>_ _. True) (sys_init (unat (cfg_cpus cfg)) (rd_machine rd)) s \<and>
     sys_results s = Some (fst (run rd k1)) \<and> machine_inv (sys_machine s) \<and> main_vm False be env run cfg k = Some (r, k') \<and>
     (case r of Inr totals \<Rightarrow> stats_total False totals = Some (of_nat (sys_exits s)) | Inl e \<Rightarrow> \<exists>x. e = RunFailed x)"
proof -
  obtain vm rd k1 where m: "main_vm False be env run cfg k = with_vm be vm (\<lambda>k. case run rd k of (rs, k) \<Rightarrow> report False rs k) k1"
    and rd: "ready_ok be env cfg (kf_bytes f) rd k1"
    using hypervisor.main_vm_ok[OF be opt] by blast
  obtain s where s: "sys_reach (rd_pio rd) (rd_mmio rd) (\<lambda>_ _. True) (sys_init (unat (cfg_cpus cfg)) (rd_machine rd)) s"
    "sys_results s = Some (fst (run rd k1))" using threads[OF rd] by blast
  have inv: "sys_inv s"
    using vcpu_threads.sys_reach_inv[OF _ s(1)] rd by (simp add: vcpu_threads_def ready_ok_def Let_def)
  obtain rs k2 where run: "run rd k1 = (rs, k2)" by fastforce
  obtain r :: "('e, 'x, 'v) main_error + exit_stats" where "report False rs k2 = Some (r, k2)"
    "case r of Inr totals \<Rightarrow> stats_total False totals = Some (of_nat (sys_exits s)) | Inl e \<Rightarrow> \<exists>x. e = RunFailed x"
    using report_returns[OF inv, of rs k2] s(2) run by auto
  moreover from this(1) have "main_vm False be env run cfg k = Some (r, be_drop be vm k2)" unfolding m by (simp add: with_vm_def run)
  moreover have "machine_inv (sys_machine s)" using inv by (simp add: sys_inv_def)
  ultimately show ?thesis using rd s by blast
qed

theorem main_runs_witness:
  "\<exists>s r k'. sys_results s = Some two_results \<and> machine_inv (sys_machine s) \<and>
     main_vm False (kvm_backend kvm_sim kvm_sim_ops) tiny_env (\<lambda>rd k. (two_results, k)) tiny_config (\<lambda>_. fresh_vcpu, 0) = Some (r, k') \<and>
     (case r of Inr totals \<Rightarrow> stats_total False totals = Some (of_nat (sys_exits s)) | Inl e \<Rightarrow> \<exists>x. e = RunFailed x)"
proof -
  have "\<exists>s. sys_reach (rd_pio rd) (rd_mmio rd) (\<lambda>_ _. True) (sys_init (unat (cfg_cpus tiny_config)) (rd_machine rd)) s \<and>
      sys_results s = Some (fst (two_results, k))" for rd :: "kvm_vcpu_handle ready" and k :: kvm_store
    using two_stop_run[of "rd_pio rd" "rd_mmio rd" "rd_machine rd"] sys_run_reach[OF _ sys_reach.start]
    by (fastforce simp: tiny_config_def two_stop_def enter_guest_def)
  then show ?thesis using main_runs[OF kvm_sim.kvm.hypervisor_axioms tiny_options_ok, of "\<lambda>rd k. (two_results, k)" "(\<lambda>_. fresh_vcpu, 0)"]
    by fastforce
qed

end
